(* ===== verification/HalPrelude.thy ===== *)
theory HalPrelude
  imports Main "HOL-Library.Word" "HOL-Library.Monad_Syntax"
begin

text \<open>
  What every component of the kernel model shares: the C integer types, C byte buffers with
  checked reads and writes, C strings, counting loops over a state that may fault, and the
  arithmetic of bytes, words and page addresses.

  Conventions. A C function that can touch memory outside its object, or an address that no
  page maps, is a function into \<open>option\<close>: \<open>None\<close> is that fault, never a normal result.
  The C error returns (\<open>-1\<close> and so on) are ordinary values inside \<open>Some\<close>. A signed
  32-bit result is an \<open>int\<close>; unsigned values whose wrap-around matters are words.
\<close>

unbundle bit_operations_syntax

section \<open>C integer types\<close>

type_synonym u8 = "8 word"
type_synonym u16 = "16 word"
type_synonym u32 = "32 word"

named_theorems bound_facts \<open>bounds that components prove once and arithmetic uses\<close>
named_theorems frame_facts \<open>fields of the machine that an operation leaves alone\<close>

section \<open>Byte buffers\<close>

text \<open>A pointer into an object is the list of the object's cells from the pointer on.\<close>

definition rd :: "'a list \<Rightarrow> nat \<Rightarrow> 'a option" where
  "rd b i = (if i < length b then Some (b ! i) else None)"

definition wr :: "'a list \<Rightarrow> nat \<Rightarrow> 'a \<Rightarrow> 'a list option" where
  "wr b i v = (if i < length b then Some (b[i := v]) else None)"

definition wr_bytes :: "'a list \<Rightarrow> nat \<Rightarrow> 'a list \<Rightarrow> 'a list option" where
  "wr_bytes b i vs =
     (if i + length vs \<le> length b then Some (take i b @ vs @ drop (i + length vs) b) else None)"

lemma rd_Some [simp]: "i < length b \<Longrightarrow> rd b i = Some (b ! i)"
  by (simp add: rd_def)

lemma rd_None [simp]: "length b \<le> i \<Longrightarrow> rd b i = None"
  by (simp add: rd_def)

lemma wr_Some [simp]: "i < length b \<Longrightarrow> wr b i v = Some (b[i := v])"
  by (simp add: wr_def)

lemma wr_None [simp]: "length b \<le> i \<Longrightarrow> wr b i v = None"
  by (simp add: wr_def)

lemma rd_eq_Some: "rd b i = Some v \<longleftrightarrow> i < length b \<and> v = b ! i"
  by (auto simp: rd_def)

lemma wr_eq_Some: "wr b i v = Some b' \<longleftrightarrow> i < length b \<and> b' = b[i := v]"
  by (auto simp: wr_def)

lemma wr_length [bound_facts]: "wr b i v = Some b' \<Longrightarrow> length b' = length b"
  by (auto simp: wr_eq_Some)

lemma wr_bytes_eq_Some:
  "wr_bytes b i vs = Some b' \<longleftrightarrow>
     i + length vs \<le> length b \<and> b' = take i b @ vs @ drop (i + length vs) b"
  by (auto simp: wr_bytes_def)

lemma wr_bytes_length [bound_facts]: "wr_bytes b i vs = Some b' \<Longrightarrow> length b' = length b"
  by (auto simp: wr_bytes_eq_Some)

lemma wr_bytes_Nil [simp]: "wr_bytes b 0 [] = Some b"
  by (simp add: wr_bytes_def)

section \<open>C strings\<close>

text \<open>The text of a C string: what stands before the first NUL.\<close>

definition cstr :: "u8 list \<Rightarrow> u8 list" where
  "cstr b = takeWhile (\<lambda>c. c \<noteq> 0) b"

definition terminated :: "u8 list \<Rightarrow> bool" where
  "terminated b \<longleftrightarrow> 0 \<in> set b"

definition bytes :: "string \<Rightarrow> u8 list" where
  "bytes s = map of_char s"

lemma bytes_simps [simp]:
  "bytes [] = []"
  "bytes (c # s) = of_char c # bytes s"
  by (simp_all add: bytes_def)

lemma cstr_simps [simp]:
  "cstr [] = []"
  "cstr (c # b) = (if c = 0 then [] else c # cstr b)"
  by (simp_all add: cstr_def)

lemma terminated_simps [simp]:
  "\<not> terminated []"
  "terminated (c # b) \<longleftrightarrow> c = 0 \<or> terminated b"
  by (auto simp: terminated_def)

lemma zero_notin_cstr: "0 \<notin> set (cstr b)"
  by (induction b) auto

lemma length_cstr_le: "length (cstr b) \<le> length b"
  by (simp add: cstr_def length_takeWhile_le)

lemma length_cstr_terminated: "terminated b \<Longrightarrow> length (cstr b) < length b"
  by (induction b) auto

lemma cstr_append: "cstr (xs @ 0 # ys) = cstr xs"
  by (induction xs) auto

lemma cstr_append_if: "cstr (xs @ ys) = (if terminated xs then cstr xs else xs @ cstr ys)"
  by (induction xs) auto

lemma cstr_unterminated: "\<not> terminated b \<Longrightarrow> cstr b = b"
  by (induction b) auto

lemma cstr_no_zero: "0 \<notin> set xs \<Longrightarrow> cstr xs = xs"
  by (induction xs) auto

lemma cstr_decomp:
  "terminated b \<Longrightarrow> \<exists>rest. b = cstr b @ 0 # rest"
  by (induction b) auto

lemma nth_cstr: "i < length (cstr b) \<Longrightarrow> cstr b ! i = b ! i"
  by (simp add: cstr_def takeWhile_nth)

section \<open>Counting loops\<close>

text \<open>
  \<open>for (i = a; i < b; i++) body\<close> is \<open>for_each [a..<b] body\<close>; a fault in the body ends it.
\<close>

fun for_each :: "'i list \<Rightarrow> ('i \<Rightarrow> 's \<Rightarrow> 's option) \<Rightarrow> 's \<Rightarrow> 's option" where
  "for_each [] f s = Some s"
| "for_each (i # is) f s = (case f i s of None \<Rightarrow> None | Some s' \<Rightarrow> for_each is f s')"

lemma for_each_append:
  "for_each (xs @ ys) f s = (case for_each xs f s of None \<Rightarrow> None | Some s' \<Rightarrow> for_each ys f s')"
  by (induction xs arbitrary: s) (auto split: option.split)

lemma for_each_total:
  assumes "\<And>i s. i \<in> set xs \<Longrightarrow> P s \<Longrightarrow> f i s = Some (g i s)"
    and "\<And>i s. i \<in> set xs \<Longrightarrow> P s \<Longrightarrow> P (g i s)"
    and "P s"
  shows "for_each xs f s = Some (fold g xs s)"
  using assms by (induction xs arbitrary: s) auto

lemma for_each_inv:
  assumes "\<And>i s s'. i \<in> set xs \<Longrightarrow> P s \<Longrightarrow> f i s = Some s' \<Longrightarrow> P s'"
    and "P s" and "for_each xs f s = Some s'"
  shows "P s'"
  using assms by (induction xs arbitrary: s) (auto split: option.splits)

section \<open>Words and numbers\<close>

lemma unat_u8 [bound_facts]: "unat (x :: u8) < 256"
  using unsigned_less [of x, where ?'a = nat] by simp

lemma unat_u32 [bound_facts]: "unat (x :: u32) < 4294967296"
  using unsigned_less [of x, where ?'a = nat] by simp

lemma unat_of_int_u8:
  assumes "0 \<le> x" "x < 256" shows "unat (of_int x :: u8) = nat x"
proof -
  have "(of_int x :: u8) = of_nat (nat x)" using assms(1) by simp
  moreover have "nat x mod 256 = nat x" using assms(2) by simp
  ultimately show ?thesis by (simp only: unat_of_nat) simp
qed

text \<open>Little-endian 32-bit values, as x86 stores them.\<close>

definition le32 :: "u8 \<Rightarrow> u8 \<Rightarrow> u8 \<Rightarrow> u8 \<Rightarrow> u32" where
  "le32 a b c d = ucast a OR push_bit 8 (ucast b) OR push_bit 16 (ucast c) OR push_bit 24 (ucast d)"

definition le_bytes :: "u32 \<Rightarrow> u8 list" where
  "le_bytes w = [ucast w, ucast (drop_bit 8 w), ucast (drop_bit 16 w), ucast (drop_bit 24 w)]"

lemma length_le_bytes [simp]: "length (le_bytes w) = 4"
  by (simp add: le_bytes_def)

lemma le32_le_bytes: "le32 (le_bytes w ! 0) (le_bytes w ! 1) (le_bytes w ! 2) (le_bytes w ! 3) = w"
proof (rule bit_word_eqI)
  fix n assume "n < LENGTH(32)"
  then show "bit (le32 (le_bytes w ! 0) (le_bytes w ! 1) (le_bytes w ! 2) (le_bytes w ! 3)) n = bit w n"
    unfolding le32_def le_bytes_def
    by (cases "n < 8"; cases "n < 16"; cases "n < 24") (auto simp: bit_or_iff bit_push_bit_iff bit_ucast_iff bit_drop_bit_eq)
qed

end
