(* ===== verification/MachineState.thy ===== *)
theory MachineState
  imports HalPrelude
begin

text \<open>
  The state of the machine: the kernel's global variables as the \<^verbatim>\<open>.c\<close> and \<^verbatim>\<open>.h\<close> files
  declare them, the two processor registers the context switches save, the interrupt flag,
  the physical page frames, and the log of port accesses. Arrays indexed by a bounded C
  index are functions from that index; arrays whose bounds the code can exceed
  (\<open>keyboard_buffer\<close>, \<open>fd_array\<close>, \<open>arg\<close>) are lists with checked accesses.
\<close>

section \<open>Port I/O\<close>

text \<open>
  What the kernel did on the I/O bus. The devices are not part of the repository: a device
  is the function \<open>hw\<close> from everything done so far (most recent access first) and a port to
  the byte that \<open>inb\<close> returns.
\<close>

datatype io_event = Out u16 u8 | In u16 u8

type_synonym device = "io_event list \<Rightarrow> u16 \<Rightarrow> u8"

section \<open>Page directory and page tables (paging.h)\<close>

text \<open>The bit fields of \<open>pdir_entry_t\<close> and \<open>ptble_entry_t\<close>, each at its width.\<close>

record pdir_entry =
  d_present :: "1 word"
  d_readWrite :: "1 word"
  d_userSupervisor :: "1 word"
  d_writeThrough :: "1 word"
  d_cacheDisable :: "1 word"
  d_accessed :: "1 word"
  d_avl :: "1 word"
  d_pageSize :: "1 word"
  d_available :: "4 word"
  d_offset :: "20 word"

record ptble_entry =
  t_present :: "1 word"
  t_readWrite :: "1 word"
  t_userSupervisor :: "1 word"
  t_writeThrough :: "1 word"
  t_cacheDisable :: "1 word"
  t_accessed :: "1 word"
  t_dirty :: "1 word"
  t_pageAttributeTable :: "1 word"
  t_global :: "1 word"
  t_available :: "3 word"
  t_offset :: "20 word"

section \<open>Processes (system_calls.h) and terminals (terminal.h)\<close>

text \<open>
  The jump tables of \<open>system_calls.c\<close>. A descriptor's \<open>file_op_table_ptr\<close> is the address of
  one of the four, or the null pointer.
\<close>

datatype op_table = TerminalOps | FileOps | RtcOps | DirOps

record fd_element =
  file_op_table_ptr :: "op_table option"
  inode_num :: u32
  file_position :: u32
  flags :: u32

record pcb =
  fd_array :: "fd_element list"
  process_id :: int
  parent_process_id :: int
  esp_val :: u32
  ebp_val :: u32
  in_use :: u32
  arg :: "u8 list"
  scheduling_esp_val :: u32
  scheduling_ebp_val :: u32

record terminal_info =
  keyboard_buffer :: "u8 list"
  current_char :: u32
  enter_flag :: u8
  current_line :: u8
  reset_flag :: u8
  char_in_line :: u8
  last_current_char :: u32
  terminal_screen_x :: int
  terminal_screen_y :: int
  active_pid :: u8

section \<open>The machine\<close>

record machine =
  \<comment> \<open>lib.c\<close>
  screen_x :: int
  screen_y :: int
  \<comment> \<open>processor: interrupt flag, stack registers, kernel stack pointer of the TSS\<close>
  int_flag :: bool
  cpu_esp :: u32
  cpu_ebp :: u32
  tss_esp0 :: u32
  \<comment> \<open>port accesses, most recent first\<close>
  io_log :: "io_event list"
  \<comment> \<open>i8259.c\<close>
  master_mask :: u8
  slave_mask :: u8
  \<comment> \<open>CR0.PG; paging.h, with the link-time addresses of the two page tables\<close>
  paging_on :: bool
  directoryArray :: "10 word \<Rightarrow> pdir_entry"
  tableArray :: "10 word \<Rightarrow> ptble_entry"
  vmemTableArray :: "10 word \<Rightarrow> ptble_entry"
  tableArray_addr :: u32
  vmemTableArray_addr :: u32
  \<comment> \<open>physical memory by page frame and byte offset in the frame\<close>
  frames :: "20 word \<Rightarrow> nat \<Rightarrow> u8"
  \<comment> \<open>scheduler.h and scheduler.c\<close>
  active_terminal :: u8
  scheduled_terminal :: u8
  initialized_terminals :: "u8 \<Rightarrow> u8"
  first_swap :: u8
  \<comment> \<open>terminal.h\<close>
  terminals :: "u8 \<Rightarrow> terminal_info"
  \<comment> \<open>keyboard.c\<close>
  caps_lock_flag :: u8
  l_shift_flag :: u8
  r_shift_flag :: u8
  ctrl_flag :: u8
  alt_flag :: u8
  \<comment> \<open>rtc.c\<close>
  rtc_interrupt_flag :: u32
  \<comment> \<open>system_calls.c: the current process, and the control blocks by address\<close>
  current_pcb :: u32
  pcbs :: "u32 \<Rightarrow> pcb"
  \<comment> \<open>interrupts.h\<close>
  exception_in_child :: u8
  \<comment> \<open>filesystem.h: the boot image from \<open>bootblock\<close> on, and the two pointers into it as offsets\<close>
  fs_image :: "u8 list"
  inode_start :: nat
  datablock_start :: nat
  \<comment> \<open>whatever an uninitialised local variable holds\<close>
  stack_junk :: "nat \<Rightarrow> u8"

section \<open>Primitive effects (lib.h)\<close>

definition outb :: "u8 \<Rightarrow> u16 \<Rightarrow> machine \<Rightarrow> machine" where
  "outb data port s = s\<lparr>io_log := Out port data # io_log s\<rparr>"

definition inb :: "device \<Rightarrow> u16 \<Rightarrow> machine \<Rightarrow> u8 \<times> machine" where
  "inb hw port s = (let v = hw (io_log s) port in (v, s\<lparr>io_log := In port v # io_log s\<rparr>))"

text \<open>Two and four bytes, from and to consecutive ports, low byte first.\<close>

definition inw :: "device \<Rightarrow> u16 \<Rightarrow> machine \<Rightarrow> u32 \<times> machine" where
  "inw hw port s =
     (let (lo, s) = inb hw port s; (hi, s) = inb hw (port + 1) s in (ucast lo OR push_bit 8 (ucast hi), s))"

definition inl :: "device \<Rightarrow> u16 \<Rightarrow> machine \<Rightarrow> u32 \<times> machine" where
  "inl hw port s =
     (let (lo, s) = inw hw port s; (hi, s) = inw hw (port + 2) s in (lo OR push_bit 16 hi, s))"

definition outw :: "u16 \<Rightarrow> u16 \<Rightarrow> machine \<Rightarrow> machine" where
  "outw data port s = outb (ucast (drop_bit 8 data)) (port + 1) (outb (ucast data) port s)"

definition outl :: "u32 \<Rightarrow> u16 \<Rightarrow> machine \<Rightarrow> machine" where
  "outl data port s = outw (ucast (drop_bit 16 data)) (port + 2) (outw (ucast data) port s)"

definition cli :: "machine \<Rightarrow> machine" where
  "cli s = s\<lparr>int_flag := False\<rparr>"

definition sti :: "machine \<Rightarrow> machine" where
  "sti s = s\<lparr>int_flag := True\<rparr>"

text \<open>Of the flags register only the interrupt flag is modelled.\<close>

definition cli_and_save :: "machine \<Rightarrow> bool \<times> machine" where
  "cli_and_save s = (int_flag s, cli s)"

definition restore_flags :: "bool \<Rightarrow> machine \<Rightarrow> machine" where
  "restore_flags saved s = s\<lparr>int_flag := saved\<rparr>"

declare cli_and_save_def [simp] restore_flags_def [simp]

text \<open>\<open>terminals[i].field = ...\<close>\<close>

definition upd_term :: "u8 \<Rightarrow> (terminal_info \<Rightarrow> terminal_info) \<Rightarrow> machine \<Rightarrow> machine" where
  "upd_term i f s = s\<lparr>terminals := (terminals s)(i := f (terminals s i))\<rparr>"

lemmas effect_defs = outb_def inb_def cli_def sti_def upd_term_def

lemma outb_sel [simp]: "io_log (outb d p s) = Out p d # io_log s"
  by (simp add: outb_def)

section \<open>The state the loader leaves\<close>

text \<open>
  Globals without an initialiser are zero; \<open>first_swap\<close> is one. The addresses of the two page
  tables stand for the linker's choice. The theorems evaluate operations on this state.
\<close>

definition zero_fd :: fd_element where
  "zero_fd = \<lparr>file_op_table_ptr = None, inode_num = 0, file_position = 0, flags = 0\<rparr>"

definition zero_pcb :: pcb where
  "zero_pcb = \<lparr>fd_array = replicate 8 zero_fd, process_id = 0, parent_process_id = 0,
     esp_val = 0, ebp_val = 0, in_use = 0, arg = replicate 128 0,
     scheduling_esp_val = 0, scheduling_ebp_val = 0\<rparr>"

definition zero_terminal :: terminal_info where
  "zero_terminal = \<lparr>keyboard_buffer = replicate 129 0, current_char = 0, enter_flag = 0,
     current_line = 0, reset_flag = 0, char_in_line = 0, last_current_char = 0,
     terminal_screen_x = 0, terminal_screen_y = 0, active_pid = 0\<rparr>"

definition loaded :: machine where
  "loaded =
     \<lparr>screen_x = 0, screen_y = 0, int_flag = False, cpu_esp = 0x7FFFFC, cpu_ebp = 0, tss_esp0 = 0,
      io_log = [], master_mask = 0xFF, slave_mask = 0xFF,
      paging_on = False,
      directoryArray = (\<lambda>_. \<lparr>d_present = 0, d_readWrite = 0, d_userSupervisor = 0, d_writeThrough = 0,
        d_cacheDisable = 0, d_accessed = 0, d_avl = 0, d_pageSize = 0, d_available = 0, d_offset = 0\<rparr>),
      tableArray = (\<lambda>_. \<lparr>t_present = 0, t_readWrite = 0, t_userSupervisor = 0, t_writeThrough = 0,
        t_cacheDisable = 0, t_accessed = 0, t_dirty = 0, t_pageAttributeTable = 0, t_global = 0,
        t_available = 0, t_offset = 0\<rparr>),
      vmemTableArray = (\<lambda>_. \<lparr>t_present = 0, t_readWrite = 0, t_userSupervisor = 0, t_writeThrough = 0,
        t_cacheDisable = 0, t_accessed = 0, t_dirty = 0, t_pageAttributeTable = 0, t_global = 0,
        t_available = 0, t_offset = 0\<rparr>),
      tableArray_addr = 0x410000, vmemTableArray_addr = 0x411000, frames = (\<lambda>_ _. 0),
      active_terminal = 0, scheduled_terminal = 0, initialized_terminals = (\<lambda>_. 0), first_swap = 1,
      terminals = (\<lambda>_. zero_terminal),
      caps_lock_flag = 0, l_shift_flag = 0, r_shift_flag = 0, ctrl_flag = 0, alt_flag = 0,
      rtc_interrupt_flag = 0, current_pcb = 0, pcbs = (\<lambda>_. zero_pcb), exception_in_child = 0,
      fs_image = [], inode_start = 0, datablock_start = 0, stack_junk = (\<lambda>_. 0)\<rparr>"

end
