(* ===== verification/Paging.thy ===== *)
theory Paging
  imports MachineState
begin

text \<open>
  Paging (\<^verbatim>\<open>paging.c\<close>, \<^verbatim>\<open>paging.h\<close>) and the address arithmetic of processes
  (\<open>get_phys_addr\<close>, \<open>get_pcb_ptr\<close> of \<^verbatim>\<open>system_calls.c\<close>). \<open>mmu_walk\<close> is the processor's
  documented two-level walk over the tables the kernel fills, and \<open>kload\<close> and \<open>kstore\<close> are
  supervisor accesses through it; every change of a table in the code is followed by
  \<open>flush_tlb\<close>, so the model has no separate TLB.
\<close>

section \<open>Constants (paging.h, system_calls.h, lib.c)\<close>

definition VIDEO :: u32 where "VIDEO = 0xB8000"
definition TERMINAL_VIDEO :: u32 where "TERMINAL_VIDEO = 0xBA000"
definition ALIGN_4KB :: u32 where "ALIGN_4KB = 4096"
definition PAGING_OFFSET :: nat where "PAGING_OFFSET = 12"
definition VIDEO_MEMORY_PAGE :: "10 word" where "VIDEO_MEMORY_PAGE = 184"
definition TERMINAL_VID_PAGE :: "10 word" where "TERMINAL_VID_PAGE = 186"
definition DIR1_PAGE :: "20 word" where "DIR1_PAGE = 0x400"
definition VIDMAP_VMEM_LOC :: "10 word" where "VIDMAP_VMEM_LOC = 35"
definition VIDMAP_VMEM_LOC_PAGE :: "10 word" where "VIDMAP_VMEM_LOC_PAGE = 10"
definition USER_SPACE_DIR_NUM :: "10 word" where "USER_SPACE_DIR_NUM = 32"
definition MAX_TERMINALS :: int where "MAX_TERMINALS = 3"
definition EIGHT_MB :: int where "EIGHT_MB = 0x800000"
definition EIGHT_KB :: int where "EIGHT_KB = 0x2000"
definition FOUR_MB :: int where "FOUR_MB = 0x400000"

lemmas page_consts = VIDEO_def TERMINAL_VIDEO_def ALIGN_4KB_def PAGING_OFFSET_def
  VIDEO_MEMORY_PAGE_def TERMINAL_VID_PAGE_def DIR1_PAGE_def VIDMAP_VMEM_LOC_def
  VIDMAP_VMEM_LOC_PAGE_def USER_SPACE_DIR_NUM_def

lemmas size_consts = MAX_TERMINALS_def EIGHT_MB_def EIGHT_KB_def FOUR_MB_def

section \<open>The entries as 32-bit values\<close>

text \<open>The union of \<open>val\<close> and the packed bit fields, first field in the lowest bit.\<close>

definition pdir_val :: "pdir_entry \<Rightarrow> u32" where
  "pdir_val e =
     ucast (d_present e) OR push_bit 1 (ucast (d_readWrite e)) OR
     push_bit 2 (ucast (d_userSupervisor e)) OR push_bit 3 (ucast (d_writeThrough e)) OR
     push_bit 4 (ucast (d_cacheDisable e)) OR push_bit 5 (ucast (d_accessed e)) OR
     push_bit 6 (ucast (d_avl e)) OR push_bit 7 (ucast (d_pageSize e)) OR
     push_bit 8 (ucast (d_available e)) OR push_bit 12 (ucast (d_offset e))"

definition pdir_of_val :: "u32 \<Rightarrow> pdir_entry" where
  "pdir_of_val v =
     \<lparr>d_present = ucast v, d_readWrite = ucast (drop_bit 1 v),
      d_userSupervisor = ucast (drop_bit 2 v), d_writeThrough = ucast (drop_bit 3 v),
      d_cacheDisable = ucast (drop_bit 4 v), d_accessed = ucast (drop_bit 5 v),
      d_avl = ucast (drop_bit 6 v), d_pageSize = ucast (drop_bit 7 v),
      d_available = ucast (drop_bit 8 v), d_offset = ucast (drop_bit 12 v)\<rparr>"

section \<open>Process addresses (system_calls.c)\<close>

definition get_phys_addr :: "int \<Rightarrow> 20 word" where
  "get_phys_addr pid = of_int ((EIGHT_MB + FOUR_MB * pid) div 2 ^ PAGING_OFFSET)"

definition get_pcb_ptr :: "int \<Rightarrow> u32" where
  "get_pcb_ptr pid = of_int (EIGHT_MB - EIGHT_KB * (pid + 1))"

section \<open>init_paging\<close>

definition page_of :: "u32 \<Rightarrow> 20 word" where
  "page_of a = ucast (drop_bit PAGING_OFFSET a)"

text \<open>The values the clearing loops give to every field of every entry.\<close>

definition pde_clear :: pdir_entry where
  "pde_clear = \<lparr>d_present = 0, d_readWrite = 1, d_userSupervisor = 0, d_writeThrough = 0,
     d_cacheDisable = 0, d_accessed = 0, d_avl = 0, d_pageSize = 0, d_available = 0, d_offset = 0\<rparr>"

definition pte_clear :: ptble_entry where
  "pte_clear = \<lparr>t_present = 0, t_readWrite = 1, t_userSupervisor = 0, t_writeThrough = 0,
     t_cacheDisable = 0, t_accessed = 0, t_dirty = 0, t_pageAttributeTable = 0, t_global = 0,
     t_available = 0, t_offset = 0\<rparr>"

text \<open>The assignments to one entry, with the fields in which the entries differ as arguments.\<close>

definition set_pde :: "1 word \<Rightarrow> 1 word \<Rightarrow> 1 word \<Rightarrow> 20 word \<Rightarrow> pdir_entry \<Rightarrow> pdir_entry" where
  "set_pde user avl psize offset e =
     e\<lparr>d_present := 1, d_readWrite := 1, d_userSupervisor := user, d_writeThrough := 0,
       d_cacheDisable := 0, d_accessed := 0, d_avl := avl, d_pageSize := psize,
       d_available := 0, d_offset := offset\<rparr>"

definition set_pte :: "1 word \<Rightarrow> 20 word \<Rightarrow> ptble_entry \<Rightarrow> ptble_entry" where
  "set_pte user offset e =
     e\<lparr>t_present := 1, t_readWrite := 1, t_userSupervisor := user, t_writeThrough := 0,
       t_cacheDisable := 0, t_accessed := 0, t_dirty := 0, t_pageAttributeTable := 0,
       t_global := 0, t_available := 0, t_offset := offset\<rparr>"

definition upd_at :: "'i \<Rightarrow> ('e \<Rightarrow> 'e) \<Rightarrow> ('i \<Rightarrow> 'e) \<Rightarrow> 'i \<Rightarrow> 'e" where
  "upd_at i f a = a(i := f (a i))"

text \<open>
  The loops over \<open>PAGE_VEC\<close> entries run through every 10-bit index. \<open>loadPageDirectory\<close>
  and \<open>enablePaging\<close> are assembly that loads CR3, CR4 and CR0: from then on addresses are translated.
\<close>

definition init_paging :: "machine \<Rightarrow> machine" where
  "init_paging s =
     (let dir = (\<lambda>_. pde_clear);
          dir = upd_at 0 (set_pde 0 0 0 (page_of (tableArray_addr s))) dir;
          tab = (\<lambda>_. pte_clear);
          tab = upd_at VIDEO_MEMORY_PAGE (set_pte 0 (page_of VIDEO)) tab;
          tab = fold (\<lambda>i. upd_at (TERMINAL_VID_PAGE + of_nat i)
                            (set_pte 0 (page_of (TERMINAL_VIDEO + of_nat i * ALIGN_4KB)))) [0..<3] tab;
          dir = upd_at 1 (set_pde 0 1 1 DIR1_PAGE) dir;
          dir = upd_at USER_SPACE_DIR_NUM (set_pde 1 0 1 (get_phys_addr 0)) dir;
          dir = upd_at VIDMAP_VMEM_LOC
                  (\<lambda>e. e\<lparr>d_present := 1, d_readWrite := 1, d_userSupervisor := 1,
                         d_writeThrough := 0, d_pageSize := 0,
                         d_offset := page_of (vmemTableArray_addr s)\<rparr>) dir;
          vmem = (\<lambda>_. pte_clear);
          vmem = upd_at VIDMAP_VMEM_LOC_PAGE (set_pte 1 (page_of VIDEO)) vmem
      in s\<lparr>directoryArray := dir, tableArray := tab, vmemTableArray := vmem, paging_on := True\<rparr>)"

section \<open>Remapping while the kernel runs\<close>

text \<open>
  The two assignments that point the kernel's and the user's video page at a frame, as they
  stand in \<open>terminal_switch\<close>, \<open>scheduler\<close>, \<open>update_kb_buffer\<close> and \<open>clear_terminal\<close>, and the
  one that points the program page at a process's memory.
\<close>

definition map_video :: "u32 \<Rightarrow> machine \<Rightarrow> machine" where
  "map_video a s =
     s\<lparr>tableArray := upd_at VIDEO_MEMORY_PAGE (\<lambda>e. e\<lparr>t_offset := page_of a\<rparr>) (tableArray s),
       vmemTableArray := upd_at VIDMAP_VMEM_LOC_PAGE (\<lambda>e. e\<lparr>t_offset := page_of a\<rparr>) (vmemTableArray s)\<rparr>"

definition map_program :: "int \<Rightarrow> machine \<Rightarrow> machine" where
  "map_program pid s =
     s\<lparr>directoryArray := upd_at USER_SPACE_DIR_NUM (\<lambda>e. e\<lparr>d_offset := get_phys_addr pid\<rparr>) (directoryArray s)\<rparr>"

section \<open>The processor's page walk\<close>

definition dir_ix :: "u32 \<Rightarrow> 10 word" where
  "dir_ix va = ucast (drop_bit 22 va)"

definition tab_ix :: "u32 \<Rightarrow> 10 word" where
  "tab_ix va = ucast (drop_bit 12 va)"

definition page_off :: "u32 \<Rightarrow> nat" where
  "page_off va = unat (va AND 0xFFF)"

text \<open>The table a 4 KiB directory entry refers to: one of the kernel's two, or unknown memory.\<close>

definition walk_table :: "machine \<Rightarrow> 20 word \<Rightarrow> (10 word \<Rightarrow> ptble_entry) option" where
  "walk_table s p =
     (if p = page_of (tableArray_addr s) then Some (tableArray s)
      else if p = page_of (vmemTableArray_addr s) then Some (vmemTableArray s)
      else None)"

text \<open>The frame and offset of an address for the supervisor, and whether user code may use it; an
  address is its own frame and offset until paging is enabled.\<close>

definition mmu_walk :: "machine \<Rightarrow> u32 \<Rightarrow> (20 word \<times> nat \<times> bool) option" where
  "mmu_walk s va =
     (let pde = directoryArray s (dir_ix va) in
      if \<not> paging_on s then Some (page_of va, page_off va, True)
      else if d_present pde = 0 then None
      else if d_pageSize pde = 1
      then Some ((d_offset pde AND 0xFFC00) OR ucast (tab_ix va), page_off va, d_userSupervisor pde = 1)
      else case walk_table s (d_offset pde) of
        None \<Rightarrow> None
      | Some tab \<Rightarrow>
          (let pte = tab (tab_ix va) in
           if t_present pte = 0 then None
           else Some (t_offset pte, page_off va, d_userSupervisor pde = 1 \<and> t_userSupervisor pte = 1)))"

definition kload :: "machine \<Rightarrow> u32 \<Rightarrow> u8 option" where
  "kload s va = (case mmu_walk s va of None \<Rightarrow> None | Some (f, k, _) \<Rightarrow> Some (frames s f k))"

definition kstore :: "u32 \<Rightarrow> u8 \<Rightarrow> machine \<Rightarrow> machine option" where
  "kstore va v s =
     (case mmu_walk s va of
        None \<Rightarrow> None
      | Some (f, k, _) \<Rightarrow> Some (s\<lparr>frames := (frames s)(f := (frames s f)(k := v))\<rparr>))"

text \<open>What user code may touch.\<close>

definition user_access :: "machine \<Rightarrow> u32 \<Rightarrow> (20 word \<times> nat) option" where
  "user_access s va =
     (case mmu_walk s va of Some (f, k, True) \<Rightarrow> Some (f, k) | _ \<Rightarrow> None)"

section \<open>What the tables look like while the kernel runs\<close>

text \<open>
  The tables \<open>init_paging\<close> builds, as functions of the only entries that change later: the
  frame of the program page and the frame of the two video pages.
\<close>

definition kernel_dir :: "20 word \<Rightarrow> 20 word \<Rightarrow> 20 word \<Rightarrow> 10 word \<Rightarrow> pdir_entry" where
  "kernel_dir ta va up i =
     (if i = 0 then set_pde 0 0 0 ta pde_clear
      else if i = 1 then set_pde 0 1 1 0x400 pde_clear
      else if i = 32 then set_pde 1 0 1 up pde_clear
      else if i = 35 then set_pde 1 0 0 va pde_clear
      else pde_clear)"

definition kernel_tab :: "20 word \<Rightarrow> 10 word \<Rightarrow> ptble_entry" where
  "kernel_tab vf i =
     (if i = 184 then set_pte 0 vf pte_clear
      else if i = 186 then set_pte 0 0xBA pte_clear
      else if i = 187 then set_pte 0 0xBB pte_clear
      else if i = 188 then set_pte 0 0xBC pte_clear
      else pte_clear)"

definition vmem_tab :: "20 word \<Rightarrow> 10 word \<Rightarrow> ptble_entry" where
  "vmem_tab vf i = (if i = 10 then set_pte 1 vf pte_clear else pte_clear)"

definition video_frame :: "machine \<Rightarrow> 20 word" where
  "video_frame s = t_offset (tableArray s VIDEO_MEMORY_PAGE)"

definition program_frame :: "machine \<Rightarrow> 20 word" where
  "program_frame s = d_offset (directoryArray s USER_SPACE_DIR_NUM)"

text \<open>The linker puts the two tables on different pages.\<close>

definition tables_linked :: "machine \<Rightarrow> bool" where
  "tables_linked s \<longleftrightarrow> page_of (tableArray_addr s) \<noteq> page_of (vmemTableArray_addr s)"

definition paging_wf :: "machine \<Rightarrow> bool" where
  "paging_wf s \<longleftrightarrow>
     paging_on s \<and> tables_linked s \<and>
     directoryArray s = kernel_dir (page_of (tableArray_addr s)) (page_of (vmemTableArray_addr s))
       (program_frame s) \<and>
     tableArray s = kernel_tab (video_frame s) \<and>
     vmemTableArray s = vmem_tab (video_frame s) \<and>
     program_frame s AND 0x3FF = 0"

lemma page_of_numerals [simp]:
  "page_of 0xB8000 = 0xB8" "page_of 0xBA000 = 0xBA" "page_of 0xBB000 = 0xBB" "page_of 0xBC000 = 0xBC"
  by (simp_all add: page_of_def PAGING_OFFSET_def)

lemma upto_3: "[0..<3] = [0, 1, 2 :: nat]"
  by (simp add: upt_rec)

lemma get_phys_addr_nat: "get_phys_addr (int n) = of_nat (0x800 + 0x400 * n)"
proof -
  have "(0x800000 + 0x400000 * int n) div 4096 = 0x800 + 0x400 * int n" by simp
  then show ?thesis by (simp add: get_phys_addr_def size_consts PAGING_OFFSET_def)
qed

lemma get_phys_addr_aligned: "get_phys_addr pid AND 0x3FF = 0"
proof -
  have "(0x800000 + 0x400000 * pid) div 4096 = 0x400 * (2 + pid)" by simp
  then have "get_phys_addr pid = of_int (0x400 * (2 + pid))"
    by (simp add: get_phys_addr_def size_consts PAGING_OFFSET_def)
  also have "\<dots> = push_bit 10 (of_int (2 + pid))"
    by (simp add: push_bit_eq_mult algebra_simps)
  finally have e: "get_phys_addr pid = push_bit 10 (of_int (2 + pid))" .
  have m: "(0x3FF :: 20 word) = mask 10" by (simp add: mask_eq_exp_minus_1)
  show ?thesis
    unfolding e m by (rule bit_word_eqI) (auto simp: bit_and_iff bit_push_bit_iff bit_mask_iff)
qed

lemma init_paging_tables:
  "directoryArray (init_paging s) =
     kernel_dir (page_of (tableArray_addr s)) (page_of (vmemTableArray_addr s)) 0x800"
  "tableArray (init_paging s) = kernel_tab 0xB8"
  "vmemTableArray (init_paging s) = vmem_tab 0xB8"
  using get_phys_addr_nat [of 0]
  by (auto simp: init_paging_def Let_def kernel_dir_def kernel_tab_def vmem_tab_def page_consts
      upd_at_def set_pde_def pde_clear_def upto_3 fun_eq_iff)

lemma init_paging_frame [simp]:
  "tableArray_addr (init_paging s) = tableArray_addr s"
  "vmemTableArray_addr (init_paging s) = vmemTableArray_addr s"
  "paging_on (init_paging s)"
  "frames (init_paging s) = frames s"
  by (simp_all add: init_paging_def Let_def)

lemma init_paging_video_frame [simp]: "video_frame (init_paging s) = 0xB8"
  by (simp add: video_frame_def init_paging_tables kernel_tab_def set_pte_def page_consts)

lemma init_paging_program_frame [simp]: "program_frame (init_paging s) = 0x800"
  by (simp add: program_frame_def init_paging_tables kernel_dir_def set_pde_def page_consts)

lemma init_paging_wf: "tables_linked s \<Longrightarrow> paging_wf (init_paging s)"
  by (simp add: paging_wf_def init_paging_tables tables_linked_def)

text \<open>The two remappings keep the shape and set the frame they name.\<close>

lemma map_video_frame [simp]: "video_frame (map_video a s) = page_of a"
  by (simp add: video_frame_def map_video_def upd_at_def)

lemma map_video_other [simp]:
  "program_frame (map_video a s) = program_frame s"
  "frames (map_video a s) = frames s"
  "tables_linked (map_video a s) = tables_linked s"
  by (simp_all add: program_frame_def map_video_def tables_linked_def)

lemma map_program_frame [simp]: "program_frame (map_program pid s) = get_phys_addr pid"
  by (simp add: program_frame_def map_program_def upd_at_def)

lemma map_program_other [simp]:
  "video_frame (map_program pid s) = video_frame s"
  "frames (map_program pid s) = frames s"
  "tables_linked (map_program pid s) = tables_linked s"
  by (simp_all add: video_frame_def map_program_def tables_linked_def)

lemma remap_tables:
  "upd_at VIDEO_MEMORY_PAGE (\<lambda>e. e\<lparr>t_offset := f\<rparr>) (kernel_tab v) = kernel_tab f"
  "upd_at VIDMAP_VMEM_LOC_PAGE (\<lambda>e. e\<lparr>t_offset := f\<rparr>) (vmem_tab v) = vmem_tab f"
  "upd_at USER_SPACE_DIR_NUM (\<lambda>e. e\<lparr>d_offset := f\<rparr>) (kernel_dir ta va u) = kernel_dir ta va f"
  by (auto simp: upd_at_def kernel_tab_def vmem_tab_def kernel_dir_def set_pte_def set_pde_def
      page_consts fun_eq_iff)

lemma map_video_tables:
  "directoryArray (map_video a s) = directoryArray s"
  "paging_on (map_video a s) = paging_on s"
  "tableArray_addr (map_video a s) = tableArray_addr s"
  "vmemTableArray_addr (map_video a s) = vmemTableArray_addr s"
  "paging_wf s \<Longrightarrow> tableArray (map_video a s) = kernel_tab (page_of a)"
  "paging_wf s \<Longrightarrow> vmemTableArray (map_video a s) = vmem_tab (page_of a)"
proof -
  assume w: "paging_wf s"
  then have "tableArray s = kernel_tab (video_frame s)" "vmemTableArray s = vmem_tab (video_frame s)"
    by (simp_all only: paging_wf_def)
  then obtain v where "tableArray s = kernel_tab v" "vmemTableArray s = vmem_tab v" by blast
  then show "tableArray (map_video a s) = kernel_tab (page_of a)"
    and "vmemTableArray (map_video a s) = vmem_tab (page_of a)"
    by (simp_all add: map_video_def remap_tables)
qed (simp_all add: map_video_def)

lemma map_video_wf: "paging_wf s \<Longrightarrow> paging_wf (map_video a s)"
  using map_video_tables [where s = s] by (simp add: paging_wf_def)

lemma map_program_tables:
  "paging_on (map_program pid s) = paging_on s"
  "tableArray (map_program pid s) = tableArray s"
  "vmemTableArray (map_program pid s) = vmemTableArray s"
  "tableArray_addr (map_program pid s) = tableArray_addr s"
  "vmemTableArray_addr (map_program pid s) = vmemTableArray_addr s"
  "paging_wf s \<Longrightarrow> directoryArray (map_program pid s) =
     kernel_dir (page_of (tableArray_addr s)) (page_of (vmemTableArray_addr s)) (get_phys_addr pid)"
proof -
  assume w: "paging_wf s"
  then obtain v where
    "directoryArray s = kernel_dir (page_of (tableArray_addr s)) (page_of (vmemTableArray_addr s)) v"
    by (auto simp only: paging_wf_def)
  then show "directoryArray (map_program pid s) =
     kernel_dir (page_of (tableArray_addr s)) (page_of (vmemTableArray_addr s)) (get_phys_addr pid)"
    by (simp add: map_program_def remap_tables)
qed (simp_all add: map_program_def)

lemma map_program_wf: "paging_wf s \<Longrightarrow> paging_wf (map_program pid s)"
  using map_program_tables [where s = s] get_phys_addr_aligned
  unfolding paging_wf_def by simp

text \<open>The walk, region by region.\<close>

lemma mmu_walk_wf:
  assumes "paging_wf s"
  shows "mmu_walk s va =
    (if dir_ix va = 0 then
       (if tab_ix va = 184 then Some (video_frame s, page_off va, False)
        else if tab_ix va = 186 \<or> tab_ix va = 187 \<or> tab_ix va = 188
        then Some (ucast (tab_ix va), page_off va, False) else None)
     else if dir_ix va = 1 then Some (0x400 OR ucast (tab_ix va), page_off va, False)
     else if dir_ix va = 32 then Some ((program_frame s AND 0xFFC00) OR ucast (tab_ix va), page_off va, True)
     else if dir_ix va = 35 \<and> tab_ix va = 10 then Some (video_frame s, page_off va, True)
     else None)"
  using assms
  by (auto simp: paging_wf_def mmu_walk_def Let_def kernel_dir_def kernel_tab_def vmem_tab_def
      set_pde_def set_pte_def pde_clear_def pte_clear_def walk_table_def tables_linked_def)

section \<open>Addresses of the regions the kernel uses\<close>

definition poke :: "20 word \<Rightarrow> nat \<Rightarrow> u8 \<Rightarrow> machine \<Rightarrow> machine" where
  "poke f k v s = s\<lparr>frames := (frames s)(f := (frames s f)(k := v))\<rparr>"

lemma ucast_of_unat: "(ucast (w :: 'a::len word) :: 'b::len word) = of_nat (unat w)"
  by simp

lemma unat_drop_bit_div: "unat (drop_bit n (va :: u32)) = unat va div 2 ^ n"
proof -
  have "take_bit 32 (unat va) = unat va" by (simp add: take_bit_nat_eq_self unat_u32)
  then show ?thesis
    unfolding unsigned_drop_bit_eq by (simp add: drop_bit_eq_div)
qed

lemma addr_parts:
  assumes "unat va = d * 4194304 + t * 4096 + k" and "t < 1024" and "k < 4096"
  shows "dir_ix va = of_nat d" and "tab_ix va = of_nat t" and "page_off va = k"
proof -
  have "unat (drop_bit 22 va) = d"
    using assms by (simp add: unat_drop_bit_div del: drop_bit_eq_div)
  then show "dir_ix va = of_nat d" by (simp add: dir_ix_def ucast_of_unat)
  have "unat (drop_bit 12 va) = d * 1024 + t"
    using assms by (simp add: unat_drop_bit_div del: drop_bit_eq_div)
  then have "tab_ix va = of_nat (d * 1024 + t)" by (simp add: tab_ix_def ucast_of_unat)
  also have "\<dots> = of_nat t"
  proof -
    have z: "(1024 :: 10 word) = 0" by simp
    show ?thesis by (simp only: of_nat_add of_nat_mult of_nat_numeral z mult_zero_right add_0)
  qed
  finally show "tab_ix va = of_nat t" .
  have m: "va AND 0xFFF = take_bit 12 va"
    by (simp add: take_bit_eq_mask mask_eq_exp_minus_1)
  have "page_off va = take_bit 12 (unat va)"
    unfolding page_off_def m by (rule unsigned_take_bit_eq)
  then have "page_off va = unat va mod 4096" by (simp add: take_bit_eq_mod)
  moreover have "unat va = k + 4096 * (d * 1024 + t)" using assms(1) by simp
  ultimately show "page_off va = k" using assms(3) by (metis mod_mult_self2 mod_less)
qed

lemma unat_add_nat: "unat (a :: u32) + n < 4294967296 \<Longrightarrow> unat (a + of_nat n) = unat a + n"
  by (simp add: unat_word_ariths unat_of_nat)

lemma video_parts:
  assumes "k < 4096"
  shows "dir_ix (VIDEO + of_nat k) = 0" "tab_ix (VIDEO + of_nat k) = 184" "page_off (VIDEO + of_nat k) = k"
proof -
  have u: "unat (VIDEO + of_nat k) = 0 * 4194304 + 184 * 4096 + k"
    using assms by (simp add: VIDEO_def unat_add_nat)
  show "dir_ix (VIDEO + of_nat k) = 0" "tab_ix (VIDEO + of_nat k) = 184" "page_off (VIDEO + of_nat k) = k"
    using addr_parts [OF u] assms by simp_all
qed

lemma beyond_video_parts:
  assumes "4096 \<le> k" and "k < 8192"
  shows "dir_ix (VIDEO + of_nat k) = 0" "tab_ix (VIDEO + of_nat k) = 185"
proof -
  have u: "unat (VIDEO + of_nat k) = 0 * 4194304 + 185 * 4096 + (k - 4096)"
    using assms by (simp add: VIDEO_def unat_add_nat)
  show "dir_ix (VIDEO + of_nat k) = 0" "tab_ix (VIDEO + of_nat k) = 185"
    using addr_parts [OF u] assms by simp_all
qed

lemma terminal_parts:
  assumes "i < 3" and "k < 4096"
  shows "dir_ix (TERMINAL_VIDEO + of_nat i * 4096 + of_nat k) = 0"
    "tab_ix (TERMINAL_VIDEO + of_nat i * 4096 + of_nat k) = 186 + of_nat i"
    "page_off (TERMINAL_VIDEO + of_nat i * 4096 + of_nat k) = k"
proof -
  have "unat (TERMINAL_VIDEO + of_nat (i * 4096 + k)) = 0 * 4194304 + (186 + i) * 4096 + k"
    using assms by (subst unat_add_nat) (simp_all add: TERMINAL_VIDEO_def)
  then have u: "unat (TERMINAL_VIDEO + of_nat i * 4096 + of_nat k) = 0 * 4194304 + (186 + i) * 4096 + k"
    by (simp add: add.assoc)
  show "dir_ix (TERMINAL_VIDEO + of_nat i * 4096 + of_nat k) = 0"
    "tab_ix (TERMINAL_VIDEO + of_nat i * 4096 + of_nat k) = 186 + of_nat i"
    "page_off (TERMINAL_VIDEO + of_nat i * 4096 + of_nat k) = k"
    using addr_parts [OF u] assms by simp_all
qed

lemma user_parts:
  assumes "k < 0x400000"
  shows "dir_ix (0x8000000 + of_nat k) = 32"
    "tab_ix (0x8000000 + of_nat k) = of_nat (k div 4096)"
    "page_off (0x8000000 + of_nat k) = k mod 4096"
proof -
  have u: "unat (0x8000000 + of_nat k :: u32) = 32 * 4194304 + (k div 4096) * 4096 + k mod 4096"
    using assms by (simp add: unat_add_nat)
  have "k div 4096 < 1024" using assms by auto
  then show "dir_ix (0x8000000 + of_nat k) = 32"
    "tab_ix (0x8000000 + of_nat k) = of_nat (k div 4096)"
    "page_off (0x8000000 + of_nat k) = k mod 4096"
    using addr_parts [OF u] by simp_all
qed

text \<open>Loads and stores on the video pages.\<close>

lemma kstore_video:
  "paging_wf s \<Longrightarrow> k < 4096 \<Longrightarrow> kstore (VIDEO + of_nat k) v s = Some (poke (video_frame s) k v s)"
  by (simp add: kstore_def mmu_walk_wf video_parts poke_def)

lemma kload_video:
  "paging_wf s \<Longrightarrow> k < 4096 \<Longrightarrow> kload s (VIDEO + of_nat k) = Some (frames s (video_frame s) k)"
  by (simp add: kload_def mmu_walk_wf video_parts)

lemma kstore_beyond_video [simp]:
  "paging_wf s \<Longrightarrow> 4096 \<le> k \<Longrightarrow> k < 8192 \<Longrightarrow> kstore (VIDEO + of_nat k) v s = None"
  by (simp add: kstore_def mmu_walk_wf beyond_video_parts)

definition terminal_frame :: "nat \<Rightarrow> 20 word" where
  "terminal_frame i = 0xBA + of_nat i"

lemma terminal_ucast: "i < 3 \<Longrightarrow> ucast (186 + of_nat i :: 10 word) = terminal_frame i"
proof -
  assume "i < 3"
  then have "i = 0 \<or> i = 1 \<or> i = 2" by arith
  then show ?thesis by (auto simp: terminal_frame_def)
qed

lemma terminal_tab_ix: "i < 3 \<Longrightarrow> 186 + of_nat i = (186 :: 10 word) \<or> 186 + of_nat i = (187 :: 10 word) \<or> 186 + of_nat i = (188 :: 10 word)"
proof -
  assume "i < 3"
  then have "i = 0 \<or> i = 1 \<or> i = 2" by arith
  then show ?thesis by auto
qed

lemma terminal_walk:
  assumes "paging_wf s" "i < 3" "k < 4096"
  shows "mmu_walk s (TERMINAL_VIDEO + of_nat i * 4096 + of_nat k) = Some (terminal_frame i, k, False)"
proof -
  have "(186 :: 10 word) + of_nat i \<noteq> 184" using terminal_tab_ix [OF assms(2)] by auto
  then show ?thesis
    using assms terminal_tab_ix [OF assms(2)]
    by (simp add: mmu_walk_wf terminal_parts terminal_ucast)
qed

lemma kload_terminal [simp]:
  "paging_wf s \<Longrightarrow> i < 3 \<Longrightarrow> k < 4096 \<Longrightarrow>
     kload s (TERMINAL_VIDEO + of_nat i * 4096 + of_nat k) = Some (frames s (terminal_frame i) k)"
  by (simp add: kload_def terminal_walk)

lemma kstore_terminal [simp]:
  "paging_wf s \<Longrightarrow> i < 3 \<Longrightarrow> k < 4096 \<Longrightarrow>
     kstore (TERMINAL_VIDEO + of_nat i * 4096 + of_nat k) v s = Some (poke (terminal_frame i) k v s)"
  by (simp add: kstore_def terminal_walk poke_def)

lemma kstore_user:
  assumes "paging_wf s" "k < 0x400000"
  shows "kstore (0x8000000 + of_nat k) v s =
     Some (poke ((program_frame s AND 0xFFC00) OR of_nat (k div 4096)) (k mod 4096) v s)"
proof -
  have "ucast (of_nat (k div 4096) :: 10 word) = (of_nat (k div 4096) :: 20 word)"
    using assms by (simp add: unsigned_of_nat take_bit_nat_eq_self)
  then show ?thesis
    using assms by (simp add: kstore_def mmu_walk_wf user_parts poke_def)
qed

lemma poke_wf [simp]: "paging_wf (poke f k v s) = paging_wf s"
  by (simp add: poke_def paging_wf_def tables_linked_def program_frame_def video_frame_def)

lemma poke_video_frame [simp]: "video_frame (poke f k v s) = video_frame s"
  by (simp add: poke_def video_frame_def)

lemma poke_program_frame [simp]: "program_frame (poke f k v s) = program_frame s"
  by (simp add: poke_def program_frame_def)

lemma poke_frames [simp]: "frames (poke f k v s) = (frames s)(f := (frames s f)(k := v))"
  by (simp add: poke_def)

definition paged :: machine where
  "paged = init_paging loaded"

lemma paged_wf [simp]: "paging_wf paged"
  unfolding paged_def by (rule init_paging_wf) (simp add: tables_linked_def loaded_def page_of_def PAGING_OFFSET_def)

lemma paged_sel [simp]:
  "terminals paged = (\<lambda>_. zero_terminal)" "active_terminal paged = 0" "scheduled_terminal paged = 0"
  "screen_x paged = 0" "screen_y paged = 0" "frames paged = (\<lambda>_ _. 0)" "video_frame paged = 0xB8"
  "pcbs paged = (\<lambda>_. zero_pcb)" "initialized_terminals paged = (\<lambda>_. 0)" "current_pcb paged = 0"
  "stack_junk paged = (\<lambda>_. 0)" "program_frame paged = 0x800" "first_swap paged = 1"
  by (simp_all add: paged_def) (simp_all add: loaded_def init_paging_def Let_def)

end
