(* ===== verification/LibMemory.thy ===== *)
theory LibMemory
  imports Paging
begin

text \<open>
  The block operations of \<^verbatim>\<open>lib.c\<close>: \<open>memset\<close>, \<open>memcpy\<close> and \<open>memmove\<close>, inline assembly with a
  head of single bytes up to a 4-byte boundary of the destination, a body of 4-byte string
  instructions and a tail of single bytes. They are written over any memory with loads and
  stores that may fault. The interface \<open>byte_memory\<close> says what such a memory is; in it each
  routine is proved to do what its byte-by-byte reference does, and the kernel's memory behind
  the page tables is an instance.
\<close>

type_synonym 'm loader = "'m \<Rightarrow> u32 \<Rightarrow> u8 option"
type_synonym 'm storer = "u32 \<Rightarrow> u8 \<Rightarrow> 'm \<Rightarrow> 'm option"

section \<open>The reference: one byte after the other\<close>

fun copy_bytes :: "'m loader \<Rightarrow> 'm storer \<Rightarrow> u32 \<Rightarrow> u32 \<Rightarrow> nat \<Rightarrow> 'm \<Rightarrow> 'm option" where
  "copy_bytes ld st dest src 0 m = Some m"
| "copy_bytes ld st dest src (Suc n) m =
     do { v \<leftarrow> ld m src; m \<leftarrow> st dest v m; copy_bytes ld st (dest + 1) (src + 1) n m }"

fun fill_bytes :: "'m storer \<Rightarrow> u32 \<Rightarrow> u8 \<Rightarrow> nat \<Rightarrow> 'm \<Rightarrow> 'm option" where
  "fill_bytes st dest v 0 m = Some m"
| "fill_bytes st dest v (Suc n) m =
     do { m \<leftarrow> st dest v m; fill_bytes st (dest + 1) v n m }"

section \<open>memcpy and memset as the assembly does them\<close>

text \<open>\<open>rep movsl\<close>: \<open>n\<close> times load four bytes, store four bytes.\<close>

fun rep_movsl :: "'m loader \<Rightarrow> 'm storer \<Rightarrow> u32 \<Rightarrow> u32 \<Rightarrow> nat \<Rightarrow> 'm \<Rightarrow> 'm option" where
  "rep_movsl ld st dest src 0 m = Some m"
| "rep_movsl ld st dest src (Suc n) m =
     do {
       v0 \<leftarrow> ld m src; v1 \<leftarrow> ld m (src + 1); v2 \<leftarrow> ld m (src + 2); v3 \<leftarrow> ld m (src + 3);
       m \<leftarrow> st dest v0 m; m \<leftarrow> st (dest + 1) v1 m; m \<leftarrow> st (dest + 2) v2 m; m \<leftarrow> st (dest + 3) v3 m;
       rep_movsl ld st (dest + 4) (src + 4) n m
     }"

text \<open>\<open>.memcpy_aligned\<close>, then \<open>.memcpy_bottom\<close>.\<close>

definition memcpy_aligned :: "'m loader \<Rightarrow> 'm storer \<Rightarrow> u32 \<Rightarrow> u32 \<Rightarrow> nat \<Rightarrow> 'm \<Rightarrow> 'm option" where
  "memcpy_aligned ld st dest src n m =
     do {
       m \<leftarrow> rep_movsl ld st dest src (n div 4) m;
       copy_bytes ld st (dest + of_nat (4 * (n div 4))) (src + of_nat (4 * (n div 4))) (n mod 4) m
     }"

text \<open>\<open>.memcpy_top\<close>.\<close>

fun memcpy :: "'m loader \<Rightarrow> 'm storer \<Rightarrow> u32 \<Rightarrow> u32 \<Rightarrow> nat \<Rightarrow> 'm \<Rightarrow> 'm option" where
  "memcpy ld st dest src 0 m = Some m"
| "memcpy ld st dest src (Suc n) m =
     (if dest AND 3 = 0 then memcpy_aligned ld st dest src (Suc n) m
      else do { v \<leftarrow> ld m src; m \<leftarrow> st dest v m; memcpy ld st (dest + 1) (src + 1) n m })"

fun rep_stosl :: "'m storer \<Rightarrow> u32 \<Rightarrow> u32 \<Rightarrow> nat \<Rightarrow> 'm \<Rightarrow> 'm option" where
  "rep_stosl st dest eax 0 m = Some m"
| "rep_stosl st dest eax (Suc n) m =
     do {
       m \<leftarrow> st dest (ucast eax) m; m \<leftarrow> st (dest + 1) (ucast (drop_bit 8 eax)) m;
       m \<leftarrow> st (dest + 2) (ucast (drop_bit 16 eax)) m; m \<leftarrow> st (dest + 3) (ucast (drop_bit 24 eax)) m;
       rep_stosl st (dest + 4) eax n m
     }"

fun memset_asm :: "'m storer \<Rightarrow> u32 \<Rightarrow> u32 \<Rightarrow> nat \<Rightarrow> 'm \<Rightarrow> 'm option" where
  "memset_asm st dest eax 0 m = Some m"
| "memset_asm st dest eax (Suc n) m =
     (if dest AND 3 = 0
      then do {
        m \<leftarrow> rep_stosl st dest eax (Suc n div 4) m;
        fill_bytes st (dest + of_nat (4 * (Suc n div 4))) (ucast eax) (Suc n mod 4) m
      }
      else do { m \<leftarrow> st dest (ucast eax) m; memset_asm st (dest + 1) eax n m })"

definition memset :: "'m storer \<Rightarrow> u32 \<Rightarrow> u32 \<Rightarrow> nat \<Rightarrow> 'm \<Rightarrow> 'm option" where
  "memset st dest c n m =
     (let c = c AND 0xFF
      in memset_asm st dest (push_bit 24 c OR push_bit 16 c OR push_bit 8 c OR c) n m)"

text \<open>\<open>rep stosw\<close> and \<open>rep stosl\<close> from the given address on: \<open>n\<close> counts units, not bytes.\<close>

fun rep_stosw :: "'m storer \<Rightarrow> u32 \<Rightarrow> u32 \<Rightarrow> nat \<Rightarrow> 'm \<Rightarrow> 'm option" where
  "rep_stosw st dest eax 0 m = Some m"
| "rep_stosw st dest eax (Suc n) m =
     do { m \<leftarrow> st dest (ucast eax) m; m \<leftarrow> st (dest + 1) (ucast (drop_bit 8 eax)) m; rep_stosw st (dest + 2) eax n m }"

definition memset_word :: "'m storer \<Rightarrow> u32 \<Rightarrow> u32 \<Rightarrow> nat \<Rightarrow> 'm \<Rightarrow> 'm option" where
  "memset_word st dest c n m = rep_stosw st dest c n m"

definition memset_dword :: "'m storer \<Rightarrow> u32 \<Rightarrow> u32 \<Rightarrow> nat \<Rightarrow> 'm \<Rightarrow> 'm option" where
  "memset_dword st dest c n m = rep_stosl st dest c n m"

text \<open>
  \<open>memmove\<close> copies upwards when the source is not below the destination, else downwards from
  the last byte (\<open>std\<close>).
\<close>

fun copy_down :: "'m loader \<Rightarrow> 'm storer \<Rightarrow> u32 \<Rightarrow> u32 \<Rightarrow> nat \<Rightarrow> 'm \<Rightarrow> 'm option" where
  "copy_down ld st dest src 0 m = Some m"
| "copy_down ld st dest src (Suc n) m =
     do { v \<leftarrow> ld m src; m \<leftarrow> st dest v m; copy_down ld st (dest - 1) (src - 1) n m }"

definition memmove :: "'m loader \<Rightarrow> 'm storer \<Rightarrow> u32 \<Rightarrow> u32 \<Rightarrow> nat \<Rightarrow> 'm \<Rightarrow> 'm option" where
  "memmove ld st dest src n m =
     (if src \<ge> dest then copy_bytes ld st dest src n m
      else copy_down ld st (dest + of_nat n - 1) (src + of_nat n - 1) n m)"

section \<open>Byte-addressed memory\<close>

text \<open>
  \<open>cell m a\<close> is the physical cell behind an address, or nothing when the access faults. Two
  addresses may share a cell.
\<close>

locale byte_memory =
  fixes ld :: "'m loader" and st :: "'m storer" and cell :: "'m \<Rightarrow> u32 \<Rightarrow> 'c option"
  assumes st_Some: "cell m a = Some c \<Longrightarrow> \<exists>m'. st a v m = Some m'"
    and ld_Some: "cell m a = Some c \<Longrightarrow> \<exists>v. ld m a = Some v"
    and cell_st: "st a v m = Some m' \<Longrightarrow> cell m' b = cell m b"
    and ld_st: "st a v m = Some m' \<Longrightarrow> cell m b = Some c \<Longrightarrow>
      ld m' b = (if cell m a = cell m b then Some v else ld m b)"
begin

definition mapped :: "'m \<Rightarrow> u32 \<Rightarrow> nat \<Rightarrow> bool" where
  "mapped m a n \<longleftrightarrow> (\<forall>i < n. cell m (a + of_nat i) \<noteq> None)"

definition apart :: "'m \<Rightarrow> u32 \<Rightarrow> u32 \<Rightarrow> nat \<Rightarrow> bool" where
  "apart m dest src n \<longleftrightarrow> (\<forall>i < n. \<forall>j < n. cell m (dest + of_nat i) \<noteq> cell m (src + of_nat j))"

definition injective :: "'m \<Rightarrow> u32 \<Rightarrow> nat \<Rightarrow> bool" where
  "injective m a n \<longleftrightarrow> (\<forall>i < n. \<forall>j < n. cell m (a + of_nat i) = cell m (a + of_nat j) \<longrightarrow> i = j)"

lemma add_Suc_of_nat: "(a :: u32) + 1 + of_nat i = a + of_nat (Suc i)"
  by simp

lemma mapped_Suc: "mapped m a (Suc n) \<Longrightarrow> mapped m (a + 1) n"
  unfolding mapped_def add_Suc_of_nat by (simp only: All_less_Suc2) blast

lemma apart_Suc: "apart m d s (Suc n) \<Longrightarrow> apart m (d + 1) (s + 1) n"
  unfolding apart_def add_Suc_of_nat by (simp only: All_less_Suc2) blast

lemma injective_Suc: "injective m a (Suc n) \<Longrightarrow> injective m (a + 1) n"
  unfolding injective_def add_Suc_of_nat by (simp only: All_less_Suc2) blast

lemmas region_Suc = mapped_Suc apart_Suc injective_Suc

lemma region_st:
  assumes "st a v m = Some m'"
  shows "mapped m' b n = mapped m b n" "apart m' d s n = apart m d s n" "injective m' b n = injective m b n"
  unfolding mapped_def apart_def injective_def by (simp_all only: cell_st [OF assms])

lemma mapped_0: "mapped m a (Suc n) \<Longrightarrow> \<exists>c. cell m a = Some c"
  unfolding mapped_def by (drule spec [of _ 0]) auto

lemma apart_0: "apart m d s (Suc n) \<Longrightarrow> j \<le> n \<Longrightarrow> cell m d \<noteq> cell m (s + of_nat j)"
  unfolding apart_def by (drule spec [of _ 0]) auto

text \<open>What the reference copy achieves.\<close>

lemma copy_bytes_correct:
  assumes "mapped m dest n" "mapped m src n" "apart m dest src n" "injective m dest n"
  shows "\<exists>m'. copy_bytes ld st dest src n m = Some m' \<and> (\<forall>b. cell m' b = cell m b) \<and>
    (\<forall>i < n. ld m' (dest + of_nat i) = ld m (src + of_nat i)) \<and>
    (\<forall>b. cell m b \<noteq> None \<longrightarrow> (\<forall>i < n. cell m b \<noteq> cell m (dest + of_nat i)) \<longrightarrow> ld m' b = ld m b)"
  using assms
proof (induction n arbitrary: dest src m)
  case 0
  then show ?case by simp
next
  case (Suc n)
  obtain cd cs where c: "cell m dest = Some cd" "cell m src = Some cs"
    using mapped_0 Suc.prems(1,2) by blast
  obtain v where v: "ld m src = Some v" using ld_Some c by blast
  obtain m1 where m1: "st dest v m = Some m1" using st_Some c by blast
  note reg = region_st [OF m1]
  have p: "mapped m1 (dest + 1) n" "mapped m1 (src + 1) n" "apart m1 (dest + 1) (src + 1) n"
      "injective m1 (dest + 1) n"
    using Suc.prems unfolding reg by (blast intro: region_Suc)+
  from Suc.IH [OF p] obtain m' where m': "copy_bytes ld st (dest + 1) (src + 1) n m1 = Some m'"
    and cells: "\<forall>b. cell m' b = cell m1 b"
    and copied: "\<forall>i < n. ld m' (dest + 1 + of_nat i) = ld m1 (src + 1 + of_nat i)"
    and kept: "\<forall>b. cell m1 b \<noteq> None \<longrightarrow> (\<forall>i < n. cell m1 b \<noteq> cell m1 (dest + 1 + of_nat i)) \<longrightarrow>
        ld m' b = ld m1 b"
    by (elim exE conjE)
  have cell1: "cell m1 b = cell m b" for b using cell_st [OF m1] .
  have ld1: "ld m1 b = (if cell m dest = cell m b then Some v else ld m b)" if "cell m b \<noteq> None" for b
    using ld_st [OF m1] that by blast
  have away: "cell m dest \<noteq> cell m (dest + 1 + of_nat i)" if "i < n" for i
  proof
    assume "cell m dest = cell m (dest + 1 + of_nat i)"
    then have "cell m (dest + of_nat 0) = cell m (dest + of_nat (Suc i))" by (simp add: add.assoc)
    moreover have "0 < Suc n" "Suc i < Suc n" using that by simp_all
    ultimately show False using Suc.prems(4) unfolding injective_def by blast
  qed
  have first: "ld m' dest = ld m src"
  proof -
    have "ld m' dest = ld m1 dest"
      using kept [rule_format, of dest] c away unfolding cell1 by blast
    then show ?thesis using ld1 [of dest] c v by simp
  qed
  have all_copied: "ld m' (dest + of_nat i) = ld m (src + of_nat i)" if i: "i < Suc n" for i
  proof (cases i)
    case 0
    then show ?thesis using first by simp
  next
    case (Suc k)
    then have "ld m' (dest + of_nat i) = ld m1 (src + of_nat i)"
      using copied [rule_format, of k] i by (simp add: add.assoc)
    moreover have "cell m dest \<noteq> cell m (src + of_nat i)" using apart_0 [OF Suc.prems(3)] i by simp
    moreover have "cell m (src + of_nat i) \<noteq> None" using Suc.prems(2) i unfolding mapped_def by blast
    ultimately show ?thesis using ld1 [of "src + of_nat i"] by simp
  qed
  have all_kept: "ld m' b = ld m b"
    if b: "cell m b \<noteq> None" "\<forall>i < Suc n. cell m b \<noteq> cell m (dest + of_nat i)" for b
  proof -
    have "cell m b \<noteq> cell m (dest + 1 + of_nat i)" if "i < n" for i
      using b(2) that unfolding add_Suc_of_nat by blast
    then have "ld m' b = ld m1 b" using kept [rule_format, of b] b(1) unfolding cell1 by blast
    moreover have "cell m dest \<noteq> cell m b" using b(2) [rule_format, of 0] by simp
    ultimately show ?thesis using ld1 [of b] b(1) by simp
  qed
  have "copy_bytes ld st dest src (Suc n) m = Some m'" using v m1 m' by simp
  then show ?case
    using cells all_copied all_kept unfolding cell1 by (intro exI [of _ m'] conjI allI impI) simp_all
qed

text \<open>The reference copy goes through every address, so it can be cut anywhere.\<close>

lemma region_cong:
  assumes "\<forall>b. cell m' b = cell m b"
  shows "mapped m' a n = mapped m a n" "apart m' d s n = apart m d s n" "injective m' a n = injective m a n"
  unfolding mapped_def apart_def injective_def by (simp_all only: assms [rule_format])

lemma mapped_le: "mapped m a n \<Longrightarrow> k \<le> n \<Longrightarrow> mapped m a k"
  unfolding mapped_def by (meson less_le_trans)

lemma apart_le: "apart m d s n \<Longrightarrow> k \<le> n \<Longrightarrow> apart m d s k"
  unfolding apart_def by (meson less_le_trans)

lemma mapped_shift: "mapped m a (j + n) \<Longrightarrow> mapped m (a + of_nat j) n"
  unfolding mapped_def by (simp only: add.assoc flip: of_nat_add) (meson add_less_cancel_left)

lemma apart_shift: "apart m d s (j + n) \<Longrightarrow> apart m (d + of_nat j) (s + of_nat j) n"
  unfolding apart_def by (simp only: add.assoc flip: of_nat_add) (meson add_less_cancel_left)

lemma copy_bytes_cells: "copy_bytes ld st d s n m = Some m' \<Longrightarrow> cell m' b = cell m b"
proof (induction n arbitrary: d s m)
  case (Suc n)
  from Suc.prems obtain v m1 where "st d v m = Some m1" "copy_bytes ld st (d + 1) (s + 1) n m1 = Some m'"
    by (auto split: Option.bind_splits)
  then show ?case using Suc.IH cell_st by metis
qed simp

lemma copy_bytes_add:
  "copy_bytes ld st d s (j + n) m =
     do { m \<leftarrow> copy_bytes ld st d s j m; copy_bytes ld st (d + of_nat j) (s + of_nat j) n m }"
  by (induction j arbitrary: d s m) (simp_all add: add.assoc split: Option.bind_split)

lemma st_away:
  assumes "st a v m = Some m1" "cell m b \<noteq> None" "cell m a \<noteq> cell m b"
  shows "ld m1 b = ld m b"
  using ld_st [OF assms(1)] assms(2,3) by force

lemma copy_4:
  assumes "mapped m d 4" "mapped m s 4" "apart m d s 4"
  shows "copy_bytes ld st d s 4 m =
    do {
       v0 \<leftarrow> ld m s; v1 \<leftarrow> ld m (s + 1); v2 \<leftarrow> ld m (s + 2); v3 \<leftarrow> ld m (s + 3);
       m \<leftarrow> st d v0 m; m \<leftarrow> st (d + 1) v1 m; m \<leftarrow> st (d + 2) v2 m; st (d + 3) v3 m
    }"
proof -
  have cd: "\<exists>c. cell m (d + of_nat i) = Some c" "\<exists>c. cell m (s + of_nat i) = Some c" if "i < 4" for i
    using assms(1,2) that unfolding mapped_def by blast+
  have ne: "cell m (d + of_nat i) \<noteq> cell m (s + of_nat j)" if "i < 4" "j < 4" for i j
    using assms(3) that unfolding apart_def by blast
  obtain v0 v1 v2 v3 where v: "ld m s = Some v0" "ld m (s + 1) = Some v1" "ld m (s + 2) = Some v2" "ld m (s + 3) = Some v3"
    using cd(2) [of 0] cd(2) [of 1] cd(2) [of 2] cd(2) [of 3] ld_Some by fastforce
  obtain m1 where m1: "st d v0 m = Some m1" using cd(1) [of 0] st_Some by fastforce
  note c1 = cell_st [OF m1]
  obtain m2 where m2: "st (d + 1) v1 m1 = Some m2" using cd(1) [of 1] st_Some c1 by fastforce
  note c2 = cell_st [OF m2]
  obtain m3 where m3: "st (d + 2) v2 m2 = Some m3" using cd(1) [of 2] st_Some c1 c2 by fastforce
  have a1: "ld m1 (s + of_nat j) = ld m (s + of_nat j)" if "j < 4" for j
    using st_away [OF m1] cd(2) [OF that] ne [OF _ that, of 0] by simp
  have a2: "ld m2 (s + of_nat j) = ld m1 (s + of_nat j)" if "j < 4" for j
    using st_away [OF m2] cd(2) [OF that] ne [OF _ that, of 1] by (simp add: c1)
  have a3: "ld m3 (s + of_nat j) = ld m2 (s + of_nat j)" if "j < 4" for j
    using st_away [OF m3] cd(2) [OF that] ne [OF _ that, of 2] by (simp add: c1 c2)
  have l: "ld m1 (s + 1) = Some v1" "ld m2 (s + 2) = Some v2" "ld m3 (s + 3) = Some v3"
    using a1 [of 1] a1 [of 2] a1 [of 3] a2 [of 2] a2 [of 3] a3 [of 3] v by simp_all
  show ?thesis
    using v m1 m2 m3 l by (simp add: numeral_eq_Suc add.assoc split: Option.bind_split)
qed

lemma rep_movsl_eq:
  "mapped m d (4 * n) \<Longrightarrow> mapped m s (4 * n) \<Longrightarrow> apart m d s (4 * n) \<Longrightarrow>
     rep_movsl ld st d s n m = copy_bytes ld st d s (4 * n) m"
proof (induction n arbitrary: d s m)
  case (Suc n)
  have e: "4 * Suc n = 4 + 4 * n" by simp
  have four: "mapped m d 4" "mapped m s 4" "apart m d s 4"
    using Suc.prems by (simp_all add: mapped_le [of _ _ "4 * Suc n"] apart_le [of _ _ _ "4 * Suc n"])
  have rest: "mapped m (d + 4) (4 * n)" "mapped m (s + 4) (4 * n)" "apart m (d + 4) (s + 4) (4 * n)"
    using mapped_shift [of m d 4] mapped_shift [of m s 4] apart_shift [of m d s 4] Suc.prems
    by (simp_all add: e)
  have IH: "rep_movsl ld st (d + 4) (s + 4) n m' = copy_bytes ld st (d + 4) (s + 4) (4 * n) m'"
    if "copy_bytes ld st d s 4 m = Some m'" for m'
  proof -
    have c: "\<forall>b. cell m' b = cell m b" using copy_bytes_cells [OF that] by blast
    show ?thesis using rest unfolding region_cong [OF c, symmetric] by (rule Suc.IH)
  qed
  have "rep_movsl ld st d s (Suc n) m =
      do { m \<leftarrow> copy_bytes ld st d s 4 m; rep_movsl ld st (d + 4) (s + 4) n m }"
    by (simp add: copy_4 [OF four])
  also have "\<dots> = do { m \<leftarrow> copy_bytes ld st d s 4 m; copy_bytes ld st (d + 4) (s + 4) (4 * n) m }"
    using IH by (cases "copy_bytes ld st d s 4 m") auto
  also have "\<dots> = copy_bytes ld st d s (4 * Suc n) m"
    unfolding e copy_bytes_add by simp
  finally show ?case .
qed simp

lemma memcpy_eq:
  "mapped m d n \<Longrightarrow> mapped m s n \<Longrightarrow> apart m d s n \<Longrightarrow>
     memcpy ld st d s n m = copy_bytes ld st d s n m"
proof (induction n arbitrary: d s m)
  case (Suc n)
  show ?case
  proof (cases "d AND 3 = 0")
    case True
    have q: "4 * (Suc n div 4) \<le> Suc n" "Suc n = 4 * (Suc n div 4) + Suc n mod 4" by simp_all
    have "rep_movsl ld st d s (Suc n div 4) m = copy_bytes ld st d s (4 * (Suc n div 4)) m"
      by (rule rep_movsl_eq [OF mapped_le [OF Suc.prems(1) q(1)] mapped_le [OF Suc.prems(2) q(1)]
            apart_le [OF Suc.prems(3) q(1)]])
    then have "memcpy ld st d s (Suc n) m = copy_bytes ld st d s (4 * (Suc n div 4) + Suc n mod 4) m"
      using True unfolding copy_bytes_add by (simp add: memcpy_aligned_def)
    then show ?thesis using q(2) by simp
  next
    case False
    have step: "memcpy ld st (d + 1) (s + 1) n m1 = copy_bytes ld st (d + 1) (s + 1) n m1"
      if st: "st d v m = Some m1" for v m1
    proof (rule Suc.IH)
      show "mapped m1 (d + 1) n" "mapped m1 (s + 1) n" "apart m1 (d + 1) (s + 1) n"
        unfolding region_st [OF st] using Suc.prems by (blast intro: region_Suc)+
    qed
    show ?thesis
    proof (cases "ld m s")
      case (Some v)
      then show ?thesis using False step by (cases "st d v m") simp_all
    qed (use False in simp)
  qed
qed simp

end

text \<open>The kernel's memory, through its page tables.\<close>

definition kcell :: "machine \<Rightarrow> u32 \<Rightarrow> (20 word \<times> nat) option" where
  "kcell s va = (case mmu_walk s va of None \<Rightarrow> None | Some (f, k, _) \<Rightarrow> Some (f, k))"

lemma mmu_walk_frames: "mmu_walk (s\<lparr>frames := g\<rparr>) va = mmu_walk s va"
proof -
  have "walk_table (s\<lparr>frames := g\<rparr>) = walk_table s" by (simp add: walk_table_def fun_eq_iff)
  then show ?thesis by (simp add: mmu_walk_def Let_def)
qed

interpretation kmem: byte_memory kload kstore kcell
proof
  show "\<exists>m'. kstore a v m = Some m'" if "kcell m a = Some c" for m a c v
    using that by (auto simp: kcell_def kstore_def split: option.splits)
  show "\<exists>v. kload m a = Some v" if "kcell m a = Some c" for m a c
    using that by (auto simp: kcell_def kload_def split: option.splits)
  show "kcell m' b = kcell m b" if "kstore a v m = Some m'" for a v m m' b
    using that by (auto simp: kcell_def kstore_def mmu_walk_frames split: option.splits)
  show "kload m' b = (if kcell m a = kcell m b then Some v else kload m b)"
    if "kstore a v m = Some m'" "kcell m b = Some c" for a v m m' b c
    using that
    by (auto simp: kcell_def kstore_def kload_def mmu_walk_frames split: option.splits if_splits)
qed

end
