(* ===== verification/LibStrings.thy ===== *)
theory LibStrings
  imports HalPrelude
begin

text \<open>
  The string routines of \<^verbatim>\<open>lib.c\<close>, each loop as written, over buffers with checked accesses:
  \<open>strlen\<close>, \<open>strcpy\<close>, \<open>strncpy\<close>, \<open>strncmp\<close>, \<open>strrev\<close> and \<open>itoa\<close>. The lemmas give each its
  meaning on C strings, including where it runs out of its buffer; \<open>itoa\<close> is shown to print
  the positional notation that \<open>value_of\<close> reads back.
\<close>

section \<open>The routines\<close>

function strlen_from :: "u8 list \<Rightarrow> nat \<Rightarrow> nat option" where
  "strlen_from s len =
     (if len < length s then if s ! len \<noteq> 0 then strlen_from s (len + 1) else Some len else None)"
  by pat_completeness auto
termination by (relation "measure (\<lambda>(s, len). length s - len)") auto

definition strlen :: "u8 list \<Rightarrow> nat option" where
  "strlen s = strlen_from s 0"

function strcpy_from :: "u8 list \<Rightarrow> u8 list \<Rightarrow> nat \<Rightarrow> u8 list option" where
  "strcpy_from dest src i =
     (if i < length src \<and> i < length dest
      then if src ! i \<noteq> 0 then strcpy_from (dest[i := src ! i]) src (i + 1)
           else Some (dest[i := 0])
      else None)"
  by pat_completeness auto
termination by (relation "measure (\<lambda>(dest, src, i). length src - i)") auto

definition strcpy :: "u8 list \<Rightarrow> u8 list \<Rightarrow> u8 list option" where
  "strcpy dest src = strcpy_from dest src 0"

text \<open>The first loop tests \<open>src[i]\<close> before \<open>i < n\<close>; the second pads with NUL.\<close>

function strncpy_copy :: "u8 list \<Rightarrow> u8 list \<Rightarrow> nat \<Rightarrow> nat \<Rightarrow> (u8 list \<times> nat) option" where
  "strncpy_copy dest src n i =
     (if i < length src
      then if src ! i \<noteq> 0 \<and> i < n
           then if i < length dest then strncpy_copy (dest[i := src ! i]) src n (i + 1) else None
           else Some (dest, i)
      else None)"
  by pat_completeness auto
termination by (relation "measure (\<lambda>(dest, src, n, i). length src - i)") auto

function strncpy_pad :: "u8 list \<Rightarrow> nat \<Rightarrow> nat \<Rightarrow> u8 list option" where
  "strncpy_pad dest n i =
     (if i < n then if i < length dest then strncpy_pad (dest[i := 0]) n (i + 1) else None
      else Some dest)"
  by pat_completeness auto
termination by (relation "measure (\<lambda>(dest, n, i). n - i)") auto

definition strncpy :: "u8 list \<Rightarrow> u8 list \<Rightarrow> nat \<Rightarrow> u8 list option" where
  "strncpy dest src n =
     do { (dest, i) \<leftarrow> strncpy_copy dest src n 0; strncpy_pad dest n i }"

text \<open>\<open>int8_t\<close> is the signed \<open>char\<close> of the compiler.\<close>

function strncmp_from :: "u8 list \<Rightarrow> u8 list \<Rightarrow> nat \<Rightarrow> nat \<Rightarrow> int option" where
  "strncmp_from s1 s2 n i =
     (if i < n
      then if i < length s1 \<and> i < length s2
           then if s1 ! i \<noteq> s2 ! i \<or> s1 ! i = 0 then Some (sint (s1 ! i) - sint (s2 ! i))
                else strncmp_from s1 s2 n (i + 1)
           else None
      else Some 0)"
  by pat_completeness auto
termination by (relation "measure (\<lambda>(s1, s2, n, i). n - i)") auto

definition strncmp :: "u8 list \<Rightarrow> u8 list \<Rightarrow> nat \<Rightarrow> int option" where
  "strncmp s1 s2 n = strncmp_from s1 s2 n 0"

function strrev_loop :: "u8 list \<Rightarrow> int \<Rightarrow> int \<Rightarrow> u8 list" where
  "strrev_loop s beg end' =
     (if beg < end'
      then let tmp = s ! nat end'; s = s[nat end' := s ! nat beg]
           in strrev_loop (s[nat beg := tmp]) (beg + 1) (end' - 1)
      else s)"
  by pat_completeness auto
termination by (relation "measure (\<lambda>(s, b, e). nat (e - b))") auto

definition strrev :: "u8 list \<Rightarrow> u8 list option" where
  "strrev s = do { n \<leftarrow> strlen s; Some (strrev_loop s 0 (int n - 1)) }"

definition itoa_lookup :: "u8 list" where
  "itoa_lookup = bytes ''0123456789ABCDEFGHIJKLMNOPQRSTUVWXYZ'' @ [0]"

text \<open>
  \<open>newval % radix\<close> is an unsigned operation; a zero radix traps, and the loop ends at the
  latest when the buffer does.
\<close>

function itoa_loop :: "u32 \<Rightarrow> u32 \<Rightarrow> u8 list \<Rightarrow> nat \<Rightarrow> (u8 list \<times> nat) option" where
  "itoa_loop newval radix buf p =
     (if newval > 0
      then if radix \<noteq> 0 \<and> p < length buf \<and> unat (newval mod radix) < length itoa_lookup
           then itoa_loop (newval div radix) radix
                  (buf[p := itoa_lookup ! unat (newval mod radix)]) (p + 1)
           else None
      else Some (buf, p))"
  by pat_completeness auto
termination by (relation "measure (\<lambda>(v, r, buf, p). length buf - p)") auto

definition itoa :: "u32 \<Rightarrow> u8 list \<Rightarrow> u32 \<Rightarrow> u8 list option" where
  "itoa value' buf radix =
     (if value' = 0 then do { buf \<leftarrow> wr buf 0 48; wr buf 1 0 }
      else do {
        (buf, p) \<leftarrow> itoa_loop value' radix buf 0;
        buf \<leftarrow> wr buf p 0;
        strrev buf
      })"

declare strlen_from.simps [simp del] strcpy_from.simps [simp del] strncpy_copy.simps [simp del]
  strncpy_pad.simps [simp del] strncmp_from.simps [simp del] strrev_loop.simps [simp del]
  itoa_loop.simps [simp del]

section \<open>Lengths and copies\<close>

lemma drop_terminated_Suc:
  assumes "len < length s" "s ! len \<noteq> 0"
  shows "terminated (drop (len + 1) s) = terminated (drop len s)"
    and "length (cstr (drop len s)) = Suc (length (cstr (drop (len + 1) s)))"
  using assms by (simp_all flip: Cons_nth_drop_Suc)

lemma strlen_from_eq:
  "len \<le> length s \<Longrightarrow>
     strlen_from s len = (if terminated (drop len s) then Some (len + length (cstr (drop len s))) else None)"
proof (induction s len rule: strlen_from.induct)
  case (1 s len)
  show ?case
  proof (cases "len < length s")
    case True
    then have "drop len s = s ! len # drop (Suc len) s" by (simp add: Cons_nth_drop_Suc)
    with True "1.IH" show ?thesis by (subst strlen_from.simps) auto
  next
    case False
    with "1.prems" show ?thesis by (subst strlen_from.simps) simp
  qed
qed

lemma strlen_eq: "strlen s = (if terminated s then Some (length (cstr s)) else None)"
  by (simp add: strlen_def strlen_from_eq)

lemma strcpy_from_eq:
  "i \<le> length src \<Longrightarrow> terminated (drop i src) \<Longrightarrow>
     strcpy_from dest src i =
       (if i + length (cstr (drop i src)) < length dest
        then Some (take i dest @ cstr (drop i src) @ 0 # drop (Suc (i + length (cstr (drop i src)))) dest)
        else None)"
proof (induction dest src i rule: strcpy_from.induct)
  case (1 dest src i)
  have src: "i < length src" using "1.prems" by (cases "i = length src") auto
  then have d: "drop i src = src ! i # drop (Suc i) src" by (simp add: Cons_nth_drop_Suc)
  show ?case
  proof (cases "i < length dest")
    case False
    with src show ?thesis by (subst strcpy_from.simps) simp
  next
    case True
    show ?thesis
    proof (cases "src ! i = 0")
      case True
      with src d \<open>i < length dest\<close> show ?thesis
        by (subst strcpy_from.simps) (simp add: upd_conv_take_nth_drop)
    next
      case False
      have "strcpy_from dest src i = strcpy_from (dest[i := src ! i]) src (Suc i)"
        using False src \<open>i < length dest\<close> by (subst strcpy_from.simps) simp
      then show ?thesis
        using "1.IH" False src d \<open>i < length dest\<close> "1.prems"
        by (simp add: take_Suc_conv_app_nth)
    qed
  qed
qed

lemma strcpy_eq:
  "terminated src \<Longrightarrow>
     strcpy dest src = (if length (cstr src) < length dest
       then Some (cstr src @ 0 # drop (Suc (length (cstr src))) dest) else None)"
  by (simp add: strcpy_def strcpy_from_eq)

lemma strncpy_pad_eq:
  "i \<le> n \<Longrightarrow> n \<le> length dest \<Longrightarrow>
     strncpy_pad dest n i = Some (take i dest @ replicate (n - i) 0 @ drop n dest)"
proof (induction dest n i rule: strncpy_pad.induct)
  case (1 dest n i)
  show ?case
  proof (cases "i < n")
    case True
    then have r: "replicate (n - i) (0 :: u8) = 0 # replicate (n - Suc i) 0"
      by (simp flip: replicate_Suc add: Suc_diff_Suc)
    from True "1.prems" have "strncpy_pad dest n i = strncpy_pad (dest[i := 0]) n (Suc i)"
      by (subst strncpy_pad.simps) simp
    then show ?thesis
      using "1.IH" "1.prems" True r by (simp add: take_Suc_conv_app_nth)
  next
    case False
    with "1.prems" show ?thesis by (subst strncpy_pad.simps) simp
  qed
qed

lemma strncpy_copy_eq:
  "i \<le> n \<Longrightarrow> n \<le> length dest \<Longrightarrow> i \<le> length src \<Longrightarrow>
   terminated (drop i src) \<or> n < length src \<Longrightarrow>
     strncpy_copy dest src n i =
       (let t = take (n - i) (cstr (drop i src))
        in Some (take i dest @ t @ drop (i + length t) dest, i + length t))"
proof (induction dest src n i rule: strncpy_copy.induct)
  case (1 dest src n i)
  have src: "i < length src" using "1.prems" by (cases "i = length src") auto
  then have d: "drop i src = src ! i # drop (Suc i) src" by (simp add: Cons_nth_drop_Suc)
  show ?case
  proof (cases "src ! i \<noteq> 0 \<and> i < n")
    case False
    with src d "1.prems" show ?thesis by (subst strncpy_copy.simps) auto
  next
    case True
    have "strncpy_copy dest src n i = strncpy_copy (dest[i := src ! i]) src n (Suc i)"
      using True src "1.prems" by (subst strncpy_copy.simps) simp
    moreover have "take (n - i) (cstr (drop i src)) = src ! i # take (n - Suc i) (cstr (drop (Suc i) src))"
      using True d by (simp add: take_Cons' Suc_diff_Suc)
    ultimately show ?thesis
      using "1.IH" True src d "1.prems" by (simp add: take_Suc_conv_app_nth Let_def)
  qed
qed

text \<open>\<open>strncpy\<close> writes exactly \<open>n\<close> cells: the text, cut at \<open>n\<close>, then NULs.\<close>

lemma strncpy_eq:
  assumes "n \<le> length dest" "terminated src \<or> n < length src"
  shows "strncpy dest src n =
     Some (take n (cstr src) @ replicate (n - length (cstr src)) 0 @ drop n dest)"
proof -
  define t where "t = take n (cstr src)"
  have t: "length t \<le> n" by (simp add: t_def)
  have "strncpy_copy dest src n 0 = Some (t @ drop (length t) dest, length t)"
    using assms by (subst strncpy_copy_eq) (auto simp: Let_def t_def)
  then have "strncpy dest src n = strncpy_pad (t @ drop (length t) dest) n (length t)"
    by (simp add: strncpy_def)
  also have "\<dots> = Some (t @ replicate (n - length t) 0 @ drop n dest)"
    using assms t by (subst strncpy_pad_eq) auto
  finally show ?thesis
    by (cases "n \<le> length (cstr src)") (auto simp: t_def)
qed

section \<open>Comparison\<close>

lemma strncmp_from_eq:
  assumes "n \<le> length s1 \<or> terminated (drop i s1)" "n \<le> length s2 \<or> terminated (drop i s2)"
    and "i \<le> n"
  shows "\<exists>r. strncmp_from s1 s2 n i = Some r \<and>
    (r = 0 \<longleftrightarrow> take (n - i) (cstr (drop i s1)) = take (n - i) (cstr (drop i s2)))"
  using assms
proof (induction s1 s2 n i rule: strncmp_from.induct)
  case (1 s1 s2 n i)
  show ?case
  proof (cases "i < n")
    case False
    then show ?thesis by (subst strncmp_from.simps) simp
  next
    case True
    have l: "i < length s1" "i < length s2"
      using "1.prems" True by (auto simp: not_le intro: ccontr)
    then have d: "drop i s1 = s1 ! i # drop (Suc i) s1" "drop i s2 = s2 ! i # drop (Suc i) s2"
      by (simp_all add: Cons_nth_drop_Suc)
    show ?thesis
    proof (cases "s1 ! i \<noteq> s2 ! i \<or> s1 ! i = 0")
      case True
      then have "strncmp_from s1 s2 n i = Some (sint (s1 ! i) - sint (s2 ! i))"
        using l \<open>i < n\<close> by (subst strncmp_from.simps) simp
      moreover have "sint (s1 ! i) - sint (s2 ! i) = 0 \<longleftrightarrow> s1 ! i = s2 ! i"
        by (auto intro: signed_word_eqI)
      ultimately show ?thesis
        using True d \<open>i < n\<close> by (auto simp: take_Cons')
    next
      case False
      then have e: "strncmp_from s1 s2 n i = strncmp_from s1 s2 n (Suc i)"
        using l \<open>i < n\<close> by (subst strncmp_from.simps) simp
      have "\<exists>r. strncmp_from s1 s2 n (i + 1) = Some r \<and>
        (r = 0 \<longleftrightarrow> take (n - (i + 1)) (cstr (drop (i + 1) s1)) = take (n - (i + 1)) (cstr (drop (i + 1) s2)))"
        using False l \<open>i < n\<close> "1.prems" d by (intro "1.IH") auto
      then show ?thesis
        using False d \<open>i < n\<close> e by (auto simp: take_Cons')
    qed
  qed
qed

lemma strncmp_total_iff:
  assumes "n \<le> length s1 \<or> terminated s1" "n \<le> length s2 \<or> terminated s2"
  shows "\<exists>r. strncmp s1 s2 n = Some r \<and> (r = 0 \<longleftrightarrow> take n (cstr s1) = take n (cstr s2))"
  using strncmp_from_eq [of n s1 0 s2] assms by (simp add: strncmp_def)

section \<open>Reversal\<close>

lemma strrev_loop_eq:
  "strrev_loop (p @ m @ q) (int (length p)) (int (length p) + int (length m) - 1) = p @ rev m @ q"
proof (induction "length m" arbitrary: p m q rule: less_induct)
  case less
  show ?case
  proof (cases "length m < 2")
    case True
    then have "rev m = m" by (cases m) auto
    with True show ?thesis by (subst strrev_loop.simps) auto
  next
    case False
    then obtain x m' y where m: "m = x # m' @ [y]"
      by (metis One_nat_def append_butlast_last_id length_Cons list.exhaust list.size(3) lessI
          less_2_cases_iff zero_less_numeral)
    let ?b = "int (length p)" and ?e = "int (length p) + int (length m) - 1"
    have ix: "nat ?b = length p" "nat ?e = length p + Suc (length m')" using m by simp_all
    have "strrev_loop (p @ m @ q) ?b ?e =
        strrev_loop ((p @ [y]) @ m' @ (x # q)) (int (length (p @ [y])))
          (int (length (p @ [y])) + int (length m') - 1)"
      using m ix by (subst strrev_loop.simps) (simp add: nth_append list_update_append Let_def algebra_simps)
    also have "\<dots> = (p @ [y]) @ rev m' @ (x # q)"
      by (rule less.hyps) (simp add: m)
    finally show ?thesis by (simp add: m)
  qed
qed

lemma strrev_eq:
  assumes "terminated s"
  shows "strrev s = Some (rev (cstr s) @ drop (length (cstr s)) s)"
proof -
  have s: "cstr s @ drop (length (cstr s)) s = s"
    by (metis append_take_drop_id cstr_def takeWhile_eq_take)
  have "strrev_loop (cstr s @ drop (length (cstr s)) s) 0 (int (length (cstr s)) - 1) =
      rev (cstr s) @ drop (length (cstr s)) s"
    using strrev_loop_eq [of "[]" "cstr s"] by simp
  with assms s show ?thesis by (simp add: strrev_def strlen_eq)
qed

section \<open>Numbers\<close>

text \<open>The digits of a number, last one first, and what a digit string denotes.\<close>

fun digits_rev :: "nat \<Rightarrow> nat \<Rightarrow> nat list" where
  "digits_rev r v = (if v = 0 \<or> r < 2 then [] else v mod r # digits_rev r (v div r))"

declare digits_rev.simps [simp del]

definition value_of :: "nat \<Rightarrow> nat list \<Rightarrow> nat" where
  "value_of r ds = foldl (\<lambda>a d. a * r + d) 0 ds"

lemma value_of_snoc: "value_of r (ds @ [d]) = value_of r ds * r + d"
  by (simp add: value_of_def)

lemma value_digits: "2 \<le> r \<Longrightarrow> value_of r (rev (digits_rev r v)) = v"
proof (induction r v rule: digits_rev.induct)
  case (1 r v)
  then show ?case
    by (cases "v = 0") (simp_all add: digits_rev.simps [of r] value_of_snoc, simp add: value_of_def)
qed

lemma digits_bound: "d \<in> set (digits_rev r v) \<Longrightarrow> d < r"
proof (induction r v rule: digits_rev.induct)
  case (1 r v)
  then show ?case by (cases "v = 0 \<or> r < 2") (auto simp: digits_rev.simps [of r v])
qed

lemma digits_length: "v < r ^ k \<Longrightarrow> length (digits_rev r v) \<le> k"
proof (induction k arbitrary: v)
  case 0
  then show ?case by (simp add: digits_rev.simps)
next
  case (Suc k)
  show ?case
  proof (cases "v = 0 \<or> r < 2")
    case True
    then show ?thesis by (simp add: digits_rev.simps)
  next
    case False
    then have "v div r < r ^ k" using Suc.prems by (simp add: less_mult_imp_div_less mult.commute)
    then have "length (digits_rev r (v div r)) \<le> k" by (rule Suc.IH)
    with False show ?thesis by (simp add: digits_rev.simps [of r v])
  qed
qed

abbreviation digit_char :: "nat \<Rightarrow> u8" where
  "digit_char d \<equiv> itoa_lookup ! d"

lemma length_itoa_lookup [simp]: "length itoa_lookup = 37"
  by (simp add: itoa_lookup_def)

lemma itoa_loop_eq:
  assumes "2 \<le> unat radix" "unat radix \<le> 36"
    and "p + length (digits_rev (unat radix) (unat v)) \<le> length buf"
  shows "itoa_loop v radix buf p =
    Some (take p buf @ map digit_char (digits_rev (unat radix) (unat v)) @
            drop (p + length (digits_rev (unat radix) (unat v))) buf,
          p + length (digits_rev (unat radix) (unat v)))"
  using assms
proof (induction v radix buf p rule: itoa_loop.induct)
  case (1 v radix buf p)
  show ?case
  proof (cases "v = 0")
    case True
    then show ?thesis by (subst itoa_loop.simps) (simp add: digits_rev.simps)
  next
    case False
    then have nz: "unat v \<noteq> 0" and v: "v > 0" by (simp_all add: word_neq_0_conv unat_eq_0)
    have r0: "radix \<noteq> 0" using "1.prems" by auto
    have d: "digits_rev (unat radix) (unat v) =
        unat (v mod radix) # digits_rev (unat radix) (unat (v div radix))"
      using nz "1.prems" by (subst digits_rev.simps) (simp add: unat_mod unat_div)
    have "unat v mod unat radix < unat radix" using "1.prems" by (intro mod_less_divisor) simp
    then have m: "unat (v mod radix) < 37" unfolding unat_mod using "1.prems"(2) by linarith
    have p: "p < length buf" using "1.prems"(3) d by simp
    have "itoa_loop v radix buf p =
        itoa_loop (v div radix) radix (buf[p := itoa_lookup ! unat (v mod radix)]) (p + 1)"
      using v r0 m p by (subst itoa_loop.simps) simp
    also have "\<dots> = Some (take (p + 1) (buf[p := itoa_lookup ! unat (v mod radix)]) @
        map digit_char (digits_rev (unat radix) (unat (v div radix))) @
        drop (p + 1 + length (digits_rev (unat radix) (unat (v div radix)))) (buf[p := itoa_lookup ! unat (v mod radix)]),
        p + 1 + length (digits_rev (unat radix) (unat (v div radix))))"
      using "1.prems" v r0 m p d by (intro "1.IH") auto
    finally show ?thesis using p by (simp add: d take_Suc_conv_app_nth)
  qed
qed

text \<open>The digits are the ASCII digits and capitals, none of them NUL.\<close>

lemma digit_char_ascii: "d < 36 \<Longrightarrow> unat (digit_char d) = (if d < 10 then 48 + d else 55 + d)"
proof -
  have "\<forall>d \<in> set [0..<36]. unat (digit_char d) = (if d < 10 then 48 + d else 55 + d)"
    by (simp add: itoa_lookup_def upt_rec)
  then show "d < 36 \<Longrightarrow> ?thesis" by simp
qed

lemma digit_char_nonzero: "d < 36 \<Longrightarrow> digit_char d \<noteq> 0"
  using digit_char_ascii [of d] by (cases "d < 10") auto

definition itoa_text :: "nat \<Rightarrow> nat \<Rightarrow> u8 list" where
  "itoa_text r v = (if v = 0 then [48] else map digit_char (rev (digits_rev r v)))"

lemma itoa_text_nonzero: "2 \<le> r \<Longrightarrow> r \<le> 36 \<Longrightarrow> 0 \<notin> set (itoa_text r v)"
proof
  assume r: "2 \<le> r" "r \<le> 36" and "0 \<in> set (itoa_text r v)"
  then obtain d where "d \<in> set (digits_rev r v)" "digit_char d = 0"
    by (auto simp: itoa_text_def split: if_splits)
  with r digits_bound [of d r v] digit_char_nonzero [of d] show False by simp
qed

lemma itoa_eq:
  assumes "2 \<le> unat radix" "unat radix \<le> 36" "length (itoa_text (unat radix) (unat v)) < length buf"
  shows "itoa v buf radix =
    Some (itoa_text (unat radix) (unat v) @ 0 # drop (Suc (length (itoa_text (unat radix) (unat v)))) buf)"
proof (cases "v = 0")
  case True
  with assms obtain a b rest where "buf = a # b # rest"
    by (cases buf; cases "tl buf") (auto simp: itoa_text_def)
  with True show ?thesis by (simp add: itoa_def itoa_text_def)
next
  case False
  let ?ds = "digits_rev (unat radix) (unat v)"
  let ?cs = "map digit_char ?ds"
  have nz: "unat v \<noteq> 0" using False by (simp add: unat_eq_0)
  have len: "length ?ds < length buf" using assms(3) nz by (simp add: itoa_text_def)
  have c0: "0 \<notin> set ?cs"
    using itoa_text_nonzero [of "unat radix" "unat v"] assms nz by (simp add: itoa_text_def)
  have loop: "itoa_loop v radix buf 0 = Some (?cs @ drop (length ?ds) buf, length ?ds)"
    using itoa_loop_eq [of radix 0 v buf] assms len by simp
  have "(?cs @ drop (length ?ds) buf)[length ?ds := 0] = ?cs @ 0 # drop (Suc (length ?ds)) buf"
    using len by (simp add: list_update_append flip: Cons_nth_drop_Suc)
  then have "itoa v buf radix = strrev (?cs @ 0 # drop (Suc (length ?ds)) buf)"
    using False loop len by (simp add: itoa_def)
  also have "\<dots> = Some (rev ?cs @ 0 # drop (Suc (length ?ds)) buf)"
    using c0 by (simp add: strrev_eq terminated_def cstr_append cstr_no_zero)
  finally show ?thesis using nz by (simp add: itoa_text_def rev_map)
qed

lemma itoa_text_length: "2 \<le> r \<Longrightarrow> v < r ^ k \<Longrightarrow> 0 < k \<Longrightarrow> length (itoa_text r v) \<le> k"
  using digits_length [of v r k] by (simp add: itoa_text_def)

end
