(* ===== verification/Console.thy ===== *)
theory Console
  imports LibMemory LibStrings
begin

text \<open>
  The text console of \<^verbatim>\<open>lib.c\<close>: \<open>clear\<close>, \<open>putc\<close>, \<open>puts\<close>, \<open>printf\<close>, \<open>set_cursor\<close>,
  \<open>update_cursor_position\<close>, \<open>shift_video_mem_up\<close>, \<open>clear_text_line\<close> and \<open>backspace_called\<close>.
  Every byte goes through the page tables, so a write past the one mapped video page faults.
  Each operation is refined to what it does to the page behind the video address.
\<close>

section \<open>Operations\<close>

definition NUM_COLS :: int where "NUM_COLS = 80"
definition NUM_ROWS :: int where "NUM_ROWS = 25"
definition ATTRIB :: u8 where "ATTRIB = 0x7"
definition CURSOR_HIGH_REG :: u8 where "CURSOR_HIGH_REG = 0x0E"
definition CURSOR_LOW_REG :: u8 where "CURSOR_LOW_REG = 0x0F"
definition VGA_ADDR_REG :: u16 where "VGA_ADDR_REG = 0x3D4"
definition VGA_DATA_REG :: u16 where "VGA_DATA_REG = 0x3D5"
definition SPACE_ASCII :: u8 where "SPACE_ASCII = 0x20"

lemmas console_consts = NUM_COLS_def NUM_ROWS_def ATTRIB_def CURSOR_HIGH_REG_def
  CURSOR_LOW_REG_def VGA_ADDR_REG_def VGA_DATA_REG_def SPACE_ASCII_def

definition update_cursor_position :: "u8 \<Rightarrow> u8 \<Rightarrow> machine \<Rightarrow> machine" where
  "update_cursor_position x y s =
     (let offset = (of_int ((NUM_COLS * uint y + uint x) mod (NUM_COLS * NUM_ROWS)) :: u16);
          s = outb CURSOR_LOW_REG VGA_ADDR_REG s;
          s = outb (ucast (offset AND 0x00FF)) VGA_DATA_REG s;
          s = outb CURSOR_HIGH_REG VGA_ADDR_REG s
      in outb (ucast (drop_bit 8 (offset AND 0xFF00))) VGA_DATA_REG s)"

text \<open>The last lines of \<open>putc\<close> and \<open>set_cursor\<close>: the hardware cursor follows the active terminal.\<close>

definition show_cursor :: "machine \<Rightarrow> machine" where
  "show_cursor s =
     (if active_terminal s = scheduled_terminal s
      then update_cursor_position (of_int (screen_x s)) (of_int (screen_y s)) s else s)"

definition set_cursor :: "u8 \<Rightarrow> u8 \<Rightarrow> machine \<Rightarrow> machine" where
  "set_cursor x y s = show_cursor (s\<lparr>screen_x := uint x, screen_y := uint y\<rparr>)"

definition clear :: "machine \<Rightarrow> machine option" where
  "clear s =
     for_each [0..<2000]
       (\<lambda>i s. do { s \<leftarrow> kstore (VIDEO + of_nat (2 * i)) SPACE_ASCII s;
                   kstore (VIDEO + of_nat (2 * i + 1)) ATTRIB s }) s"

definition test_interrupts :: "machine \<Rightarrow> machine option" where
  "test_interrupts s =
     for_each [0..<2000]
       (\<lambda>i s. do { v \<leftarrow> kload s (VIDEO + of_nat (2 * i)); kstore (VIDEO + of_nat (2 * i)) (v + 1) s }) s"

text \<open>
  \<open>screen_x\<close> and \<open>screen_y\<close> are never negative, so C's \<open>/\<close> and \<open>%\<close> are \<open>div\<close> and \<open>mod\<close>.
\<close>

definition putc :: "u8 \<Rightarrow> machine \<Rightarrow> machine option" where
  "putc c s =
     do {
       s \<leftarrow> (if c = 10 \<or> c = 13
             then Some (s\<lparr>screen_y := screen_y s + 1, screen_x := 0\<rparr>)
             else do {
               let p = VIDEO + of_int (2 * (NUM_COLS * screen_y s + screen_x s));
               s \<leftarrow> kstore p c s;
               s \<leftarrow> kstore (p + 1) ATTRIB s;
               let s = s\<lparr>screen_x := screen_x s + 1\<rparr>;
               let s = s\<lparr>screen_y := (screen_y s + screen_x s div NUM_COLS) mod NUM_ROWS\<rparr>;
               Some (s\<lparr>screen_x := screen_x s mod NUM_COLS\<rparr>)
             });
       Some (show_cursor s)
     }"

fun puts :: "u8 list \<Rightarrow> machine \<Rightarrow> (int \<times> machine) option" where
  "puts [] s = None"
| "puts (c # cs) s =
     (if c = 0 then Some (0, s)
      else do { s \<leftarrow> putc c s; (n, s) \<leftarrow> puts cs s; Some (n + 1, s) })"

text \<open>Rows are copied byte by byte, upwards through the screen, then the last row is blanked.\<close>

definition copy_row :: "nat \<Rightarrow> machine \<Rightarrow> machine option" where
  "copy_row row s =
     for_each [0..<160]
       (\<lambda>i s. do { v \<leftarrow> kload s (VIDEO + of_nat (160 * (row + 1) + i));
                   kstore (VIDEO + of_nat (160 * row + i)) v s }) s"

definition fill_row :: "u8 \<Rightarrow> nat \<Rightarrow> machine \<Rightarrow> machine option" where
  "fill_row ch row s =
     for_each [0..<160]
       (\<lambda>i s. kstore (VIDEO + of_nat (160 * row + i)) (if odd i then ATTRIB else ch) s) s"

definition shift_video_mem_up :: "u8 \<Rightarrow> u8 \<Rightarrow> machine \<Rightarrow> (int \<times> machine) option" where
  "shift_video_mem_up start_row end_row s =
     (if end_row < start_row then Some (-1, s)
      else
        let end_row = (if uint end_row > NUM_ROWS - 1 then of_int (NUM_ROWS - 1) else end_row)
        in do {
          s \<leftarrow> for_each [unat start_row..<unat end_row] copy_row s;
          s \<leftarrow> fill_row 0 (unat end_row) s;
          Some (0, s)
        })"

definition clear_text_line :: "u8 \<Rightarrow> machine \<Rightarrow> machine option" where
  "clear_text_line y s = fill_row SPACE_ASCII (unat y) s"

definition backspace_called :: "machine \<Rightarrow> machine option" where
  "backspace_called s =
     (let prev_x = of_int (screen_x s); prev_y = of_int (screen_y s) in
      if screen_x s = 0 \<and> screen_y s = 0 then Some s
      else do {
        s \<leftarrow> (if screen_x s = 0
              then putc SPACE_ASCII (set_cursor (of_int (NUM_COLS - 1)) (of_int (screen_y s - 1)) s)
              else putc SPACE_ASCII (set_cursor (of_int (screen_x s - 1)) (of_int (screen_y s)) s));
        Some (set_cursor prev_x prev_y s)
      })"

definition get_screen_x :: "machine \<Rightarrow> int" where
  "get_screen_x s = screen_x s"

definition get_screen_y :: "machine \<Rightarrow> int" where
  "get_screen_y s = screen_y s"

section \<open>The page behind the video address\<close>

definition vpage :: "machine \<Rightarrow> nat \<Rightarrow> u8" where
  "vpage s = frames s (video_frame s)"

definition with_page :: "(nat \<Rightarrow> u8) \<Rightarrow> machine \<Rightarrow> machine" where
  "with_page p s = s\<lparr>frames := (frames s)(video_frame s := p)\<rparr>"

lemma poke_with_page: "poke (video_frame s) k v s = with_page ((vpage s)(k := v)) s"
  by (simp add: poke_def with_page_def vpage_def)

lemma with_page_simps [simp]:
  "video_frame (with_page p s) = video_frame s"
  "vpage (with_page p s) = p"
  "with_page q (with_page p s) = with_page q s"
  "with_page (vpage s) s = s"
  "paging_wf (with_page p s) = paging_wf s"
  "screen_x (with_page p s) = screen_x s"
  "screen_y (with_page p s) = screen_y s"
  by (simp_all add: vpage_def with_page_def video_frame_def paging_wf_def tables_linked_def program_frame_def)

lemma kstore_vpage:
  "paging_wf s \<Longrightarrow> k < 4096 \<Longrightarrow> kstore (VIDEO + of_nat k) v s = Some (with_page ((vpage s)(k := v)) s)"
  by (simp add: kstore_video poke_with_page)

lemma kload_vpage: "paging_wf s \<Longrightarrow> k < 4096 \<Longrightarrow> kload s (VIDEO + of_nat k) = Some (vpage s k)"
  by (simp add: kload_video vpage_def)

lemma with_page_same: "(\<And>k. p k = vpage s k) \<Longrightarrow> with_page p s = s"
  using with_page_simps(4) [of s] by (metis ext)

section \<open>Clearing and scrolling\<close>

definition clear_page :: "(nat \<Rightarrow> u8) \<Rightarrow> nat \<Rightarrow> u8" where
  "clear_page p k = (if k < 4000 then if even k then SPACE_ASCII else ATTRIB else p k)"

definition row_filled :: "u8 \<Rightarrow> nat \<Rightarrow> (nat \<Rightarrow> u8) \<Rightarrow> nat \<Rightarrow> u8" where
  "row_filled ch row p k =
     (if 160 * row \<le> k \<and> k < 160 * row + 160 then if odd k then ATTRIB else ch else p k)"

definition rows_shifted :: "nat \<Rightarrow> nat \<Rightarrow> (nat \<Rightarrow> u8) \<Rightarrow> nat \<Rightarrow> u8" where
  "rows_shifted a b p k = (if 160 * a \<le> k \<and> k < 160 * b then p (k + 160) else p k)"

lemma clear_loop:
  assumes "paging_wf s" "n \<le> 2000"
  shows "for_each [0..<n]
     (\<lambda>i s. do { s \<leftarrow> kstore (VIDEO + of_nat (2 * i)) SPACE_ASCII s;
                 kstore (VIDEO + of_nat (2 * i + 1)) ATTRIB s }) s =
     Some (with_page (\<lambda>k. if k < 2 * n then if even k then SPACE_ASCII else ATTRIB else vpage s k) s)"
  using assms(2)
proof (induction n)
  case (Suc n)
  have "(\<lambda>k. if k < 2 * n then if even k then SPACE_ASCII else ATTRIB else vpage s k)
      (2 * n := SPACE_ASCII, 2 * n + 1 := ATTRIB) =
      (\<lambda>k. if k < 2 * Suc n then if even k then SPACE_ASCII else ATTRIB else vpage s k)"
    by (auto simp: fun_eq_iff) presburger?
  then show ?case
    using Suc assms(1)
    by (simp add: for_each_append kstore_vpage del: of_nat_mult of_nat_add of_nat_Suc)
qed simp

lemma clear_eq:
  assumes "paging_wf s" shows "clear s = Some (with_page (clear_page (vpage s)) s)"
proof -
  have "(\<lambda>k. if k < 2 * 2000 then if even k then SPACE_ASCII else ATTRIB else vpage s k) =
      clear_page (vpage s)"
    by (auto simp: clear_page_def fun_eq_iff)
  then show ?thesis using clear_loop [OF assms, of 2000] by (simp add: clear_def)
qed

lemma fill_row_eq:
  assumes "paging_wf s" "160 * row + 160 \<le> 4096"
  shows "fill_row ch row s = Some (with_page (row_filled ch row (vpage s)) s)"
proof -
  have "n \<le> 160 \<Longrightarrow>
    for_each [0..<n] (\<lambda>i s. kstore (VIDEO + of_nat (160 * row + i)) (if odd i then ATTRIB else ch) s) s =
     Some (with_page (\<lambda>k. if 160 * row \<le> k \<and> k < 160 * row + n then if odd k then ATTRIB else ch else vpage s k) s)"
    for n
  proof (induction n)
    case (Suc n)
    have "(\<lambda>k. if 160 * row \<le> k \<and> k < 160 * row + n then if odd k then ATTRIB else ch else vpage s k)
        (160 * row + n := if odd n then ATTRIB else ch) =
        (\<lambda>k. if 160 * row \<le> k \<and> k < 160 * row + Suc n then if odd k then ATTRIB else ch else vpage s k)"
      by (auto simp: fun_eq_iff)
    then show ?case
      using Suc assms by (simp add: for_each_append kstore_vpage del: of_nat_mult of_nat_add of_nat_Suc)
  qed (auto intro!: with_page_same [symmetric])
  moreover have "(\<lambda>k. if 160 * row \<le> k \<and> k < 160 * row + 160 then if odd k then ATTRIB else ch else vpage s k) =
      row_filled ch row (vpage s)"
    by (simp add: row_filled_def fun_eq_iff)
  ultimately show ?thesis by (simp add: fill_row_def del: of_nat_mult of_nat_add of_nat_Suc)
qed

lemma copy_row_eq:
  assumes "paging_wf s" "160 * row + 320 \<le> 4096"
  shows "copy_row row s = Some (with_page (rows_shifted row (row + 1) (vpage s)) s)"
proof -
  have "n \<le> 160 \<Longrightarrow>
    for_each [0..<n]
       (\<lambda>i s. do { v \<leftarrow> kload s (VIDEO + of_nat (160 * (row + 1) + i));
                   kstore (VIDEO + of_nat (160 * row + i)) v s }) s =
     Some (with_page (\<lambda>k. if 160 * row \<le> k \<and> k < 160 * row + n then vpage s (k + 160) else vpage s k) s)"
    for n
  proof (induction n)
    case (Suc n)
    have "(\<lambda>k. if 160 * row \<le> k \<and> k < 160 * row + n then vpage s (k + 160) else vpage s k)
        (160 * row + n := vpage s (160 + 160 * row + n)) =
        (\<lambda>k. if 160 * row \<le> k \<and> k < 160 * row + Suc n then vpage s (k + 160) else vpage s k)"
      by (auto simp: fun_eq_iff intro!: arg_cong [where f = "vpage s"])
    then show ?case
      using Suc assms
      by (simp add: for_each_append kstore_vpage kload_vpage del: of_nat_mult of_nat_add of_nat_Suc)
  qed (auto intro!: with_page_same [symmetric])
  moreover have "(\<lambda>k. if 160 * row \<le> k \<and> k < 160 * row + 160 then vpage s (k + 160) else vpage s k) =
      rows_shifted row (row + 1) (vpage s)"
    by (simp add: rows_shifted_def fun_eq_iff)
  ultimately show ?thesis by (simp add: copy_row_def del: of_nat_mult of_nat_add of_nat_Suc)
qed

lemma copy_rows_eq:
  assumes "paging_wf s" "b \<le> 24"
  shows "for_each [a..<b] copy_row s = Some (with_page (rows_shifted a b (vpage s)) s)"
  using assms(2)
proof (induction b)
  case 0
  then show ?case by (simp add: rows_shifted_def)
next
  case (Suc b)
  show ?case
  proof (cases "a \<le> b")
    case True
    have "rows_shifted b (b + 1) (rows_shifted a b (vpage s)) = rows_shifted a (Suc b) (vpage s)"
      using True by (auto simp: rows_shifted_def fun_eq_iff)
    then show ?thesis using True Suc assms(1) by (simp add: for_each_append copy_row_eq)
  next
    case False
    then have "rows_shifted a (Suc b) (vpage s) = vpage s" by (auto simp: rows_shifted_def fun_eq_iff)
    with False show ?thesis by simp
  qed
qed

definition scrolled :: "nat \<Rightarrow> nat \<Rightarrow> (nat \<Rightarrow> u8) \<Rightarrow> nat \<Rightarrow> u8" where
  "scrolled a b p = row_filled 0 b (rows_shifted a b p)"

lemma shift_video_mem_up_eq:
  assumes "paging_wf s"
  shows "shift_video_mem_up a b s =
    (if b < a then Some (-1, s)
     else Some (0, with_page (scrolled (unat a) (min (unat b) 24) (vpage s)) s))"
proof -
  have e: "unat (if uint b > NUM_ROWS - 1 then of_int (NUM_ROWS - 1) else b) = min (unat b) 24"
    by (auto simp: NUM_ROWS_def simp flip: uint_nat nat_uint_eq)
  have m: "min (unat b) 24 \<le> 24" by simp
  show ?thesis
    using assms copy_rows_eq [OF assms m, of "unat a"]
    by (simp add: shift_video_mem_up_def Let_def e fill_row_eq scrolled_def)
qed

section \<open>Printing\<close>

text \<open>
  The console as a page and a cursor, and one character on it. Only the log of port accesses
  (the hardware cursor) lies outside this view.
\<close>

type_synonym console = "(nat \<Rightarrow> u8) \<times> nat \<times> nat"

definition con :: "machine \<Rightarrow> console" where
  "con s = (vpage s, nat (screen_x s), nat (screen_y s))"

definition cursor_nonneg :: "machine \<Rightarrow> bool" where
  "cursor_nonneg s \<longleftrightarrow> 0 \<le> screen_x s \<and> 0 \<le> screen_y s"

fun con_putc :: "u8 \<Rightarrow> console \<Rightarrow> console" where
  "con_putc c (p, x, y) =
     (if c = 10 \<or> c = 13 then (p, 0, y + 1)
      else (p(2 * (80 * y + x) := c, 2 * (80 * y + x) + 1 := ATTRIB),
            (x + 1) mod 80, (y + (x + 1) div 80) mod 25))"

definition set_con :: "console \<Rightarrow> machine \<Rightarrow> machine" where
  "set_con c s = (case c of (p, x, y) \<Rightarrow> with_page p (s\<lparr>screen_y := int y, screen_x := int x\<rparr>))"

fun con_room :: "u8 \<Rightarrow> console \<Rightarrow> bool" where
  "con_room c (p, x, y) \<longleftrightarrow> c = 10 \<or> c = 13 \<or> 80 * y + x < 2048"

text \<open>The machine with another console and another log: what printing can change.\<close>

definition printed :: "machine \<Rightarrow> console \<Rightarrow> machine \<Rightarrow> bool" where
  "printed s c s' \<longleftrightarrow> (\<exists>l. s' = (set_con c s)\<lparr>io_log := l\<rparr>)"

lemma vpage_upd [simp]:
  "vpage (s\<lparr>screen_x := x\<rparr>) = vpage s" "vpage (s\<lparr>screen_y := x\<rparr>) = vpage s"
  "vpage (s\<lparr>io_log := l\<rparr>) = vpage s"
  by (simp_all add: vpage_def video_frame_def)

lemma paging_wf_upd [simp]:
  "paging_wf (s\<lparr>screen_x := x\<rparr>) = paging_wf s" "paging_wf (s\<lparr>screen_y := x\<rparr>) = paging_wf s"
  "paging_wf (s\<lparr>io_log := l\<rparr>) = paging_wf s"
  by (simp_all add: paging_wf_def tables_linked_def program_frame_def video_frame_def)

lemma show_cursor_log: "\<exists>l. show_cursor s = s\<lparr>io_log := l\<rparr>"
proof (cases "active_terminal s = scheduled_terminal s")
  case True
  then show ?thesis
    by (simp add: show_cursor_def update_cursor_position_def Let_def outb_def) blast
next
  case False
  then show ?thesis by (intro exI [of _ "io_log s"]) (simp add: show_cursor_def)
qed

lemma putc_eq:
  assumes "paging_wf s" "cursor_nonneg s" "con_room c (con s)"
  shows "putc c s = Some (show_cursor (set_con (con_putc c (con s)) s))"
proof (cases "c = 10 \<or> c = 13")
  case True
  have "with_page (vpage s) (s\<lparr>screen_y := 1 + screen_y s, screen_x := 0\<rparr>) =
      s\<lparr>screen_y := 1 + screen_y s, screen_x := 0\<rparr>"
    by (intro with_page_same) simp
  with True assms(2) show ?thesis
    by (simp add: putc_def con_def set_con_def cursor_nonneg_def add.commute)
next
  case False
  define p where "p = 2 * (80 * nat (screen_y s) + nat (screen_x s))"
  have p: "p < 4096" "Suc p < 4096" using assms(3) False by (simp_all add: con_def p_def)
  have i: "2 * (80 * screen_y s + screen_x s) = int p"
    using assms(2) by (simp add: cursor_nonneg_def p_def)
  have a: "VIDEO + of_int (2 * (80 * screen_y s + screen_x s)) = VIDEO + of_nat p"
    unfolding i by (simp only: of_int_of_nat_eq)
  have a1: "VIDEO + of_nat p + 1 = VIDEO + of_nat (Suc p)" by simp
  have st: "kstore (VIDEO + of_nat p) c s = Some (with_page ((vpage s)(p := c)) s)"
    "kstore (VIDEO + of_nat (Suc p)) ATTRIB (with_page ((vpage s)(p := c)) s) =
       Some (with_page ((vpage s)(p := c, Suc p := ATTRIB)) s)"
    using p assms(1) by (simp_all add: kstore_vpage del: of_nat_Suc)
  have xy: "(screen_x s + 1) mod 80 = int ((nat (screen_x s) + 1) mod 80)"
    "(screen_y s + (screen_x s + 1) div 80) mod 25 = int ((nat (screen_y s) + (nat (screen_x s) + 1) div 80) mod 25)"
    using assms(2) by (simp_all add: cursor_nonneg_def zmod_int zdiv_int add.commute)
  let ?q = "(vpage s)(p := c, Suc p := ATTRIB)"
  have "putc c s = Some (show_cursor
      ((with_page ?q s)\<lparr>screen_y := (screen_y s + (screen_x s + 1) div 80) mod 25,
         screen_x := (screen_x s + 1) mod 80\<rparr>))"
    unfolding putc_def NUM_COLS_def NUM_ROWS_def Let_def a a1 using False
    by (simp add: st del: of_nat_Suc)
  also have "(with_page ?q s)\<lparr>screen_y := (screen_y s + (screen_x s + 1) div 80) mod 25,
         screen_x := (screen_x s + 1) mod 80\<rparr> = set_con (con_putc c (con s)) s"
    unfolding xy using False
    by (simp add: con_def set_con_def with_page_def video_frame_def p_def del: of_nat_mod of_nat_Suc of_nat_add of_nat_div)
  finally show ?thesis .
qed

lemma putc_fault:
  assumes "paging_wf s" "cursor_nonneg s" "c \<noteq> 10" "c \<noteq> 13"
    and "2048 \<le> 80 * screen_y s + screen_x s" "80 * screen_y s + screen_x s < 4096"
  shows "putc c s = None"
proof -
  define p where "p = nat (2 * (80 * screen_y s + screen_x s))"
  have "2 * (80 * screen_y s + screen_x s) = int p" "4096 \<le> p" "p < 8192"
    using assms(5,6) by (simp_all add: p_def)
  then show ?thesis
    using assms by (simp add: putc_def NUM_COLS_def Let_def)
qed

lemma con_putc_tuple: "\<exists>p x y. con_putc c k = (p, x, y)"
  by (cases "con_putc c k") auto

lemma con_set_con: "con ((set_con k s)\<lparr>io_log := l\<rparr>) = k"
  by (cases k) (simp add: con_def set_con_def)

lemma set_con_wf [simp]:
  "paging_wf (set_con k s) = paging_wf s"
  "cursor_nonneg (set_con k s)"
  "cursor_nonneg (s\<lparr>io_log := l\<rparr>) = cursor_nonneg s"
  by (cases k; simp add: set_con_def cursor_nonneg_def)+

lemma set_con_set_con: "set_con k' ((set_con k s)\<lparr>io_log := l\<rparr>) = (set_con k' s)\<lparr>io_log := l\<rparr>"
  by (cases k; cases k') (simp add: set_con_def with_page_def video_frame_def)

lemma printed_con: "printed s k s' \<Longrightarrow> con s' = k"
  by (auto simp: printed_def con_set_con)

lemma printed_wf: "printed s k s' \<Longrightarrow> paging_wf s' = paging_wf s \<and> cursor_nonneg s'"
  by (auto simp: printed_def)

lemma printed_trans: "printed s k s' \<Longrightarrow> printed s' k' s'' \<Longrightarrow> printed s k' s''"
  by (auto simp: printed_def set_con_set_con)

lemma printed_refl: "cursor_nonneg s \<Longrightarrow> printed s (con s) s"
proof -
  assume "cursor_nonneg s"
  then have "set_con (con s) s = s"
    by (simp add: set_con_def con_def cursor_nonneg_def with_page_same)
  then show ?thesis unfolding printed_def by (intro exI [of _ "io_log s"]) simp
qed

lemma putc_printed:
  assumes "paging_wf s" "cursor_nonneg s" "con_room c (con s)"
  shows "\<exists>s'. putc c s = Some s' \<and> printed s (con_putc c (con s)) s'"
  using putc_eq [OF assms] show_cursor_log [of "set_con (con_putc c (con s)) s"]
  by (auto simp: printed_def)

text \<open>A string: every character in turn, as long as each finds room on the page.\<close>

fun con_fits :: "u8 list \<Rightarrow> console \<Rightarrow> bool" where
  "con_fits [] k \<longleftrightarrow> True"
| "con_fits (c # cs) k \<longleftrightarrow> con_room c k \<and> con_fits cs (con_putc c k)"

lemma putc_all_printed:
  assumes "paging_wf s" "cursor_nonneg s" "con_fits cs (con s)"
  shows "\<exists>s'. for_each cs putc s = Some s' \<and> printed s (fold con_putc cs (con s)) s'"
  using assms
proof (induction cs arbitrary: s)
  case Nil
  then show ?case by (simp add: printed_refl)
next
  case (Cons c cs)
  obtain s1 where s1: "putc c s = Some s1" "printed s (con_putc c (con s)) s1"
    using putc_printed Cons.prems by fastforce
  have "con_fits cs (con s1)" using Cons.prems(3) printed_con [OF s1(2)] by simp
  then obtain s' where "for_each cs putc s1 = Some s'" "printed s1 (fold con_putc cs (con s1)) s'"
    using Cons.IH [of s1] printed_wf [OF s1(2)] Cons.prems(1) by blast
  then show ?case
    using s1 printed_trans [OF s1(2)] printed_con [OF s1(2)] by auto
qed

lemma puts_eq:
  "puts b s = (if terminated b
     then case for_each (cstr b) putc s of None \<Rightarrow> None | Some s' \<Rightarrow> Some (int (length (cstr b)), s')
     else if for_each b putc s = None then None else None)"
  by (induction b arbitrary: s) (auto split: option.splits Option.bind_splits)

lemma puts_terminated:
  "terminated b \<Longrightarrow>
     puts b s = map_option (\<lambda>s'. (int (length (cstr b)), s')) (for_each (cstr b) putc s)"
  by (simp add: puts_eq split: option.split)

text \<open>On the screen, text with no more line ends than rows below the cursor always fits.\<close>

definition newlines :: "u8 list \<Rightarrow> nat" where
  "newlines cs = length (filter (\<lambda>c. c = 10 \<or> c = 13) cs)"

lemma con_fits_screen:
  "x < 80 \<Longrightarrow> y + newlines cs + (x + length cs) div 80 < 25 \<Longrightarrow> con_fits cs (p, x, y)"
proof (induction cs arbitrary: p x y)
  case (Cons c cs)
  show ?case
  proof (cases "c = 10 \<or> c = 13")
    case True
    have "length cs div 80 \<le> (x + length (c # cs)) div 80" by (intro div_le_mono) simp
    then have "con_fits cs (p, 0, Suc y)"
      using Cons.prems True by (intro Cons.IH) (auto simp: newlines_def)
    with True show ?thesis by auto
  next
    case False
    have n: "newlines (c # cs) = newlines cs" using False by (simp add: newlines_def)
    show ?thesis
    proof (cases "x = 79")
      case True
      have "Suc y mod 25 = Suc y" using Cons.prems True by (simp add: n)
      then have "con_fits cs (q, (x + 1) mod 80, (y + (x + 1) div 80) mod 25)" for q
        using Cons.prems True by (intro Cons.IH) (simp_all add: n)
      with False Cons.prems show ?thesis by simp
    next
      case x: False
      then have "(x + 1) mod 80 = x + 1" "(y + (x + 1) div 80) mod 25 = y" using Cons.prems by simp_all
      then have "con_fits cs (q, (x + 1) mod 80, (y + (x + 1) div 80) mod 25)" for q
        using Cons.prems x by (intro Cons.IH) (simp_all add: n)
      with False Cons.prems show ?thesis by simp
    qed
  qed
qed simp

lemma con_fits_line:
  "x < 80 \<Longrightarrow> y < 25 \<Longrightarrow> newlines cs = 0 \<Longrightarrow> con_fits cs (p, x, y)"
proof (induction cs arbitrary: p x y)
  case (Cons c cs)
  then have c: "c \<noteq> 10" "c \<noteq> 13" and n: "newlines cs = 0" by (auto simp: newlines_def split: if_splits)
  have "con_fits cs (q, (x + 1) mod 80, (y + (x + 1) div 80) mod 25)" for q
    using n by (intro Cons.IH) simp_all
  then show ?case using c Cons.prems by simp
qed simp

section \<open>What printing leaves alone\<close>

lemma set_con_frame [simp]:
  "terminals (set_con k s) = terminals s"
  "active_terminal (set_con k s) = active_terminal s"
  "scheduled_terminal (set_con k s) = scheduled_terminal s"
  "initialized_terminals (set_con k s) = initialized_terminals s"
  "video_frame (set_con k s) = video_frame s"
  "program_frame (set_con k s) = program_frame s"
  "current_pcb (set_con k s) = current_pcb s"
  "pcbs (set_con k s) = pcbs s"
  "int_flag (set_con k s) = int_flag s"
  "fs_image (set_con k s) = fs_image s"
  "vpage (set_con k s) = fst k"
  by (cases k; simp add: set_con_def with_page_def video_frame_def program_frame_def vpage_def)+

lemma log_frame [simp]:
  "video_frame (s\<lparr>io_log := l\<rparr>) = video_frame s"
  "program_frame (s\<lparr>io_log := l\<rparr>) = program_frame s"
  by (simp_all add: video_frame_def program_frame_def)

lemma printed_frame [frame_facts]:
  assumes "printed s k s'"
  shows "terminals s' = terminals s" "active_terminal s' = active_terminal s"
    "scheduled_terminal s' = scheduled_terminal s" "video_frame s' = video_frame s"
    "program_frame s' = program_frame s" "current_pcb s' = current_pcb s" "pcbs s' = pcbs s"
    "initialized_terminals s' = initialized_terminals s"
    "int_flag s' = int_flag s" "fs_image s' = fs_image s" "vpage s' = fst k"
  using assms by (auto simp: printed_def)

lemma printed_frames:
  "printed s k s' \<Longrightarrow> frames s' = (frames s)(video_frame s := fst k)"
  by (cases k) (auto simp: printed_def set_con_def with_page_def video_frame_def)

lemma set_cursor_printed: "printed s (vpage s, unat x, unat y) (set_cursor x y s)"
proof -
  obtain l where "set_cursor x y s = (s\<lparr>screen_x := uint x, screen_y := uint y\<rparr>)\<lparr>io_log := l\<rparr>"
    using show_cursor_log unfolding set_cursor_def by blast
  moreover have "set_con (vpage s, unat x, unat y) s = s\<lparr>screen_x := uint x, screen_y := uint y\<rparr>"
    by (simp add: set_con_def with_page_def vpage_def video_frame_def)
  ultimately show ?thesis unfolding printed_def by auto
qed

lemma set_cursor_con: "con (set_cursor x y s) = (vpage s, unat x, unat y)"
  by (rule printed_con [OF set_cursor_printed])

text \<open>Rubbing out: a blank before the cursor, which stays where it is.\<close>

fun con_rubout :: "console \<Rightarrow> console" where
  "con_rubout (p, x, y) =
     (if x = 0 \<and> y = 0 then (p, x, y)
      else (p(2 * (80 * y + x - 1) := SPACE_ASCII, 2 * (80 * y + x - 1) + 1 := ATTRIB), x, y))"

lemma backspace_called_printed:
  assumes "paging_wf s" "con s = (p, x, y)" "cursor_nonneg s" "x < 256" "y < 256" "80 * y + x \<le> 2048"
  shows "\<exists>s'. backspace_called s = Some s' \<and> printed s (con_rubout (con s)) s'"
proof (cases "x = 0 \<and> y = 0")
  case True
  then have "backspace_called s = Some s"
    using assms by (auto simp: backspace_called_def con_def cursor_nonneg_def)
  then show ?thesis using True assms printed_refl [of s] by simp
next
  case False
  have sxy: "screen_x s = int x" "screen_y s = int y" "p = vpage s"
    using assms(2,3) by (auto simp: con_def cursor_nonneg_def)
  define x1 y1 where "x1 = (if x = 0 then 79 else x - 1)" and "y1 = (if x = 0 then y - 1 else y)"
  have lt: "x1 < 256" "y1 < 256" using assms(4,5) by (auto simp: x1_def y1_def)
  have pos: "80 * y1 + x1 = 80 * y + x - 1" using False by (cases y) (auto simp: x1_def y1_def)
  let ?s1 = "set_cursor (of_nat x1) (of_nat y1) s"
  have s1: "printed s (p, x1, y1) ?s1"
    using set_cursor_printed [of s "of_nat x1" "of_nat y1"] lt by (simp add: unat_of_nat sxy)
  have c1: "con ?s1 = (p, x1, y1)" using s1 by (rule printed_con)
  have "con_room SPACE_ASCII (con ?s1)" using pos assms(6) False unfolding c1 by (simp add: SPACE_ASCII_def)
  then obtain s2 where s2: "putc SPACE_ASCII ?s1 = Some s2" "printed ?s1 (con_putc SPACE_ASCII (con ?s1)) s2"
    using putc_printed [of ?s1] printed_wf [OF s1] assms(1) by blast
  let ?q = "p(2 * (80 * y + x - 1) := SPACE_ASCII, 2 * (80 * y + x - 1) + 1 := ATTRIB)"
  have "fst (con_putc SPACE_ASCII (con ?s1)) = ?q"
    unfolding c1 by (simp add: SPACE_ASCII_def pos)
  then have v2: "vpage s2 = ?q" using printed_frame(11) [OF s2(2)] by simp
  let ?s3 = "set_cursor (of_int (screen_x s)) (of_int (screen_y s)) s2"
  have "printed s2 (?q, x, y) ?s3"
    using set_cursor_printed [of s2 "of_int (screen_x s)" "of_int (screen_y s)"] assms(4,5) v2
    by (simp add: sxy unat_of_nat)
  then have "printed s (?q, x, y) ?s3" using printed_trans s1 s2(2) by blast
  moreover have "backspace_called s = Some ?s3"
    using False s2(1) by (auto simp: backspace_called_def sxy NUM_COLS_def x1_def y1_def Let_def split: if_splits)
  ultimately show ?thesis using False assms(2) by auto
qed

end
