(* ===== verification/Printf.thy ===== *)
theory Printf
  imports Console
begin

text \<open>
  \<open>printf\<close> of \<^verbatim>\<open>lib.c\<close>. The variable arguments are the 32-bit stack slots after the format;
  a slot used by \<^verbatim>\<open>%s\<close> is a pointer to bytes. The loop is shown to print exactly the text that
  the pure function \<open>render\<close> gives.
\<close>

section \<open>The code\<close>

datatype vararg = Word u32 | Pointer "u8 list"

text \<open>
  One conversion from the character after the percent sign on. \<open>alternate\<close> is set by the
  \<^verbatim>\<open>goto\<close> of the \<^verbatim>\<open>#\<close> case. The number buffers are uninitialised locals.
\<close>

definition conv_buf :: "nat \<Rightarrow> machine \<Rightarrow> u8 list" where
  "conv_buf n s = map (stack_junk s) [0..<n]"

definition print_hex8 :: "u32 \<Rightarrow> machine \<Rightarrow> machine option" where
  "print_hex8 w s =
     do {
       let buf = conv_buf 64 s;
       digits \<leftarrow> itoa w (drop 8 buf) 16;
       let buf = take 8 buf @ digits;
       starting_index \<leftarrow> strlen (drop 8 buf);
       buf \<leftarrow> for_each [starting_index..<8] (\<lambda>i b. wr b i 48) buf;
       (n, s) \<leftarrow> puts (drop starting_index buf) s;
       Some s
     }"

definition print_number :: "u32 \<Rightarrow> nat \<Rightarrow> u32 \<Rightarrow> machine \<Rightarrow> machine option" where
  "print_number w size' radix s =
     do {
       buf \<leftarrow> itoa w (conv_buf size' s) radix;
       (n, s) \<leftarrow> puts buf s;
       Some s
     }"

definition print_signed :: "u32 \<Rightarrow> machine \<Rightarrow> machine option" where
  "print_signed w s =
     (if sint w < 0
      then do {
        digits \<leftarrow> itoa (- w) (drop 1 (conv_buf 36 s)) 10;
        (n, s) \<leftarrow> puts (45 # digits) s;
        Some s
      }
      else print_number w 36 10 s)"

fun conversion :: "bool \<Rightarrow> u8 list \<Rightarrow> vararg list \<Rightarrow> machine \<Rightarrow> (u8 list \<times> vararg list \<times> machine) option" where
  "conversion alternate [] args s = None"
| "conversion alternate (c # fmt) args s =
     (if c = of_char CHR ''%'' then do { s \<leftarrow> putc (of_char CHR ''%'') s; Some (fmt, args, s) }
      else if c = of_char CHR ''#'' then conversion True fmt args s
      else if c = of_char CHR ''x'' then
        (case args of
           Word w # args \<Rightarrow>
             do { s \<leftarrow> (if alternate then print_hex8 w s else print_number w 64 16 s); Some (fmt, args, s) }
         | _ \<Rightarrow> None)
      else if c = of_char CHR ''u'' then
        (case args of
           Word w # args \<Rightarrow> do { s \<leftarrow> print_number w 36 10 s; Some (fmt, args, s) }
         | _ \<Rightarrow> None)
      else if c = of_char CHR ''d'' then
        (case args of
           Word w # args \<Rightarrow> do { s \<leftarrow> print_signed w s; Some (fmt, args, s) }
         | _ \<Rightarrow> None)
      else if c = of_char CHR ''c'' then
        (case args of
           Word w # args \<Rightarrow> do { s \<leftarrow> putc (ucast w) s; Some (fmt, args, s) }
         | _ \<Rightarrow> None)
      else if c = of_char CHR ''s'' then
        (case args of
           Pointer p # args \<Rightarrow> do { (n, s) \<leftarrow> puts p s; Some (fmt, args, s) }
         | _ \<Rightarrow> None)
      else Some (fmt, args, s))"

lemma conversion_shorter: "conversion a fmt args s = Some (fmt', args', s') \<Longrightarrow> length fmt' < length fmt"
  by (induction a fmt args s rule: conversion.induct)
    (auto split: if_splits list.splits vararg.splits Option.bind_splits)

text \<open>The loop over the format, with the number of characters passed so far.\<close>

function printf_loop :: "u8 list \<Rightarrow> vararg list \<Rightarrow> machine \<Rightarrow> (u8 list \<times> machine) option" where
  "printf_loop fmt args s =
     (case fmt of
        [] \<Rightarrow> None
      | c # rest \<Rightarrow>
          if c = 0 then Some (fmt, s)
          else if c = of_char CHR ''%''
          then (case conversion False rest args s of
                  None \<Rightarrow> None
                | Some (fmt', args', s') \<Rightarrow> printf_loop fmt' args' s')
          else (case putc c s of None \<Rightarrow> None | Some s' \<Rightarrow> printf_loop rest args s'))"
  by pat_completeness auto
termination
  by (relation "measure (\<lambda>(fmt, args, s). length fmt)") (auto dest: conversion_shorter)

declare printf_loop.simps [simp del]

definition printf :: "u8 list \<Rightarrow> vararg list \<Rightarrow> machine \<Rightarrow> (int \<times> machine) option" where
  "printf fmt args s =
     do { (rest, s) \<leftarrow> printf_loop fmt args s; Some (int (length fmt) - int (length rest), s) }"

section \<open>The text printed\<close>

definition hex8 :: "nat \<Rightarrow> u8 list" where
  "hex8 v = replicate (8 - length (itoa_text 16 v)) 48 @ itoa_text 16 v"

definition signed_text :: "u32 \<Rightarrow> u8 list" where
  "signed_text w =
     (if sint w < 0 then 45 # itoa_text 10 (unat (- w)) else itoa_text 10 (unat w))"

fun render_conv :: "bool \<Rightarrow> u8 list \<Rightarrow> vararg list \<Rightarrow> (u8 list \<times> u8 list \<times> vararg list) option" where
  "render_conv alternate [] args = None"
| "render_conv alternate (c # fmt) args =
     (if c = of_char CHR ''%'' then Some ([c], fmt, args)
      else if c = of_char CHR ''#'' then render_conv True fmt args
      else if c = of_char CHR ''x'' then
        (case args of
           Word w # args \<Rightarrow> Some (if alternate then hex8 (unat w) else itoa_text 16 (unat w), fmt, args)
         | _ \<Rightarrow> None)
      else if c = of_char CHR ''u'' then
        (case args of Word w # args \<Rightarrow> Some (itoa_text 10 (unat w), fmt, args) | _ \<Rightarrow> None)
      else if c = of_char CHR ''d'' then
        (case args of Word w # args \<Rightarrow> Some (signed_text w, fmt, args) | _ \<Rightarrow> None)
      else if c = of_char CHR ''c'' then
        (case args of Word w # args \<Rightarrow> Some ([ucast w], fmt, args) | _ \<Rightarrow> None)
      else if c = of_char CHR ''s'' then
        (case args of
           Pointer p # args \<Rightarrow> if terminated p then Some (cstr p, fmt, args) else None
         | _ \<Rightarrow> None)
      else Some ([], fmt, args))"

lemma render_conv_shorter: "render_conv a fmt args = Some (out, fmt', args') \<Longrightarrow> length fmt' < length fmt"
  by (induction a fmt args rule: render_conv.induct)
    (auto split: if_splits list.splits vararg.splits)

function render :: "u8 list \<Rightarrow> vararg list \<Rightarrow> (u8 list \<times> u8 list) option" where
  "render fmt args =
     (case fmt of
        [] \<Rightarrow> None
      | c # rest \<Rightarrow>
          if c = 0 then Some ([], fmt)
          else if c = of_char CHR ''%''
          then (case render_conv False rest args of
                  None \<Rightarrow> None
                | Some (out, fmt', args') \<Rightarrow>
                    (case render fmt' args' of None \<Rightarrow> None | Some (out', left) \<Rightarrow> Some (out @ out', left)))
          else (case render rest args of None \<Rightarrow> None | Some (out', left) \<Rightarrow> Some (c # out', left)))"
  by pat_completeness auto
termination
  by (relation "measure (\<lambda>(fmt, args). length fmt)") (auto dest: render_conv_shorter)

declare render.simps [simp del]

section \<open>Numbers\<close>

lemma length_conv_buf [simp]: "length (conv_buf n s) = n"
  by (simp add: conv_buf_def)

lemma puts_text:
  "0 \<notin> set t \<Longrightarrow> puts (t @ 0 # r) s = map_option (\<lambda>s'. (int (length t), s')) (for_each t putc s)"
  by (simp add: puts_terminated terminated_def cstr_append cstr_no_zero)

lemma puts_text_bind:
  "0 \<notin> set t \<Longrightarrow> puts (t @ 0 # r) s \<bind> (\<lambda>(n, s). Some s) = for_each t putc s"
  by (cases "for_each t putc s") (simp_all add: puts_text)

lemma itoa_text_short: "2 \<le> r \<Longrightarrow> length (itoa_text r (unat (w :: u32))) \<le> 32"
proof -
  assume r: "2 \<le> r"
  have "unat w < 2 ^ 32" using unat_u32 [of w] by simp
  also have "(2 :: nat) ^ 32 \<le> r ^ 32" using r by (rule power_mono) simp
  finally show ?thesis using r by (intro itoa_text_length) auto
qed

lemma hex_text_short: "length (itoa_text 16 (unat (w :: u32))) \<le> 8"
  using unat_u32 [of w] by (intro itoa_text_length) auto

lemma print_number_eq:
  assumes "radix = 10 \<or> radix = 16" "36 \<le> n"
  shows "print_number w n radix s = for_each (itoa_text (unat radix) (unat w)) putc s"
proof -
  have r: "2 \<le> unat radix" "unat radix \<le> 36" using assms by auto
  have "itoa w (conv_buf n s) radix =
      Some (itoa_text (unat radix) (unat w) @ 0 # drop (Suc (length (itoa_text (unat radix) (unat w)))) (conv_buf n s))"
    using itoa_text_short [of "unat radix" w] assms(2) r by (intro itoa_eq) auto
  then show ?thesis
    using itoa_text_nonzero [of "unat radix"] r by (simp add: print_number_def puts_text_bind)
qed

lemma for_each_zeros:
  "a \<le> b \<Longrightarrow> b \<le> length buf \<Longrightarrow>
     for_each [a..<b] (\<lambda>i b. wr b i (48 :: u8)) buf = Some (take a buf @ replicate (b - a) 48 @ drop b buf)"
proof (induction b)
  case (Suc b)
  show ?case
  proof (cases "a \<le> b")
    case True
    have e: "(take a buf @ replicate (b - a) 48 @ drop b buf)[b := 48] =
        take a buf @ replicate (Suc b - a) 48 @ drop (Suc b) buf"
      using True Suc.prems
      by (simp add: list_update_append Suc_diff_le replicate_append_same flip: Cons_nth_drop_Suc)
    show ?thesis using True Suc by (simp add: for_each_append e)
  next
    case False
    then have "a = Suc b" using Suc.prems by simp
    then show ?thesis by simp
  qed
qed simp

lemma print_hex8_eq: "print_hex8 w s = for_each (hex8 (unat w)) putc s"
proof -
  let ?t = "itoa_text 16 (unat w)"
  let ?buf = "conv_buf 64 s"
  have len: "length ?t \<le> 8" by (rule hex_text_short)
  have nz: "0 \<notin> set ?t" by (rule itoa_text_nonzero) simp_all
  obtain r where r: "itoa w (drop 8 ?buf) 16 = Some (?t @ 0 # r)"
    using itoa_eq [of 16 w "drop 8 ?buf"] len by auto
  let ?b = "take 8 ?buf @ ?t @ 0 # r"
  have l: "strlen (drop 8 ?b) = Some (length ?t)"
    using nz by (simp add: strlen_eq terminated_def cstr_append cstr_no_zero)
  have z: "for_each [length ?t..<8] (\<lambda>i b. wr b i 48) ?b =
      Some (take (length ?t) ?b @ replicate (8 - length ?t) 48 @ ?t @ 0 # r)"
    using for_each_zeros [of "length ?t" 8 ?b] len by simp
  have h: "replicate (8 - length ?t) 48 @ ?t @ 0 # r = hex8 (unat w) @ 0 # r"
    by (simp add: hex8_def)
  have d: "drop (length ?t) (take (length ?t) ?b @ replicate (8 - length ?t) 48 @ ?t @ 0 # r) =
      hex8 (unat w) @ 0 # r"
    using len unfolding h by simp
  have "0 \<notin> set (hex8 (unat w))" using nz by (auto simp: hex8_def)
  then have "puts (hex8 (unat w) @ 0 # r) s \<bind> (\<lambda>(n, s). Some s) = for_each (hex8 (unat w)) putc s"
    by (rule puts_text_bind)
  then show ?thesis
    unfolding print_hex8_def Let_def r bind.simps(2) l z d by simp
qed

lemma length_hex8 [simp]: "length (hex8 (unat (w :: u32))) = 8"
  using hex_text_short [of w] by (simp add: hex8_def)

lemma print_signed_eq: "print_signed w s = for_each (signed_text w) putc s"
proof (cases "sint w < 0")
  case False
  then show ?thesis by (simp add: print_signed_def signed_text_def print_number_eq)
next
  case True
  let ?t = "itoa_text 10 (unat (- w))"
  have "length ?t \<le> 32" using itoa_text_short [of 10] by simp
  then obtain r where r: "itoa (- w) (drop 1 (conv_buf 36 s)) 10 = Some (?t @ 0 # r)"
    using itoa_eq [of 10 "- w" "drop 1 (conv_buf 36 s)"] by auto
  have "0 \<notin> set (45 # ?t)" using itoa_text_nonzero [of 10 "unat (- w)"] by simp
  then have "puts ((45 # ?t) @ 0 # r) s \<bind> (\<lambda>(n, s). Some s) = for_each (45 # ?t) putc s"
    by (rule puts_text_bind)
  then show ?thesis using True r by (simp add: print_signed_def signed_text_def del: for_each.simps puts.simps)
qed

section \<open>printf prints what render gives\<close>

lemma puts_bind:
  "puts p s \<bind> (\<lambda>(n, s). Some (f s)) =
     (if terminated p then map_option f (for_each (cstr p) putc s) else None)"
  by (cases "for_each (cstr p) putc s") (simp_all add: puts_eq)

lemma conversion_render:
  "conversion alternate fmt args s =
     (case render_conv alternate fmt args of
        None \<Rightarrow> None
      | Some (out, fmt', args') \<Rightarrow> map_option (\<lambda>s'. (fmt', args', s')) (for_each out putc s))"
  by (induction alternate fmt args s rule: conversion.induct)
    (auto simp: print_hex8_eq print_number_eq print_signed_eq puts_bind
      split: list.split vararg.split option.split Option.bind_split)

lemma printf_loop_render:
  "printf_loop fmt args s =
     (case render fmt args of
        None \<Rightarrow> None
      | Some (out, left) \<Rightarrow> map_option (\<lambda>s'. (left, s')) (for_each out putc s))"
proof (induction fmt args s rule: printf_loop.induct)
  case (1 fmt args s)
  show ?case
  proof (cases fmt)
    case Nil
    then show ?thesis by (simp add: printf_loop.simps [of "[]"] render.simps [of "[]"])
  next
    case (Cons c rest)
    consider "c = 0" | "c \<noteq> 0" "c = of_char CHR ''%''" | "c \<noteq> 0" "c \<noteq> of_char CHR ''%''" by blast
    then show ?thesis
    proof cases
      case 1
      then show ?thesis using Cons by (simp add: printf_loop.simps [of "_ # _"] render.simps [of "_ # _"])
    next
      case 2
      show ?thesis
      proof (cases "render_conv False rest args")
        case None
        then show ?thesis using Cons 2
          by (simp add: printf_loop.simps [of "_ # _"] render.simps [of "_ # _"] conversion_render)
      next
        case (Some q)
        obtain out fmt' args' where q: "q = (out, fmt', args')" by (cases q)
        have IH: "printf_loop fmt' args' s' = (case render fmt' args' of None \<Rightarrow> None
            | Some (out, left) \<Rightarrow> map_option (\<lambda>s'. (left, s')) (for_each out putc s'))"
          if "for_each out putc s = Some s'" for s'
        proof -
          have "conversion False rest args s = Some (fmt', args', s')"
            using Some that by (simp add: conversion_render q)
          then show ?thesis by (rule "1.IH"(1) [OF Cons 2(1) 2(2) _ refl refl])
        qed
        show ?thesis using Some Cons 2 IH
          by (auto simp: printf_loop.simps [of "_ # _"] render.simps [of "_ # _"] conversion_render q
              for_each_append split: option.split)
      qed
    next
      case 3
      then show ?thesis using Cons "1.IH"(2) [OF Cons 3(1) 3(2)]
        by (auto simp: printf_loop.simps [of "_ # _"] render.simps [of "_ # _"] split: option.split)
    qed
  qed
qed

lemma printf_render:
  "printf fmt args s =
     (case render fmt args of
        None \<Rightarrow> None
      | Some (out, left) \<Rightarrow>
          map_option (\<lambda>s'. (int (length fmt) - int (length left), s')) (for_each out putc s))"
proof -
  have "map_option (Pair left) m \<bind> (\<lambda>(rest, s). Some (int (length fmt) - int (length rest), s)) =
      map_option (\<lambda>s'. (int (length fmt) - int (length left), s')) m" for left and m :: "machine option"
    by (cases m) simp_all
  then show ?thesis by (auto simp: printf_def printf_loop_render split: option.split)
qed

text \<open>A format without conversions is printed as it stands.\<close>

lemma render_plain:
  "terminated fmt \<Longrightarrow> of_char CHR ''%'' \<notin> set (cstr fmt) \<Longrightarrow>
     render fmt args = Some (cstr fmt, drop (length (cstr fmt)) fmt)"
  by (induction fmt) (auto simp: render.simps [of "_ # _"])

lemma printf_plain:
  "terminated fmt \<Longrightarrow> of_char CHR ''%'' \<notin> set (cstr fmt) \<Longrightarrow>
     printf fmt args s =
       map_option (\<lambda>s'. (int (length (cstr fmt)), s')) (for_each (cstr fmt) putc s)"
  using length_cstr_le [of fmt] by (simp add: printf_render render_plain)

end
