(* ===== verification/Filesystem.thy ===== *)
theory Filesystem
  imports Printf
begin

text \<open>
  The read-only file system of \<^verbatim>\<open>devices/filesystem.c\<close> over the bytes of the boot image: the
  boot block, the inodes and the data blocks at the offsets the C structs have. An index the
  code does not check leads to a read outside the object, which is a fault here.
\<close>

section \<open>Layout\<close>

definition FILE_NAME_SIZE :: nat where "FILE_NAME_SIZE = 32"
definition DENTRY_RESERVED :: nat where "DENTRY_RESERVED = 24"
definition MAX_NUM_DENTRIES :: nat where "MAX_NUM_DENTRIES = 63"
definition MAX_DATA_BLOCKS :: nat where "MAX_DATA_BLOCKS = 1023"
definition BLOCK_BYTES :: u32 where "BLOCK_BYTES = 4096"
definition NULL_ASCII :: u8 where "NULL_ASCII = 0"
definition MAX_FILENAME_SIZE :: nat where "MAX_FILENAME_SIZE = 32"

lemmas fs_consts = FILE_NAME_SIZE_def DENTRY_RESERVED_def MAX_NUM_DENTRIES_def
  MAX_DATA_BLOCKS_def BLOCK_BYTES_def NULL_ASCII_def MAX_FILENAME_SIZE_def

record dentry =
  fileName :: "u8 list"
  fileType :: u32
  inodeNumber :: u32
  reserved :: "u8 list"

definition img_u32 :: "machine \<Rightarrow> nat \<Rightarrow> u32 option" where
  "img_u32 s k =
     do {
       a \<leftarrow> rd (fs_image s) k;
       b \<leftarrow> rd (fs_image s) (k + 1);
       c \<leftarrow> rd (fs_image s) (k + 2);
       d \<leftarrow> rd (fs_image s) (k + 3);
       Some (le32 a b c d)
     }"

definition img_bytes :: "machine \<Rightarrow> nat \<Rightarrow> nat \<Rightarrow> u8 list option" where
  "img_bytes s k n =
     (if k + n \<le> length (fs_image s) then Some (take n (drop k (fs_image s))) else None)"

text \<open>\<open>bootblock_t\<close>: three counts, 52 reserved bytes, 63 entries of 64 bytes.\<close>

definition numDentries :: "machine \<Rightarrow> u32 option" where
  "numDentries s = img_u32 s 0"

definition numInodes :: "machine \<Rightarrow> u32 option" where
  "numInodes s = img_u32 s 4"

definition numDataBlocks :: "machine \<Rightarrow> u32 option" where
  "numDataBlocks s = img_u32 s 8"

definition bootDentries :: "machine \<Rightarrow> nat \<Rightarrow> dentry option" where
  "bootDentries s i =
     (if i < MAX_NUM_DENTRIES then
        do {
          nm \<leftarrow> img_bytes s (64 + 64 * i) FILE_NAME_SIZE;
          t \<leftarrow> img_u32 s (96 + 64 * i);
          n \<leftarrow> img_u32 s (100 + 64 * i);
          r \<leftarrow> img_bytes s (104 + 64 * i) DENTRY_RESERVED;
          Some \<lparr>fileName = nm, fileType = t, inodeNumber = n, reserved = r\<rparr>
        }
      else None)"

text \<open>\<open>inode_t\<close>: the length in bytes, then 1023 block numbers. \<open>datablock_t\<close>: 4096 bytes.\<close>

definition numBytes :: "machine \<Rightarrow> u32 \<Rightarrow> u32 option" where
  "numBytes s n = img_u32 s (inode_start s + 4096 * unat n)"

definition dataBlockNumber :: "machine \<Rightarrow> u32 \<Rightarrow> u32 \<Rightarrow> u32 option" where
  "dataBlockNumber s n j =
     (if unat j < MAX_DATA_BLOCKS
      then img_u32 s (inode_start s + 4096 * unat n + 4 + 4 * unat j) else None)"

definition dataBlockValue :: "machine \<Rightarrow> u32 \<Rightarrow> u32 \<Rightarrow> u8 option" where
  "dataBlockValue s b k = rd (fs_image s) (datablock_start s + 4096 * unat b + unat k)"

section \<open>Operations\<close>

definition init_filesystem :: "u8 list \<Rightarrow> machine \<Rightarrow> machine option" where
  "init_filesystem fsImg s =
     do {
       let s = s\<lparr>fs_image := fsImg\<rparr>;
       let s = s\<lparr>inode_start := 4096\<rparr>;
       n \<leftarrow> numInodes s;
       Some (s\<lparr>datablock_start := inode_start s + 4096 * unat n\<rparr>)
     }"

text \<open>The field-by-field copy into the caller's entry; its reserved bytes stay.\<close>

definition fill_dentry :: "dentry \<Rightarrow> dentry \<Rightarrow> dentry option" where
  "fill_dentry temp d =
     do {
       nm \<leftarrow> for_each [0..<MAX_FILENAME_SIZE]
              (\<lambda>j nm. do { c \<leftarrow> rd (fileName temp) j; wr nm j c }) (fileName d);
       Some (d\<lparr>fileName := nm, fileType := fileType temp, inodeNumber := inodeNumber temp\<rparr>)
     }"

lemma bootDentries_bound: "bootDentries s i = Some d \<Longrightarrow> i < 63"
  by (simp add: bootDentries_def MAX_NUM_DENTRIES_def split: if_splits)

text \<open>The entry array faults at index 63, so the \<open>uint8_t\<close> loop index never wraps.\<close>

function dentry_search :: "u8 list \<Rightarrow> dentry \<Rightarrow> machine \<Rightarrow> nat \<Rightarrow> (int \<times> dentry) option" where
  "dentry_search fname d s i =
     (case numDentries s of
        None \<Rightarrow> None
      | Some n \<Rightarrow>
          if i < unat n then
            (case bootDentries s i of
               None \<Rightarrow> None
             | Some temp \<Rightarrow>
                 (case strncmp fname (fileName temp) MAX_FILENAME_SIZE of
                    None \<Rightarrow> None
                  | Some r \<Rightarrow>
                      if r = 0 then do { d \<leftarrow> fill_dentry temp d; Some (0, d) }
                      else dentry_search fname d s (i + 1)))
          else Some (-1, d))"
  by pat_completeness auto
termination
  by (relation "measure (\<lambda>(f, d, s, i). 64 - i)") (auto dest!: bootDentries_bound)

declare dentry_search.simps [simp del]

definition read_dentry_by_name :: "u8 list \<Rightarrow> dentry \<Rightarrow> machine \<Rightarrow> (int \<times> dentry) option" where
  "read_dentry_by_name fname d s =
     do {
       n \<leftarrow> strlen fname;
       if n > MAX_FILENAME_SIZE then Some (-1, d) else dentry_search fname d s 0
     }"

definition read_dentry_by_index :: "u32 \<Rightarrow> dentry \<Rightarrow> machine \<Rightarrow> (int \<times> dentry) option" where
  "read_dentry_by_index index d s =
     do {
       n \<leftarrow> numDentries s;
       if n < index then Some (-1, d)
       else do {
         temp \<leftarrow> bootDentries s (unat index);
         d \<leftarrow> fill_dentry temp d;
         Some (0, d)
       }
     }"

text \<open>
  The copy loop of \<open>read_data\<close>; \<open>out\<close> is what has been stored at \<open>buf[0]\<close>, \<open>buf[1]\<close> and so on.
  The sum \<open>offset + length\<close> is unsigned and wraps.
\<close>

function read_data_loop ::
  "machine \<Rightarrow> u32 \<Rightarrow> u32 \<Rightarrow> u32 \<Rightarrow> u32 \<Rightarrow> u8 list \<Rightarrow> (int \<times> u8 list) option" where
  "read_data_loop s inode offset end' cur out =
     (if cur < end' then
        do {
          size' \<leftarrow> numBytes s inode;
          if cur = size' then Some (sint (cur - offset), out)
          else do {
            b \<leftarrow> dataBlockNumber s inode (cur div BLOCK_BYTES);
            current_byte \<leftarrow> dataBlockValue s b (cur mod BLOCK_BYTES);
            read_data_loop s inode offset end' (cur + 1) (out @ [current_byte])
          }
        }
      else Some (sint (of_nat (length out) :: u32), out))"
  by pat_completeness auto
termination
proof (relation "measure (\<lambda>(s, n, off, e, c, out). unat e - unat c)", goal_cases)
  case (2 s n off e c out)
  then have "unat (c + 1) = unat c + 1" using unat_u32 [of e]
    by (simp add: word_less_nat_alt unat_word_ariths)
  with 2 show ?case by (simp add: word_less_nat_alt)
qed simp

declare read_data_loop.simps [simp del]

definition read_data :: "u32 \<Rightarrow> u32 \<Rightarrow> u32 \<Rightarrow> machine \<Rightarrow> (int \<times> u8 list \<times> machine) option" where
  "read_data inode offset len s =
     do {
       n \<leftarrow> numInodes s;
       if inode > n - 1 then do {
         (r, s) \<leftarrow> printf (bytes ''read_data: Inode out of range '' @ [10, 0]) [] s;
         Some (-1, [], s)
       }
       else do {
         size' \<leftarrow> numBytes s inode;
         if offset \<ge> size' then Some (0, [], s)
         else do {
           (r, out) \<leftarrow> read_data_loop s inode offset (offset + len) offset [];
           Some (r, out, s)
         }
       }
     }"

text \<open>\<open>buf\<close> is the caller's memory from the pointer on; \<open>num_bytes\<close> is not looked at.\<close>

definition blank_dentry :: "machine \<Rightarrow> dentry" where
  "blank_dentry s = \<lparr>fileName = map (stack_junk s) [0..<32], fileType = 0, inodeNumber = 0,
     reserved = map (stack_junk s) [32..<56]\<rparr>"

definition directory_read :: "u32 \<Rightarrow> u8 list \<Rightarrow> int \<Rightarrow> machine \<Rightarrow> (int \<times> u8 list) option" where
  "directory_read file_index buf num_bytes s =
     do {
       n \<leftarrow> numDentries s;
       if file_index \<ge> n then Some (0, buf)
       else do {
         (r, d) \<leftarrow> read_dentry_by_index file_index (blank_dentry s) s;
         if r = -1 then Some (-1, buf)
         else do {
           \<comment> \<open>the name is followed by the entry's other fields, which \<open>strncpy\<close> may look at\<close>
           buf \<leftarrow> strncpy buf (fileName d @ le_bytes (fileType d)) MAX_FILENAME_SIZE;
           strlen_ret \<leftarrow> strlen buf;
           if strlen_ret > MAX_FILENAME_SIZE then do {
             buf \<leftarrow> wr buf MAX_FILENAME_SIZE NULL_ASCII;
             Some (int MAX_FILENAME_SIZE, buf)
           }
           else Some (int strlen_ret, buf)
         }
       }
     }"

definition directory_close :: "u32 \<Rightarrow> int" where
  "directory_close file_index = 0"

definition directory_open :: "u8 list \<Rightarrow> int" where
  "directory_open fname = 0"

definition directory_write :: "u32 \<Rightarrow> u8 list \<Rightarrow> int \<Rightarrow> int" where
  "directory_write file_index buf num_bytes = -1"

definition file_read :: "u32 \<Rightarrow> u32 \<Rightarrow> u32 \<Rightarrow> machine \<Rightarrow> (int \<times> u8 list \<times> machine) option" where
  "file_read inode_idx offset num_bytes s = read_data inode_idx offset num_bytes s"

definition file_write :: "u32 \<Rightarrow> u8 list \<Rightarrow> int \<Rightarrow> int" where
  "file_write file_index buf num_bytes = -1"

definition file_open :: "u8 list \<Rightarrow> int" where
  "file_open fname = 0"

definition file_close :: "u32 \<Rightarrow> int" where
  "file_close file_index = 0"

function inode_search :: "u32 \<Rightarrow> machine \<Rightarrow> nat \<Rightarrow> int option" where
  "inode_search n s i =
     (case numDentries s of
        None \<Rightarrow> None
      | Some cnt \<Rightarrow>
          if i < unat cnt then
            (case bootDentries s i of
               None \<Rightarrow> None
             | Some d \<Rightarrow> if inodeNumber d = n then Some (int i) else inode_search n s (i + 1))
          else Some (-1))"
  by pat_completeness auto
termination
  by (relation "measure (\<lambda>(n, s, i). 64 - i)") (auto dest!: bootDentries_bound)

declare inode_search.simps [simp del]

definition find_dentry_by_inode_num :: "u32 \<Rightarrow> machine \<Rightarrow> int option" where
  "find_dentry_by_inode_num n s = inode_search n s 0"

section \<open>Well-formed images and what they hold\<close>

definition blocks_of :: "u32 \<Rightarrow> nat" where
  "blocks_of len = (unat len + 4095) div 4096"

definition inode_ok :: "machine \<Rightarrow> nat \<Rightarrow> u32 \<Rightarrow> bool" where
  "inode_ok s nblocks n =
     (case numBytes s n of
        None \<Rightarrow> False
      | Some len \<Rightarrow>
          blocks_of len \<le> MAX_DATA_BLOCKS \<and>
          list_all (\<lambda>j. case dataBlockNumber s n (of_nat j) of None \<Rightarrow> False | Some b \<Rightarrow> unat b < nblocks)
            [0..<blocks_of len])"

definition fs_wf :: "machine \<Rightarrow> bool" where
  "fs_wf s =
     (case (numDentries s, numInodes s, numDataBlocks s) of
        (Some d, Some n, Some b) \<Rightarrow>
          unat d \<le> MAX_NUM_DENTRIES \<and> 0 < unat n \<and>
          inode_start s = 4096 \<and> datablock_start s = 4096 + 4096 * unat n \<and>
          4096 + 4096 * (unat n + unat b) \<le> length (fs_image s) \<and>
          list_all (\<lambda>i. inode_ok s (unat b) (of_nat i)) [0..<unat n]
      | _ \<Rightarrow> False)"

definition dir_entries :: "machine \<Rightarrow> dentry list" where
  "dir_entries s = map (\<lambda>i. the (bootDentries s i)) [0..<unat (the (numDentries s))]"

definition entry_name :: "dentry \<Rightarrow> u8 list" where
  "entry_name d = cstr (fileName d)"

text \<open>The bytes of a file in order: byte \<open>k\<close> is byte \<open>k mod 4096\<close> of block number \<open>k div 4096\<close>.\<close>

definition file_byte :: "machine \<Rightarrow> u32 \<Rightarrow> nat \<Rightarrow> u8" where
  "file_byte s n k =
     the (dataBlockValue s (the (dataBlockNumber s n (of_nat (k div 4096)))) (of_nat (k mod 4096)))"

definition file_content :: "machine \<Rightarrow> u32 \<Rightarrow> u8 list" where
  "file_content s n = map (file_byte s n) [0..<unat (the (numBytes s n))]"

lemma rd_total: "k < length b \<Longrightarrow> \<exists>v. rd b k = Some v"
  by simp

lemma img_u32_total: "k + 4 \<le> length (fs_image s) \<Longrightarrow> \<exists>v. img_u32 s k = Some v"
  by (simp add: img_u32_def)

lemma bootDentries_total:
  assumes "4096 \<le> length (fs_image s)" "i < 63"
  shows "\<exists>d. bootDentries s i = Some d \<and> length (fileName d) = 32"
proof -
  have "img_u32 s (96 + 64 * i) \<noteq> None" "img_u32 s (100 + 64 * i) \<noteq> None"
    using assms img_u32_total [of "96 + 64 * i" s] img_u32_total [of "100 + 64 * i" s] by auto
  then show ?thesis using assms
    by (auto simp: bootDentries_def fs_consts img_bytes_def)
qed

lemma fs_wf_size: "fs_wf s \<Longrightarrow> 4096 \<le> length (fs_image s)"
  by (auto simp: fs_wf_def split: option.splits)

lemma fs_wf_counts:
  assumes "fs_wf s"
  obtains d n b where "numDentries s = Some d" "unat d \<le> 63" "numInodes s = Some n" "0 < unat n"
    "numDataBlocks s = Some b" "inode_start s = 4096" "datablock_start s = 4096 + 4096 * unat n"
    "4096 + 4096 * (unat n + unat b) \<le> length (fs_image s)"
    "\<forall>i. unat i < unat n \<longrightarrow> inode_ok s (unat b) i"
proof -
  obtain d n b where w: "numDentries s = Some d" "numInodes s = Some n" "numDataBlocks s = Some b"
    "unat d \<le> 63" "0 < unat n" "inode_start s = 4096" "datablock_start s = 4096 + 4096 * unat n"
    "4096 + 4096 * (unat n + unat b) \<le> length (fs_image s)"
    "list_all (\<lambda>i. inode_ok s (unat b) (of_nat i)) [0..<unat n]"
    using assms by (auto simp: fs_wf_def MAX_NUM_DENTRIES_def split: option.splits)
  have "inode_ok s (unat b) i" if "unat i < unat n" for i
  proof -
    have "\<forall>j \<in> set [0..<unat n]. inode_ok s (unat b) (of_nat j)" using w(9) by (simp only: list_all_iff)
    then have "inode_ok s (unat b) (of_nat (unat i))" by (rule bspec) (use that in simp)
    then show ?thesis by simp
  qed
  with w show ?thesis by (intro that [of d n b]) auto
qed

lemma bootDentries_entry:
  assumes "fs_wf s" "i < 63"
  shows "\<exists>d. bootDentries s i = Some d \<and> length (fileName d) = 32"
  using assms bootDentries_total fs_wf_size by blast

lemma nth_dir_entries:
  "numDentries s = Some n \<Longrightarrow> i < unat n \<Longrightarrow> dir_entries s ! i = the (bootDentries s i)"
  by (simp add: dir_entries_def)

lemma length_dir_entries: "numDentries s = Some n \<Longrightarrow> length (dir_entries s) = unat n"
  by (simp add: dir_entries_def)

lemma fill_name_loop:
  "n \<le> length src \<Longrightarrow> n \<le> length dst \<Longrightarrow>
     for_each [0..<n] (\<lambda>j nm. do { c \<leftarrow> rd src j; wr nm j c }) dst = Some (take n src @ drop n dst)"
proof (induction n)
  case (Suc n)
  then show ?case
    by (simp add: for_each_append list_update_append take_Suc_conv_app_nth flip: Cons_nth_drop_Suc)
qed simp

lemma fill_dentry_eq:
  "length (fileName temp) = 32 \<Longrightarrow> length (fileName d) = 32 \<Longrightarrow>
     fill_dentry temp d = Some (temp\<lparr>reserved := reserved d\<rparr>)"
  using fill_name_loop [of 32 "fileName temp" "fileName d"]
  by (simp add: fill_dentry_def MAX_FILENAME_SIZE_def)

section \<open>Look-up\<close>

lemma dentry_search_eq:
  assumes "fs_wf s" "numDentries s = Some n" "terminated fname" "length (cstr fname) \<le> 32"
    and "length (fileName d) = 32"
  shows "i \<le> unat n \<Longrightarrow> dentry_search fname d s i =
     (case find (\<lambda>e. entry_name e = cstr fname) (drop i (dir_entries s)) of
        None \<Rightarrow> Some (-1, d)
      | Some e \<Rightarrow> Some (0, e\<lparr>reserved := reserved d\<rparr>))"
proof (induction "unat n - i" arbitrary: i)
  case 0
  then show ?case using assms(2) by (simp add: dentry_search.simps [of _ _ _ i] dir_entries_def)
next
  case (Suc m)
  then have i: "i < unat n" by simp
  have "unat n \<le> 63" using assms(1,2) fs_wf_counts [OF assms(1)] by (metis option.inject)
  then obtain e where e: "bootDentries s i = Some e" "length (fileName e) = 32"
    using bootDentries_entry [OF assms(1), of i] i by auto
  have drop: "drop i (dir_entries s) = e # drop (Suc i) (dir_entries s)"
    using i assms(2) e(1) nth_dir_entries [OF assms(2) i]
    by (simp add: length_dir_entries flip: Cons_nth_drop_Suc)
  obtain r where r: "strncmp fname (fileName e) 32 = Some r"
    "r = 0 \<longleftrightarrow> take 32 (cstr fname) = take 32 (cstr (fileName e))"
    using strncmp_total_iff [of 32 fname "fileName e"] assms(3) e(2) by auto
  have "length (cstr (fileName e)) \<le> 32" using length_cstr_le [of "fileName e"] e(2) by simp
  then have r0: "r = 0 \<longleftrightarrow> entry_name e = cstr fname"
    using r(2) assms(4) by (auto simp: entry_name_def)
  show ?case
    using Suc.hyps(1) [of "Suc i"] Suc.hyps(2) i e r r0 assms(2,5)
    by (simp add: dentry_search.simps [of _ _ _ i] MAX_FILENAME_SIZE_def drop fill_dentry_eq)
qed

lemma read_dentry_by_name_eq:
  assumes "fs_wf s" "terminated fname" "length (fileName d) = 32"
  shows "read_dentry_by_name fname d s =
    (if 32 < length (cstr fname) then Some (-1, d)
     else case find (\<lambda>e. entry_name e = cstr fname) (dir_entries s) of
            None \<Rightarrow> Some (-1, d)
          | Some e \<Rightarrow> Some (0, e\<lparr>reserved := reserved d\<rparr>))"
proof -
  obtain n where "numDentries s = Some n" using fs_wf_counts [OF assms(1)] by metis
  then show ?thesis
    using dentry_search_eq [OF assms(1) _ assms(2) _ assms(3), of n 0] assms(2)
    by (simp add: read_dentry_by_name_def MAX_FILENAME_SIZE_def strlen_eq split: option.split)
qed

lemma read_dentry_by_index_eq:
  assumes "fs_wf s" "numDentries s = Some n" "length (fileName d) = 32"
  shows "read_dentry_by_index i d s =
    (if n < i then Some (-1, d)
     else if unat i < 63 then Some (0, (the (bootDentries s (unat i)))\<lparr>reserved := reserved d\<rparr>)
     else None)"
proof (cases "unat i < 63")
  case True
  then obtain e where "bootDentries s (unat i) = Some e" "length (fileName e) = 32"
    using bootDentries_entry [OF assms(1)] by blast
  then show ?thesis using assms True by (simp add: read_dentry_by_index_def fill_dentry_eq)
next
  case False
  then show ?thesis using assms
    by (simp add: read_dentry_by_index_def bootDentries_def MAX_NUM_DENTRIES_def)
qed

lemma length_blank_dentry [simp]: "length (fileName (blank_dentry s)) = 32"
  by (simp add: blank_dentry_def)

text \<open>A directory read stores the padded name and returns its length.\<close>

lemma directory_read_eq:
  assumes "fs_wf s" "numDentries s = Some n" "32 \<le> length buf" "i < n"
    and nm: "nm = entry_name (dir_entries s ! unat i)"
    and full: "length nm = 32 \<Longrightarrow> terminated (drop 32 buf)"
  shows "directory_read i buf nb s =
    Some (int (length nm), nm @ replicate (32 - length nm) 0 @
      (if length nm = 32 then 0 # drop 33 buf else drop 32 buf))"
proof -
  have i: "unat i < unat n" using assms(4) by (simp add: word_less_nat_alt)
  have "unat n \<le> 63" using assms(1,2) fs_wf_counts [OF assms(1)] by (metis option.inject)
  then obtain e where e: "bootDentries s (unat i) = Some e" "length (fileName e) = 32"
    using bootDentries_entry [OF assms(1), of "unat i"] i by auto
  have nm': "nm = cstr (fileName e)"
    using nth_dir_entries [OF assms(2) i] e nm by (simp add: entry_name_def)
  have len: "length nm \<le> 32" using length_cstr_le [of "fileName e"] e(2) nm' by simp
  have nz: "0 \<notin> set nm" using nm' zero_notin_cstr by simp
  let ?src = "fileName e @ le_bytes (fileType e)"
  have t: "take 32 (cstr ?src) = nm" "length nm < 32 \<Longrightarrow> length (cstr ?src) = length nm"
    and p: "32 - length (cstr ?src) = 32 - length nm"
  proof -
    have "cstr ?src = (if terminated (fileName e) then nm else nm @ cstr (le_bytes (fileType e)))"
      by (simp add: nm' cstr_append_if cstr_unterminated)
    moreover have "length nm < 32 \<Longrightarrow> terminated (fileName e)"
      using nm' e(2) cstr_unterminated [of "fileName e"] by (cases "terminated (fileName e)"; simp)+
    moreover have "\<not> terminated (fileName e) \<Longrightarrow> length nm = 32"
      using nm' e(2) cstr_unterminated [of "fileName e"] by (cases "terminated (fileName e)"; simp)+
    ultimately show "take 32 (cstr ?src) = nm" "length nm < 32 \<Longrightarrow> length (cstr ?src) = length nm"
      "32 - length (cstr ?src) = 32 - length nm"
      using len by (auto split: if_splits)
  qed
  have c: "strncpy buf ?src 32 = Some (nm @ replicate (32 - length nm) 0 @ drop 32 buf)"
    using strncpy_eq [of 32 buf ?src] assms(3) e(2) t p by simp
  have rd: "read_dentry_by_index i (blank_dentry s) s = Some (0, e\<lparr>reserved := reserved (blank_dentry s)\<rparr>)"
    using read_dentry_by_index_eq [OF assms(1,2), of "blank_dentry s" i] e(1) assms(4) i \<open>unat n \<le> 63\<close>
    by simp
  have not_ge: "\<not> n \<le> i" using assms(4) by simp
  show ?thesis
  proof (cases "length nm = 32")
    case False
    then obtain k where k: "32 - length nm = Suc k" using len by (cases "32 - length nm") auto
    have "strlen (nm @ replicate (32 - length nm) 0 @ drop 32 buf) = Some (length nm)"
      unfolding k using nz by (simp add: strlen_eq cstr_append cstr_no_zero terminated_def)
    then show ?thesis
      using False len by (simp add: directory_read_def assms(2) not_ge rd c MAX_FILENAME_SIZE_def)
  next
    case True
    obtain w where w: "drop 32 buf = cstr (drop 32 buf) @ 0 # w"
      using full [OF True] cstr_decomp by blast
    have sl: "strlen (nm @ drop 32 buf) = Some (32 + length (cstr (drop 32 buf)))"
      using nz True full [OF True] by (simp add: strlen_eq terminated_def cstr_append_if)
    have "drop 32 buf \<noteq> []" using full [OF True] by auto
    then have l: "33 \<le> length buf" by simp
    show ?thesis
    proof (cases "cstr (drop 32 buf) = []")
      case C: True
      then have "drop 32 buf = 0 # drop 33 buf" using w l by (cases "drop 32 buf") (auto simp: drop_Suc numeral_eq_Suc tl_drop)
      then show ?thesis using sl True C
        by (simp add: directory_read_def assms(2) not_ge rd c MAX_FILENAME_SIZE_def)
    next
      case C: False
      have "(nm @ drop 32 buf)[32 := 0] = nm @ 0 # drop 33 buf"
        using True l by (simp add: list_update_append flip: Cons_nth_drop_Suc)
      then show ?thesis using sl True C l
        by (simp add: directory_read_def assms(2) not_ge rd c MAX_FILENAME_SIZE_def NULL_ASCII_def)
    qed
  qed
qed

lemma directory_read_end:
  "numDentries s = Some n \<Longrightarrow> n \<le> i \<Longrightarrow> directory_read i buf nb s = Some (0, buf)"
  by (simp add: directory_read_def)

section \<open>Reading file contents\<close>

text \<open>What a read of up to \<open>len\<close> bytes at \<open>off\<close> should deliver.\<close>

definition slice :: "nat \<Rightarrow> nat \<Rightarrow> 'a list \<Rightarrow> 'a list" where
  "slice off len xs = take len (drop off xs)"

lemma length_slice [simp]: "length (slice off len xs) = min len (length xs - off)"
  by (simp add: slice_def)

lemma length_file_content [simp]: "numBytes s n = Some z \<Longrightarrow> length (file_content s n) = unat z"
  by (simp add: file_content_def)

lemma fs_wf_inode:
  assumes "fs_wf s" "numInodes s = Some m" "unat n < unat m"
  obtains z where "numBytes s n = Some z" "unat z \<le> 1023 * 4096"
    "\<And>k. k < unat z \<Longrightarrow>
       \<exists>b v. dataBlockNumber s n (of_nat k div 4096) = Some b \<and>
         dataBlockValue s b (of_nat k mod 4096) = Some v \<and> v = file_byte s n k"
proof -
  obtain d m' b where "numDentries s = Some d" "unat d \<le> 63" and m': "numInodes s = Some m'" "0 < unat m'"
    and "numDataBlocks s = Some b" "inode_start s = 4096"
    and w: "datablock_start s = 4096 + 4096 * unat m'"
    "4096 + 4096 * (unat m' + unat b) \<le> length (fs_image s)"
    "\<forall>i. unat i < unat m' \<longrightarrow> inode_ok s (unat b) i"
    using fs_wf_counts [OF assms(1)] by metis
  have ok: "inode_ok s (unat b) n" using m' w(3) assms(2,3) by simp
  then obtain z where z: "numBytes s n = Some z" "blocks_of z \<le> 1023"
    and bl: "\<forall>j \<in> set [0..<blocks_of z].
      (case dataBlockNumber s n (of_nat j) of None \<Rightarrow> False | Some b' \<Rightarrow> unat b' < unat b)"
    by (auto simp: inode_ok_def MAX_DATA_BLOCKS_def list_all_iff split: option.splits)
  have size: "unat z \<le> 1023 * 4096" using z(2) by (simp add: blocks_of_def)
  show ?thesis
  proof (rule that [OF z(1) size])
    fix k assume k: "k < unat z"
    then have k32: "k < 4294967296" using size by simp
    have un: "unat (of_nat k :: u32) = k" "unat (of_nat (k div 4096) :: u32) = k div 4096"
      "unat (of_nat (k mod 4096) :: u32) = k mod 4096"
      using k32 by (simp_all add: unat_of_nat)
    have kw: "(of_nat k :: u32) div 4096 = of_nat (k div 4096)" "(of_nat k :: u32) mod 4096 = of_nat (k mod 4096)"
      unfolding word_unat_eq_iff unat_div unat_mod un by simp_all
    have "k div 4096 < blocks_of z" using k by (simp add: blocks_of_def)
    then have "case dataBlockNumber s n (of_nat (k div 4096)) of None \<Rightarrow> False | Some b' \<Rightarrow> unat b' < unat b"
      using bl by simp
    then obtain b' where b': "dataBlockNumber s n (of_nat (k div 4096)) = Some b'" "unat b' < unat b"
      by (auto split: option.splits)
    have "unat (of_nat (k mod 4096) :: u32) < 4096" by (simp add: unat_of_nat)
    moreover have blk: "4096 * unat b' + 4096 \<le> 4096 * unat b" using b'(2) by simp
    ultimately have "datablock_start s + 4096 * unat b' + unat (of_nat (k mod 4096) :: u32) < length (fs_image s)"
      unfolding w(1) using w(2) blk by (simp only: ring_distribs)
    then obtain v where "dataBlockValue s b' (of_nat (k mod 4096)) = Some v"
      using rd_total unfolding dataBlockValue_def by blast
    with b' show "\<exists>b v. dataBlockNumber s n (of_nat k div 4096) = Some b \<and>
         dataBlockValue s b (of_nat k mod 4096) = Some v \<and> v = file_byte s n k"
      unfolding kw file_byte_def by simp
  qed
qed

lemma sint_small: "unat (w :: u32) < 2 ^ 31 \<Longrightarrow> sint w = int (unat w)"
proof -
  assume a: "unat w < 2 ^ 31"
  have "int (unat w) < int (2 ^ 31)" using a by (simp only: of_nat_less_iff)
  then have "uint w < 2 ^ 31" by simp
  then have "signed_take_bit 31 (uint w) = uint w" 
    using uint_ge_0 [of w] by (intro signed_take_bit_int_eq_self) linarith+
  then show ?thesis by (simp add: sint_uint)
qed

lemma read_data_loop_eq:
  assumes z: "numBytes s n = Some z"
    and bytes: "\<And>k. k < unat z \<Longrightarrow>
       \<exists>b v. dataBlockNumber s n (of_nat k div 4096) = Some b \<and>
         dataBlockValue s b (of_nat k mod 4096) = Some v \<and> v = file_byte s n k"
    and off: "off \<le> cur" "unat cur \<le> unat z" "length out = unat cur - unat off"
    and small: "unat z < 2 ^ 31"
  shows "read_data_loop s n off e cur out =
     Some (int (unat cur - unat off + (min (unat e) (unat z) - unat cur)),
          out @ map (file_byte s n) [unat cur..<min (unat e) (unat z)])"
  using off
proof (induction "min (unat e) (unat z) - unat cur" arbitrary: cur out)
  case 0
  have "unat (cur - off) = unat cur - unat off" using 0(2) by (simp add: unat_sub)
  moreover have "unat (of_nat (length out) :: u32) = unat cur - unat off"
    using 0(4) unat_u32 [of cur] by (simp add: unat_of_nat)
  moreover have "\<not> cur < e \<or> cur = z" using 0(1,3) by (auto simp: word_less_nat_alt word_unat_eq_iff)
  ultimately show ?case
    using 0 small z by (subst read_data_loop.simps) (auto simp: sint_small)
next
  case (Suc m)
  then have c: "unat cur < unat e" "unat cur < unat z" by auto
  then have S: "unat (cur + 1) = unat cur + 1" using unat_u32 [of e] by (simp add: unat_word_ariths)
  obtain b where b: "dataBlockNumber s n (cur div 4096) = Some b"
    "dataBlockValue s b (cur mod 4096) = Some (file_byte s n (unat cur))"
    using bytes [OF c(2)] by auto
  have "cur < e" "cur \<noteq> z" using c by (auto simp: word_less_nat_alt)
  then have "read_data_loop s n off e cur out =
      read_data_loop s n off e (cur + 1) (out @ [file_byte s n (unat cur)])"
    using z b by (subst read_data_loop.simps) (simp add: BLOCK_BYTES_def)
  also have "\<dots> = Some (int (unat (cur + 1) - unat off + (min (unat e) (unat z) - unat (cur + 1))),
      (out @ [file_byte s n (unat cur)]) @ map (file_byte s n) [unat (cur + 1)..<min (unat e) (unat z)])"
  proof (rule Suc.hyps(1))
    show "off \<le> cur + 1" using Suc.prems(1) S by (simp add: word_le_nat_alt)
    show "length (out @ [file_byte s n (unat cur)]) = unat (cur + 1) - unat off"
      using Suc.prems S by (simp add: word_le_nat_alt)
  qed (use Suc.hyps(2) S c in simp_all)
  also have "[unat cur..<min (unat e) (unat z)] = unat cur # [unat (cur + 1)..<min (unat e) (unat z)]"
    using c S by (simp add: upt_conv_Cons)
  ultimately show ?case using c S Suc.prems(1) by (simp add: word_le_nat_alt)
qed

text \<open>A read delivers the requested slice of the file; nothing else changes.\<close>

lemma slice_file_content:
  "numBytes s n = Some z \<Longrightarrow> slice off len (file_content s n) =
     map (file_byte s n) [off..<min (off + len) (unat z)]"
  by (simp add: slice_def file_content_def drop_map take_map min_def)

lemma read_data_eq:
  assumes "fs_wf s" "numInodes s = Some m" "n < m" "unat off + unat len < 2 ^ 32"
  shows "read_data n off len s =
    Some (int (length (slice (unat off) (unat len) (file_content s n))),
          slice (unat off) (unat len) (file_content s n), s)"
proof -
  obtain z where z: "numBytes s n = Some z" "unat z \<le> 1023 * 4096" and bytes: "\<And>k. k < unat z \<Longrightarrow>
       \<exists>b v. dataBlockNumber s n (of_nat k div 4096) = Some b \<and>
         dataBlockValue s b (of_nat k mod 4096) = Some v \<and> v = file_byte s n k"
    using fs_wf_inode [OF assms(1,2)] assms(3) by (metis word_less_nat_alt)
  have in_range: "\<not> m - 1 < n"
    using assms(3) by (auto simp: word_less_nat_alt unat_sub_if_size)
  show ?thesis
  proof (cases "z \<le> off")
    case True
    then have "slice (unat off) (unat len) (file_content s n) = []"
      using z by (simp add: slice_def word_le_nat_alt)
    then show ?thesis using True assms(2) in_range z by (simp add: read_data_def)
  next
    case False
    have e: "unat (off + len) = unat off + unat len" using assms(4) by (simp add: unat_word_ariths)
    have "unat off \<le> unat z" "unat z < 2 ^ 31" using False z(2) by (simp_all add: word_le_nat_alt)
    then have le: "unat off \<le> unat z" "unat z < 2 ^ 31" by simp_all
    have mn: "min (unat off + unat len) (unat z) - unat off = min (unat len) (unat z - unat off)" by simp
    from read_data_loop_eq [OF z(1) bytes _ le(1) _ le(2), of off "[]" "off + len"]
    have "read_data_loop s n off (off + len) off [] =
      Some (int (min (unat len) (unat z - unat off)),
        slice (unat off) (unat len) (file_content s n))"
      using z(1) e mn by (simp add: slice_file_content del: of_nat_diff)
    then show ?thesis
      using False assms(2) in_range z by (simp add: read_data_def word_le_nat_alt)
  qed
qed

lemma read_data_bad_inode:
  "numInodes s = Some m \<Longrightarrow> m - 1 < n \<Longrightarrow>
     read_data n off len s =
       map_option (\<lambda>s'. (-1, [], s')) (for_each (bytes ''read_data: Inode out of range '' @ [10]) putc s)"
  by (simp add: read_data_def printf_plain cstr_append split: option.split)

section \<open>The interface of a byte source\<close>

text \<open>
  What a reader relies on: a request for \<open>len\<close> bytes at \<open>off\<close> delivers that slice. A client
  that asks for one chunk after another, until a chunk is empty, gets everything.
\<close>

fun drain :: "('s \<Rightarrow> nat \<Rightarrow> nat \<Rightarrow> 'a list) \<Rightarrow> 's \<Rightarrow> nat \<Rightarrow> nat \<Rightarrow> nat \<Rightarrow> 'a list option" where
  "drain fetch s chunk 0 off = None"
| "drain fetch s chunk (Suc fuel) off =
     (let c = fetch s off chunk in
      if c = [] then Some []
      else map_option (\<lambda>rest. c @ rest) (drain fetch s chunk fuel (off + length c)))"

locale byte_source =
  fixes ok :: "'s \<Rightarrow> bool" and fetch :: "'s \<Rightarrow> nat \<Rightarrow> nat \<Rightarrow> 'a list"
    and content :: "'s \<Rightarrow> 'a list" and limit :: nat
  assumes fetch_slice: "ok s \<Longrightarrow> off + len < limit \<Longrightarrow> fetch s off len = slice off len (content s)"
begin

lemma fetch_end: "ok s \<Longrightarrow> off + len < limit \<Longrightarrow> length (content s) \<le> off \<Longrightarrow> fetch s off len = []"
  by (simp add: fetch_slice slice_def)

lemma fetch_progress:
  "ok s \<Longrightarrow> off + len < limit \<Longrightarrow> off < length (content s) \<Longrightarrow> 0 < len \<Longrightarrow> fetch s off len \<noteq> []"
  by (simp add: fetch_slice slice_def)

lemma drain_content:
  "ok s \<Longrightarrow> 0 < chunk \<Longrightarrow> length (content s) + chunk < limit \<Longrightarrow> off \<le> length (content s) \<Longrightarrow>
     length (content s) - off < fuel \<Longrightarrow> drain fetch s chunk fuel off = Some (drop off (content s))"
proof (induction fuel arbitrary: off)
  case (Suc fuel)
  have f: "fetch s off chunk = slice off chunk (content s)" using Suc.prems by (intro fetch_slice) auto
  show ?case
  proof (cases "off = length (content s)")
    case True
    then show ?thesis using f by (simp add: slice_def)
  next
    case False
    then have ne: "slice off chunk (content s) \<noteq> []" using Suc.prems by (simp add: slice_def)
    have "drain fetch s chunk fuel (off + length (slice off chunk (content s))) =
        Some (drop (off + length (slice off chunk (content s))) (content s))"
      using Suc.prems False by (intro Suc.IH) auto
    moreover have "slice off chunk (content s) @ drop (off + length (slice off chunk (content s))) (content s) =
        drop off (content s)"
      by (simp add: slice_def min_def flip: drop_drop) (metis add.commute append_take_drop_id drop_drop)
    ultimately show ?thesis using f ne by (simp add: Let_def)
  qed
qed simp

end

text \<open>Inode \<open>n\<close> of a well-formed image, through \<open>read_data\<close>.\<close>

definition inode_fetch :: "machine \<times> u32 \<Rightarrow> nat \<Rightarrow> nat \<Rightarrow> u8 list" where
  "inode_fetch f off len =
     (case read_data (snd f) (of_nat off) (of_nat len) (fst f) of
        None \<Rightarrow> [] | Some (r, out, s) \<Rightarrow> out)"

definition inode_readable :: "machine \<times> u32 \<Rightarrow> bool" where
  "inode_readable f \<longleftrightarrow> fs_wf (fst f) \<and> (\<exists>m. numInodes (fst f) = Some m \<and> snd f < m)"

interpretation inode: byte_source inode_readable inode_fetch "\<lambda>f. file_content (fst f) (snd f)" "2 ^ 32"
proof
  fix f off len assume a: "inode_readable f" "off + len < (2 :: nat) ^ 32"
  then obtain m where m: "fs_wf (fst f)" "numInodes (fst f) = Some m" "snd f < m"
    by (auto simp: inode_readable_def)
  have "unat (of_nat off :: u32) = off" "unat (of_nat len :: u32) = len"
    using a(2) by (simp_all add: unat_of_nat)
  then show "inode_fetch f off len = slice off len (file_content (fst f) (snd f))"
    using read_data_eq [OF m, of "of_nat off" "of_nat len"] a(2) by (simp add: inode_fetch_def)
qed

section \<open>A small image\<close>

lemma img_u32_le_bytes:
  assumes "take 4 (drop k (fs_image s)) = le_bytes w" shows "img_u32 s k = Some w"
proof -
  let ?b = "fs_image s"
  have "length (take 4 (drop k ?b)) = 4" using assms by simp
  then have l: "k + 4 \<le> length ?b" by simp
  have "?b ! (k + i) = le_bytes w ! i" if "i < 4" for i
    using that l by (simp flip: assms)
  from this [of 0] this [of 1] this [of 2] this [of 3] show ?thesis
    using l le32_le_bytes [of w] by (simp add: img_u32_def)
qed

text \<open>
  One directory entry, of any name, for inode 0, whose content of up to one block stands in block 0.
\<close>

definition image_of :: "u8 list \<Rightarrow> u8 list \<Rightarrow> u8 list" where
  "image_of nm c =
     le_bytes 1 @ le_bytes 1 @ le_bytes 1 @ replicate 52 0 @
     nm @ replicate (32 - length nm) 0 @ le_bytes 2 @ le_bytes 0 @ replicate 24 0 @ replicate 3968 0 @
     le_bytes (of_nat (length c)) @ le_bytes 0 @ replicate 4088 0 @
     c @ replicate (4096 - length c) 0"

definition holds_image :: "u8 list \<Rightarrow> u8 list \<Rightarrow> machine \<Rightarrow> bool" where
  "holds_image nm c s \<longleftrightarrow> fs_image s = image_of nm c \<and> inode_start s = 4096 \<and> datablock_start s = 8192 \<and>
     length c \<le> 4096 \<and> length nm \<le> 32"

lemma image_of_facts:
  assumes "length nm \<le> 32"
  shows "length c \<le> 4096 \<Longrightarrow> length (image_of nm c) = 12288"
    "take 4 (image_of nm c) = le_bytes 1" "take 4 (drop 4 (image_of nm c)) = le_bytes 1"
    "take 4 (drop 8 (image_of nm c)) = le_bytes 1"
    "take 32 (drop 64 (image_of nm c)) = nm @ replicate (32 - length nm) 0"
    "take 4 (drop 96 (image_of nm c)) = le_bytes 2" "take 4 (drop 100 (image_of nm c)) = le_bytes 0"
    "take 24 (drop 104 (image_of nm c)) = replicate 24 0"
    "take 4 (drop 4096 (image_of nm c)) = le_bytes (of_nat (length c))"
    "take 4 (drop 4100 (image_of nm c)) = le_bytes 0"
    "drop 8192 (image_of nm c) = c @ replicate (4096 - length c) 0"
  using assms by (simp_all add: image_of_def le_bytes_def)

lemma image_img:
  assumes "holds_image nm c s"
  shows "img_u32 s 0 = Some 1" "img_u32 s 4 = Some 1" "img_u32 s 8 = Some 1"
    "img_u32 s 96 = Some 2" "img_u32 s 100 = Some 0" "img_u32 s 4096 = Some (of_nat (length c))" "img_u32 s 4100 = Some 0"
  using assms by (simp_all add: holds_image_def img_u32_le_bytes image_of_facts)

lemma image_counts:
  assumes "holds_image nm c s"
  shows "numDentries s = Some 1" "numInodes s = Some 1" "numDataBlocks s = Some 1"
    "numBytes s 0 = Some (of_nat (length c))" "dataBlockNumber s 0 0 = Some 0"
  using assms image_img [OF assms]
  by (simp_all add: holds_image_def numDentries_def numInodes_def numDataBlocks_def numBytes_def dataBlockNumber_def
      MAX_DATA_BLOCKS_def)

definition named_entry :: "u8 list \<Rightarrow> dentry" where
  "named_entry nm = \<lparr>fileName = nm @ replicate (32 - length nm) 0, fileType = 2, inodeNumber = 0,
     reserved = replicate 24 0\<rparr>"

lemma image_dentry: "holds_image nm c s \<Longrightarrow> bootDentries s 0 = Some (named_entry nm)"
  using image_img [of nm c s]
  by (simp add: holds_image_def bootDentries_def fs_consts img_bytes_def image_of_facts named_entry_def)

lemma image_wf:
  assumes "holds_image nm c s" shows "fs_wf s"
proof -
  have l: "length c \<le> 4096" using assms by (simp add: holds_image_def)
  then have u: "unat (of_nat (length c) :: u32) = length c" by (simp add: unat_of_nat)
  have "inode_ok s 1 0"
  proof (cases "c = []")
    case True
    then show ?thesis by (simp add: inode_ok_def image_counts [OF assms] blocks_of_def)
  next
    case False
    then have "1 \<le> length c" by (cases c) simp_all
    then have "(length c + 4095) div 4096 = 1" using l by (intro div_nat_eqI) simp_all
    then have "blocks_of (of_nat (length c)) = 1" by (simp add: blocks_of_def u)
    then show ?thesis by (simp add: inode_ok_def image_counts [OF assms] MAX_DATA_BLOCKS_def)
  qed
  then show ?thesis using assms
    by (simp add: fs_wf_def image_counts [OF assms] holds_image_def image_of_facts MAX_NUM_DENTRIES_def)
qed

lemma image_content:
  assumes "holds_image nm c s" shows "file_content s 0 = c"
proof -
  have l: "length c \<le> 4096" using assms by (simp add: holds_image_def)
  then have u: "unat (of_nat (length c) :: u32) = length c" by (simp add: unat_of_nat)
  have "file_byte s 0 k = c ! k" if "k < length c" for k
  proof -
    have k: "k div 4096 = 0" "k mod 4096 = k" "unat (of_nat k :: u32) = k" using that l by (simp_all add: unat_of_nat)
    have "length nm \<le> 32" using assms by (simp add: holds_image_def)
    note facts = image_of_facts [OF this]
    have "image_of nm c ! (8192 + k) = (drop 8192 (image_of nm c)) ! k"
      using that l by (simp add: facts(1))
    then have "image_of nm c ! (8192 + k) = c ! k" using that by (simp add: facts nth_append)
    then show ?thesis using assms that l k
      by (simp add: file_byte_def image_counts [OF assms] dataBlockValue_def holds_image_def facts(1))
  qed
  then have "file_content s 0 = map ((!) c) [0..<length c]"
    by (simp add: file_content_def image_counts [OF assms] u)
  then show ?thesis by (simp add: map_nth)
qed

lemma image_entries: "holds_image nm c s \<Longrightarrow> dir_entries s = [named_entry nm]"
  by (simp add: dir_entries_def image_counts [of nm c s] image_dentry)

definition sample_image :: "u8 list" where
  "sample_image = image_of (bytes ''hi'') (bytes ''yo'' @ [10])"

definition sample_fs :: machine where
  "sample_fs = the (init_filesystem sample_image paged)"

lemma image_init:
  "length nm \<le> 32 \<Longrightarrow> init_filesystem (image_of nm c) paged =
     Some (paged\<lparr>fs_image := image_of nm c, inode_start := 4096, datablock_start := 8192\<rparr>)"
  by (simp add: init_filesystem_def numInodes_def img_u32_le_bytes [where w = 1] image_of_facts)

lemma sample_fs_eq: "sample_fs = paged\<lparr>fs_image := sample_image, inode_start := 4096, datablock_start := 8192\<rparr>"
  by (simp add: sample_fs_def sample_image_def image_init)

lemma sample_holds: "holds_image (bytes ''hi'') (bytes ''yo'' @ [10]) sample_fs"
  by (simp add: holds_image_def sample_fs_eq sample_image_def)

lemma sample_sel [simp]: "stack_junk sample_fs = (\<lambda>_. 0)"
  by (simp add: sample_fs_eq)

lemma sample_counts:
  "numDentries sample_fs = Some 1" "numInodes sample_fs = Some 1" "numDataBlocks sample_fs = Some 1"
  using image_counts [OF sample_holds] by simp_all

lemma sample_wf: "fs_wf sample_fs"
  by (rule image_wf [OF sample_holds])

lemma sample_content: "file_content sample_fs 0 = bytes ''yo'' @ [10]"
  by (rule image_content [OF sample_holds])

lemma sample_entries:
  "dir_entries sample_fs = [\<lparr>fileName = bytes ''hi'' @ replicate 30 0, fileType = 2,
     inodeNumber = 0, reserved = replicate 24 0\<rparr>]"
  by (simp add: image_entries [OF sample_holds] named_entry_def)

section \<open>Properties\<close>

text \<open>C7: on a well-formed image, \<open>read_data\<close> of up to \<open>len\<close> bytes at \<open>off\<close> delivers exactly the
  bytes of the file from \<open>off\<close> on, as many as there are up to \<open>len\<close>, returns their number, and
  changes nothing; at or past the end of the file it returns 0.\<close>

theorem read_data_delivers:
  assumes "fs_wf s" "numInodes s = Some m" "n < m" "unat off + unat len < 2 ^ 32"
  shows "read_data n off len s =
    Some (int (length (slice (unat off) (unat len) (file_content s n))),
          slice (unat off) (unat len) (file_content s n), s)"
  using assms by (rule read_data_eq)

theorem read_data_delivers_witness: "read_data 0 1 8 sample_fs = Some (2, [111, 10], sample_fs)"
  using read_data_delivers [OF sample_wf sample_counts(2), of 0 1 8] by (simp add: sample_content slice_def)

text \<open>C8: a reader that asks for chunks of any positive size, each at the position the last one
  ended, until a chunk comes back empty, gets the whole file and comes to an end.\<close>

theorem chunked_read_is_whole_file:
  assumes "fs_wf s" "numInodes s = Some m" "n < m" "0 < chunk"
    and "length (file_content s n) + chunk < 2 ^ 32"
  shows "drain inode_fetch (s, n) chunk (length (file_content s n) + 1) 0 = Some (file_content s n)"
  using inode.drain_content [of "(s, n)" chunk 0 "length (file_content s n) + 1"] assms
  by (simp add: inode_readable_def)

theorem chunked_read_is_whole_file_witness:
  "drain inode_fetch (sample_fs, 0) 2 4 0 = Some (bytes ''yo'' @ [10])"
proof -
  have l: "length (file_content sample_fs 0) = 3" by (simp add: sample_content)
  then have "length (file_content sample_fs 0) + 2 < 2 ^ 32" by simp
  then have "drain inode_fetch (sample_fs, 0) 2 (length (file_content sample_fs 0) + 1) 0 =
      Some (file_content sample_fs 0)"
    by (intro chunked_read_is_whole_file [OF sample_wf sample_counts(2)]) simp_all
  then show ?thesis unfolding l unfolding sample_content by simp
qed

text \<open>C16: \<open>read_dentry_by_name\<close> finds the first entry whose name is exactly the given C string and
  copies its name, type and inode number; without such an entry, or for a name of more than 32
  characters, it returns -1 and leaves the caller's entry alone.\<close>

theorem lookup_by_name:
  assumes "fs_wf s" "terminated fname" "length (fileName d) = 32"
  shows "read_dentry_by_name fname d s =
    (if 32 < length (cstr fname) then Some (-1, d)
     else case find (\<lambda>e. entry_name e = cstr fname) (dir_entries s) of
            None \<Rightarrow> Some (-1, d)
          | Some e \<Rightarrow> Some (0, e\<lparr>reserved := reserved d\<rparr>))"
  using assms by (rule read_dentry_by_name_eq)

theorem lookup_by_name_witness:
  "read_dentry_by_name (bytes ''hi'' @ [0]) (blank_dentry sample_fs) sample_fs =
     Some (0, \<lparr>fileName = bytes ''hi'' @ replicate 30 0, fileType = 2, inodeNumber = 0,
       reserved = replicate 24 0\<rparr>)"
proof -
  have "reserved (blank_dentry sample_fs) = replicate 24 0"
    by (simp add: blank_dentry_def numeral_eq_Suc)
  then show ?thesis
    using lookup_by_name [OF sample_wf, of "bytes ''hi'' @ [0]" "blank_dentry sample_fs"]
    by (simp add: sample_entries entry_name_def cstr_def)
qed

text \<open>\<open>read_dentry_by_index\<close> accepts one index too many. The comment promises -1 for an invalid
  index; the index equal to the number of entries returns 0 with whatever the next slot of the
  boot block holds.\<close>

theorem index_one_past_the_end:
  assumes "fs_wf s" "numDentries s = Some n" "unat n < 63" "length (fileName d) = 32"
  shows "read_dentry_by_index n d s = Some (0, (the (bootDentries s (unat n)))\<lparr>reserved := reserved d\<rparr>) \<and>
    read_dentry_by_index (n + 1) d s = Some (-1, d)"
proof -
  have "n < n + 1" using assms(3) by (simp add: word_less_nat_alt unat_word_ariths)
  then show ?thesis
    using read_dentry_by_index_eq [OF assms(1,2,4)] assms(3) by simp_all
qed

theorem index_one_past_the_end_witness:
  "fst (the (read_dentry_by_index 1 (blank_dentry sample_fs) sample_fs)) = 0"
  using index_one_past_the_end [OF sample_wf sample_counts(1), of "blank_dentry sample_fs"] by simp

text \<open>C17: reading the directory yields the entries' names in order, each padded with NULs to 32
  bytes, and 0 after the last; a full 32-character name is followed by a NUL at \<open>buf[32]\<close>,
  however small \<open>num_bytes\<close> is.\<close>

theorem directory_listing:
  assumes "fs_wf s" "numDentries s = Some n" "33 \<le> length buf" "terminated (drop 32 buf)"
  shows "directory_read i buf nb s =
    (if i < n then
       let nm = entry_name (dir_entries s ! unat i)
       in Some (int (length nm), nm @ replicate (32 - length nm) 0 @
            (if length nm = 32 then 0 # drop 33 buf else drop 32 buf))
     else Some (0, buf))"
  using directory_read_eq [OF assms(1,2), of buf i] directory_read_end [OF assms(2), of i buf nb] assms(3,4)
  by (simp add: Let_def)

theorem directory_listing_witness:
  "directory_read 0 (replicate 34 0) 2 sample_fs = Some (2, bytes ''hi'' @ replicate 30 0 @ replicate 2 0)"
  using directory_listing [OF sample_wf sample_counts(1), of "replicate 34 0" 0 2]
  by (simp add: sample_entries entry_name_def cstr_def terminated_def)

end
