(* ===== verification/Pic.thy ===== *)
theory Pic
  imports MachineState
begin

text \<open>
  The 8259 interrupt controllers (\<^verbatim>\<open>i8259.c\<close>) and the programmable interval timer set up
  through them (\<^verbatim>\<open>devices/pit.c\<close>, \<open>init_pit\<close>). The two cached mask bytes are read as one set
  of enabled interrupt lines, and the interface \<open>irq_controller\<close> says what the device
  drivers rely on: enabling and disabling move exactly the line they name.
\<close>

section \<open>Constants (i8259.h, pit.h)\<close>

definition ICW1 :: u8 where "ICW1 = 0x11"
definition ICW2_MASTER :: u8 where "ICW2_MASTER = 0x20"
definition ICW2_SLAVE :: u8 where "ICW2_SLAVE = 0x28"
definition ICW3_MASTER :: u8 where "ICW3_MASTER = 0x04"
definition ICW3_SLAVE :: u8 where "ICW3_SLAVE = 0x02"
definition ICW4 :: u8 where "ICW4 = 0x01"
definition EOI :: u8 where "EOI = 0x60"
definition PIC1_COMMAND :: u16 where "PIC1_COMMAND = 0x20"
definition PIC1_DATA :: u16 where "PIC1_DATA = 0x21"
definition PIC2_COMMAND :: u16 where "PIC2_COMMAND = 0xA0"
definition PIC2_DATA :: u16 where "PIC2_DATA = 0xA1"
definition SLAVE_PORT :: u32 where "SLAVE_PORT = 2"
definition PORT_COUNT :: u32 where "PORT_COUNT = 8"
definition TOTAL_PORT_COUNT :: u32 where "TOTAL_PORT_COUNT = PORT_COUNT * 2"

lemmas pic_consts = ICW1_def ICW2_MASTER_def ICW2_SLAVE_def ICW3_MASTER_def ICW3_SLAVE_def
  ICW4_def EOI_def PIC1_COMMAND_def PIC1_DATA_def PIC2_COMMAND_def PIC2_DATA_def
  SLAVE_PORT_def PORT_COUNT_def TOTAL_PORT_COUNT_def

definition PIT_CHANNEL_0 :: u16 where "PIT_CHANNEL_0 = 0x40"
definition PIT_COMMAND :: u16 where "PIT_COMMAND = 0x43"
definition PIT_MODE :: u8 where "PIT_MODE = 0x36"
definition PIT_MASK :: int where "PIT_MASK = 0xFF"
definition PIT_FREQ_CONSTANT :: int where "PIT_FREQ_CONSTANT = 1193181"
definition PIT_20HZ :: int where "PIT_20HZ = PIT_FREQ_CONSTANT div 20"
definition PIT_LINE :: u32 where "PIT_LINE = 0"

lemmas pit_consts = PIT_CHANNEL_0_def PIT_COMMAND_def PIT_MODE_def PIT_MASK_def
  PIT_FREQ_CONSTANT_def PIT_20HZ_def PIT_LINE_def

section \<open>Operations\<close>

text \<open>
  \<open>1 << n\<close> on a 32-bit int. C leaves a count of 32 or more undefined; the processor takes it
  modulo 32, and so does the model.
\<close>

definition bit_int :: "u32 \<Rightarrow> u32" where
  "bit_int n = push_bit (unat n mod 32) 1"

definition enable_irq :: "u32 \<Rightarrow> machine \<Rightarrow> machine" where
  "enable_irq irq_num s =
     (if irq_num < PORT_COUNT
      then let s = s\<lparr>master_mask := master_mask s AND ucast (NOT (bit_int irq_num))\<rparr>
           in outb (master_mask s) PIC1_DATA s
      else let s = s\<lparr>slave_mask := slave_mask s AND ucast (NOT (bit_int (irq_num - PORT_COUNT)))\<rparr>
           in outb (slave_mask s) PIC2_DATA s)"

definition disable_irq :: "u32 \<Rightarrow> machine \<Rightarrow> machine" where
  "disable_irq irq_num s =
     (if irq_num < PORT_COUNT
      then let s = s\<lparr>master_mask := master_mask s OR ucast (bit_int irq_num)\<rparr>
           in outb (master_mask s) PIC1_DATA s
      else let s = s\<lparr>slave_mask := slave_mask s OR ucast (bit_int (irq_num - PORT_COUNT))\<rparr>
           in outb (slave_mask s) PIC2_DATA s)"

definition send_eoi :: "u32 \<Rightarrow> machine \<Rightarrow> machine" where
  "send_eoi irq_num s =
     (if irq_num \<ge> TOTAL_PORT_COUNT then s
      else if irq_num \<ge> PORT_COUNT
      then outb (EOI OR ucast SLAVE_PORT) PIC1_COMMAND
             (outb (EOI OR ucast (irq_num - PORT_COUNT)) PIC2_COMMAND s)
      else outb (EOI OR ucast irq_num) PIC1_COMMAND s)"

definition i8259_init :: "machine \<Rightarrow> machine" where
  "i8259_init s =
     (let (saved_flags, s) = cli_and_save s;
          s = outb ICW1 PIC1_COMMAND s;
          s = outb ICW1 PIC2_COMMAND s;
          s = outb ICW2_MASTER PIC1_DATA s;
          s = outb ICW2_SLAVE PIC2_DATA s;
          s = outb ICW3_MASTER PIC1_DATA s;
          s = outb ICW3_SLAVE PIC2_DATA s;
          s = outb ICW4 PIC1_DATA s;
          s = outb ICW4 PIC2_DATA s;
          s = outb (master_mask s) PIC1_DATA s;
          s = outb (slave_mask s) PIC2_DATA s;
          s = enable_irq SLAVE_PORT s
      in restore_flags saved_flags s)"

definition init_pit :: "machine \<Rightarrow> machine" where
  "init_pit s =
     (let s = outb PIT_MODE PIT_COMMAND s;
          s = outb (of_int (and PIT_20HZ PIT_MASK)) PIT_CHANNEL_0 s;
          s = outb (of_int (and (drop_bit 8 PIT_20HZ) PIT_MASK)) PIT_CHANNEL_0 s
      in enable_irq PIT_LINE s)"

section \<open>The set of enabled lines\<close>

definition irq_enabled :: "machine \<Rightarrow> nat \<Rightarrow> bool" where
  "irq_enabled s i \<longleftrightarrow>
     (if i < 8 then \<not> bit (master_mask s) i else i < 16 \<and> \<not> bit (slave_mask s) (i - 8))"

definition enabled_lines :: "machine \<Rightarrow> nat set" where
  "enabled_lines s = {i. irq_enabled s i}"

text \<open>The masks the kernel believes in are the ones it last wrote to the two data ports.\<close>

fun last_out :: "u16 \<Rightarrow> io_event list \<Rightarrow> u8 option" where
  "last_out p [] = None"
| "last_out p (Out q d # l) = (if q = p then Some d else last_out p l)"
| "last_out p (In q d # l) = last_out p l"

definition masks_synced :: "machine \<Rightarrow> bool" where
  "masks_synced s \<longleftrightarrow>
     last_out PIC1_DATA (io_log s) = Some (master_mask s) \<and>
     last_out PIC2_DATA (io_log s) = Some (slave_mask s)"

lemma bit_bit_int: "bit (bit_int n) i \<longleftrightarrow> i < 32 \<and> i = unat n mod 32"
  unfolding bit_int_def bit_push_bit_iff by (auto simp: bit_1_iff)

lemma unat_minus_8: "\<not> n < (8 :: u32) \<Longrightarrow> unat (n - 8) = unat n - 8"
  by (simp add: unat_sub word_le_nat_alt word_less_nat_alt)

lemma irq_enabled_enable_irq:
  assumes "n < 16"
  shows "irq_enabled (enable_irq n s) i \<longleftrightarrow> irq_enabled s i \<or> i = unat n"
proof -
  have n: "unat n < 16" using assms by (simp add: word_less_nat_alt)
  show ?thesis
    using n
    by (auto simp: irq_enabled_def enable_irq_def Let_def outb_def pic_consts bit_and_iff bit_ucast_iff
        bit_not_iff bit_bit_int word_less_nat_alt unat_minus_8 exp_eq_zero_iff)
qed

lemma irq_enabled_disable_irq:
  assumes "n < 16"
  shows "irq_enabled (disable_irq n s) i \<longleftrightarrow> irq_enabled s i \<and> i \<noteq> unat n"
proof -
  have n: "unat n < 16" using assms by (simp add: word_less_nat_alt)
  show ?thesis
    using n
    by (auto simp: irq_enabled_def disable_irq_def Let_def outb_def pic_consts bit_or_iff bit_ucast_iff
        bit_bit_int word_less_nat_alt unat_minus_8)
qed

lemma masks_synced_enable_irq: "masks_synced s \<Longrightarrow> masks_synced (enable_irq n s)"
  by (auto simp: masks_synced_def enable_irq_def Let_def outb_def pic_consts)

lemma masks_synced_disable_irq: "masks_synced s \<Longrightarrow> masks_synced (disable_irq n s)"
  by (auto simp: masks_synced_def disable_irq_def Let_def outb_def pic_consts)

section \<open>The interface the drivers use\<close>

locale irq_controller =
  fixes lines :: "'k \<Rightarrow> nat set"
    and enable :: "u32 \<Rightarrow> 'k \<Rightarrow> 'k"
    and disable :: "u32 \<Rightarrow> 'k \<Rightarrow> 'k"
    and synced :: "'k \<Rightarrow> bool"
  assumes lines_enable: "n < 16 \<Longrightarrow> lines (enable n k) = insert (unat n) (lines k)"
    and lines_disable: "n < 16 \<Longrightarrow> lines (disable n k) = lines k - {unat n}"
    and synced_enable: "synced k \<Longrightarrow> synced (enable n k)"
    and synced_disable: "synced k \<Longrightarrow> synced (disable n k)"
begin

lemma lines_enable_all:
  "\<forall>n \<in> set ns. n < 16 \<Longrightarrow> lines (fold enable ns k) = lines k \<union> unat ` set ns"
  by (induction ns arbitrary: k) (auto simp: lines_enable)

lemma disable_enable: "n < 16 \<Longrightarrow> unat n \<notin> lines k \<Longrightarrow> lines (disable n (enable n k)) = lines k"
  by (simp add: lines_enable lines_disable)

lemma enable_disable: "n < 16 \<Longrightarrow> unat n \<in> lines k \<Longrightarrow> lines (enable n (disable n k)) = lines k"
  by (auto simp: lines_enable lines_disable)

lemma synced_enable_all: "synced k \<Longrightarrow> synced (fold enable ns k)"
  by (induction ns arbitrary: k) (auto simp: synced_enable)

end

interpretation pic: irq_controller enabled_lines enable_irq disable_irq masks_synced
  by unfold_locales
    (auto simp: enabled_lines_def irq_enabled_enable_irq irq_enabled_disable_irq
      masks_synced_enable_irq masks_synced_disable_irq)

lemma enabled_lines_i8259_init: "enabled_lines (i8259_init s) = insert 2 (enabled_lines s)"
proof -
  have "enabled_lines (i8259_init s) = enabled_lines (enable_irq 2 s)"
    by (simp add: enabled_lines_def irq_enabled_def i8259_init_def enable_irq_def Let_def
        effect_defs pic_consts)
  then show ?thesis by (simp add: pic.lines_enable)
qed

lemma masks_synced_i8259_init: "masks_synced (i8259_init s)"
  by (simp add: masks_synced_def i8259_init_def enable_irq_def Let_def effect_defs pic_consts)

lemma enabled_lines_init_pit: "enabled_lines (init_pit s) = insert 0 (enabled_lines s)"
proof -
  have "enabled_lines (init_pit s) = enabled_lines (enable_irq 0 s)"
    by (simp add: enabled_lines_def irq_enabled_def init_pit_def enable_irq_def Let_def
        effect_defs pic_consts pit_consts)
  then show ?thesis by (simp add: pic.lines_enable)
qed

lemma enable_irq_frame [frame_facts]:
  "int_flag (enable_irq n s) = int_flag s"
  "frames (enable_irq n s) = frames s"
  by (simp_all add: enable_irq_def Let_def outb_def)

end
