(* ===== verification/Rtc.thy ===== *)
theory Rtc
  imports Pic
begin

text \<open>
  The real-time clock driver (\<^verbatim>\<open>devices/rtc.c\<close>). Its two ports reach a CMOS register file
  that is not part of the repository: \<open>hw\<close> answers the reads. \<open>rtc_read\<close> waits for an
  interrupt; its loop runs against the list of what the interrupts do to the machine
  between two tests of the flag.
\<close>

section \<open>Constants (rtc.h)\<close>

definition RTC_INDEX_PORT :: u16 where "RTC_INDEX_PORT = 0x70"
definition RTC_DATA_PORT :: u16 where "RTC_DATA_PORT = 0x71"
definition RTC_IRQ :: u32 where "RTC_IRQ = 8"
definition RTC_REG_B_NMI_BIT :: u8 where "RTC_REG_B_NMI_BIT = 0x8B"
definition RTC_REG_A_NMI_BIT :: u8 where "RTC_REG_A_NMI_BIT = 0x8A"
definition RTC_BIT_6_ENABLE :: u8 where "RTC_BIT_6_ENABLE = 0x40"
definition RTC_RATE_BITS :: u8 where "RTC_RATE_BITS = 0xF0"
definition RTC_REG_C :: u8 where "RTC_REG_C = 0x0C"
definition RTC_RATE_MASK :: u8 where "RTC_RATE_MASK = 0x0F"
definition RTC_RATE :: u8 where "RTC_RATE = 15"
definition NBYTES_SIZE :: int where "NBYTES_SIZE = 4"

lemmas rtc_consts = RTC_INDEX_PORT_def RTC_DATA_PORT_def RTC_IRQ_def RTC_REG_B_NMI_BIT_def
  RTC_REG_A_NMI_BIT_def RTC_BIT_6_ENABLE_def RTC_RATE_BITS_def RTC_REG_C_def
  RTC_RATE_MASK_def RTC_RATE_def NBYTES_SIZE_def

section \<open>Operations\<close>

text \<open>The \<open>switch\<close> of \<open>set_rtc_frequency\<close>: the rate of each accepted frequency.\<close>

definition rtc_rate_of :: "u32 \<Rightarrow> u8 option" where
  "rtc_rate_of frequency =
     (if frequency = 2 then Some 0x0F
      else if frequency = 4 then Some 0x0E
      else if frequency = 8 then Some 0x0D
      else if frequency = 16 then Some 0x0C
      else if frequency = 32 then Some 0x0B
      else if frequency = 64 then Some 0x0A
      else if frequency = 128 then Some 0x09
      else if frequency = 256 then Some 0x08
      else if frequency = 512 then Some 0x07
      else if frequency = 1024 then Some 0x06
      else None)"

definition set_rtc_frequency :: "device \<Rightarrow> u32 \<Rightarrow> machine \<Rightarrow> machine" where
  "set_rtc_frequency hw frequency s =
     (case rtc_rate_of frequency of
        None \<Rightarrow> s
      | Some rate \<Rightarrow>
          let s = outb RTC_REG_A_NMI_BIT RTC_INDEX_PORT s;
              (prev, s) = inb hw RTC_DATA_PORT s;
              s = outb RTC_REG_A_NMI_BIT RTC_INDEX_PORT s
          in outb (prev AND RTC_RATE_BITS OR rate) RTC_DATA_PORT s)"

text \<open>Reading register C lets the next interrupt through.\<close>

definition rtc_ack :: "device \<Rightarrow> machine \<Rightarrow> machine" where
  "rtc_ack hw s = snd (inb hw RTC_DATA_PORT (outb RTC_REG_C RTC_INDEX_PORT s))"

definition rtc_init :: "device \<Rightarrow> machine \<Rightarrow> machine" where
  "rtc_init hw s =
     (let s = cli s;
          s = outb RTC_REG_B_NMI_BIT RTC_INDEX_PORT s;
          (prev, s) = inb hw RTC_DATA_PORT s;
          s = outb RTC_REG_B_NMI_BIT RTC_INDEX_PORT s;
          s = outb (prev OR RTC_BIT_6_ENABLE) RTC_DATA_PORT s;
          rate = RTC_RATE AND RTC_RATE_MASK;
          s = outb RTC_REG_A_NMI_BIT RTC_INDEX_PORT s;
          (prev, s) = inb hw RTC_DATA_PORT s;
          s = outb RTC_REG_A_NMI_BIT RTC_INDEX_PORT s;
          s = outb (prev AND RTC_RATE_BITS OR rate) RTC_DATA_PORT s;
          s = rtc_ack hw s;
          s = enable_irq RTC_IRQ s
      in sti s)"

definition rtc_handler :: "device \<Rightarrow> machine \<Rightarrow> machine" where
  "rtc_handler hw s =
     (let s = cli s;
          s = rtc_ack hw s;
          s = (if rtc_interrupt_flag s = 0 then s\<lparr>rtc_interrupt_flag := 1\<rparr> else s);
          s = sti s
      in send_eoi RTC_IRQ s)"

definition rtc_open :: "device \<Rightarrow> machine \<Rightarrow> int \<times> machine" where
  "rtc_open hw s = (0, rtc_init hw s)"

definition rtc_close :: "machine \<Rightarrow> int \<times> machine" where
  "rtc_close s = (0, s)"

text \<open>\<open>buf\<close> is the null pointer (\<open>None\<close>) or the bytes it points to.\<close>

definition rtc_write :: "device \<Rightarrow> u8 list option \<Rightarrow> int \<Rightarrow> machine \<Rightarrow> (int \<times> machine) option" where
  "rtc_write hw buf nbytes s =
     (if nbytes \<noteq> NBYTES_SIZE then Some (-1, s)
      else case buf of
        None \<Rightarrow> Some (-1, s)
      | Some b \<Rightarrow> do {
          b0 \<leftarrow> rd b 0; b1 \<leftarrow> rd b 1; b2 \<leftarrow> rd b 2; b3 \<leftarrow> rd b 3;
          let s = set_rtc_frequency hw (le32 b0 b1 b2 b3) s;
          let s = rtc_ack hw s;
          Some (nbytes, send_eoi RTC_IRQ s)
        })"

text \<open>
  \<open>rtc_read\<close>: clear the flag, then test it until it is set. Each test that finds it clear is
  followed by one element of \<open>env\<close>, what happens on the machine before the next test.
\<close>

datatype 'a blocking = Returned 'a | Waiting machine

type_synonym interference = "(machine \<Rightarrow> machine option) list"

fun rtc_spin :: "interference \<Rightarrow> machine \<Rightarrow> (int \<times> machine) blocking option" where
  "rtc_spin [] s = Some (if rtc_interrupt_flag s = 0 then Waiting s else Returned (0, s))"
| "rtc_spin (e # env) s =
     (if rtc_interrupt_flag s = 0 then (case e s of None \<Rightarrow> None | Some s \<Rightarrow> rtc_spin env s)
      else Some (Returned (0, s)))"

definition rtc_read :: "interference \<Rightarrow> machine \<Rightarrow> (int \<times> machine) blocking option" where
  "rtc_read env s = rtc_spin env (s\<lparr>rtc_interrupt_flag := 0\<rparr>)"

section \<open>The registers behind the ports\<close>

text \<open>
  What the documented CMOS chip holds after a log of accesses: the index port selects a
  register (bit 7 is the NMI mask), the data port writes it. \<open>cmos_reg\<close> is what the kernel
  has stored last in a register, if anything.
\<close>

fun cmos_index :: "io_event list \<Rightarrow> u8" where
  "cmos_index [] = 0"
| "cmos_index (Out p d # l) = (if p = RTC_INDEX_PORT then d AND 0x7F else cmos_index l)"
| "cmos_index (In p d # l) = cmos_index l"

fun cmos_reg :: "u8 \<Rightarrow> io_event list \<Rightarrow> u8 option" where
  "cmos_reg r [] = None"
| "cmos_reg r (Out p d # l) =
     (if p = RTC_DATA_PORT \<and> cmos_index l = r then Some d else cmos_reg r l)"
| "cmos_reg r (In p d # l) = cmos_reg r l"

lemma rate_nibble: "rtc_rate_of f = Some r \<Longrightarrow> (p AND 0xF0 OR r) AND 0x0F = r \<and> (p AND 0xF0 OR r) AND 0xF0 = p AND 0xF0"
proof -
  assume "rtc_rate_of f = Some r"
  then have "r \<in> {0x0F, 0x0E, 0x0D, 0x0C, 0x0B, 0x0A, 0x09, 0x08, 0x07, 0x06}"
    by (auto simp: rtc_rate_of_def split: if_splits)
  then have "r AND 0x0F = r" "r AND 0xF0 = 0" by auto
  moreover have "(p AND 0xF0) AND (0x0F :: u8) = 0" "(p AND 0xF0) AND (0xF0 :: u8) = p AND 0xF0"
    by (simp_all add: and.assoc)
  ultimately show ?thesis by (simp add: bit.conj_disj_distrib2)
qed

lemma rtc_rate_of_power:
  assumes "1 \<le> k" and "k \<le> 10"
  shows "rtc_rate_of (2 ^ k) = Some (16 - of_nat k)"
proof -
  have "k = 1 \<or> k = 2 \<or> k = 3 \<or> k = 4 \<or> k = 5 \<or> k = 6 \<or> k = 7 \<or> k = 8 \<or> k = 9 \<or> k = 10"
    using assms by arith
  then show ?thesis by (auto simp: rtc_rate_of_def)
qed

lemma rtc_rate_of_Some_iff: "(\<exists>r. rtc_rate_of f = Some r) \<longleftrightarrow> (\<exists>k \<in> {1..10}. f = 2 ^ k)"
proof
  assume "\<exists>r. rtc_rate_of f = Some r"
  then have "f \<in> {2, 4, 8, 16, 32, 64, 128, 256, 512, 1024}"
    by (auto simp: rtc_rate_of_def split: if_splits)
  then have "f \<in> {2 ^ 1, 2 ^ 2, 2 ^ 3, 2 ^ 4, 2 ^ 5, 2 ^ 6, 2 ^ 7, 2 ^ 8, 2 ^ 9, 2 ^ 10}" by simp
  then show "\<exists>k \<in> {1..10}. f = 2 ^ k" by fastforce
next
  assume "\<exists>k \<in> {1..10}. f = 2 ^ k"
  then show "\<exists>r. rtc_rate_of f = Some r" using rtc_rate_of_power by auto
qed

lemma rtc_ack_frame [simp]:
  "rtc_interrupt_flag (rtc_ack hw s) = rtc_interrupt_flag s"
  "cmos_reg r (io_log (rtc_ack hw s)) = cmos_reg r (io_log s)"
  by (simp_all add: rtc_ack_def effect_defs rtc_consts Let_def)

lemma send_eoi_frame [simp]:
  "rtc_interrupt_flag (send_eoi n s) = rtc_interrupt_flag s"
  "int_flag (send_eoi n s) = int_flag s"
  by (simp_all add: send_eoi_def outb_def)

lemma rtc_handler_sets_flag: "rtc_interrupt_flag (rtc_handler hw s) \<noteq> 0"
  by (simp add: rtc_handler_def Let_def effect_defs)

lemma rtc_spin_returned_flag: "rtc_spin env s = Some (Returned (r, t)) \<Longrightarrow> r = 0 \<and> rtc_interrupt_flag t \<noteq> 0"
  by (induction env s rule: rtc_spin.induct) (auto split: if_splits option.splits)

text \<open>What the other interrupts may do: anything that leaves the flag clear.\<close>

definition no_tick :: "(machine \<Rightarrow> machine option) \<Rightarrow> bool" where
  "no_tick e \<longleftrightarrow> (\<forall>t. rtc_interrupt_flag t = 0 \<longrightarrow> (\<exists>t'. e t = Some t' \<and> rtc_interrupt_flag t' = 0))"

lemma rtc_spin_waits:
  assumes "list_all no_tick env" "rtc_interrupt_flag s = 0"
  shows "\<exists>t. rtc_spin env s = Some (Waiting t) \<and> rtc_interrupt_flag t = 0"
  using assms
proof (induction env arbitrary: s)
  case (Cons e env)
  then obtain s' where "e s = Some s'" "rtc_interrupt_flag s' = 0" by (auto simp: no_tick_def)
  then show ?case using Cons by auto
qed simp

lemma rtc_spin_returns:
  assumes "list_all no_tick env" "rtc_interrupt_flag s = 0"
  shows "\<exists>t. rtc_spin (env @ (\<lambda>s. Some (rtc_handler hw s)) # rest) s = Some (Returned (0, t))"
  using assms
proof (induction env arbitrary: s)
  case Nil
  then show ?case using rtc_handler_sets_flag [of hw s] by (cases rest) auto
next
  case (Cons e env)
  then obtain s' where "e s = Some s'" "rtc_interrupt_flag s' = 0" by (auto simp: no_tick_def)
  then show ?case using Cons by auto
qed

section \<open>Properties\<close>

text \<open>C24: \<open>rtc_read\<close> returns after an RTC interrupt and not before: whatever else happens between
  its tests of the flag, without a tick it is still waiting, and the first tick lets it return 0.\<close>

theorem rtc_read_waits_for_tick:
  assumes "list_all no_tick env"
  shows "(\<exists>t. rtc_read env s = Some (Waiting t)) \<and>
    (\<exists>t. rtc_read (env @ (\<lambda>s. Some (rtc_handler hw s)) # rest) s = Some (Returned (0, t)))"
  using rtc_spin_waits [OF assms, of "s\<lparr>rtc_interrupt_flag := 0\<rparr>"]
    rtc_spin_returns [OF assms, of "s\<lparr>rtc_interrupt_flag := 0\<rparr>" hw rest]
  by (auto simp: rtc_read_def)

theorem rtc_read_waits_for_tick_witness:
  "\<exists>t. rtc_read [\<lambda>s. Some (cli s), \<lambda>s. Some (rtc_handler (\<lambda>_ _. 0) s)] loaded = Some (Returned (0, t))"
  using rtc_read_waits_for_tick [of "[\<lambda>s. Some (cli s)]" loaded "\<lambda>_ _. 0" "[]"]
  by (simp add: no_tick_def cli_def)

text \<open>An accepted frequency, and only a power of two from 2 to 1024 is accepted, programs the
  rate \<open>16 - k\<close> for \<open>2 ^ k\<close> hertz in the low half of register A and keeps the high half; any other
  frequency touches no port.\<close>

theorem set_rtc_frequency_rate:
  "(\<not> (\<exists>k \<in> {1..10}. f = 2 ^ k) \<longrightarrow> set_rtc_frequency hw f s = s) \<and>
   (\<forall>k \<in> {1..10}. f = 2 ^ k \<longrightarrow>
     cmos_reg 0x0A (io_log (set_rtc_frequency hw f s)) =
       Some (hw (Out RTC_INDEX_PORT 0x8A # io_log s) RTC_DATA_PORT AND 0xF0 OR (16 - of_nat k)))"
proof (intro conjI ballI impI)
  assume "\<not> (\<exists>k \<in> {1..10}. f = 2 ^ k)"
  then show "set_rtc_frequency hw f s = s"
    using rtc_rate_of_Some_iff [of f] by (cases "rtc_rate_of f") (auto simp: set_rtc_frequency_def)
next
  fix k :: nat assume k: "k \<in> {1..10}" "f = 2 ^ k"
  then have r: "rtc_rate_of f = Some (16 - of_nat k)" using rtc_rate_of_power by simp
  show "cmos_reg 0x0A (io_log (set_rtc_frequency hw f s)) =
      Some (hw (Out RTC_INDEX_PORT 0x8A # io_log s) RTC_DATA_PORT AND 0xF0 OR (16 - of_nat k))"
    by (simp add: set_rtc_frequency_def r rtc_consts inb_def outb_def Let_def)
qed

theorem set_rtc_frequency_rate_witness:
  "cmos_reg 0x0A (io_log (set_rtc_frequency (\<lambda>_ _. 0x2F) 1024 loaded)) = Some 0x26"
proof -
  have "(10 :: nat) \<in> {1..10}" "(1024 :: u32) = 2 ^ 10" by simp_all
  then show ?thesis
    using set_rtc_frequency_rate [of 1024 "\<lambda>_ _. 0x2F" loaded] by fastforce
qed

end
