(* ===== verification/Terminal.thy ===== *)
theory Terminal
  imports Filesystem Rtc
begin

text \<open>
  The terminal driver (\<^verbatim>\<open>devices/terminal.c\<close>): the line buffer that the keyboard interrupt
  fills, blocking reads, writes with scrolling, and the two operations that borrow the video
  page. A buffer argument is the caller's memory from the pointer on. \<open>None\<close> is a call that
  does not come back: a fault, or the endless loop of \<open>make_room\<close>.
\<close>

section \<open>Constants (terminal.h)\<close>

definition MAX_BUFFER_LENGTH :: nat where "MAX_BUFFER_LENGTH = 128"
definition NEWLINE_ASCII :: u8 where "NEWLINE_ASCII = 0x0A"
definition BACKSPACE_ASCII :: u8 where "BACKSPACE_ASCII = 0x08"
definition MAX_INPUT_BUF_LEN :: int where "MAX_INPUT_BUF_LEN = 1024"

lemmas term_consts = MAX_BUFFER_LENGTH_def NEWLINE_ASCII_def BACKSPACE_ASCII_def
  MAX_INPUT_BUF_LEN_def NULL_ASCII_def NUM_COLS_def NUM_ROWS_def SPACE_ASCII_def

section \<open>Open and close\<close>

definition reset_terminal :: "terminal_info \<Rightarrow> terminal_info option" where
  "reset_terminal t =
     do {
       let t = t\<lparr>current_char := 0, enter_flag := 0, current_line := 0, reset_flag := 0,
                 char_in_line := 0\<rparr>;
       b \<leftarrow> for_each [0..<MAX_BUFFER_LENGTH] (\<lambda>j b. wr b j NULL_ASCII) (keyboard_buffer t);
       Some (t\<lparr>keyboard_buffer := b\<rparr>)
     }"

definition reset_terminals :: "machine \<Rightarrow> machine option" where
  "reset_terminals s =
     for_each [0..<nat MAX_TERMINALS]
       (\<lambda>i s. do { t \<leftarrow> reset_terminal (terminals s (of_nat i)); Some (upd_term (of_nat i) (\<lambda>_. t) s) }) s"

definition terminal_open :: "u8 list \<Rightarrow> machine \<Rightarrow> (int \<times> machine) option" where
  "terminal_open filename s = do { s \<leftarrow> reset_terminals s; Some (-1, s) }"

definition terminal_close :: "int \<Rightarrow> machine \<Rightarrow> (int \<times> machine) option" where
  "terminal_close fd s = do { s \<leftarrow> reset_terminals s; Some (-1, s) }"

section \<open>Keyboard input\<close>

text \<open>The addresses that the video page is pointed at.\<close>

definition terminal_page :: "u8 \<Rightarrow> u32" where
  "terminal_page i = TERMINAL_VIDEO + ALIGN_4KB * ucast i"

definition update_kb_buffer :: "u8 \<Rightarrow> machine \<Rightarrow> machine option" where
  "update_kb_buffer input s =
     (let a = active_terminal s; t = terminals s a in
      if input = NEWLINE_ASCII \<or> enter_flag t \<noteq> 0
      then Some (upd_term a (\<lambda>t. t\<lparr>enter_flag := 1, char_in_line := 0\<rparr>) s)
      else if input = BACKSPACE_ASCII then do {
        let s = (if current_char t > 0
                 then upd_term a (\<lambda>t. t\<lparr>current_char := current_char t - 1\<rparr>) s else s);
        b \<leftarrow> wr (keyboard_buffer (terminals s a)) (unat (current_char (terminals s a))) NULL_ASCII;
        let s = upd_term a (\<lambda>t. t\<lparr>keyboard_buffer := b\<rparr>) s;
        let s = map_video VIDEO s;
        let s = set_cursor (of_int (terminal_screen_x (terminals s a)))
                  (of_int (terminal_screen_y (terminals s a))) s;
        s \<leftarrow> backspace_called s;
        let s = map_video (terminal_page (scheduled_terminal s)) s;
        let sch = terminals s (scheduled_terminal s);
        Some (set_cursor (of_int (terminal_screen_x sch)) (of_int (terminal_screen_y sch)) s)
      }
      else if unat (current_char t) \<ge> MAX_BUFFER_LENGTH - 1 then Some s
      else do {
        b \<leftarrow> wr (keyboard_buffer t) (unat (current_char t)) input;
        Some (upd_term a (\<lambda>t. t\<lparr>keyboard_buffer := b, current_char := current_char t + 1\<rparr>) s)
      })"

definition clear_terminal :: "machine \<Rightarrow> machine option" where
  "clear_terminal s =
     do {
       let s = cli s;
       let s = map_video VIDEO s;
       s \<leftarrow> clear s;
       let s = set_cursor 0 0 s;
       let s = map_video (terminal_page (scheduled_terminal s)) s;
       let s = sti s;
       Some (upd_term (active_terminal s) (\<lambda>t. t\<lparr>reset_flag := 1, current_line := 0, char_in_line := 0\<rparr>) s)
     }"

section \<open>Reading a line\<close>

text \<open>
  \<open>terminal_read\<close> polls. Its local variables and the point it has reached are a record; each
  element of \<open>env\<close> is what interrupts and other processes do to the machine before the next
  test. The inner loop waits until the active terminal is the scheduled one.
\<close>

datatype read_point = PollEnter | PollScheduled

record read_locals =
  point :: read_point
  last_terminal :: u8
  prev_char_in_line :: int
  shift_up_flag :: bool

text \<open>The typed text no longer fits on the last row: an unsigned comparison.\<close>

definition read_needs_shift :: "read_locals \<Rightarrow> terminal_info \<Rightarrow> bool" where
  "read_needs_shift l t \<longleftrightarrow>
     current_char t \<ge> of_int (NUM_COLS - uint (char_in_line t)) \<and>
     \<not> shift_up_flag l \<and> uint (current_line t) \<ge> NUM_ROWS - 1"

text \<open>The body of the outer loop up to the inner one, when something was typed.\<close>

definition read_redraw :: "read_locals \<Rightarrow> machine \<Rightarrow> (read_locals \<times> machine) option" where
  "read_redraw l s =
     do {
       let a = active_terminal s;
       let s = upd_term a (\<lambda>t. t\<lparr>reset_flag := 0\<rparr>) s;
       let t = terminals s a;
       (l, s) \<leftarrow>
         (if read_needs_shift l t
          then do {
            s \<leftarrow> (if scheduled_terminal s = a
                  then do { (r, s) \<leftarrow> shift_video_mem_up 0 (of_int NUM_ROWS) (cli s); Some (sti s) }
                  else Some s);
            Some (l\<lparr>shift_up_flag := True\<rparr>, upd_term a (\<lambda>t. t\<lparr>current_line := current_line t - 1\<rparr>) s)
          }
          else Some (l, s));
       let s = upd_term a (\<lambda>t. t\<lparr>last_current_char := current_char t\<rparr>) s;
       b \<leftarrow> wr (keyboard_buffer (terminals s a)) (unat (current_char (terminals s a))) NULL_ASCII;
       Some (l\<lparr>last_terminal := a, point := PollScheduled\<rparr>,
             upd_term a (\<lambda>t. t\<lparr>keyboard_buffer := b\<rparr>) s)
     }"

definition read_echo :: "machine \<Rightarrow> machine option" where
  "read_echo s =
     do {
       let t = terminals s (active_terminal s);
       let s = set_cursor (char_in_line t) (current_line t) (cli s);
       (n, s) \<leftarrow> puts (keyboard_buffer (terminals s (active_terminal s))) s;
       Some (sti s)
     }"

text \<open>
  After Enter: the newline, then the copy to the caller, which does not look at \<open>nbytes\<close>. The
  second component is what is stored from \<open>buf\<close> on.
\<close>

definition read_finish :: "read_locals \<Rightarrow> machine \<Rightarrow> (int \<times> u8 list \<times> machine) option" where
  "read_finish l s =
     do {
       let a = active_terminal s;
       let s = upd_term a (\<lambda>t. t\<lparr>enter_flag := 0\<rparr>) s;
       let s = (if current_char (terminals s a) > of_int (NUM_COLS - prev_char_in_line l)
                then let s = upd_term a (\<lambda>t. t\<lparr>current_line := current_line t + 1\<rparr>) s
                     in set_cursor 0 (current_line (terminals s a)) s
                else s);
       b \<leftarrow> wr (keyboard_buffer (terminals s a)) (unat (current_char (terminals s a))) NEWLINE_ASCII;
       let s = upd_term a (\<lambda>t. t\<lparr>keyboard_buffer := b, current_char := current_char t + 1\<rparr>) s;
       let n = current_char (terminals s a);
       if unat n \<le> length (keyboard_buffer (terminals s a))
       then Some (sint n, take (unat n) (keyboard_buffer (terminals s a)), s)
       else None
     }"

definition read_start :: "machine \<Rightarrow> read_locals" where
  "read_start s =
     \<lparr>point = PollEnter, last_terminal = active_terminal s,
      prev_char_in_line = uint (char_in_line (terminals s (active_terminal s))), shift_up_flag = False\<rparr>"

text \<open>One test of either loop: the call returns, or goes on.\<close>

datatype read_result = Line int "u8 list" machine | Poll read_locals machine

definition read_step :: "read_locals \<Rightarrow> machine \<Rightarrow> read_result option" where
  "read_step l s =
     (case point l of
        PollEnter \<Rightarrow>
          let t = terminals s (active_terminal s) in
          if enter_flag t \<noteq> 0
          then do { (r, out, s) \<leftarrow> read_finish l s; Some (Line r out s) }
          else if current_char t \<noteq> last_current_char t \<or> reset_flag t \<noteq> 0 \<or>
                  active_terminal s \<noteq> last_terminal l
          then do { (l, s) \<leftarrow> read_redraw l s; Some (Poll l s) }
          else Some (Poll l s)
      | PollScheduled \<Rightarrow>
          if scheduled_terminal s = active_terminal s
          then do { s \<leftarrow> read_echo s; Some (Poll (l\<lparr>point := PollEnter\<rparr>) s) }
          else Some (Poll l s))"

fun read_spin :: "interference \<Rightarrow> read_locals \<Rightarrow> machine \<Rightarrow> read_result option" where
  "read_spin [] l s = Some (Poll l s)"
| "read_spin (e # env) l s =
     (case read_step l s of
        None \<Rightarrow> None
      | Some (Line r out s) \<Rightarrow> Some (Line r out s)
      | Some (Poll l s) \<Rightarrow> (case e s of None \<Rightarrow> None | Some s \<Rightarrow> read_spin env l s))"

definition terminal_read :: "interference \<Rightarrow> int \<Rightarrow> machine \<Rightarrow> read_result option" where
  "terminal_read env nbytes s = read_spin env (read_start s) s"

section \<open>Writing\<close>

text \<open>The first loop: length up to and including the first NUL, and the newlines seen.\<close>

fun write_scan :: "u8 list \<Rightarrow> nat \<Rightarrow> int \<Rightarrow> int \<Rightarrow> (int \<times> int) option" where
  "write_scan buf 0 str_len newline_count = Some (str_len, newline_count)"
| "write_scan [] (Suc n) str_len newline_count = None"
| "write_scan (c # buf) (Suc n) str_len newline_count =
     (if c = NULL_ASCII then Some (str_len + 1, newline_count)
      else write_scan buf n (str_len + 1) (if c = NEWLINE_ASCII then newline_count + 1 else newline_count))"

definition scroll_line :: "machine \<Rightarrow> machine option" where
  "scroll_line s =
     do {
       (r, s) \<leftarrow> shift_video_mem_up 0 (of_int NUM_ROWS) s;
       Some (upd_term (scheduled_terminal s) (\<lambda>t. t\<lparr>current_line := current_line t - 1\<rparr>) s)
     }"

definition sched_line :: "machine \<Rightarrow> int" where
  "sched_line s = uint (current_line (terminals s (scheduled_terminal s)))"

definition sched_char :: "machine \<Rightarrow> int" where
  "sched_char s = uint (char_in_line (terminals s (scheduled_terminal s)))"

text \<open>
  The two scrolling loops. Both are left to the kernel's \<open>while\<close>: with more than 25 newlines
  the second never ends.
\<close>

partial_function (option) scroll_to_bottom :: "machine \<Rightarrow> machine option" where
  "scroll_to_bottom s =
     (if sched_line s > NUM_ROWS - 1
      then Option.bind (scroll_line s) (\<lambda>s. scroll_to_bottom s) else Some s)"

partial_function (option) make_room :: "int \<Rightarrow> machine \<Rightarrow> machine option" where
  "make_room newline_count s =
     (if newline_count > NUM_ROWS - sched_line s
      then Option.bind (scroll_line s) (\<lambda>s. make_room newline_count s) else Some s)"

text \<open>The steps of a write: empty the line buffer, scroll, and move the write position on.\<close>

definition write_begin :: "machine \<Rightarrow> machine option" where
  "write_begin s =
     do {
       let c = scheduled_terminal s;
       b \<leftarrow> for_each [0..<MAX_BUFFER_LENGTH] (\<lambda>i b. wr b i NULL_ASCII) (keyboard_buffer (terminals s c));
       let s = upd_term c (\<lambda>t. t\<lparr>keyboard_buffer := b\<rparr>) s;
       Some (if current_char (terminals s c) > 0
             then upd_term c (\<lambda>t. t\<lparr>current_line := current_line t + 1, current_char := 0\<rparr>) s
             else s)
     }"

definition write_scroll :: "int \<Rightarrow> int \<Rightarrow> machine \<Rightarrow> machine option" where
  "write_scroll nbytes newline_count s =
     do {
       s \<leftarrow> scroll_to_bottom s;
       s \<leftarrow> (if sched_line s = NUM_ROWS - 1 \<and> nbytes \<ge> NUM_COLS - sched_char s
             then scroll_line s else Some s);
       make_room newline_count s
     }"

definition write_advance :: "u8 list \<Rightarrow> int \<Rightarrow> int \<Rightarrow> machine \<Rightarrow> machine option" where
  "write_advance buf nbytes newline_count s =
     do {
       let c = scheduled_terminal s;
       (nbytes, s) \<leftarrow>
         (if nbytes \<noteq> NUM_COLS
          then do {
            last \<leftarrow> (if 0 < nbytes then rd buf (nat (nbytes - 1)) else None);
            if last \<noteq> NEWLINE_ASCII
            then Some (nbytes, upd_term c (\<lambda>t. t\<lparr>char_in_line := char_in_line t + of_int nbytes\<rparr>) s)
            else Some (nbytes - 1, s)
          }
          else Some (nbytes - 1, s));
       if newline_count \<noteq> 0
       then do {
         let s = upd_term c (\<lambda>t. t\<lparr>current_line := current_line t + of_int newline_count\<rparr>) s;
         let s = (if nbytes \<ge> NUM_COLS - sched_char s
                  then upd_term c (\<lambda>t. t\<lparr>current_line := current_line t + 1\<rparr>) s else s);
         s \<leftarrow> scroll_to_bottom s;
         Some (upd_term c (\<lambda>t. t\<lparr>char_in_line := 0\<rparr>) s)
       }
       else Some s
     }"

definition cursor_to_terminal :: "machine \<Rightarrow> machine" where
  "cursor_to_terminal s =
     (let t = terminals s (scheduled_terminal s) in set_cursor (char_in_line t) (current_line t) s)"

definition terminal_write :: "int \<Rightarrow> u8 list \<Rightarrow> int \<Rightarrow> machine \<Rightarrow> (int \<times> machine) option" where
  "terminal_write fd buf nbytes s =
     (if nbytes > MAX_INPUT_BUF_LEN then Some (0, s)
      else do {
        (str_len, newline_count) \<leftarrow> write_scan buf (nat nbytes) 0 0;
        s \<leftarrow> write_begin s;
        s \<leftarrow> write_scroll nbytes newline_count s;
        (n, s) \<leftarrow> puts buf (cursor_to_terminal s);
        s \<leftarrow> write_advance buf nbytes newline_count s;
        Some (str_len, cursor_to_terminal s)
      })"

section \<open>The line editor\<close>

text \<open>The text typed so far, and what one key does to it.\<close>

definition typed :: "terminal_info \<Rightarrow> u8 list" where
  "typed t = take (unat (current_char t)) (keyboard_buffer t)"

definition edit :: "u8 \<Rightarrow> u8 list \<Rightarrow> u8 list" where
  "edit c l =
     (if c = BACKSPACE_ASCII then butlast l else if 127 \<le> length l then l else l @ [c])"

definition term_ok :: "terminal_info \<Rightarrow> bool" where
  "term_ok t \<longleftrightarrow> length (keyboard_buffer t) = 129 \<and> unat (current_char t) \<le> 128"

text \<open>Nothing but NULs after the typed text.\<close>

definition clean :: "terminal_info \<Rightarrow> bool" where
  "clean t \<longleftrightarrow> keyboard_buffer t = typed t @ replicate (129 - unat (current_char t)) 0"

definition saved_cursor_ok :: "terminal_info \<Rightarrow> bool" where
  "saved_cursor_ok t \<longleftrightarrow>
     0 \<le> terminal_screen_x t \<and> 0 \<le> terminal_screen_y t \<and> terminal_screen_x t < 256 \<and>
     terminal_screen_y t < 256 \<and> 80 * terminal_screen_y t + terminal_screen_x t \<le> 2048"

lemma length_typed: "term_ok t \<Longrightarrow> length (typed t) = unat (current_char t)"
  by (simp add: term_ok_def typed_def)

lemma upd_term_sel [simp]:
  "terminals (upd_term i f s) = (terminals s)(i := f (terminals s i))"
  "active_terminal (upd_term i f s) = active_terminal s"
  "scheduled_terminal (upd_term i f s) = scheduled_terminal s"
  "paging_wf (upd_term i f s) = paging_wf s"
  "video_frame (upd_term i f s) = video_frame s"
  "program_frame (upd_term i f s) = program_frame s"
  "frames (upd_term i f s) = frames s"
  "vpage (upd_term i f s) = vpage s"
  "cursor_nonneg (upd_term i f s) = cursor_nonneg s"
  "con (upd_term i f s) = con s"
  by (simp_all add: upd_term_def paging_wf_def tables_linked_def program_frame_def video_frame_def
      vpage_def cursor_nonneg_def con_def)

lemma map_video_sel [simp]:
  "terminals (map_video a s) = terminals s"
  "active_terminal (map_video a s) = active_terminal s"
  "scheduled_terminal (map_video a s) = scheduled_terminal s"
  "cursor_nonneg (map_video a s) = cursor_nonneg s"
  "screen_x (map_video a s) = screen_x s" "screen_y (map_video a s) = screen_y s"
  by (simp_all add: map_video_def cursor_nonneg_def)

definition appended :: "u8 \<Rightarrow> terminal_info \<Rightarrow> terminal_info" where
  "appended c t = t\<lparr>keyboard_buffer := (keyboard_buffer t)[unat (current_char t) := c],
      current_char := current_char t + 1\<rparr>"

lemma typed_snoc:
  assumes "term_ok t" "unat (current_char t) < 127"
  shows "typed (appended c t) = typed t @ [c]" "term_ok (appended c t)"
    "clean t \<Longrightarrow> clean (appended c t)"
proof -
  have S: "unat (current_char t + 1) = Suc (unat (current_char t))"
    using assms(2) by (simp add: unat_word_ariths)
  then show ty: "typed (appended c t) = typed t @ [c]" and "term_ok (appended c t)"
    using assms by (simp_all add: typed_def term_ok_def take_Suc_conv_app_nth appended_def)
  have "129 - unat (current_char t) = Suc (129 - Suc (unat (current_char t)))" using assms(2) by simp
  then show "clean t \<Longrightarrow> clean (appended c t)"
    unfolding clean_def ty
    using length_typed [OF assms(1)] S by (simp add: appended_def list_update_append)
qed

lemma typed_back:
  assumes "term_ok t" "current_char t' = (if current_char t > 0 then current_char t - 1 else current_char t)"
    and "keyboard_buffer t' = (keyboard_buffer t)[unat (current_char t') := 0]"
  shows "typed t' = butlast (typed t)" "term_ok t'" "clean t \<Longrightarrow> clean t'"
proof -
  have n: "unat (current_char t') = unat (current_char t) - 1"
    using assms(2) by (auto simp: word_less_nat_alt unat_sub_if_size)
  then show ty: "typed t' = butlast (typed t)" and "term_ok t'"
    using assms(1,3) by (simp_all add: typed_def term_ok_def butlast_take le_trans [OF diff_le_self])
  show "clean t'" if c: "clean t"
  proof (cases "typed t" rule: rev_cases)
    case Nil
    then have "unat (current_char t) = 0" using length_typed [OF assms(1)] by simp
    then show ?thesis using c n assms(3) Nil ty by (simp add: clean_def list_update_same_conv)
  next
    case (snoc ys y)
    then have l: "unat (current_char t) = Suc (length ys)" using length_typed [OF assms(1)] by simp
    have "keyboard_buffer t' = (ys @ y # replicate (129 - Suc (length ys)) 0)[length ys := 0]"
      using c n assms(3) l by (simp add: clean_def snoc)
    also have "\<dots> = ys @ 0 # replicate (129 - Suc (length ys)) 0" by (simp add: list_update_append)
    also have "129 - length ys = Suc (129 - Suc (length ys))"
      using assms(1) l unfolding term_ok_def by linarith
    then have "0 # replicate (129 - Suc (length ys)) 0 = replicate (129 - length ys) (0 :: u8)" by simp
    finally show ?thesis using n l ty snoc by (simp add: clean_def)
  qed
qed

text \<open>What a key does to the machine, apart from the video pages and the log.\<close>

lemma update_kb_buffer_enter:
  "c = 10 \<or> enter_flag (terminals s (active_terminal s)) \<noteq> 0 \<Longrightarrow>
   update_kb_buffer c s =
     Some (upd_term (active_terminal s) (\<lambda>t. t\<lparr>enter_flag := 1, char_in_line := 0\<rparr>) s)"
  by (auto simp: update_kb_buffer_def Let_def NEWLINE_ASCII_def)

lemma update_kb_buffer_char:
  assumes "c \<noteq> 10" "c \<noteq> 8" "enter_flag (terminals s (active_terminal s)) = 0"
    and ok: "term_ok (terminals s (active_terminal s))"
  shows "\<exists>t'. update_kb_buffer c s = Some (upd_term (active_terminal s) (\<lambda>_. t') s) \<and> term_ok t' \<and>
     typed t' = edit c (typed (terminals s (active_terminal s))) \<and>
     (clean (terminals s (active_terminal s)) \<longrightarrow> clean t') \<and>
     t' = terminals s (active_terminal s)\<lparr>keyboard_buffer := keyboard_buffer t', current_char := current_char t'\<rparr>"
proof -
  let ?t = "terminals s (active_terminal s)"
  show ?thesis
  proof (cases "127 \<le> unat (current_char ?t)")
    case True
    then have "update_kb_buffer c s = Some s"
      using assms by (simp add: update_kb_buffer_def Let_def term_consts)
    moreover have "upd_term (active_terminal s) (\<lambda>_. ?t) s = s" by (simp add: upd_term_def)
    ultimately show ?thesis using True ok
      by (intro exI [of _ ?t]) (simp add: edit_def length_typed BACKSPACE_ASCII_def assms(2))
  next
    case False
    then have lt: "unat (current_char ?t) < 127" by simp
    let ?t' = "appended c ?t"
    have "update_kb_buffer c s = Some (upd_term (active_terminal s) (\<lambda>_. ?t') s)"
      using assms lt by (simp add: update_kb_buffer_def Let_def term_consts term_ok_def upd_term_def appended_def)
    moreover have "?t' = ?t\<lparr>keyboard_buffer := keyboard_buffer ?t', current_char := current_char ?t'\<rparr>"
      by (simp add: appended_def)
    ultimately show ?thesis using typed_snoc [OF ok lt, of c] lt ok
      by (intro exI [of _ ?t']) (simp add: edit_def length_typed BACKSPACE_ASCII_def assms(2))
  qed
qed

lemma u8_below_3:
  assumes "unat (i :: u8) < 3"
  obtains "i = 0" | "i = 1" | "i = 2"
proof -
  have "unat i = 0 \<or> unat i = 1 \<or> unat i = 2" using assms by arith
  then have "i = 0 \<or> i = 1 \<or> i = 2" by (auto simp: word_unat_eq_iff)
  with that show ?thesis by blast
qed

lemma terminal_page_frame: "unat i < 3 \<Longrightarrow> page_of (terminal_page i) = terminal_frame (unat i)"
proof -
  assume "unat i < 3"
  then consider "i = 0" | "i = 1" | "i = 2"
    by (cases rule: u8_below_3)
  then show ?thesis
    by cases (simp_all add: terminal_page_def terminal_frame_def page_consts)
qed

lemma update_kb_buffer_back:
  assumes "paging_wf s" "enter_flag (terminals s (active_terminal s)) = 0"
    and ok: "term_ok (terminals s (active_terminal s))" "saved_cursor_ok (terminals s (active_terminal s))"
  shows "\<exists>s' t'. update_kb_buffer 8 s = Some s' \<and>
     terminals s' = (terminals s)(active_terminal s := t') \<and> term_ok t' \<and>
     typed t' = butlast (typed (terminals s (active_terminal s))) \<and>
     (clean (terminals s (active_terminal s)) \<longrightarrow> clean t') \<and>
     t' = (terminals s (active_terminal s))\<lparr>keyboard_buffer := keyboard_buffer t', current_char := current_char t'\<rparr> \<and>
     active_terminal s' = active_terminal s \<and> scheduled_terminal s' = scheduled_terminal s \<and>
     paging_wf s' \<and> video_frame s' = page_of (terminal_page (scheduled_terminal s))"
proof -
  define a where "a = active_terminal s"
  define t where "t = terminals s a"
  define n where "n = (if current_char t > 0 then current_char t - 1 else current_char t)"
  define t' where "t' = t\<lparr>current_char := n, keyboard_buffer := (keyboard_buffer t)[unat n := 0]\<rparr>"
  have t'_ok: "typed t' = butlast (typed t)" "term_ok t'" "clean t \<Longrightarrow> clean t'"
    using typed_back [of t t'] ok(1) by (simp_all add: t'_def n_def t_def a_def)
  have n_le: "unat n < 129"
    using ok(1) unat_sub_if_size [of "current_char t" 1]
    by (auto simp: n_def t_def a_def term_ok_def word_less_nat_alt split: if_splits)
  let ?s1 = "upd_term a (\<lambda>_. t') s"
  let ?s2 = "map_video VIDEO ?s1"
  let ?s3 = "set_cursor (of_int (terminal_screen_x t)) (of_int (terminal_screen_y t)) ?s2"
  have c: "0 \<le> terminal_screen_x t" "0 \<le> terminal_screen_y t" "terminal_screen_x t < 256"
    "terminal_screen_y t < 256" "80 * terminal_screen_y t + terminal_screen_x t \<le> 2048"
    using ok(2) by (simp_all add: saved_cursor_ok_def t_def a_def)
  have c3: "con ?s3 = (vpage ?s2, nat (terminal_screen_x t), nat (terminal_screen_y t))"
    using c by (simp add: set_cursor_con unat_of_int_u8)
  have wf2: "paging_wf ?s2" using assms(1) by (intro map_video_wf) simp
  have wf3: "paging_wf ?s3 \<and> cursor_nonneg ?s3" using printed_wf [OF set_cursor_printed] wf2 by blast
  obtain s4 where s4: "backspace_called ?s3 = Some s4" "printed ?s3 (con_rubout (con ?s3)) s4"
    using backspace_called_printed [OF _ c3] wf3 c by (fastforce simp: nat_less_iff)
  let ?s5 = "map_video (terminal_page (scheduled_terminal s4)) s4"
  let ?sch = "terminals ?s5 (scheduled_terminal ?s5)"
  let ?s6 = "set_cursor (of_int (terminal_screen_x ?sch)) (of_int (terminal_screen_y ?sch)) ?s5"
  note p3 = set_cursor_printed [of ?s2 "of_int (terminal_screen_x t)" "of_int (terminal_screen_y t)"]
  note p6 = set_cursor_printed [of ?s5 "of_int (terminal_screen_x ?sch)" "of_int (terminal_screen_y ?sch)"]
  have fr4: "terminals s4 = (terminals s)(a := t')" "active_terminal s4 = active_terminal s"
    "scheduled_terminal s4 = scheduled_terminal s"
    using printed_frame(1-3) [OF s4(2)] printed_frame(1-3) [OF p3] by simp_all
  have "paging_wf ?s5"
    using printed_wf [OF s4(2)] wf3 by (intro map_video_wf) simp
  then have fr6: "terminals ?s6 = (terminals s)(a := t')" "active_terminal ?s6 = active_terminal s"
    "scheduled_terminal ?s6 = scheduled_terminal s" "paging_wf ?s6"
    "video_frame ?s6 = page_of (terminal_page (scheduled_terminal s))"
    using printed_frame(1-4) [OF p6] printed_wf [OF p6] fr4 by simp_all
  have "update_kb_buffer 8 s = Some ?s6"
  proof -
    have "upd_term a (\<lambda>t. t\<lparr>keyboard_buffer := (keyboard_buffer (terminals s a))[unat n := 0]\<rparr>)
        (if current_char t > 0 then upd_term a (\<lambda>t. t\<lparr>current_char := current_char t - 1\<rparr>) s else s) = ?s1"
      by (simp add: upd_term_def t'_def t_def n_def)
    moreover have "current_char (terminals (if current_char t > 0
        then upd_term a (\<lambda>t. t\<lparr>current_char := current_char t - 1\<rparr>) s else s) a) = n"
      "keyboard_buffer (terminals (if current_char t > 0
        then upd_term a (\<lambda>t. t\<lparr>current_char := current_char t - 1\<rparr>) s else s) a) = keyboard_buffer t"
      by (simp_all add: t_def n_def)
    moreover have "length (keyboard_buffer t) = 129" using ok(1) by (simp add: term_ok_def t_def a_def)
    ultimately show ?thesis
      using n_le assms(2) s4(1) fr4
      unfolding update_kb_buffer_def Let_def a_def [symmetric] t_def [symmetric]
      by (simp add: term_consts t_def [symmetric] t'_def)
  qed
  with fr6 t'_ok show ?thesis
    by (intro exI [of _ ?s6] exI [of _ t']) (simp add: a_def t_def t'_def)
qed

text \<open>Every key, on the terminal record alone.\<close>

definition key_effect :: "u8 \<Rightarrow> terminal_info \<Rightarrow> terminal_info \<Rightarrow> bool" where
  "key_effect c t t' \<longleftrightarrow>
     term_ok t' \<and> (clean t \<longrightarrow> clean t') \<and> current_line t' = current_line t \<and>
     terminal_screen_x t' = terminal_screen_x t \<and> terminal_screen_y t' = terminal_screen_y t \<and>
     (if c = 10 \<or> enter_flag t \<noteq> 0
      then enter_flag t' = 1 \<and> typed t' = typed t \<and> char_in_line t' = 0
      else enter_flag t' = 0 \<and> typed t' = edit c (typed t) \<and> char_in_line t' = char_in_line t)"

lemma update_kb_buffer_key:
  assumes "paging_wf s" "term_ok (terminals s (active_terminal s))"
    "saved_cursor_ok (terminals s (active_terminal s))"
  shows "\<exists>s' t'. update_kb_buffer c s = Some s' \<and>
     terminals s' = (terminals s)(active_terminal s := t') \<and>
     key_effect c (terminals s (active_terminal s)) t' \<and>
     active_terminal s' = active_terminal s \<and> scheduled_terminal s' = scheduled_terminal s \<and> paging_wf s'"
proof -
  consider "c = 10 \<or> enter_flag (terminals s (active_terminal s)) \<noteq> 0"
    | "c = 8" "c \<noteq> 10" "enter_flag (terminals s (active_terminal s)) = 0"
    | "c \<noteq> 10" "c \<noteq> 8" "enter_flag (terminals s (active_terminal s)) = 0" by blast
  then show ?thesis
  proof cases
    case 1
    then show ?thesis using update_kb_buffer_enter [OF 1] assms
      by (intro exI [of _ "upd_term (active_terminal s) (\<lambda>t. t\<lparr>enter_flag := 1, char_in_line := 0\<rparr>) s"]
          exI [of _ "(terminals s (active_terminal s))\<lparr>enter_flag := 1, char_in_line := 0\<rparr>"])
        (simp add: key_effect_def typed_def term_ok_def clean_def)
  next
    case 2
    obtain s' t' where b: "update_kb_buffer 8 s = Some s'"
      "terminals s' = (terminals s)(active_terminal s := t')" "term_ok t'"
      "typed t' = butlast (typed (terminals s (active_terminal s)))"
      "clean (terminals s (active_terminal s)) \<longrightarrow> clean t'"
      "t' = (terminals s (active_terminal s))\<lparr>keyboard_buffer := keyboard_buffer t', current_char := current_char t'\<rparr>"
      "active_terminal s' = active_terminal s" "scheduled_terminal s' = scheduled_terminal s" "paging_wf s'"
      using update_kb_buffer_back [OF assms(1) 2(3) assms(2,3)] by blast
    have sel: "terminal_screen_x t' = terminal_screen_x (terminals s (active_terminal s))"
      "terminal_screen_y t' = terminal_screen_y (terminals s (active_terminal s))"
      "enter_flag t' = enter_flag (terminals s (active_terminal s))"
      "char_in_line t' = char_in_line (terminals s (active_terminal s))"
      "current_line t' = current_line (terminals s (active_terminal s))"
      by (subst b(6), simp)+
    show ?thesis using b(1-5,7-9) 2 sel
      by (intro exI [of _ s'] exI [of _ t']) (simp add: key_effect_def edit_def BACKSPACE_ASCII_def)
  next
    case 3
    obtain t' where b: "update_kb_buffer c s = Some (upd_term (active_terminal s) (\<lambda>_. t') s)" "term_ok t'"
      "typed t' = edit c (typed (terminals s (active_terminal s)))"
      "clean (terminals s (active_terminal s)) \<longrightarrow> clean t'"
      "t' = (terminals s (active_terminal s))\<lparr>keyboard_buffer := keyboard_buffer t', current_char := current_char t'\<rparr>"
      using update_kb_buffer_char [OF 3 assms(2)] by blast
    have sel: "terminal_screen_x t' = terminal_screen_x (terminals s (active_terminal s))"
      "terminal_screen_y t' = terminal_screen_y (terminals s (active_terminal s))"
      "enter_flag t' = enter_flag (terminals s (active_terminal s))"
      "char_in_line t' = char_in_line (terminals s (active_terminal s))"
      "current_line t' = current_line (terminals s (active_terminal s))"
      by (subst b(5), simp)+
    show ?thesis using b(1-4) 3 assms sel
      by (intro exI [of _ "upd_term (active_terminal s) (\<lambda>_. t') s"] exI [of _ t']) (simp add: key_effect_def)
  qed
qed

text \<open>A line: keys other than Enter, then Enter.\<close>

lemma type_keys:
  assumes "paging_wf s" "term_ok (terminals s (active_terminal s))"
    "saved_cursor_ok (terminals s (active_terminal s))" "enter_flag (terminals s (active_terminal s)) = 0"
    "10 \<notin> set cs"
  shows "\<exists>s' t'. for_each cs update_kb_buffer s = Some s' \<and>
     terminals s' = (terminals s)(active_terminal s := t') \<and> term_ok t' \<and> enter_flag t' = 0 \<and>
     saved_cursor_ok t' \<and> typed t' = fold edit cs (typed (terminals s (active_terminal s))) \<and>
     active_terminal s' = active_terminal s \<and> scheduled_terminal s' = scheduled_terminal s \<and> paging_wf s'"
  using assms
proof (induction cs arbitrary: s)
  case Nil
  then show ?case
    by (intro exI [of _ s] exI [of _ "terminals s (active_terminal s)"]) simp
next
  case (Cons c cs)
  obtain s1 t1 where s1: "update_kb_buffer c s = Some s1"
    "terminals s1 = (terminals s)(active_terminal s := t1)"
    "key_effect c (terminals s (active_terminal s)) t1"
    "active_terminal s1 = active_terminal s" "scheduled_terminal s1 = scheduled_terminal s" "paging_wf s1"
    using update_kb_buffer_key [OF Cons.prems(1-3)] by blast
  have t1: "term_ok t1" "enter_flag t1 = 0" "saved_cursor_ok t1"
    "typed t1 = edit c (typed (terminals s (active_terminal s)))"
    using s1(3) Cons.prems(3,4,5) by (auto simp: key_effect_def saved_cursor_ok_def split: if_splits)
  have at: "terminals s1 (active_terminal s1) = t1" using s1(2,4) by simp
  obtain s' t' where s': "for_each cs update_kb_buffer s1 = Some s'"
    "terminals s' = (terminals s1)(active_terminal s1 := t')" "term_ok t'" "enter_flag t' = 0"
    "saved_cursor_ok t'" "typed t' = fold edit cs (typed t1)"
    "active_terminal s' = active_terminal s1" "scheduled_terminal s' = scheduled_terminal s1" "paging_wf s'"
    using Cons.IH [of s1, unfolded at, OF s1(6) t1(1,3,2)] Cons.prems(5) by (meson list.set_intros(2))
  then show ?case using s1 t1 by (intro exI [of _ s'] exI [of _ t']) simp
qed

lemma read_finish_line:
  assumes ok: "term_ok (terminals s (active_terminal s))"
  shows "\<exists>s'. read_finish l s =
     Some (int (length (typed (terminals s (active_terminal s)))) + 1,
           typed (terminals s (active_terminal s)) @ [10], s') \<and>
     enter_flag (terminals s' (active_terminal s')) = 0"
proof -
  define a where "a = active_terminal s"
  define t where "t = terminals s a"
  define s2 where "s2 = (let s = upd_term a (\<lambda>t. t\<lparr>enter_flag := 0\<rparr>) s in
    if current_char (terminals s a) > of_int (NUM_COLS - prev_char_in_line l)
    then let s = upd_term a (\<lambda>t. t\<lparr>current_line := current_line t + 1\<rparr>) s
         in set_cursor 0 (current_line (terminals s a)) s
    else s)"
  have s2: "\<exists>ln. terminals s2 a = t\<lparr>enter_flag := 0, current_line := ln\<rparr>" "active_terminal s2 = a"
    using printed_frame(1,2) [OF set_cursor_printed]
    by (auto simp: s2_def Let_def a_def t_def intro: exI [of _ "current_line t"])
  then obtain ln where ln: "terminals s2 a = t\<lparr>enter_flag := 0, current_line := ln\<rparr>" by blast
  have len: "length (keyboard_buffer t) = 129" and n: "unat (current_char t) \<le> 128"
    using ok by (simp_all add: term_ok_def t_def a_def)
  have S: "unat (current_char t + 1) = Suc (unat (current_char t))"
    using n by (simp add: unat_word_ariths)
  have si: "sint (current_char t + 1) = int (unat (current_char t)) + 1"
    using n S by (subst sint_small) simp_all
  have tk: "take (Suc (unat (current_char t))) ((keyboard_buffer t)[unat (current_char t) := 10]) = typed t @ [10]"
    using len n by (simp add: typed_def take_Suc_conv_app_nth)
  let ?s' = "upd_term a (\<lambda>t'. t'\<lparr>keyboard_buffer := (keyboard_buffer t)[unat (current_char t) := 10],
      current_char := current_char t' + 1\<rparr>) s2"
  have "read_finish l s = Some (int (unat (current_char t)) + 1, typed t @ [10], ?s')"
    unfolding read_finish_def Let_def a_def [symmetric] s2_def [symmetric, unfolded Let_def]
    using ln s2(2) len n S si tk by (simp add: NEWLINE_ASCII_def)
  then show ?thesis using s2(2) ln ok
    by (intro exI [of _ ?s']) (simp add: length_typed t_def [symmetric] a_def [symmetric])
qed

section \<open>Scrolling\<close>

definition scroll_page :: "(nat \<Rightarrow> u8) \<Rightarrow> nat \<Rightarrow> u8" where
  "scroll_page p = scrolled 0 24 p"

definition scroll_by :: "nat \<Rightarrow> machine \<Rightarrow> machine" where
  "scroll_by k s =
     upd_term (scheduled_terminal s) (\<lambda>t. t\<lparr>current_line := current_line t - of_nat k\<rparr>)
       (with_page ((scroll_page ^^ k) (vpage s)) s)"

lemma with_page_sel [simp]:
  "terminals (with_page p s) = terminals s"
  "active_terminal (with_page p s) = active_terminal s"
  "scheduled_terminal (with_page p s) = scheduled_terminal s"
  "cursor_nonneg (with_page p s) = cursor_nonneg s"
  by (simp_all add: with_page_def cursor_nonneg_def)

lemma with_page_frames: "frames (with_page p s) = (frames s)(video_frame s := p)"
  by (simp add: with_page_def)

lemma scroll_line_eq: "paging_wf s \<Longrightarrow> scroll_line s = Some (scroll_by 1 s)"
  by (simp add: scroll_line_def shift_video_mem_up_eq NUM_ROWS_def scroll_by_def scroll_page_def)

lemma scroll_by_sel [simp]:
  "paging_wf (scroll_by k s) = paging_wf s"
  "scheduled_terminal (scroll_by k s) = scheduled_terminal s"
  "active_terminal (scroll_by k s) = active_terminal s"
  "video_frame (scroll_by k s) = video_frame s"
  "vpage (scroll_by k s) = (scroll_page ^^ k) (vpage s)"
  "cursor_nonneg (scroll_by k s) = cursor_nonneg s"
  "terminals (scroll_by k s) = (terminals s)(scheduled_terminal s :=
     terminals s (scheduled_terminal s)\<lparr>current_line := current_line (terminals s (scheduled_terminal s)) - of_nat k\<rparr>)"
  by (simp_all add: scroll_by_def)

lemma scroll_by_0 [simp]: "scroll_by 0 s = s"
  by (simp add: scroll_by_def upd_term_def)

lemma scroll_by_add: "scroll_by j (scroll_by k s) = scroll_by (j + k) s"
  by (simp add: scroll_by_def upd_term_def with_page_def vpage_def video_frame_def funpow_add
      algebra_simps)

lemma sched_line_scroll_by:
  assumes "int k \<le> sched_line s" shows "sched_line (scroll_by k s) = sched_line s - int k"
proof -
  define w where "w = current_line (terminals s (scheduled_terminal s))"
  have "int k \<le> int (unat w)" using assms by (simp add: sched_line_def w_def)
  then have k: "k \<le> unat w" by (simp only: of_nat_le_iff)
  then have k8: "unat (of_nat k :: u8) = k" using unat_u8 [of w] by (simp add: unat_of_nat)
  then have "unat (w - of_nat k) = unat w - k" using k by (simp add: unat_sub word_le_nat_alt)
  then have "int (unat (w - of_nat k)) = int (unat w) - int k" using k by simp
  then show ?thesis by (simp add: sched_line_def w_def)
qed

lemma scroll_to_bottom_eq:
  "paging_wf s \<Longrightarrow> scroll_to_bottom s = Some (scroll_by (nat (sched_line s - 24)) s)"
proof (induction "nat (sched_line s - 24)" arbitrary: s)
  case 0
  then show ?case by (subst scroll_to_bottom.simps) (simp add: NUM_ROWS_def)
next
  case (Suc k)
  have l: "sched_line (scroll_by 1 s) = sched_line s - 1"
    using sched_line_scroll_by [of 1 s] Suc.hyps(2) Suc.prems by simp
  have k: "k = nat (sched_line (scroll_by 1 s) - 24)" using l Suc.hyps(2) by simp
  have "scroll_to_bottom (scroll_by 1 s) = Some (scroll_by k (scroll_by 1 s))"
    using Suc.hyps(1) [OF k] Suc.prems unfolding k [symmetric] by simp
  moreover have "24 < sched_line s" using Suc.hyps(2) by simp
  ultimately show ?case using Suc.prems unfolding Suc.hyps(2) [symmetric]
    by (subst scroll_to_bottom.simps) (simp add: NUM_ROWS_def scroll_line_eq scroll_by_add)
qed

lemma make_room_eq:
  "paging_wf s \<Longrightarrow> n \<le> 25 \<Longrightarrow> sched_line s \<le> 25 \<Longrightarrow>
     make_room n s = Some (scroll_by (nat (n + sched_line s - 25)) s)"
proof (induction "nat (n + sched_line s - 25)" arbitrary: s)
  case 0
  then show ?case by (subst make_room.simps) (simp add: NUM_ROWS_def)
next
  case (Suc k)
  have l: "sched_line (scroll_by 1 s) = sched_line s - 1"
    using sched_line_scroll_by [of 1 s] Suc.hyps(2) Suc.prems by simp
  have k: "k = nat (n + sched_line (scroll_by 1 s) - 25)" using l Suc.hyps(2) by simp
  have "make_room n (scroll_by 1 s) = Some (scroll_by k (scroll_by 1 s))"
    using Suc.hyps(1) [OF k] Suc.prems l unfolding k [symmetric] by simp
  moreover have "25 - sched_line s < n" using Suc.hyps(2) by simp
  ultimately show ?case using Suc.prems unfolding Suc.hyps(2) [symmetric]
    by (subst make_room.simps) (simp add: NUM_ROWS_def scroll_line_eq scroll_by_add)
qed

text \<open>With more newlines than rows the condition of the loop can never fail.\<close>

lemma make_room_exit: "make_room n s = Some s' \<Longrightarrow> n \<le> 25 - sched_line s'"
  by (rule make_room.raw_induct [of "\<lambda>n s s'. n \<le> 25 - sched_line s'"])
    (auto simp: NUM_ROWS_def split: if_splits Option.bind_splits)

lemma make_room_diverges: "25 < n \<Longrightarrow> make_room n s = None"
proof (rule ccontr)
  assume n: "25 < n" and "make_room n s \<noteq> None"
  then obtain s' where "make_room n s = Some s'" by auto
  then have "n \<le> 25 - sched_line s'" by (rule make_room_exit)
  moreover have "0 \<le> sched_line s'" by (simp add: sched_line_def)
  ultimately show False using n by simp
qed

section \<open>What a write shows\<close>

lemma blank_buffer: "n \<le> length b \<Longrightarrow> for_each [0..<n] (\<lambda>i b. wr b i 0) b = Some (replicate n 0 @ drop n b)"
  for b :: "u8 list"
proof (induction n)
  case (Suc n)
  have "(replicate n 0 @ drop n b)[n := 0] = replicate (Suc n) 0 @ drop (Suc n) b"
    using Suc.prems by (simp add: list_update_append replicate_append_same flip: Cons_nth_drop_Suc)
  then show ?case using Suc by (simp add: for_each_append)
qed simp

text \<open>The record after \<open>write_begin\<close>, and how far \<open>write_scroll\<close> scrolls.\<close>

definition emptied :: "terminal_info \<Rightarrow> terminal_info" where
  "emptied t =
     t\<lparr>keyboard_buffer := replicate 128 0 @ drop 128 (keyboard_buffer t), current_char := 0,
       current_line := (if current_char t > 0 then current_line t + 1 else current_line t)\<rparr>"

definition scroll_amount :: "int \<Rightarrow> int \<Rightarrow> int \<Rightarrow> int \<Rightarrow> nat" where
  "scroll_amount line x nbytes newline_count =
     (let k2 = (if 24 \<le> line \<and> nbytes \<ge> 80 - x then 1 else 0)
      in nat (line - 24) + k2 + nat (newline_count + (min line 24 - int k2) - 25))"

lemma write_begin_eq:
  "length (keyboard_buffer (terminals s (scheduled_terminal s))) = 129 \<Longrightarrow>
     write_begin s = Some (upd_term (scheduled_terminal s) emptied s)"
  using blank_buffer [of 128 "keyboard_buffer (terminals s (scheduled_terminal s))"]
  by (auto simp: write_begin_def Let_def MAX_BUFFER_LENGTH_def NULL_ASCII_def emptied_def upd_term_def
      word_gt_0 intro!: arg_cong [where f = "\<lambda>t. s\<lparr>terminals := (terminals s)(scheduled_terminal s := t)\<rparr>"])

lemma sched_bounds [simp, bound_facts]:
  "0 \<le> sched_line s" "sched_line s < 256" "0 \<le> sched_char s" "sched_char s < 256"
  using uint_lt2p [of "current_line (terminals s (scheduled_terminal s))"]
    uint_lt2p [of "char_in_line (terminals s (scheduled_terminal s))"]
  by (simp_all add: sched_line_def sched_char_def)

lemma write_scroll_eq:
  assumes "paging_wf s" "newline_count \<le> 25"
  shows "write_scroll nbytes newline_count s =
    Some (scroll_by (scroll_amount (sched_line s) (sched_char s) nbytes newline_count) s)"
proof -
  let ?k1 = "nat (sched_line s - 24)"
  let ?s1 = "scroll_by ?k1 s"
  have "int ?k1 \<le> sched_line s" using sched_bounds(1) [of s] by linarith
  then have l1: "sched_line ?s1 = min (sched_line s) 24"
    using sched_line_scroll_by [of ?k1 s] by linarith
  have x1: "sched_char ?s1 = sched_char s" by (simp add: sched_char_def)
  define k2 :: nat where "k2 = (if 24 \<le> sched_line s \<and> nbytes \<ge> 80 - sched_char s then 1 else 0)"
  have k2: "k2 \<le> 1" "k2 = 1 \<Longrightarrow> 24 \<le> sched_line s" by (simp_all add: k2_def split: if_splits)
  let ?s2 = "scroll_by k2 ?s1"
  have "int k2 \<le> sched_line ?s1" using k2 sched_bounds(1) [of s] unfolding l1 by linarith
  then have l2: "sched_line ?s2 = min (sched_line s) 24 - int k2"
    using sched_line_scroll_by [of k2 ?s1] l1 by linarith
  have cond: "sched_line ?s1 = NUM_ROWS - 1 \<longleftrightarrow> 24 \<le> sched_line s"
    unfolding l1 NUM_ROWS_def by linarith
  have step2: "(if sched_line ?s1 = NUM_ROWS - 1 \<and> nbytes \<ge> NUM_COLS - sched_char ?s1
       then scroll_line ?s1 else Some ?s1) = Some ?s2"
    unfolding cond x1 NUM_COLS_def k2_def using assms(1) by (simp add: scroll_line_eq)
  have "sched_line ?s2 \<le> 25" unfolding l2 by linarith
  then have step3: "make_room newline_count ?s2 =
      Some (scroll_by (nat (newline_count + (min (sched_line s) 24 - int k2) - 25)) ?s2)"
    using make_room_eq [of ?s2 newline_count] assms unfolding l2 by simp
  have amount: "scroll_amount (sched_line s) (sched_char s) nbytes newline_count =
      nat (newline_count + (min (sched_line s) 24 - int k2) - 25) + (k2 + ?k1)"
    unfolding scroll_amount_def Let_def k2_def [symmetric] by linarith
  show ?thesis
    unfolding write_scroll_def scroll_to_bottom_eq [OF assms(1)] bind.simps(2) step2 step3 amount
    by (simp add: scroll_by_add)
qed

lemma sched_line_write_scroll:
  assumes "newline_count \<le> 25"
  shows "sched_line (scroll_by (scroll_amount (sched_line s) (sched_char s) nbytes newline_count) s) =
    sched_line s - int (scroll_amount (sched_line s) (sched_char s) nbytes newline_count)"
    and "sched_line s - int (scroll_amount (sched_line s) (sched_char s) nbytes newline_count) \<le> 24"
    and "newline_count + (sched_line s - int (scroll_amount (sched_line s) (sched_char s) nbytes newline_count)) \<le> 25"
proof -
  have "int (scroll_amount (sched_line s) (sched_char s) nbytes newline_count) \<le> sched_line s"
    using assms sched_bounds [of s] by (auto simp: scroll_amount_def Let_def)
  then show "sched_line (scroll_by (scroll_amount (sched_line s) (sched_char s) nbytes newline_count) s) =
    sched_line s - int (scroll_amount (sched_line s) (sched_char s) nbytes newline_count)"
    by (rule sched_line_scroll_by)
  show "sched_line s - int (scroll_amount (sched_line s) (sched_char s) nbytes newline_count) \<le> 24"
    "newline_count + (sched_line s - int (scroll_amount (sched_line s) (sched_char s) nbytes newline_count)) \<le> 25"
    using assms sched_bounds [of s] by (auto simp: scroll_amount_def Let_def)
qed

text \<open>The position after the text: on a line end the write position goes to a fresh line.\<close>

definition advanced :: "u8 list \<Rightarrow> int \<Rightarrow> int \<Rightarrow> terminal_info \<Rightarrow> terminal_info" where
  "advanced buf nbytes newline_count t =
     (let stays = nbytes = 80 \<or> buf ! nat (nbytes - 1) = 10;
          x = (if stays then char_in_line t else char_in_line t + of_int nbytes);
          n = (if stays then nbytes - 1 else nbytes);
          l = current_line t + of_int newline_count;
          l = (if n \<ge> 80 - uint x then l + 1 else l)
      in if newline_count = 0 then t\<lparr>char_in_line := x\<rparr>
         else t\<lparr>current_line := l - of_nat (unat l - 24), char_in_line := 0\<rparr>)"

lemma advanced_frame [simp]:
  "keyboard_buffer (advanced buf n k t) = keyboard_buffer t"
  "current_char (advanced buf n k t) = current_char t"
  "enter_flag (advanced buf n k t) = enter_flag t"
  by (simp_all add: advanced_def Let_def)

lemma advanced_line:
  assumes "unat (current_line t) \<le> 24" shows "unat (current_line (advanced buf nbytes k t)) \<le> 24"
proof -
  have "unat (l - of_nat (unat l - 24)) \<le> 24" for l :: u8
  proof (cases "unat l \<le> 24")
    case False
    then have "unat (of_nat (unat l - 24) :: u8) = unat l - 24"
      using unat_u8 [of l] by (simp add: unat_of_nat del: of_nat_diff)
    then have "unat (l - of_nat (unat l - 24)) = unat l - (unat l - 24)"
      by (simp add: unat_sub word_le_nat_alt del: of_nat_diff)
    then show ?thesis by (simp del: of_nat_diff)
  qed simp
  then show ?thesis using assms by (simp add: advanced_def Let_def)
qed

lemma write_advance_eq:
  assumes "paging_wf s" "0 < nbytes" "nbytes \<le> int (length buf)"
  shows "\<exists>j. write_advance buf nbytes k s =
    Some (upd_term (scheduled_terminal s) (advanced buf nbytes k) (with_page ((scroll_page ^^ j) (vpage s)) s)) \<and>
    (k = 0 \<longrightarrow> j = 0)"
proof -
  define c where "c = scheduled_terminal s"
  define stays where "stays \<longleftrightarrow> nbytes = 80 \<or> buf ! nat (nbytes - 1) = 10"
  define x where "x = (if stays then char_in_line (terminals s c) else char_in_line (terminals s c) + of_int nbytes)"
  define n where "n = (if stays then nbytes - 1 else nbytes)"
  let ?s1 = "upd_term c (\<lambda>t. t\<lparr>char_in_line := x\<rparr>) s"
  have first: "(if nbytes \<noteq> NUM_COLS
          then do {
            last \<leftarrow> (if 0 < nbytes then rd buf (nat (nbytes - 1)) else None);
            if last \<noteq> NEWLINE_ASCII
            then Some (nbytes, upd_term c (\<lambda>t. t\<lparr>char_in_line := char_in_line t + of_int nbytes\<rparr>) s)
            else Some (nbytes - 1, s)
          }
          else Some (nbytes - 1, s)) = Some (n, ?s1)"
    using assms(2,3) by (auto simp: n_def x_def stays_def NUM_COLS_def NEWLINE_ASCII_def upd_term_def nat_less_iff)
  show ?thesis
  proof (cases "k = 0")
    case True
    then have "write_advance buf nbytes k s = Some ?s1"
      unfolding write_advance_def Let_def c_def [symmetric] first by simp
    moreover have "?s1 = upd_term c (advanced buf nbytes k) s"
      using True by (simp add: upd_term_def advanced_def Let_def x_def stays_def)
    ultimately show ?thesis by (intro exI [of _ 0]) (simp add: c_def)
  next
    case False
    define l where "l = (if n \<ge> 80 - uint x then current_line (terminals s c) + of_int k + 1
      else current_line (terminals s c) + of_int k)"
    let ?s2 = "upd_term c (\<lambda>t. t\<lparr>char_in_line := x, current_line := l\<rparr>) s"
    have second: "(let s = upd_term c (\<lambda>t. t\<lparr>current_line := current_line t + of_int k\<rparr>) ?s1 in
        if n \<ge> NUM_COLS - sched_char s then upd_term c (\<lambda>t. t\<lparr>current_line := current_line t + 1\<rparr>) s else s) = ?s2"
      by (simp add: l_def NUM_COLS_def sched_char_def c_def upd_term_def Let_def)
    have "scroll_to_bottom ?s2 = Some (scroll_by (nat (sched_line ?s2 - 24)) ?s2)"
      using assms(1) by (intro scroll_to_bottom_eq) simp
    moreover have "sched_line ?s2 = int (unat l)" by (simp add: sched_line_def c_def)
    then have "nat (sched_line ?s2 - 24) = unat l - 24" by linarith
    ultimately have "write_advance buf nbytes k s =
        Some (upd_term c (\<lambda>t. t\<lparr>char_in_line := 0\<rparr>) (scroll_by (unat l - 24) ?s2))"
      using False second unfolding write_advance_def c_def [symmetric] Let_def first
      by (simp add: Let_def)
    moreover have "upd_term c (\<lambda>t. t\<lparr>char_in_line := 0\<rparr>) (scroll_by (unat l - 24) ?s2) =
        upd_term c (advanced buf nbytes k) (with_page ((scroll_page ^^ (unat l - 24)) (vpage s)) s)"
      using False
      by (simp add: upd_term_def scroll_by_def with_page_def vpage_def video_frame_def c_def [symmetric]
          advanced_def Let_def l_def x_def n_def stays_def)
    ultimately show ?thesis using False by (intro exI [of _ "unat l - 24"]) (simp add: c_def)
  qed
qed

text \<open>The whole write: scroll, print the text at the write position, move on.\<close>

definition write_shift :: "machine \<Rightarrow> int \<Rightarrow> int \<Rightarrow> nat" where
  "write_shift s nbytes k =
     (let t = emptied (terminals s (scheduled_terminal s))
      in scroll_amount (uint (current_line t)) (uint (char_in_line t)) nbytes k)"

definition write_console :: "machine \<Rightarrow> int \<Rightarrow> int \<Rightarrow> console" where
  "write_console s nbytes k =
     (let t = emptied (terminals s (scheduled_terminal s))
      in ((scroll_page ^^ write_shift s nbytes k) (vpage s), unat (char_in_line t),
          unat (current_line t) - write_shift s nbytes k))"

lemma cursor_to_terminal_printed:
  "printed s (vpage s, unat (char_in_line (terminals s (scheduled_terminal s))),
     unat (current_line (terminals s (scheduled_terminal s)))) (cursor_to_terminal s)"
  unfolding cursor_to_terminal_def Let_def by (rule set_cursor_printed)

text \<open>Up to the cursor: the line is emptied, room is made, and the console stands where the text begins.\<close>

lemma write_room_made:
  assumes wf: "paging_wf s" and kb: "length (keyboard_buffer (terminals s (scheduled_terminal s))) = 129"
    and scan: "write_scan buf (nat nbytes) 0 0 = Some (n, k)" "k \<le> 25"
  shows "\<exists>s1 s2 s3. write_begin s = Some s1 \<and> write_scroll nbytes k s1 = Some s2 \<and> s3 = cursor_to_terminal s2 \<and>
    con s3 = write_console s nbytes k \<and> paging_wf s3 \<and>
    terminals s3 = (terminals s)(scheduled_terminal s := (emptied (terminals s (scheduled_terminal s)))\<lparr>current_line :=
         of_nat (snd (snd (write_console s nbytes k)))\<rparr>) \<and>
    scheduled_terminal s3 = scheduled_terminal s \<and> active_terminal s3 = active_terminal s \<and> video_frame s3 = video_frame s \<and>
    frames s3 = (frames s)(video_frame s := vpage s3)"
proof -
  define c where "c = scheduled_terminal s"
  define t0 where "t0 = emptied (terminals s c)"
  define s1 where "s1 = upd_term c emptied s"
  define j where "j = write_shift s nbytes k"
  have b: "write_begin s = Some s1" using write_begin_eq [OF kb] by (simp add: s1_def c_def)
  have c1: "scheduled_terminal s1 = c" "terminals s1 c = t0" "paging_wf s1" "vpage s1 = vpage s"
    "active_terminal s1 = active_terminal s" "video_frame s1 = video_frame s"
    using wf by (simp_all add: s1_def c_def t0_def)
  have j: "scroll_amount (sched_line s1) (sched_char s1) nbytes k = j"
    unfolding sched_line_def sched_char_def c1(1,2) j_def write_shift_def Let_def
    by (simp only: t0_def c_def)
  define s2 where "s2 = scroll_by j s1"
  have sc: "write_scroll nbytes k s1 = Some s2"
    using write_scroll_eq [OF c1(3) scan(2), of nbytes] unfolding j s2_def by simp
  have "sched_line s2 = sched_line s1 - int j"
    using sched_line_write_scroll(1) [OF scan(2), of s1 nbytes] unfolding j s2_def by simp
  then have "int (unat (current_line (terminals s2 c))) = int (unat (current_line t0)) - int j"
    by (simp add: sched_line_def c1 s2_def)
  then have y: "unat (current_line (terminals s2 c)) = unat (current_line t0) - j" and jl: "j \<le> unat (current_line t0)"
    by linarith+
  have ln: "current_line t0 - of_nat j = of_nat (unat (current_line t0) - j)"
    using jl by (simp add: of_nat_diff)
  have t2: "terminals s2 = (terminals s)(c := t0\<lparr>current_line := of_nat (unat (current_line t0) - j)\<rparr>)"
    unfolding s2_def by (simp add: c1 s1_def t0_def [symmetric] ln [symmetric] del: of_nat_diff) (simp add: s1_def t0_def c_def)
  have s2c: "scheduled_terminal s2 = c" "paging_wf s2" "vpage s2 = (scroll_page ^^ j) (vpage s)"
    "active_terminal s2 = active_terminal s" "video_frame s2 = video_frame s"
    by (simp_all add: s2_def c1)
  have fr2: "frames s2 = (frames s)(video_frame s := vpage s2)"
    unfolding s2c(3) by (simp add: s2_def scroll_by_def c1 with_page_def) (simp add: s1_def)
  note p3 = cursor_to_terminal_printed [of s2]
  have con3: "con (cursor_to_terminal s2) = write_console s nbytes k"
    using printed_con [OF p3]
    by (simp add: s2c y write_console_def Let_def j_def [symmetric] t0_def [symmetric] c_def [symmetric])
      (simp add: t2)
  have "snd (snd (write_console s nbytes k)) = unat (current_line t0) - j"
    by (simp add: write_console_def Let_def j_def t0_def c_def)
  then show ?thesis
    using b sc con3 t2 s2c printed_frame [OF p3] printed_wf [OF p3] printed_frames [OF p3] fr2
    by (intro exI [of _ s1] exI [of _ s2] exI [of _ "cursor_to_terminal s2"])
      (simp add: c_def [symmetric] t0_def [symmetric] del: of_nat_diff)
qed

lemma terminal_write_shows:
  assumes wf: "paging_wf s" and kb: "length (keyboard_buffer (terminals s (scheduled_terminal s))) = 129"
    and nb: "0 < nbytes" "nbytes \<le> 1024" "nbytes \<le> int (length buf)" "terminated buf"
    and scan: "write_scan buf (nat nbytes) 0 0 = Some (n, k)" "k \<le> 25"
    and fits: "con_fits (cstr buf) (write_console s nbytes k)"
  shows "\<exists>s' i. terminal_write fd buf nbytes s = Some (n, s') \<and>
    vpage s' = (scroll_page ^^ i) (fst (fold con_putc (cstr buf) (write_console s nbytes k))) \<and>
    (k = 0 \<longrightarrow> i = 0) \<and>
    terminals s' = (terminals s)(scheduled_terminal s := advanced buf nbytes k
      ((emptied (terminals s (scheduled_terminal s)))\<lparr>current_line :=
         of_nat (snd (snd (write_console s nbytes k)))\<rparr>)) \<and>
    paging_wf s' \<and> video_frame s' = video_frame s \<and> scheduled_terminal s' = scheduled_terminal s \<and>
    active_terminal s' = active_terminal s \<and> frames s' = (frames s)(video_frame s := vpage s')"
proof -
  define c where "c = scheduled_terminal s"
  obtain s1 s2 s3 where w: "write_begin s = Some s1" "write_scroll nbytes k s1 = Some s2" "s3 = cursor_to_terminal s2"
    "con s3 = write_console s nbytes k" "paging_wf s3"
    and t3: "terminals s3 = (terminals s)(c := (emptied (terminals s c))\<lparr>current_line :=
         of_nat (snd (snd (write_console s nbytes k)))\<rparr>)"
    and f3: "scheduled_terminal s3 = c" "active_terminal s3 = active_terminal s" "video_frame s3 = video_frame s"
      "frames s3 = (frames s)(video_frame s := vpage s3)"
    using write_room_made [OF wf kb scan] unfolding c_def by blast
  obtain s4 where s4: "for_each (cstr buf) putc s3 = Some s4" "printed s3 (fold con_putc (cstr buf) (con s3)) s4"
    using putc_all_printed [of s3 "cstr buf"] printed_wf [OF cursor_to_terminal_printed [of s2]] w(3,5) fits
    unfolding w(4) by (metis printed_wf cursor_to_terminal_printed)
  have pu: "puts buf s3 = Some (int (length (cstr buf)), s4)"
    using s4(1) nb(4) by (simp add: puts_terminated)
  have wf4: "paging_wf s4" using printed_wf [OF s4(2)] w(5) by blast
  have fr4: "terminals s4 = terminals s3" "scheduled_terminal s4 = c" "active_terminal s4 = active_terminal s"
    "video_frame s4 = video_frame s" "vpage s4 = fst (fold con_putc (cstr buf) (write_console s nbytes k))"
    "frames s4 = (frames s)(video_frame s := vpage s4)"
    using printed_frame [OF s4(2)] printed_frames [OF s4(2)] f3 by (simp_all add: w(4))
  obtain i where i: "write_advance buf nbytes k s4 =
      Some (upd_term c (advanced buf nbytes k) (with_page ((scroll_page ^^ i) (vpage s4)) s4))" "k = 0 \<longrightarrow> i = 0"
    using write_advance_eq [OF wf4 nb(1,3), of k] fr4(2) by auto
  define s5 where "s5 = upd_term c (advanced buf nbytes k) (with_page ((scroll_page ^^ i) (vpage s4)) s4)"
  note p6 = cursor_to_terminal_printed [of s5]
  have "terminal_write fd buf nbytes s = Some (n, cursor_to_terminal s5)"
    using nb(2) scan(1) w(1-3) pu i(1) by (simp add: terminal_write_def MAX_INPUT_BUF_LEN_def s5_def)
  moreover have "vpage (cursor_to_terminal s5) = (scroll_page ^^ i) (vpage s4)"
    using printed_frame(11) [OF p6] by (simp add: s5_def)
  moreover have "terminals (cursor_to_terminal s5) = (terminals s)(c := advanced buf nbytes k
      ((emptied (terminals s c))\<lparr>current_line := of_nat (snd (snd (write_console s nbytes k)))\<rparr>))"
    using printed_frame(1) [OF p6] by (simp add: s5_def fr4 t3)
  moreover have "frames (cursor_to_terminal s5) = (frames s)(video_frame s := vpage (cursor_to_terminal s5))"
    using printed_frames [OF p6] printed_frame(11) [OF p6] fr4 by (simp add: s5_def with_page_frames)
  ultimately show ?thesis
    using i(2) printed_frame(2-4) [OF p6] printed_wf [OF p6] wf4 fr4
    by (intro exI [of _ "cursor_to_terminal s5"] exI [of _ i]) (simp add: s5_def c_def [symmetric])
qed

section \<open>A read returns the edited line\<close>

text \<open>The states of a read on the terminal that is both displayed and running.\<close>

definition plain :: "u8 list \<Rightarrow> bool" where
  "plain l \<longleftrightarrow> list_all (\<lambda>c. c \<noteq> 0 \<and> c \<noteq> 10 \<and> c \<noteq> 13) l"

definition line_ok :: "terminal_info \<Rightarrow> bool" where
  "line_ok t \<longleftrightarrow>
     term_ok t \<and> saved_cursor_ok t \<and> clean t \<and> unat (current_char t) \<le> 127 \<and>
     unat (char_in_line t) < 80 \<and> unat (current_line t) < 25 \<and> plain (typed t)"

definition poll_ok :: "machine \<Rightarrow> bool" where
  "poll_ok s \<longleftrightarrow> paging_wf s \<and> scheduled_terminal s = active_terminal s \<and> line_ok (terminals s (active_terminal s))"

lemma int_flag_sel [simp]:
  "terminals (cli s) = terminals s" "terminals (sti s) = terminals s"
  "active_terminal (cli s) = active_terminal s" "active_terminal (sti s) = active_terminal s"
  "scheduled_terminal (cli s) = scheduled_terminal s" "scheduled_terminal (sti s) = scheduled_terminal s"
  "paging_wf (cli s) = paging_wf s" "paging_wf (sti s) = paging_wf s"
  "video_frame (cli s) = video_frame s" "video_frame (sti s) = video_frame s"
  "vpage (cli s) = vpage s" "vpage (sti s) = vpage s"
  "frames (cli s) = frames s" "frames (sti s) = frames s"
  by (simp_all add: cli_def sti_def paging_wf_def tables_linked_def program_frame_def video_frame_def vpage_def)

lemma plain_edit: "plain l \<Longrightarrow> c \<noteq> 0 \<Longrightarrow> c \<noteq> 10 \<Longrightarrow> c \<noteq> 13 \<Longrightarrow> plain (edit c l)"
  by (auto simp: plain_def edit_def list_all_iff dest: in_set_butlastD)

lemma plain_newlines: "plain l \<Longrightarrow> newlines l = 0"
  by (induction l) (auto simp: plain_def newlines_def)

lemma clean_cstr:
  assumes "line_ok t" shows "cstr (keyboard_buffer t) = typed t" "terminated (keyboard_buffer t)"
proof -
  have kb: "keyboard_buffer t = typed t @ replicate (Suc (128 - unat (current_char t))) 0"
    using assms by (simp add: line_ok_def clean_def flip: Suc_diff_le)
  have "0 \<notin> set (typed t)" using assms by (auto simp: line_ok_def plain_def list_all_iff)
  then show "cstr (keyboard_buffer t) = typed t" "terminated (keyboard_buffer t)"
    by (subst kb, simp add: cstr_append cstr_no_zero terminated_def)+
qed

lemma read_echo_ok:
  assumes "poll_ok s"
  shows "\<exists>s'. read_echo s = Some s' \<and> poll_ok s' \<and> terminals s' = terminals s \<and>
    active_terminal s' = active_terminal s"
proof -
  define t where "t = terminals s (active_terminal s)"
  have ok: "line_ok t" "paging_wf s" "scheduled_terminal s = active_terminal s"
    using assms by (simp_all add: poll_ok_def t_def)
  let ?s1 = "set_cursor (char_in_line t) (current_line t) (cli s)"
  have p1: "printed (cli s) (vpage s, unat (char_in_line t), unat (current_line t)) ?s1"
    using set_cursor_printed [of "cli s"] by simp
  have c1: "con ?s1 = (vpage s, unat (char_in_line t), unat (current_line t))" using p1 by (rule printed_con)
  have "con_fits (cstr (keyboard_buffer t)) (con ?s1)"
    unfolding c1 using ok(1) clean_cstr(1) [OF ok(1)]
    by (simp add: con_fits_line plain_newlines line_ok_def)
  then obtain s2 where s2: "for_each (cstr (keyboard_buffer t)) putc ?s1 = Some s2"
    "printed ?s1 (fold con_putc (cstr (keyboard_buffer t)) (con ?s1)) s2"
    using putc_all_printed [of ?s1] printed_wf [OF p1] ok(2) by fastforce
  have kb: "keyboard_buffer (terminals ?s1 (active_terminal ?s1)) = keyboard_buffer t"
    using printed_frame(1,2) [OF p1] by (simp add: t_def)
  have fr: "terminals s2 = terminals s" "active_terminal s2 = active_terminal s"
    "scheduled_terminal s2 = scheduled_terminal s" "paging_wf s2"
    using printed_frame(1-3) [OF p1] printed_frame(1-3) [OF s2(2)] printed_wf [OF p1] printed_wf [OF s2(2)] ok(2)
    by simp_all
  have "puts (keyboard_buffer t) ?s1 = Some (int (length (cstr (keyboard_buffer t))), s2)"
    using s2(1) clean_cstr(2) [OF ok(1)] by (simp add: puts_terminated)
  then have "read_echo s = Some (sti s2)"
    using kb by (simp add: read_echo_def Let_def t_def [symmetric])
  then show ?thesis using fr ok by (intro exI [of _ "sti s2"]) (simp add: poll_ok_def t_def)
qed

text \<open>The redraw changes bookkeeping only.\<close>

definition same_line :: "terminal_info \<Rightarrow> terminal_info \<Rightarrow> bool" where
  "same_line t t' \<longleftrightarrow> typed t' = typed t \<and> enter_flag t' = enter_flag t \<and> line_ok t'"

lemma read_redraw_ok:
  assumes "poll_ok s"
  shows "\<exists>l' s'. read_redraw l s = Some (l', s') \<and> poll_ok s' \<and>
    active_terminal s' = active_terminal s \<and>
    same_line (terminals s (active_terminal s)) (terminals s' (active_terminal s))"
proof -
  define a where "a = active_terminal s"
  define t where "t = terminals s a"
  have ok: "line_ok t" "paging_wf s" "scheduled_terminal s = a" "active_terminal s = a"
    using assms by (simp_all add: poll_ok_def t_def a_def)
  define up where "up \<longleftrightarrow> read_needs_shift l t"
  define ln where "ln = (if up then current_line t - 1 else current_line t)"
  define s2 where "s2 = (if up then with_page (scrolled 0 24 (vpage s)) s else s)"
  define t' where "t' = t\<lparr>reset_flag := 0, current_line := ln, last_current_char := current_char t,
    keyboard_buffer := (keyboard_buffer t)[unat (current_char t) := 0]\<rparr>"
  have kb: "(keyboard_buffer t)[unat (current_char t) := 0] = keyboard_buffer t"
  proof (rule list_update_same_conv [THEN iffD2])
    show lt: "unat (current_char t) < length (keyboard_buffer t)"
      using ok(1) by (simp add: line_ok_def term_ok_def)
    have "keyboard_buffer t = typed t @ replicate (129 - unat (current_char t)) 0" "length (typed t) = unat (current_char t)"
      using ok(1) length_typed [of t] by (simp_all add: line_ok_def clean_def)
    then show "keyboard_buffer t ! unat (current_char t) = 0"
      using lt by (metis length_append length_replicate nth_append_right nth_replicate order_refl
          diff_self_eq_0 less_add_same_cancel1)
  qed
  have "unat ln < 25"
  proof (cases up)
    case True
    then have "24 \<le> uint (current_line t)" by (simp add: up_def read_needs_shift_def NUM_ROWS_def)
    then have "1 \<le> current_line t" by (simp add: word_le_def)
    then have "unat ln = unat (current_line t) - 1" using True by (simp add: ln_def unat_sub)
    then show ?thesis using ok(1) unfolding line_ok_def by linarith
  qed (use ok(1) in \<open>simp add: ln_def line_ok_def\<close>)
  then have same: "same_line t t'"
    using ok(1) kb by (simp add: same_line_def t'_def line_ok_def term_ok_def saved_cursor_ok_def clean_def typed_def)
  have lt: "unat (current_char t) < length (keyboard_buffer t)"
    using ok(1) by (simp add: line_ok_def term_ok_def)
  have sti_cli: "sti (with_page p (cli s')) = sti (with_page p s')" for p s'
    by (simp add: sti_def cli_def with_page_def video_frame_def)
  let ?s' = "upd_term a (\<lambda>_. t') (if up then sti s2 else s2)"
  have ta: "terminals s a = t" by (simp add: t_def)
  have u: "read_needs_shift l (t\<lparr>reset_flag := 0\<rparr>) = up" by (simp add: up_def read_needs_shift_def)
  have "\<exists>l'. read_redraw l s = Some (l', ?s')"
  proof (cases up)
    case True
    then show ?thesis using lt
      by (simp add: read_redraw_def Let_def ok(2-4) ta u shift_video_mem_up_eq NUM_ROWS_def NULL_ASCII_def)
        (simp add: s2_def t'_def ln_def upd_term_def ta sti_def cli_def with_page_def video_frame_def vpage_def)
  next
    case False
    then show ?thesis using lt
      by (simp add: read_redraw_def Let_def ok(2-4) ta u NULL_ASCII_def)
        (simp add: s2_def t'_def ln_def upd_term_def ta)
  qed
  moreover have "poll_ok ?s'" using ok same by (simp add: poll_ok_def s2_def same_line_def)
  ultimately show ?thesis using same ok ta
    by (auto simp: s2_def)
qed

text \<open>What may happen between two tests: keys arrive, or nothing does.\<close>

definition idle :: "machine \<Rightarrow> machine option" where
  "idle s = Some s"

lemma read_step_waits:
  assumes "poll_ok s" "enter_flag (terminals s (active_terminal s)) = 0 \<or> point l = PollScheduled"
  shows "\<exists>l' s'. read_step l s = Some (Poll l' s') \<and> poll_ok s' \<and> active_terminal s' = active_terminal s \<and>
    same_line (terminals s (active_terminal s)) (terminals s' (active_terminal s)) \<and>
    (point l = PollScheduled \<longrightarrow> point l' = PollEnter)"
proof (cases "point l")
  case PollScheduled
  then show ?thesis
    using read_echo_ok [OF assms(1)] assms(1) by (auto simp: read_step_def poll_ok_def same_line_def)
next
  case PollEnter
  obtain l' s' where r: "read_redraw l s = Some (l', s')" "poll_ok s'" "active_terminal s' = active_terminal s"
    "same_line (terminals s (active_terminal s)) (terminals s' (active_terminal s))"
    using read_redraw_ok [OF assms(1)] by blast
  have "same_line (terminals s (active_terminal s)) (terminals s (active_terminal s))"
    using assms(1) by (simp add: same_line_def poll_ok_def)
  then show ?thesis using r PollEnter assms by (auto simp: read_step_def Let_def)
qed

lemma poll_key:
  assumes "poll_ok s" "c \<noteq> 0" "c \<noteq> 13"
  shows "\<exists>s'. update_kb_buffer c s = Some s' \<and> poll_ok s' \<and> active_terminal s' = active_terminal s \<and>
    key_effect c (terminals s (active_terminal s)) (terminals s' (active_terminal s))"
proof -
  define t where "t = terminals s (active_terminal s)"
  have ok: "paging_wf s" "term_ok t" "saved_cursor_ok t" "line_ok t" "scheduled_terminal s = active_terminal s"
    using assms(1) by (simp_all add: poll_ok_def line_ok_def t_def)
  obtain s' t' where s': "update_kb_buffer c s = Some s'" "terminals s' = (terminals s)(active_terminal s := t')"
    "key_effect c t t'" "active_terminal s' = active_terminal s" "scheduled_terminal s' = scheduled_terminal s"
    "paging_wf s'"
    using update_kb_buffer_key [OF ok(1) ok(2,3) [unfolded t_def]] unfolding t_def by blast
  have "length (typed t) \<le> 127" using ok(4) length_typed [OF ok(2)] by (simp add: line_ok_def)
  then have "length (edit c (typed t)) \<le> 127" by (auto simp: edit_def)
  moreover have "c \<noteq> 10 \<Longrightarrow> plain (edit c (typed t))"
    using ok(4) assms(2,3) by (simp add: plain_edit line_ok_def)
  ultimately have "line_ok t'"
    using s'(3) ok(4) length_typed [of t'] \<open>length (typed t) \<le> 127\<close>
    by (auto simp: key_effect_def line_ok_def saved_cursor_ok_def split: if_splits)
  then show ?thesis using s' ok(5) by (intro exI [of _ s']) (simp add: poll_ok_def t_def)
qed

lemma read_spin_entered:
  assumes "poll_ok s" "enter_flag (terminals s (active_terminal s)) \<noteq> 0"
  shows "\<exists>s'. read_spin [idle, idle] l s =
     Some (Line (int (length (typed (terminals s (active_terminal s)))) + 1)
       (typed (terminals s (active_terminal s)) @ [10]) s')"
proof -
  have fin: "\<exists>s'. read_spin (idle # env) l s =
     Some (Line (int (length (typed (terminals s (active_terminal s)))) + 1)
       (typed (terminals s (active_terminal s)) @ [10]) s')"
    if "poll_ok s" "enter_flag (terminals s (active_terminal s)) \<noteq> 0" "point l = PollEnter" for l s env
    using read_finish_line [of s l] that
    by (auto simp: read_step_def Let_def poll_ok_def line_ok_def)
  show ?thesis
  proof (cases "point l")
    case PollEnter
    then show ?thesis using fin assms by blast
  next
    case PollScheduled
    obtain l' s' where r: "read_step l s = Some (Poll l' s')" "poll_ok s'" "active_terminal s' = active_terminal s"
      "same_line (terminals s (active_terminal s)) (terminals s' (active_terminal s))" "point l' = PollEnter"
      using read_step_waits [OF assms(1), of l] PollScheduled by blast
    have "\<exists>s''. read_spin [idle] l' s' =
       Some (Line (int (length (typed (terminals s' (active_terminal s')))) + 1)
         (typed (terminals s' (active_terminal s')) @ [10]) s'')"
      using r assms(2) by (intro fin) (simp_all add: same_line_def)
    then show ?thesis using r by (simp add: idle_def same_line_def)
  qed
qed

lemma read_spin_line:
  assumes "poll_ok s" "enter_flag (terminals s (active_terminal s)) = 0"
    and "list_all (\<lambda>c. c \<noteq> 0 \<and> c \<noteq> 10 \<and> c \<noteq> 13) keys"
  shows "\<exists>s'. read_spin (map update_kb_buffer (keys @ [10]) @ [idle, idle]) l s =
     Some (Line (int (length (fold edit keys (typed (terminals s (active_terminal s))))) + 1)
       (fold edit keys (typed (terminals s (active_terminal s))) @ [10]) s')"
  using assms
proof (induction keys arbitrary: l s)
  case Nil
  obtain l1 s1 where r: "read_step l s = Some (Poll l1 s1)" "poll_ok s1" "active_terminal s1 = active_terminal s"
    "same_line (terminals s (active_terminal s)) (terminals s1 (active_terminal s))"
    using read_step_waits [OF Nil(1), of l] Nil(2) by blast
  obtain s2 where k: "update_kb_buffer 10 s1 = Some s2" "poll_ok s2" "active_terminal s2 = active_terminal s1"
    "key_effect 10 (terminals s1 (active_terminal s1)) (terminals s2 (active_terminal s1))"
    using poll_key [OF r(2), of 10] by auto
  have "enter_flag (terminals s2 (active_terminal s2)) \<noteq> 0"
    "typed (terminals s2 (active_terminal s2)) = typed (terminals s (active_terminal s))"
    using k r by (simp_all add: key_effect_def same_line_def)
  then show ?case using read_spin_entered [OF k(2), of l1] r k by simp
next
  case (Cons c keys)
  obtain l1 s1 where r: "read_step l s = Some (Poll l1 s1)" "poll_ok s1" "active_terminal s1 = active_terminal s"
    "same_line (terminals s (active_terminal s)) (terminals s1 (active_terminal s))"
    using read_step_waits [OF Cons.prems(1), of l] Cons.prems(2) by blast
  obtain s2 where k: "update_kb_buffer c s1 = Some s2" "poll_ok s2" "active_terminal s2 = active_terminal s1"
    "key_effect c (terminals s1 (active_terminal s1)) (terminals s2 (active_terminal s1))"
    using poll_key [OF r(2), of c] Cons.prems(3) by auto
  have e: "enter_flag (terminals s2 (active_terminal s2)) = 0"
    "typed (terminals s2 (active_terminal s2)) = edit c (typed (terminals s (active_terminal s)))"
    using k r Cons.prems(2,3) by (simp_all add: key_effect_def same_line_def)
  then show ?case using Cons.IH [OF k(2) e(1), of l1] Cons.prems(3) r k by simp
qed

section \<open>The video mapping\<close>

text \<open>
  What \<open>terminal_switch\<close> and \<open>scheduler\<close> maintain: the video page is the screen when the running
  terminal is the displayed one, and the running terminal's backing page otherwise.
\<close>

definition mapping_ok :: "machine \<Rightarrow> bool" where
  "mapping_ok s \<longleftrightarrow>
     video_frame s = (if scheduled_terminal s = active_terminal s then 0xB8
                      else terminal_frame (unat (scheduled_terminal s)))"

lemma terminal_frame_not_screen: "i < 3 \<Longrightarrow> terminal_frame i \<noteq> 0xB8"
  by (auto simp: terminal_frame_def numeral_3_eq_3 less_Suc_eq)

lemma terminal_frame_inject: "i < 3 \<Longrightarrow> j < 3 \<Longrightarrow> terminal_frame i = terminal_frame j \<longleftrightarrow> i = j"
  by (auto simp: terminal_frame_def numeral_3_eq_3 less_Suc_eq)

lemma clear_terminal_mapping:
  assumes "paging_wf s"
  shows "\<exists>s'. clear_terminal s = Some s' \<and> video_frame s' = page_of (terminal_page (scheduled_terminal s)) \<and>
    active_terminal s' = active_terminal s \<and> scheduled_terminal s' = scheduled_terminal s \<and> paging_wf s'"
proof -
  have wf: "paging_wf (map_video VIDEO (cli s))" using assms by (intro map_video_wf) simp
  let ?s1 = "with_page (clear_page (vpage (map_video VIDEO (cli s)))) (map_video VIDEO (cli s))"
  have p: "printed ?s1 (vpage ?s1, 0, 0) (set_cursor 0 0 ?s1)"
    using set_cursor_printed [of ?s1 0 0] by simp
  have w: "paging_wf (map_video (terminal_page (scheduled_terminal s)) (set_cursor 0 0 ?s1))"
    using printed_wf [OF p] wf by (intro map_video_wf) simp
  then show ?thesis
    using printed_frame(2,3) [OF p] by (simp add: clear_terminal_def Let_def clear_eq [OF wf])
qed

section \<open>Text on the screen\<close>

text \<open>Where a write begins.\<close>

lemma write_console_bounds:
  assumes "k \<le> 25"
  shows "snd (snd (write_console s n k)) \<le> 24"
    and "fst (snd (write_console s n k)) = unat (char_in_line (terminals s (scheduled_terminal s)))"
proof -
  let ?s = "upd_term (scheduled_terminal s) emptied s"
  have "write_shift s n k = scroll_amount (sched_line ?s) (sched_char ?s) n k"
    by (simp add: write_shift_def Let_def sched_line_def sched_char_def)
  then have "sched_line ?s - int (write_shift s n k) \<le> 24" using sched_line_write_scroll(2) [OF assms, of ?s n] by simp
  moreover have "sched_line ?s = int (unat (current_line (emptied (terminals s (scheduled_terminal s)))))"
    by (simp add: sched_line_def)
  ultimately have "unat (current_line (emptied (terminals s (scheduled_terminal s)))) - write_shift s n k \<le> 24"
    by linarith
  then show "snd (snd (write_console s n k)) \<le> 24" by (simp add: write_console_def Let_def)
  show "fst (snd (write_console s n k)) = unat (char_in_line (terminals s (scheduled_terminal s)))"
    by (simp add: write_console_def Let_def emptied_def)
qed

definition on_row :: "u8 list \<Rightarrow> bool" where
  "on_row msg \<longleftrightarrow> msg \<noteq> [] \<and> length msg \<le> 1024 \<and> plain msg"

lemma write_scan_plain:
  "plain msg \<Longrightarrow> write_scan (msg @ r) (length msg) a b = Some (a + int (length msg), b)"
  by (induction "msg" arbitrary: a) (auto simp: plain_def term_consts)

lemma write_scan_string:
  "plain msg \<Longrightarrow> write_scan (msg @ 0 # r) n a b = Some (a + int (min n (Suc (length msg))), b)"
proof (induction msg arbitrary: n a)
  case Nil
  then show ?case by (cases n) (simp_all add: term_consts)
next
  case (Cons c msg)
  then show ?case by (cases n) (auto simp: plain_def term_consts)
qed

lemma write_scan_total:
  "n \<le> length buf \<Longrightarrow> \<exists>l k. write_scan buf n a b = Some (l, k)"
  by (induction buf n a b rule: write_scan.induct) auto

section \<open>Properties\<close>

text \<open>C11: a read on the displayed, running terminal: while it polls, keys arrive one at a time and
  then Enter; the call redraws and echoes as it goes and returns the line as edited (backspace
  removes the last character, the 128th and later characters are dropped) followed by a newline,
  with its length. How many bytes the caller asked for has no influence.\<close>

theorem terminal_read_returns_line:
  assumes "poll_ok s" "enter_flag (terminals s (active_terminal s)) = 0"
    and "list_all (\<lambda>c. c \<noteq> 0 \<and> c \<noteq> 10 \<and> c \<noteq> 13) keys"
  shows "\<exists>s'. terminal_read (map update_kb_buffer (keys @ [10]) @ [idle, idle]) nbytes s =
     Some (Line (int (length (fold edit keys (typed (terminals s (active_terminal s))))) + 1)
       (fold edit keys (typed (terminals s (active_terminal s))) @ [10]) s')"
  unfolding terminal_read_def using assms by (rule read_spin_line)

lemma paged_poll_ok: "poll_ok paged"
  by (simp add: poll_ok_def line_ok_def term_ok_def saved_cursor_ok_def clean_def typed_def plain_def
      zero_terminal_def)

theorem terminal_read_returns_line_witness:
  "\<exists>s'. terminal_read (map update_kb_buffer [108, 115, 120, 8, 10] @ [idle, idle]) 1 paged =
     Some (Line 3 [108, 115, 10] s')"
  using terminal_read_returns_line [OF paged_poll_ok, of "[108, 115, 120, 8]" 1]
  by (simp add: zero_terminal_def typed_def edit_def BACKSPACE_ASCII_def)

text \<open>C12: a write of a line's text (no NUL or line end in it): the page is scrolled as far as the
  write position needs, the text is put there, its length is returned, the typed line is thrown
  away, no other terminal and no other page changes. The write position then is on the row the text
  began on, as many columns further, an 8-bit number, as there are characters; after a write of exactly
  80 characters its column has not moved.\<close>

theorem terminal_write_text:
  assumes "paging_wf s" "length (keyboard_buffer (terminals s (scheduled_terminal s))) = 129"
    and "on_row msg" "unat (char_in_line (terminals s (scheduled_terminal s))) < 80"
  shows "\<exists>s'. terminal_write fd (msg @ 0 # r) (int (length msg)) s = Some (int (length msg), s') \<and>
    vpage s' = fst (fold con_putc msg (write_console s (int (length msg)) 0)) \<and>
    snd (snd (write_console s (int (length msg)) 0)) \<le> 24 \<and>
    typed (terminals s' (scheduled_terminal s)) = [] \<and>
    unat (current_line (terminals s' (scheduled_terminal s))) = snd (snd (write_console s (int (length msg)) 0)) \<and>
    char_in_line (terminals s' (scheduled_terminal s)) =
      (if length msg = 80 then char_in_line (terminals s (scheduled_terminal s))
       else char_in_line (terminals s (scheduled_terminal s)) + of_nat (length msg)) \<and>
    (\<forall>i. i \<noteq> scheduled_terminal s \<longrightarrow> terminals s' i = terminals s i) \<and>
    frames s' = (frames s)(video_frame s := vpage s')"
proof -
  define c where "c = scheduled_terminal s"
  have len: "0 < length msg" "length msg \<le> 1024" "plain msg" using assms(3) by (simp_all add: on_row_def)
  have "0 \<notin> set msg" "10 \<notin> set msg" using len(3) by (auto simp: plain_def list_all_iff)
  then have cs: "cstr (msg @ 0 # r) = msg" and last: "msg ! (length msg - 1) \<noteq> 10"
    using nth_mem [of "length msg - 1" msg] len(1) by (auto simp: cstr_append cstr_no_zero simp del: nth_mem)
  obtain p x y where w: "write_console s (int (length msg)) 0 = (p, x, y)" by (rule prod_cases3)
  have y: "y \<le> 24" and x: "x < 80"
    using write_console_bounds [of 0 s "int (length msg)"] w assms(4) by simp_all
  have fits: "con_fits (cstr (msg @ 0 # r)) (write_console s (int (length msg)) 0)"
    unfolding w cs using x y len(3) by (intro con_fits_line plain_newlines) simp_all
  have scan: "write_scan (msg @ 0 # r) (nat (int (length msg))) 0 0 = Some (int (length msg), 0)"
    using write_scan_plain [OF len(3), of "0 # r" 0 0] by simp
  from terminal_write_shows [OF assms(1,2) _ _ _ _ scan _ fits, of fd]
  obtain s' where s': "terminal_write fd (msg @ 0 # r) (int (length msg)) s = Some (int (length msg), s')"
    "vpage s' = fst (fold con_putc (cstr (msg @ 0 # r)) (write_console s (int (length msg)) 0))"
    "terminals s' = (terminals s)(c := advanced (msg @ 0 # r) (int (length msg)) 0
      ((emptied (terminals s c))\<lparr>current_line := of_nat (snd (snd (write_console s (int (length msg)) 0)))\<rparr>))"
    "frames s' = (frames s)(video_frame s := vpage s')"
    using len by (auto simp: terminated_def c_def)
  have "nat (int (length msg) - 1) = length msg - 1" "length msg - 1 < length msg" using len(1) by simp_all
  then have "char_in_line (terminals s' c) = (if length msg = 80 then char_in_line (terminals s c)
       else char_in_line (terminals s c) + of_nat (length msg))" "unat (current_line (terminals s' c)) = y"
    using last y w by (simp_all add: s'(3) advanced_def Let_def nth_append emptied_def unat_of_nat)
  then show ?thesis using s' w y cs
    by (intro exI [of _ s']) (simp add: typed_def emptied_def c_def)
qed

lemma paged_console: "write_console paged n 0 = ((\<lambda>_. 0), 0, 0)"
  by (simp add: write_console_def write_shift_def emptied_def zero_terminal_def scroll_amount_def vpage_def Let_def)

theorem terminal_write_text_witness:
  "\<exists>s'. terminal_write 1 ([72, 105] @ 0 # []) 2 paged = Some (2, s') \<and> vpage s' 0 = 72 \<and> vpage s' 2 = 105 \<and>
    char_in_line (terminals s' 0) = 2 \<and> unat (current_line (terminals s' 0)) = 0"
  using terminal_write_text [of paged "[72, 105]" 1 "[]"]
  by (auto simp: zero_terminal_def on_row_def plain_def paged_console)

lemma write_scan_newlines:
  "write_scan (replicate n 10 @ b) n i k = Some (i + int n, k + int n)"
  by (induction n arbitrary: i k) (simp_all add: term_consts)

text \<open>C31: a write with more than 25 newlines in its first \<open>nbytes\<close> bytes never returns: the steps
  before \<open>make_room\<close> succeed, and after any number of its iterations the loop condition still
  holds, so the kernel scrolls forever.\<close>

theorem terminal_write_many_newlines_hangs:
  assumes "paging_wf s" "length (keyboard_buffer (terminals s (scheduled_terminal s))) = 129"
    and "nbytes \<le> 1024" "write_scan buf (nat nbytes) 0 0 = Some (n, k)" "25 < k"
  shows "terminal_write fd buf nbytes s = None \<and>
    (\<exists>s1 s2. write_begin s = Some s1 \<and> scroll_to_bottom s1 = Some s2 \<and>
       (\<forall>i. scroll_line (scroll_by i s2) = Some (scroll_by (Suc i) s2) \<and>
            k > NUM_ROWS - sched_line (scroll_by i s2)))"
proof -
  have wf: "paging_wf (upd_term (scheduled_terminal s) emptied s)" using assms(1) by simp
  have "make_room k s' = None" for s' using assms(5) by (rule make_room_diverges)
  then have "write_scroll nbytes k s' = None" for s'
    by (cases "scroll_to_bottom s'") (auto simp: write_scroll_def split: Option.bind_split)
  then have "terminal_write fd buf nbytes s = None"
    using assms(3,4) by (cases "write_begin s") (simp_all add: terminal_write_def MAX_INPUT_BUF_LEN_def)
  moreover have "k > NUM_ROWS - sched_line t" for t
    using sched_bounds(1) [of t] assms(5) unfolding NUM_ROWS_def by linarith
  ultimately show ?thesis
    using write_begin_eq [OF assms(2)] scroll_to_bottom_eq [OF wf] wf
    by (auto simp: scroll_line_eq scroll_by_add)
qed

theorem terminal_write_many_newlines_hangs_witness:
  "terminal_write 1 (replicate 26 10 @ [0]) 26 paged = None"
  using terminal_write_many_newlines_hangs [of paged 26 "replicate 26 10 @ [0]" 26 26 1]
    write_scan_newlines [of 26 "[0]" 0 0]
  by (simp add: zero_terminal_def)

text \<open>Output one character at a time, as a program does that writes each as it comes.\<close>

definition write_each :: "int \<Rightarrow> u8 list \<Rightarrow> machine \<Rightarrow> machine option" where
  "write_each fd msg = for_each msg (\<lambda>c s. map_option snd (terminal_write fd [c, 0] 1 s))"

lemma write_each_simps [simp]:
  "write_each fd [] s = Some s"
  "write_each fd (c # msg) s =
     (case terminal_write fd [c, 0] 1 s of None \<Rightarrow> None | Some (n, s') \<Rightarrow> write_each fd msg s')"
  by (simp_all add: write_each_def split: option.split prod.split)

text \<open>The running terminal writes on one of the last two rows of the screen.\<close>

definition low_on_screen :: "machine \<Rightarrow> bool" where
  "low_on_screen s \<longleftrightarrow>
     (let t = terminals s (scheduled_terminal s)
      in paging_wf s \<and> length (keyboard_buffer t) = 129 \<and> current_char t = 0 \<and> current_line t \<in> {23, 24})"

definition write_column :: "machine \<Rightarrow> nat" where
  "write_column s = unat (char_in_line (terminals s (scheduled_terminal s)))"

lemma low_console:
  assumes "low_on_screen s"
  shows "\<exists>p y. write_console s 1 0 = (p, write_column s, y) \<and> (y = 23 \<or> y = 24 \<and> write_column s < 79)"
proof -
  define t where "t = terminals s (scheduled_terminal s)"
  have "emptied t = t\<lparr>keyboard_buffer := replicate 128 0 @ drop 128 (keyboard_buffer t)\<rparr>"
    using assms by (simp add: low_on_screen_def Let_def emptied_def t_def)
  moreover have "current_line t = 23 \<or> current_line t = 24" using assms by (auto simp: low_on_screen_def Let_def t_def)
  moreover have "uint (char_in_line t) = int (write_column s)" "unat (char_in_line t) = write_column s"
    by (simp_all add: write_column_def t_def)
  ultimately show ?thesis
    by (auto simp: write_console_def write_shift_def Let_def t_def [symmetric] scroll_amount_def)
qed

lemma write_one:
  assumes "low_on_screen s" "c \<noteq> 0" "c \<noteq> 10" "c \<noteq> 13"
  shows "write_column s < 208 \<Longrightarrow> \<exists>s'. terminal_write fd [c, 0] 1 s = Some (1, s') \<and> low_on_screen s' \<and> write_column s' = Suc (write_column s)"
    and "208 \<le> write_column s \<Longrightarrow> terminal_write fd [c, 0] 1 s = None"
proof -
  define a where "a = scheduled_terminal s"
  have t: "paging_wf s" "length (keyboard_buffer (terminals s a)) = 129" "current_char (terminals s a) = 0"
    using assms(1) by (simp_all add: low_on_screen_def Let_def a_def)
  obtain p y where w: "write_console s 1 0 = (p, write_column s, y)" "y = 23 \<or> y = 24 \<and> write_column s < 79"
    using low_console [OF assms(1)] by blast
  have scan: "write_scan [c, 0] (nat 1) 0 0 = Some (1, 0)" using assms(2,3) by (simp add: term_consts)
  show "\<exists>s'. terminal_write fd [c, 0] 1 s = Some (1, s') \<and> low_on_screen s' \<and> write_column s' = Suc (write_column s)" if x: "write_column s < 208"
  proof -
    have f: "con_fits (cstr [c, 0]) (write_console s 1 0)" using w x assms(2) by (auto simp: cstr_def)
    obtain s' where s': "terminal_write fd [c, 0] 1 s = Some (1, s')" "paging_wf s'" "scheduled_terminal s' = a"
      "terminals s' = (terminals s)(a := advanced [c, 0] 1 0 ((emptied (terminals s a))\<lparr>current_line := of_nat y\<rparr>))"
      using terminal_write_shows [OF t(1) t(2) [unfolded a_def] _ _ _ _ scan _ f, of fd] w(1) by (auto simp: a_def terminated_def)
    have u: "unat (char_in_line (terminals s a) + 1) = Suc (write_column s)"
      using x by (simp add: write_column_def a_def unat_word_ariths)
    have "low_on_screen s'" "write_column s' = Suc (write_column s)"
      using s' w(2) t(2,3) assms(3) u by (auto simp: low_on_screen_def write_column_def Let_def advanced_def emptied_def)
    then show ?thesis using s'(1) by blast
  qed
  show "terminal_write fd [c, 0] 1 s = None" if x: "208 \<le> write_column s"
  proof -
    obtain s1 s2 s3 where r: "write_begin s = Some s1" "write_scroll 1 0 s1 = Some s2" "s3 = cursor_to_terminal s2"
      "con s3 = write_console s 1 0" "paging_wf s3"
      using write_room_made [OF t(1) t(2) [unfolded a_def] scan] by auto
    have "nat (screen_x s3) = write_column s" "nat (screen_y s3) = 23" using r(4) w x by (auto simp: con_def)
    moreover have "cursor_nonneg s3" unfolding r(3) using printed_wf [OF cursor_to_terminal_printed] by blast
    moreover have "write_column s < 256" unfolding write_column_def using unat_u8 by blast
    ultimately have "putc c s3 = None" using putc_fault [OF r(5) _ assms(3,4)] x by (simp add: cursor_nonneg_def)
    then have "puts [c, 0] s3 = None" using assms(2) by simp
    then show ?thesis using scan r(1-3) by (simp add: terminal_write_def MAX_INPUT_BUF_LEN_def)
  qed
qed

text \<open>C32: output that comes one character at a time without a line end runs off the video page. On
  one of the last two rows of the screen each write moves the column one on, past 80, and the write position
  stays on these rows, row 24 being scrolled up to 23: it never goes to the start of a next row. So the
  writes succeed up to column 208, where the page ends in row 23, and the next one faults.\<close>

theorem unbroken_line_faults:
  assumes "low_on_screen s" "plain msg"
  shows "(write_column s + length msg \<le> 208 \<longrightarrow>
      (\<exists>s'. write_each fd msg s = Some s' \<and> low_on_screen s' \<and> write_column s' = write_column s + length msg)) \<and>
    (208 < write_column s + length msg \<and> msg \<noteq> [] \<longrightarrow> write_each fd msg s = None)"
  using assms
proof (induction msg arbitrary: s)
  case (Cons c msg)
  have c: "c \<noteq> 0" "c \<noteq> 10" "c \<noteq> 13" "plain msg" using Cons.prems(2) by (simp_all add: plain_def)
  show ?case
  proof (cases "write_column s < 208")
    case True
    obtain s1 where s1: "terminal_write fd [c, 0] 1 s = Some (1, s1)" "low_on_screen s1" "write_column s1 = Suc (write_column s)"
      using write_one(1) [OF Cons.prems(1) c(1-3) True] by blast
    show ?thesis using Cons.IH [OF s1(2) c(4)] s1 True by (cases msg) auto
  next
    case False
    then show ?thesis using write_one(2) [OF Cons.prems(1) c(1-3)] by simp
  qed
qed simp

text \<open>From the cleared screen, with 24 line ends and then one character at a time.\<close>

lemma con_fits_newlines: "con_fits (replicate n 10) k"
proof (induction n arbitrary: k)
  case (Suc n)
  then show ?case by (cases k) simp
qed simp

lemma sample_low:
  obtains s where "terminal_write 1 (replicate 24 10 @ [0]) 24 paged = Some (24, s)" "low_on_screen s" "write_column s = 0"
proof -
  let ?b = "replicate 24 10 @ [0] :: u8 list"
  have b: "cstr ?b = replicate 24 10" "terminated ?b" "write_scan ?b (nat 24) 0 0 = Some (24, 24)" "?b ! 23 = 10"
    using write_scan_newlines [of 24 "[0]" 0 0] by (simp_all add: cstr_append cstr_no_zero terminated_def nth_append)
  have w: "write_console paged 24 24 = ((\<lambda>_. 0), 0, 0)"
    by (simp add: write_console_def write_shift_def emptied_def zero_terminal_def scroll_amount_def vpage_def Let_def)
  obtain s where s: "terminal_write 1 ?b 24 paged = Some (24, s)" "paging_wf s" "scheduled_terminal s = scheduled_terminal paged"
    "terminals s = (terminals paged)(scheduled_terminal paged := advanced ?b 24 24
       ((emptied (terminals paged (scheduled_terminal paged)))\<lparr>current_line := of_nat 0\<rparr>))"
    using terminal_write_shows [of paged 24 ?b 24 24 1] b con_fits_newlines w by (auto simp: zero_terminal_def)
  have "low_on_screen s" "write_column s = 0"
    using s(2-4) b(4) by (simp_all add: low_on_screen_def write_column_def Let_def advanced_def emptied_def zero_terminal_def)
  then show thesis using that s(1) by blast
qed

theorem unbroken_line_faults_witness:
  "\<exists>s. terminal_write 1 (replicate 24 10 @ [0]) 24 paged = Some (24, s) \<and>
     write_each 1 (replicate 208 46) s \<noteq> None \<and> write_each 1 (replicate 209 46) s = None"
proof -
  obtain s where s: "terminal_write 1 (replicate 24 10 @ [0]) 24 paged = Some (24, s)" "low_on_screen s" "write_column s = 0"
    by (rule sample_low)
  have "plain (replicate n 46)" for n by (simp add: plain_def list_all_iff)
  then show ?thesis using unbroken_line_faults [OF s(2), of "replicate 208 46" 1]
      unbroken_line_faults [OF s(2), of "replicate 209 46" 1] s(1,3) by auto
qed

text \<open>Ctrl-L on the running terminal leaves the video page on that terminal's backing page
  instead of the screen, so what the program prints is not shown until the next scheduling tick.\<close>

theorem clear_terminal_breaks_mapping:
  assumes "paging_wf s" "mapping_ok s" "scheduled_terminal s = active_terminal s"
    and "unat (active_terminal s) < 3"
  shows "\<exists>s'. clear_terminal s = Some s' \<and> \<not> mapping_ok s' \<and>
    video_frame s' = terminal_frame (unat (active_terminal s))"
  using clear_terminal_mapping [OF assms(1)] terminal_page_frame [OF assms(4)]
    terminal_frame_not_screen [OF assms(4)] assms(3)
  by (auto simp: mapping_ok_def)

theorem clear_terminal_breaks_mapping_witness:
  "mapping_ok paged \<and> (\<exists>s'. clear_terminal paged = Some s' \<and> \<not> mapping_ok s')"
  using clear_terminal_breaks_mapping [of paged] by (auto simp: mapping_ok_def)

end
