(* ===== verification/SysCalls.thy ===== *)
theory SysCalls
  imports Terminal
begin

text \<open>
  The system calls on files and memory (\<^verbatim>\<open>system_calls.c\<close>): descriptors of the current process,
  the jump tables behind them, \<open>getargs\<close> and \<open>vidmap\<close>. Buffers are user addresses, read and
  written through the page tables. A call that can block is a \<open>blocking\<close> result.
\<close>

section \<open>Constants (system_calls.c, system_calls.h)\<close>

definition FD_ARRAY_LENGTH :: int where "FD_ARRAY_LENGTH = 8"
definition RTC_FILE_TYPE :: u32 where "RTC_FILE_TYPE = 0"
definition DIRECTORY_FILE_TYPE :: u32 where "DIRECTORY_FILE_TYPE = 1"
definition EXEC_ARG_LEN :: nat where "EXEC_ARG_LEN = 128"
definition ADDR_128MB :: u32 where "ADDR_128MB = 0x08000000"
definition FOUR_KB :: int where "FOUR_KB = 0x1000"
definition NUM_PIDS :: nat where "NUM_PIDS = 6"
definition STDIN_FD :: nat where "STDIN_FD = 0"
definition STDOUT_FD :: nat where "STDOUT_FD = 1"

lemmas sys_consts = FD_ARRAY_LENGTH_def RTC_FILE_TYPE_def DIRECTORY_FILE_TYPE_def
  EXEC_ARG_LEN_def ADDR_128MB_def FOUR_KB_def NUM_PIDS_def STDIN_FD_def STDOUT_FD_def

section \<open>Process control blocks\<close>

text \<open>
  A control block is read and written at its address, which only the kernel's page from 4 to
  8 MB maps: the null pointer and the address for process -1 fault.
\<close>

definition pcb_mapped :: "u32 \<Rightarrow> bool" where
  "pcb_mapped p \<longleftrightarrow> 0x400000 \<le> p \<and> p < 0x800000"

definition get_pcb :: "u32 \<Rightarrow> machine \<Rightarrow> pcb option" where
  "get_pcb p s = (if pcb_mapped p then Some (pcbs s p) else None)"

definition upd_pcb :: "u32 \<Rightarrow> (pcb \<Rightarrow> pcb) \<Rightarrow> machine \<Rightarrow> machine option" where
  "upd_pcb p f s =
     (if pcb_mapped p then Some (s\<lparr>pcbs := (pcbs s)(p := f (pcbs s p))\<rparr>) else None)"

definition get_fd :: "nat \<Rightarrow> machine \<Rightarrow> fd_element option" where
  "get_fd fd s = do { p \<leftarrow> get_pcb (current_pcb s) s; rd (fd_array p) fd }"

definition upd_fd :: "nat \<Rightarrow> (fd_element \<Rightarrow> fd_element) \<Rightarrow> machine \<Rightarrow> machine option" where
  "upd_fd fd f s =
     do {
       p \<leftarrow> get_pcb (current_pcb s) s;
       e \<leftarrow> rd (fd_array p) fd;
       upd_pcb (current_pcb s) (\<lambda>p. p\<lparr>fd_array := (fd_array p)[fd := f e]\<rparr>) s
     }"

function first_free_pid :: "nat \<Rightarrow> machine \<Rightarrow> int option" where
  "first_free_pid i s =
     (if i < NUM_PIDS then
        (case get_pcb (get_pcb_ptr (int i)) s of
           None \<Rightarrow> None
         | Some p \<Rightarrow> if in_use p \<noteq> 1 then Some (int i) else first_free_pid (i + 1) s)
      else Some (-1))"
  by pat_completeness auto
termination by (relation "measure (\<lambda>(i, s). NUM_PIDS - i)") auto

declare first_free_pid.simps [simp del]

definition get_pid :: "machine \<Rightarrow> int option" where
  "get_pid s = first_free_pid 0 s"

definition init_current_pcb :: "machine \<Rightarrow> machine option" where
  "init_current_pcb s =
     do {
       s \<leftarrow> for_each [0..<nat FD_ARRAY_LENGTH] (\<lambda>i. upd_fd i (\<lambda>_. zero_fd)) s;
       s \<leftarrow> upd_pcb (current_pcb s) (\<lambda>p. p\<lparr>process_id := 0, parent_process_id := 0\<rparr>) s;
       s \<leftarrow> upd_fd 0 (\<lambda>e. e\<lparr>flags := 1\<rparr>) s;
       upd_fd 1 (\<lambda>e. e\<lparr>flags := 1\<rparr>) s
     }"

section \<open>User memory\<close>

text \<open>Stores in order; loads of a fixed number of bytes, or up to the first NUL, as far as mapped.\<close>

fun store_bytes :: "u32 \<Rightarrow> u8 list \<Rightarrow> machine \<Rightarrow> machine option" where
  "store_bytes a [] s = Some s"
| "store_bytes a (v # vs) s = (case kstore a v s of None \<Rightarrow> None | Some s \<Rightarrow> store_bytes (a + 1) vs s)"

function load_bytes :: "u32 \<Rightarrow> nat \<Rightarrow> machine \<Rightarrow> u8 list" where
  "load_bytes a n s =
     (if n = 0 then []
      else case kload s a of None \<Rightarrow> [] | Some v \<Rightarrow> v # load_bytes (a + 1) (n - 1) s)"
  by pat_completeness auto
termination by (relation "measure (\<lambda>(a, n, s). n)") auto

function load_string :: "u32 \<Rightarrow> nat \<Rightarrow> machine \<Rightarrow> u8 list" where
  "load_string a n s =
     (if n = 0 then []
      else case kload s a of
        None \<Rightarrow> []
      | Some v \<Rightarrow> if v = 0 then [v] else v # load_string (a + 1) (n - 1) s)"
  by pat_completeness auto
termination by (relation "measure (\<lambda>(a, n, s). n)") auto

declare load_bytes.simps [simp del] load_string.simps [simp del]

text \<open>The view of a buffer: \<open>n\<close> bytes, and when all are mapped, on to the next NUL (no object is
  larger than the 4 GB address space).\<close>

definition user_view :: "u32 \<Rightarrow> nat \<Rightarrow> machine \<Rightarrow> u8 list" where
  "user_view a n s =
     (let b = load_bytes a n s
      in if length b = n then b @ load_string (a + of_nat n) 0x100000000 s else b)"

definition user_string :: "u32 \<Rightarrow> machine \<Rightarrow> u8 list" where
  "user_string a s = load_string a 0x100000000 s"

section \<open>The jump tables\<close>

text \<open>
  Slots 0 to 3 of the four tables. \<open>read\<close> calls slot 1 with three arguments or, for what it
  takes for a regular file, with four; a slot called with the other signature reads an argument
  nobody passed, which is a fault here. A null table is a fault.
\<close>

definition call_open :: "device \<Rightarrow> op_table option \<Rightarrow> u8 list \<Rightarrow> machine \<Rightarrow> (int \<times> machine) option" where
  "call_open hw t filename s =
     (case t of
        None \<Rightarrow> None
      | Some TerminalOps \<Rightarrow> terminal_open filename s
      | Some FileOps \<Rightarrow> Some (file_open filename, s)
      | Some RtcOps \<Rightarrow> Some (rtc_open hw s)
      | Some DirOps \<Rightarrow> Some (directory_open filename, s))"

definition call_close :: "op_table option \<Rightarrow> int \<Rightarrow> machine \<Rightarrow> (int \<times> machine) option" where
  "call_close t fd s =
     (case t of
        None \<Rightarrow> None
      | Some TerminalOps \<Rightarrow> terminal_close fd s
      | Some FileOps \<Rightarrow> Some (file_close (of_int fd), s)
      | Some RtcOps \<Rightarrow> Some (rtc_close s)
      | Some DirOps \<Rightarrow> Some (directory_close (of_int fd), s))"

definition call_write ::
  "device \<Rightarrow> op_table option \<Rightarrow> int \<Rightarrow> u32 \<Rightarrow> int \<Rightarrow> machine \<Rightarrow> (int \<times> machine) option" where
  "call_write hw t fd buf nbytes s =
     (case t of
        None \<Rightarrow> None
      | Some TerminalOps \<Rightarrow> terminal_write fd (user_view buf (nat nbytes) s) nbytes s
      | Some FileOps \<Rightarrow> Some (file_write (of_int fd) [] nbytes, s)
      | Some RtcOps \<Rightarrow> rtc_write hw (if buf = 0 then None else Some (load_bytes buf 4 s)) nbytes s
      | Some DirOps \<Rightarrow> Some (directory_write (of_int fd) [] nbytes, s))"

definition call_read3 ::
  "interference \<Rightarrow> op_table option \<Rightarrow> u32 \<Rightarrow> u32 \<Rightarrow> int \<Rightarrow> machine \<Rightarrow> (int \<times> machine) blocking option" where
  "call_read3 env t arg0 buf nbytes s =
     (case t of
        Some TerminalOps \<Rightarrow>
          (case terminal_read env nbytes s of
             None \<Rightarrow> None
           | Some (Line r out s) \<Rightarrow> do { s \<leftarrow> store_bytes buf out s; Some (Returned (r, s)) }
           | Some (Poll l s) \<Rightarrow> Some (Waiting s))
      | Some RtcOps \<Rightarrow> rtc_read env s
      | Some DirOps \<Rightarrow>
          do {
            (r, out) \<leftarrow> directory_read arg0 (user_view buf MAX_FILENAME_SIZE s) nbytes s;
            s \<leftarrow> store_bytes buf out s;
            Some (Returned (r, s))
          }
      | _ \<Rightarrow> None)"

definition call_read4 ::
  "interference \<Rightarrow> op_table option \<Rightarrow> u32 \<Rightarrow> u32 \<Rightarrow> u32 \<Rightarrow> int \<Rightarrow> machine \<Rightarrow> (int \<times> machine) blocking option" where
  "call_read4 env t inode position buf nbytes s =
     (case t of
        Some FileOps \<Rightarrow>
          do {
            (r, out, s) \<leftarrow> file_read inode position (of_int nbytes) s;
            s \<leftarrow> store_bytes buf out s;
            Some (Returned (r, s))
          }
      | Some RtcOps \<Rightarrow> rtc_read env s
      | _ \<Rightarrow> None)"

text \<open>A call that may block, and what is done once it has returned.\<close>

definition on_return ::
  "(int \<times> machine) blocking option \<Rightarrow> (int \<Rightarrow> machine \<Rightarrow> (int \<times> machine) option) \<Rightarrow>
     (int \<times> machine) blocking option" where
  "on_return c f =
     (case c of
        None \<Rightarrow> None
      | Some (Waiting s) \<Rightarrow> Some (Waiting s)
      | Some (Returned (r, s)) \<Rightarrow> map_option Returned (f r s))"

section \<open>read, write, open, close\<close>

definition sys_read :: "interference \<Rightarrow> int \<Rightarrow> u32 \<Rightarrow> int \<Rightarrow> machine \<Rightarrow> (int \<times> machine) blocking option" where
  "sys_read env fd buf nbytes s =
     (if fd < 0 \<or> fd \<ge> FD_ARRAY_LENGTH then Some (Returned (-1, s))
      else do {
        e \<leftarrow> get_fd (nat fd) s;
        if flags e \<noteq> 1 then Some (Returned (-1, s))
        else if fd = 1 then Some (Returned (-1, s))
        else if fd = 0 then call_read3 env (file_op_table_ptr e) (of_int fd) buf nbytes s
        else do {
          dentry_index \<leftarrow> find_dentry_by_inode_num (inode_num e) s;
          if dentry_index = -1 then Some (Returned (-1, s))
          else do {
            (r, file_dentry) \<leftarrow> read_dentry_by_index (of_int dentry_index) (blank_dentry s) s;
            if r \<noteq> 0 then Some (Returned (-1, s))
            else if fileType file_dentry = RTC_FILE_TYPE
            then call_read3 env (file_op_table_ptr e) (of_int fd) buf nbytes s
            else if fileType file_dentry = DIRECTORY_FILE_TYPE
            then on_return (call_read3 env (file_op_table_ptr e) (file_position e) buf nbytes s)
              (\<lambda>r s. do { s \<leftarrow> upd_fd (nat fd) (\<lambda>e. e\<lparr>file_position := file_position e + 1\<rparr>) s; Some (r, s) })
            else on_return (call_read4 env (file_op_table_ptr e) (inode_num e) (file_position e) buf nbytes s)
              (\<lambda>r s. do { s \<leftarrow> upd_fd (nat fd) (\<lambda>e. e\<lparr>file_position := file_position e + of_int r\<rparr>) s; Some (r, s) })
          }
        }
      })"

definition sys_write :: "device \<Rightarrow> int \<Rightarrow> u32 \<Rightarrow> int \<Rightarrow> machine \<Rightarrow> (int \<times> machine) option" where
  "sys_write hw fd buf nbytes s =
     (if fd < 0 \<or> fd \<ge> FD_ARRAY_LENGTH then Some (-1, s)
      else do {
        e \<leftarrow> get_fd (nat fd) s;
        if flags e \<noteq> 1 then Some (-1, s)
        else if fd = 0 then Some (-1, s)
        else if fd = 1 then call_write hw (file_op_table_ptr e) fd buf nbytes s
        else if file_op_table_ptr e = Some RtcOps then call_write hw (file_op_table_ptr e) fd buf nbytes s
        else if file_op_table_ptr e = None then None
        else Some (-1, s)
      })"

function free_fd :: "nat \<Rightarrow> machine \<Rightarrow> nat option" where
  "free_fd fd s =
     (if fd < nat FD_ARRAY_LENGTH then
        (case get_fd fd s of
           None \<Rightarrow> None
         | Some e \<Rightarrow> if flags e \<noteq> 1 then Some fd else free_fd (fd + 1) s)
      else Some fd)"
  by pat_completeness auto
termination by (relation "measure (\<lambda>(fd, s). nat FD_ARRAY_LENGTH - fd)") auto

declare free_fd.simps [simp del]

text \<open>The three branches of \<open>open\<close> differ in the table only.\<close>

definition table_of_type :: "u32 \<Rightarrow> op_table" where
  "table_of_type t =
     (if t = RTC_FILE_TYPE then RtcOps else if t = DIRECTORY_FILE_TYPE then DirOps else FileOps)"

definition sys_open :: "device \<Rightarrow> u8 list \<Rightarrow> machine \<Rightarrow> (int \<times> machine) option" where
  "sys_open hw filename s =
     do {
       open_fd \<leftarrow> free_fd 0 s;
       if int open_fd = FD_ARRAY_LENGTH then Some (-1, s)
       else do {
         (r, file_dentry) \<leftarrow> read_dentry_by_name filename (blank_dentry s) s;
         if r \<noteq> 0 then Some (-1, s)
         else do {
           s \<leftarrow> upd_fd open_fd (\<lambda>e. e\<lparr>file_op_table_ptr := Some (table_of_type (fileType file_dentry)),
                 file_position := 0, inode_num := inodeNumber file_dentry, flags := 1\<rparr>) s;
           e \<leftarrow> get_fd open_fd s;
           (r, s) \<leftarrow> call_open hw (file_op_table_ptr e) filename s;
           Some (int open_fd, s)
         }
       }
     }"

definition sys_close :: "int \<Rightarrow> machine \<Rightarrow> (int \<times> machine) option" where
  "sys_close fd s =
     (if fd \<le> int STDOUT_FD \<or> fd \<ge> FD_ARRAY_LENGTH then Some (-1, s)
      else do {
        e \<leftarrow> get_fd (nat fd) s;
        if flags e \<noteq> 1 then Some (-1, s)
        else do {
          (r, s) \<leftarrow> call_close (file_op_table_ptr e) fd s;
          s \<leftarrow> upd_fd (nat fd) (\<lambda>e. e\<lparr>file_op_table_ptr := None, file_position := 0, flags := 0, inode_num := 0\<rparr>) s;
          Some (0, s)
        }
      })"

section \<open>getargs, vidmap and the calls that are not implemented\<close>

definition getargs :: "u32 \<Rightarrow> int \<Rightarrow> machine \<Rightarrow> (int \<times> machine) option" where
  "getargs buf nbytes s =
     (if buf = 0 \<or> nbytes \<le> 0 then Some (-1, s)
      else do {
        p \<leftarrow> get_pcb (current_pcb s) s;
        out \<leftarrow> strncpy (load_bytes buf (nat nbytes) s) (arg p) (nat nbytes);
        s \<leftarrow> store_bytes buf out s;
        Some (0, s)
      })"

definition vidmap_address :: u32 where
  "vidmap_address = of_int (uint VIDMAP_VMEM_LOC * FOUR_MB + uint VIDMAP_VMEM_LOC_PAGE * FOUR_KB)"

definition vidmap :: "u32 \<Rightarrow> machine \<Rightarrow> (int \<times> machine) option" where
  "vidmap screen_start s =
     (if screen_start = 0 then Some (-1, s)
      else if screen_start < ADDR_128MB \<or> screen_start > ADDR_128MB + of_int FOUR_MB then Some (-1, s)
      else do { s \<leftarrow> store_bytes screen_start (le_bytes vidmap_address) s; Some (0, s) })"

definition set_handler :: "int \<Rightarrow> u32 \<Rightarrow> int" where
  "set_handler signum handler_address = -1"

definition sigreturn :: int where
  "sigreturn = -1"

section \<open>Control blocks and process ids\<close>

lemma get_pcb_ptr_nat: "n < 6 \<Longrightarrow> get_pcb_ptr (int n) = of_nat (0x800000 - 0x2000 * (n + 1))"
proof -
  assume "n < 6"
  then have "(0x800000 :: int) - 0x2000 * (int n + 1) = int (0x800000 - 0x2000 * (n + 1))" by simp
  then show ?thesis unfolding get_pcb_ptr_def size_consts by (simp only: of_int_of_nat_eq)
qed

lemma unat_get_pcb_ptr: "n < 6 \<Longrightarrow> unat (get_pcb_ptr (int n)) = 0x800000 - 0x2000 * (n + 1)"
  by (simp add: get_pcb_ptr_nat unat_of_nat del: of_nat_diff)

lemma pcb_ptr_mapped [simp]: "n < 6 \<Longrightarrow> pcb_mapped (get_pcb_ptr (int n))"
  by (simp add: pcb_mapped_def word_le_nat_alt word_less_nat_alt unat_get_pcb_ptr) arith

lemma pcb_ptr_inject: "m < 6 \<Longrightarrow> n < 6 \<Longrightarrow> get_pcb_ptr (int m) = get_pcb_ptr (int n) \<longleftrightarrow> m = n"
  using unat_get_pcb_ptr [of m] unat_get_pcb_ptr [of n] by (auto dest: arg_cong [where f = unat])

text \<open>The control blocks of the processes and their 8 KB kernel stacks do not overlap.\<close>

definition pid_used :: "machine \<Rightarrow> nat \<Rightarrow> bool" where
  "pid_used s i \<longleftrightarrow> in_use (pcbs s (get_pcb_ptr (int i))) = 1"

definition next_pid :: "machine \<Rightarrow> nat option" where
  "next_pid s = find (\<lambda>i. \<not> pid_used s i) [0..<6]"

lemma first_free_pid_eq:
  "i \<le> 6 \<Longrightarrow> first_free_pid i s =
     Some (case find (\<lambda>i. \<not> pid_used s i) [i..<6] of None \<Rightarrow> -1 | Some i \<Rightarrow> int i)"
proof (induction "6 - i" arbitrary: i)
  case 0
  then have "i = 6" by simp
  then show ?case by (simp add: first_free_pid.simps [of 6] NUM_PIDS_def)
next
  case (Suc k)
  then have i: "i < 6" "k = 6 - Suc i" by auto
  then have "[i..<6] = i # [Suc i..<6]" by (simp add: upt_conv_Cons)
  then show ?case using Suc.hyps(1) [of "Suc i"] i
    by (simp add: first_free_pid.simps [of i] NUM_PIDS_def get_pcb_def pid_used_def)
qed

lemma get_pid_eq: "get_pid s = Some (case next_pid s of None \<Rightarrow> -1 | Some i \<Rightarrow> int i)"
  by (simp add: get_pid_def first_free_pid_eq next_pid_def)

lemma next_pid_Some:
  "next_pid s = Some i \<longleftrightarrow> i < 6 \<and> \<not> pid_used s i \<and> (\<forall>j < i. pid_used s j)"
proof
  assume "next_pid s = Some i"
  then show "i < 6 \<and> \<not> pid_used s i \<and> (\<forall>j < i. pid_used s j)"
    by (auto simp: next_pid_def find_Some_iff)
next
  assume "i < 6 \<and> \<not> pid_used s i \<and> (\<forall>j < i. pid_used s j)"
  then show "next_pid s = Some i" by (auto simp: next_pid_def find_Some_iff intro!: exI [of _ i])
qed

lemma next_pid_None: "next_pid s = None \<longleftrightarrow> (\<forall>i < 6. pid_used s i)"
  by (auto simp: next_pid_def find_None_iff)

section \<open>Descriptors\<close>

abbreviation cur :: "machine \<Rightarrow> pcb" where
  "cur s \<equiv> pcbs s (current_pcb s)"

definition proc_ok :: "machine \<Rightarrow> bool" where
  "proc_ok s \<longleftrightarrow> pcb_mapped (current_pcb s) \<and> length (fd_array (cur s)) = 8"

definition with_fd :: "nat \<Rightarrow> fd_element \<Rightarrow> machine \<Rightarrow> machine" where
  "with_fd n e s =
     s\<lparr>pcbs := (pcbs s)(current_pcb s := (cur s)\<lparr>fd_array := (fd_array (cur s))[n := e]\<rparr>)\<rparr>"

lemma get_fd_eq [simp]: "proc_ok s \<Longrightarrow> n < 8 \<Longrightarrow> get_fd n s = Some (fd_array (cur s) ! n)"
  by (simp add: get_fd_def get_pcb_def proc_ok_def)

lemma upd_fd_eq [simp]:
  "proc_ok s \<Longrightarrow> n < 8 \<Longrightarrow> upd_fd n f s = Some (with_fd n (f (fd_array (cur s) ! n)) s)"
  by (simp add: upd_fd_def get_pcb_def upd_pcb_def proc_ok_def with_fd_def)

lemma with_fd_sel [simp]:
  "current_pcb (with_fd n e s) = current_pcb s"
  "fd_array (pcbs (with_fd n e s) (current_pcb s)) = (fd_array (cur s))[n := e]"
  "proc_ok (with_fd n e s) = proc_ok s"
  "terminals (with_fd n e s) = terminals s"
  "fs_image (with_fd n e s) = fs_image s"
  by (simp_all add: with_fd_def proc_ok_def)

definition lowest_free :: "fd_element list \<Rightarrow> nat" where
  "lowest_free fds = length (takeWhile (\<lambda>e. flags e = 1) fds)"

lemma free_fd_eq:
  "proc_ok s \<Longrightarrow> n \<le> 8 \<Longrightarrow> free_fd n s = Some (n + lowest_free (drop n (fd_array (cur s))))"
proof (induction "8 - n" arbitrary: n)
  case 0
  then have "n = 8" by simp
  with 0 show ?case
    by (simp add: free_fd.simps [of 8] FD_ARRAY_LENGTH_def proc_ok_def lowest_free_def)
next
  case (Suc k)
  then have n: "n < 8" "k = 8 - Suc n" by auto
  then have "drop n (fd_array (cur s)) = fd_array (cur s) ! n # drop (Suc n) (fd_array (cur s))"
    using Suc.prems by (simp add: proc_ok_def Cons_nth_drop_Suc)
  then show ?case using Suc.hyps(1) [of "Suc n"] n Suc.prems
    by (simp add: free_fd.simps [of n] FD_ARRAY_LENGTH_def lowest_free_def)
qed

lemma lowest_free_le: "lowest_free fds \<le> length fds"
  by (simp add: lowest_free_def length_takeWhile_le)

lemma lowest_free_below: "i < lowest_free fds \<Longrightarrow> flags (fds ! i) = 1"
  unfolding lowest_free_def
  using nth_mem [of i "takeWhile (\<lambda>e. flags e = 1) fds"] by (auto dest: set_takeWhileD simp: takeWhile_nth)

lemma lowest_free_at: "lowest_free fds < length fds \<Longrightarrow> flags (fds ! lowest_free fds) \<noteq> 1"
  unfolding lowest_free_def by (rule nth_length_takeWhile)

lemma fd_overwrite:
  "e\<lparr>file_op_table_ptr := t, file_position := p, inode_num := n, flags := f\<rparr> =
     \<lparr>file_op_table_ptr = t, inode_num = n, file_position = p, flags = f\<rparr>" for e :: fd_element
  by (cases e) simp

text \<open>An open descriptor of a directory entry: type 0 is the clock, 1 the directory, any other a file.\<close>

definition opened :: "dentry \<Rightarrow> fd_element" where
  "opened d =
     \<lparr>file_op_table_ptr = Some (if fileType d = 0 then RtcOps else if fileType d = 1 then DirOps else FileOps),
      inode_num = inodeNumber d, file_position = 0, flags = 1\<rparr>"

definition lookup :: "machine \<Rightarrow> u8 list \<Rightarrow> dentry option" where
  "lookup s fname =
     (if 32 < length (cstr fname) then None
      else find (\<lambda>e. entry_name e = cstr fname) (dir_entries s))"

text \<open>What opening does besides taking a descriptor: the clock is initialised.\<close>

definition open_effect :: "device \<Rightarrow> dentry \<Rightarrow> machine \<Rightarrow> machine" where
  "open_effect hw d s = (if fileType d = 0 then rtc_init hw s else s)"

lemma sys_open_eq:
  assumes "proc_ok s" "fs_wf s" "terminated fname"
  shows "sys_open hw fname s = Some
    (if lowest_free (fd_array (cur s)) = 8 then (-1, s)
     else case lookup s fname of
       None \<Rightarrow> (-1, s)
     | Some d \<Rightarrow> (int (lowest_free (fd_array (cur s))),
         open_effect hw d (with_fd (lowest_free (fd_array (cur s))) (opened d) s)))"
proof -
  have n: "lowest_free (fd_array (cur s)) \<le> 8"
    using lowest_free_le [of "fd_array (cur s)"] assms(1) by (simp add: proc_ok_def)
  have f: "free_fd 0 s = Some (lowest_free (fd_array (cur s)))"
    using free_fd_eq [OF assms(1), of 0] by simp
  have r: "read_dentry_by_name fname (blank_dentry s) s =
      (case lookup s fname of None \<Rightarrow> Some (-1, blank_dentry s)
       | Some e \<Rightarrow> Some (0, e\<lparr>reserved := reserved (blank_dentry s)\<rparr>))"
    using read_dentry_by_name_eq [OF assms(2,3), of "blank_dentry s"] by (simp add: lookup_def)
  have nth: "(fd_array (cur s))[lowest_free (fd_array (cur s)) := e] ! lowest_free (fd_array (cur s)) = e"
    if "lowest_free (fd_array (cur s)) < 8" for e
    using that assms(1) by (simp add: proc_ok_def)
  show ?thesis
    using n f r assms(1) nth
    by (auto simp: sys_open_def FD_ARRAY_LENGTH_def opened_def fd_overwrite open_effect_def table_of_type_def
        call_open_def file_open_def directory_open_def rtc_open_def RTC_FILE_TYPE_def DIRECTORY_FILE_TYPE_def
        split: option.split)
qed

section \<open>The page of the running program\<close>

text \<open>Byte \<open>k\<close> of the 4 MB page at 128 MB, and the frame that holds it.\<close>

definition user_frame :: "machine \<Rightarrow> nat \<Rightarrow> 20 word" where
  "user_frame s k = (program_frame s AND 0xFFC00) OR of_nat (k div 4096)"

definition umem :: "machine \<Rightarrow> nat \<Rightarrow> u8" where
  "umem s k = frames s (user_frame s k) (k mod 4096)"

lemma low_bits_10: "p < 1024 \<Longrightarrow> ((a AND 0xFFC00) OR of_nat p) AND 0x3FF = (of_nat p :: 20 word)"
proof -
  assume p: "p < 1024"
  have "(of_nat p :: 20 word) AND 0x3FF = take_bit 10 (of_nat p)"
    by (simp add: take_bit_eq_mask mask_eq_exp_minus_1)
  also have "\<dots> = of_nat (take_bit 10 p)" by (simp add: take_bit_of_nat)
  also have "take_bit 10 p = p" using p by (simp add: take_bit_nat_eq_self)
  finally have "(of_nat p :: 20 word) AND 0x3FF = of_nat p" .
  then show ?thesis by (simp add: bit.conj_disj_distrib2 and.assoc)
qed

lemma user_frame_inject:
  assumes "j < 0x400000" "k < 0x400000"
  shows "user_frame s j = user_frame s k \<longleftrightarrow> j div 4096 = k div 4096"
proof
  assume eq: "user_frame s j = user_frame s k"
  have "j div 4096 < 1024" "k div 4096 < 1024" using assms by simp_all
  then have "user_frame s j AND 0x3FF = of_nat (j div 4096)" "user_frame s k AND 0x3FF = of_nat (k div 4096)"
    unfolding user_frame_def by (blast intro: low_bits_10)+
  then have "(of_nat (j div 4096) :: 20 word) = of_nat (k div 4096)"
    unfolding eq by (rule trans [OF sym])
  then have "unat (of_nat (j div 4096) :: 20 word) = unat (of_nat (k div 4096) :: 20 word)" by simp
  then show "j div 4096 = k div 4096" using assms by (simp add: unat_of_nat)
qed (simp add: user_frame_def)

lemma poke_fields [simp]:
  "fs_image (poke f k v s) = fs_image s" "pcbs (poke f k v s) = pcbs s"
  "current_pcb (poke f k v s) = current_pcb s" "terminals (poke f k v s) = terminals s"
  by (simp_all add: poke_def)

lemma umem_poke:
  assumes "j < 0x400000" "k < 0x400000"
  shows "umem (poke (user_frame s k) (k mod 4096) v s) j = (if j = k then v else umem s j)"
proof -
  have f: "user_frame (poke (user_frame s k) (k mod 4096) v s) j = user_frame s j" by (simp add: user_frame_def)
  have "j = k \<longleftrightarrow> user_frame s j = user_frame s k \<and> j mod 4096 = k mod 4096"
    using user_frame_inject [OF assms, of s] by (metis div_mult_mod_eq)
  then show ?thesis unfolding umem_def f by auto
qed

text \<open>The machine after a store: the same but for the frames of the program page.\<close>

definition stored :: "nat \<Rightarrow> u8 list \<Rightarrow> machine \<Rightarrow> machine \<Rightarrow> bool" where
  "stored k vs s s' \<longleftrightarrow>
     s' = s\<lparr>frames := frames s'\<rparr> \<and>
     (\<forall>j < 0x400000. umem s' j = (if k \<le> j \<and> j < k + length vs then vs ! (j - k) else umem s j)) \<and>
     (\<forall>f. (\<forall>j < 0x400000. f \<noteq> user_frame s j) \<longrightarrow> frames s' f = frames s f)"

lemma stored_fields:
  assumes "stored k vs s s'"
  shows "current_pcb s' = current_pcb s" "pcbs s' = pcbs s" "terminals s' = terminals s"
    "program_frame s' = program_frame s" "video_frame s' = video_frame s" "fs_image s' = fs_image s"
    "paging_wf s' = paging_wf s" "active_terminal s' = active_terminal s"
    "scheduled_terminal s' = scheduled_terminal s" "initialized_terminals s' = initialized_terminals s"
    "inode_start s' = inode_start s" "datablock_start s' = datablock_start s"
    "cpu_esp s' = cpu_esp s" "cpu_ebp s' = cpu_ebp s" "exception_in_child s' = exception_in_child s"
proof -
  have e: "s' = s\<lparr>frames := frames s'\<rparr>" using assms by (simp add: stored_def)
  show "current_pcb s' = current_pcb s" "pcbs s' = pcbs s" "terminals s' = terminals s"
    "program_frame s' = program_frame s" "video_frame s' = video_frame s" "fs_image s' = fs_image s"
    "paging_wf s' = paging_wf s" "active_terminal s' = active_terminal s"
    "scheduled_terminal s' = scheduled_terminal s" "initialized_terminals s' = initialized_terminals s"
    "inode_start s' = inode_start s" "datablock_start s' = datablock_start s"
    "cpu_esp s' = cpu_esp s" "cpu_ebp s' = cpu_ebp s" "exception_in_child s' = exception_in_child s"
    by (subst e, simp add: program_frame_def video_frame_def paging_wf_def tables_linked_def)+
qed

lemma store_bytes_user:
  assumes "paging_wf s" "k + length vs \<le> 0x400000"
  shows "\<exists>s'. store_bytes (0x8000000 + of_nat k) vs s = Some s' \<and> stored k vs s s'"
  using assms
proof (induction vs arbitrary: k s)
  case Nil
  then show ?case by (auto simp: stored_def)
next
  case (Cons v vs)
  let ?s1 = "poke (user_frame s k) (k mod 4096) v s"
  have k: "k < 0x400000" using Cons.prems(2) by simp
  have st: "kstore (0x8000000 + of_nat k) v s = Some ?s1"
    using kstore_user [OF Cons.prems(1) k] by (simp add: user_frame_def)
  obtain s' where s': "store_bytes (0x8000000 + of_nat (Suc k)) vs ?s1 = Some s'" "stored (Suc k) vs ?s1 s'"
    using Cons.IH [of ?s1 "Suc k"] Cons.prems by auto
  have a: "(0x8000000 :: u32) + of_nat k + 1 = 0x8000000 + of_nat (Suc k)" by simp
  have uf: "user_frame ?s1 j = user_frame s j" for j by (simp add: user_frame_def)
  have "umem s' j = (if k \<le> j \<and> j < k + length (v # vs) then (v # vs) ! (j - k) else umem s j)"
    if j: "j < 0x400000" for j
  proof -
    have "umem s' j = (if Suc k \<le> j \<and> j < Suc k + length vs then vs ! (j - Suc k) else umem ?s1 j)"
      using s'(2) j by (simp add: stored_def)
    then show ?thesis using umem_poke [OF j k, of s v] by (cases "j = k") (auto simp: nth_Cons' Suc_le_eq)
  qed
  moreover have "frames s' f = frames s f" if "\<forall>j < 0x400000. f \<noteq> user_frame s j" for f
    using s'(2) that k by (simp add: stored_def uf)
  moreover have "s' = s\<lparr>frames := frames s'\<rparr>"
  proof -
    have "s' = ?s1\<lparr>frames := frames s'\<rparr>" using s'(2) by (simp add: stored_def)
    also have "\<dots> = s\<lparr>frames := frames s'\<rparr>" by (simp add: poke_def)
    finally show ?thesis .
  qed
  ultimately show ?case using st s'(1) unfolding stored_def
    by (intro exI [of _ s']) (simp add: a del: of_nat_Suc)
qed

section \<open>Reading through a descriptor\<close>

lemma port_pcbs:
  "pcbs (outb v p s) = pcbs s" "pcbs (snd (inb hw p s)) = pcbs s" "pcbs (cli s) = pcbs s" "pcbs (sti s) = pcbs s"
  "current_pcb (outb v p s) = current_pcb s" "current_pcb (snd (inb hw p s)) = current_pcb s"
  "current_pcb (cli s) = current_pcb s" "current_pcb (sti s) = current_pcb s"
  "pcbs (enable_irq i s) = pcbs s" "current_pcb (enable_irq i s) = current_pcb s"
  by (simp_all add: effect_defs enable_irq_def Let_def)

lemma rtc_init_frame [simp]:
  "pcbs (rtc_init hw s) = pcbs s" "current_pcb (rtc_init hw s) = current_pcb s"
  "proc_ok (rtc_init hw s) = proc_ok s"
proof -
  show c: "pcbs (rtc_init hw s) = pcbs s" "current_pcb (rtc_init hw s) = current_pcb s"
    by (simp_all add: rtc_init_def rtc_ack_def Let_def split_beta port_pcbs)
  show "proc_ok (rtc_init hw s) = proc_ok s" by (simp add: proc_ok_def c)
qed

definition entry_of_inode :: "machine \<Rightarrow> u32 \<Rightarrow> dentry option" where
  "entry_of_inode s n = find (\<lambda>d. inodeNumber d = n) (dir_entries s)"

lemma inode_search_eq:
  assumes "fs_wf s" "numDentries s = Some cnt"
  shows "i \<le> unat cnt \<Longrightarrow> inode_search n s i =
    Some (case find (\<lambda>i. inodeNumber (dir_entries s ! i) = n) [i..<unat cnt] of None \<Rightarrow> -1 | Some j \<Rightarrow> int j)"
proof (induction "unat cnt - i" arbitrary: i)
  case 0
  then show ?case using assms(2) by (simp add: inode_search.simps [of _ _ i])
next
  case (Suc k)
  then have i: "i < unat cnt" "k = unat cnt - Suc i" by auto
  have "unat cnt \<le> 63" using assms fs_wf_counts [OF assms(1)] by (metis option.inject)
  then obtain d where "bootDentries s i = Some d"
    using bootDentries_entry [OF assms(1), of i] i(1) by auto
  then show ?case
    using Suc.hyps(1) [of "Suc i"] i assms(2) nth_dir_entries [OF assms(2) i(1)]
    by (simp add: inode_search.simps [of _ _ i] upt_conv_Cons)
qed

lemma find_index:
  "find (\<lambda>i. P (xs ! i)) [0..<length xs] = Some i \<Longrightarrow> find P xs = Some (xs ! i) \<and> i < length xs"
  by (auto simp: find_Some_iff)

lemma find_index_None: "find (\<lambda>i. P (xs ! i)) [0..<length xs] = None \<longleftrightarrow> find P xs = None"
  by (auto simp: find_None_iff in_set_conv_nth)

lemma find_dentry_by_inode_num_eq:
  assumes "fs_wf s"
  shows "case entry_of_inode s n of
      None \<Rightarrow> find_dentry_by_inode_num n s = Some (-1)
    | Some d \<Rightarrow> \<exists>i. find_dentry_by_inode_num n s = Some (int i) \<and>
        read_dentry_by_index (of_int (int i)) (blank_dentry s) s =
          Some (0, d\<lparr>reserved := reserved (blank_dentry s)\<rparr>)"
proof -
  obtain cnt where cnt: "numDentries s = Some cnt" "unat cnt \<le> 63"
    using fs_wf_counts [OF assms] by metis
  have l: "length (dir_entries s) = unat cnt" using cnt(1) by (rule length_dir_entries)
  have f: "find_dentry_by_inode_num n s = Some (case find (\<lambda>i. inodeNumber (dir_entries s ! i) = n)
      [0..<length (dir_entries s)] of None \<Rightarrow> -1 | Some j \<Rightarrow> int j)"
    using inode_search_eq [OF assms cnt(1), of 0 n] by (simp add: find_dentry_by_inode_num_def l)
  show ?thesis
  proof (cases "find (\<lambda>i. inodeNumber (dir_entries s ! i) = n) [0..<length (dir_entries s)]")
    case None
    then have "entry_of_inode s n = None"
      using find_index_None [of "\<lambda>d. inodeNumber d = n" "dir_entries s"] by (simp add: entry_of_inode_def)
    then show ?thesis using f None by simp
  next
    case (Some i)
    have e: "entry_of_inode s n = Some (dir_entries s ! i)" "i < unat cnt"
      using find_index [OF Some] by (simp_all add: entry_of_inode_def l)
    have u: "unat (of_nat i :: u32) = i" using e(2) cnt(2) by (simp add: unat_of_nat)
    have "\<not> cnt < of_nat i" using e(2) u by (simp add: word_less_nat_alt)
    then have "read_dentry_by_index (of_nat i) (blank_dentry s) s =
        Some (0, (dir_entries s ! i)\<lparr>reserved := reserved (blank_dentry s)\<rparr>)"
      using read_dentry_by_index_eq [OF assms cnt(1), of "blank_dentry s" "of_nat i"] u e(2) cnt(2)
        nth_dir_entries [OF cnt(1) e(2)] by simp
    then show ?thesis using f Some e(1) by auto
  qed
qed

text \<open>A descriptor for a regular file: its table, and an inode whose first entry is of that type.\<close>

definition file_fd :: "machine \<Rightarrow> nat \<Rightarrow> bool" where
  "file_fd s fd \<longleftrightarrow>
     2 \<le> fd \<and> fd < 8 \<and> flags (fd_array (cur s) ! fd) = 1 \<and>
     file_op_table_ptr (fd_array (cur s) ! fd) = Some FileOps \<and>
     (case entry_of_inode s (inode_num (fd_array (cur s) ! fd)) of
        None \<Rightarrow> False | Some d \<Rightarrow> fileType d \<noteq> 0 \<and> fileType d \<noteq> 1)"

lemma sys_read_file:
  assumes "proc_ok s" "fs_wf s" "paging_wf s" "file_fd s fd"
    and n: "numInodes s = Some m" "inode_num (fd_array (cur s) ! fd) < m"
    and e: "e = fd_array (cur s) ! fd"
    and len: "0 \<le> nbytes" "unat (file_position e) + nat nbytes < 2 ^ 32" "k + nat nbytes \<le> 0x400000"
  shows "\<exists>s1. store_bytes (0x8000000 + of_nat k)
      (slice (unat (file_position e)) (nat nbytes) (file_content s (inode_num e))) s = Some s1 \<and>
    stored k (slice (unat (file_position e)) (nat nbytes) (file_content s (inode_num e))) s s1 \<and>
    sys_read env (int fd) (0x8000000 + of_nat k) nbytes s =
      Some (Returned
        (int (length (slice (unat (file_position e)) (nat nbytes) (file_content s (inode_num e)))),
         with_fd fd (e\<lparr>file_position := file_position e +
           of_nat (length (slice (unat (file_position e)) (nat nbytes) (file_content s (inode_num e))))\<rparr>) s1))"
proof -
  let ?out = "slice (unat (file_position e)) (nat nbytes) (file_content s (inode_num e))"
  have nb: "nat nbytes < 2 ^ 32" "unat (of_int nbytes :: u32) = nat nbytes"
  proof -
    show l: "nat nbytes < 2 ^ 32" using len(2) by simp
    have "(of_int nbytes :: u32) = of_nat (nat nbytes)" using len(1) by simp
    then show "unat (of_int nbytes :: u32) = nat nbytes" using l by (simp only: unat_of_nat) simp
  qed
  have rd: "file_read (inode_num e) (file_position e) (of_int nbytes) s = Some (int (length ?out), ?out, s)"
    unfolding file_read_def
    using read_data_eq [OF assms(2) n(1), of "inode_num e" "file_position e" "of_int nbytes"] n(2) e len(2) nb
    by simp
  have lo: "length ?out \<le> nat nbytes" by simp
  then obtain s1 where s1: "store_bytes (0x8000000 + of_nat k) ?out s = Some s1" "stored k ?out s s1"
    using store_bytes_user [OF assms(3), of k ?out] len(3) by force
  have p1: "proc_ok s1" "fd_array (cur s1) = fd_array (cur s)"
    using stored_fields(1,2) [OF s1(2)] assms(1) by (simp_all add: proc_ok_def)
  obtain d i where d: "fileType d \<noteq> 0" "fileType d \<noteq> 1" "find_dentry_by_inode_num (inode_num e) s = Some (int i)"
    "read_dentry_by_index (of_int (int i)) (blank_dentry s) s = Some (0, d\<lparr>reserved := reserved (blank_dentry s)\<rparr>)"
    using find_dentry_by_inode_num_eq [OF assms(2), of "inode_num e"] assms(4)
    by (auto simp: file_fd_def e split: option.splits)
  have fd: "2 \<le> fd" "fd < 8" "flags e = 1" "file_op_table_ptr e = Some FileOps"
    using assms(4) by (simp_all add: file_fd_def e)
  have "sys_read env (int fd) (0x8000000 + of_nat k) nbytes s = on_return
      (call_read4 env (Some FileOps) (inode_num e) (file_position e) (0x8000000 + of_nat k) nbytes s)
      (\<lambda>r s. do { s \<leftarrow> upd_fd fd (\<lambda>e. e\<lparr>file_position := file_position e + of_int r\<rparr>) s; Some (r, s) })"
    using fd d assms(1)
    by (simp add: sys_read_def FD_ARRAY_LENGTH_def RTC_FILE_TYPE_def DIRECTORY_FILE_TYPE_def e [symmetric])
  also have "\<dots> = Some (Returned (int (length ?out),
      with_fd fd (e\<lparr>file_position := file_position e + of_nat (length ?out)\<rparr>) s1))"
    using rd s1(1) p1 fd(2) e by (simp add: call_read4_def on_return_def del: length_slice)
  finally show ?thesis using s1 by blast
qed

end
