(* ===== verification/SysCallFacts.thy ===== *)
theory SysCallFacts
  imports SysCalls
begin

text \<open>
  What the system calls on files and memory do, stated for a process whose control block is mapped
  and whose memory is the 4 MB page at 128 MB, and a sample process on the sample image.
\<close>

section \<open>Loads from the page of the program\<close>

lemma kload_user:
  assumes "paging_wf s" "k < 0x400000"
  shows "kload s (0x8000000 + of_nat k) = Some (umem s k)"
proof -
  have "ucast (of_nat (k div 4096) :: 10 word) = (of_nat (k div 4096) :: 20 word)"
    using assms by (simp add: unsigned_of_nat take_bit_nat_eq_self)
  then show ?thesis
    using assms by (simp add: kload_def mmu_walk_wf user_parts umem_def user_frame_def)
qed

lemma load_bytes_user:
  "paging_wf s \<Longrightarrow> k + n \<le> 0x400000 \<Longrightarrow>
     load_bytes (0x8000000 + of_nat k) n s = map (umem s) [k..<k + n]"
proof (induction n arbitrary: k)
  case 0
  then show ?case by (simp add: load_bytes.simps)
next
  case (Suc n)
  have a: "(0x8000000 :: u32) + of_nat k + 1 = 0x8000000 + of_nat (Suc k)" by simp
  have k: "k < 0x400000" using Suc.prems by simp
  have "load_bytes (0x8000000 + of_nat k) (Suc n) s = umem s k # load_bytes (0x8000000 + of_nat (Suc k)) n s"
    unfolding a [symmetric] by (subst load_bytes.simps) (simp add: kload_user [OF Suc.prems(1) k])
  moreover have "[k..<k + Suc n] = k # [Suc k..<Suc k + n]" using upt_conv_Cons [of k "k + Suc n"] by simp
  ultimately show ?case using Suc.IH [of "Suc k"] Suc.prems by (simp del: of_nat_Suc upt_Suc)
qed

section \<open>A sample process\<close>

text \<open>
  The first base shell as the current process, the other two reserved, all terminals started, on
  an image with one file.
\<close>

definition as_shell :: "machine \<Rightarrow> machine" where
  "as_shell s = s\<lparr>current_pcb := get_pcb_ptr 0, initialized_terminals := (\<lambda>_. 1),
     pcbs := (pcbs s)(
       get_pcb_ptr 1 := zero_pcb\<lparr>in_use := 1, process_id := 1, parent_process_id := -1\<rparr>,
       get_pcb_ptr 2 := zero_pcb\<lparr>in_use := 1, process_id := 2, parent_process_id := -1\<rparr>,
       get_pcb_ptr 0 := zero_pcb\<lparr>in_use := 1, parent_process_id := -1,
         fd_array := replicate 2 \<lparr>file_op_table_ptr = Some TerminalOps, inode_num = 0,
           file_position = 0, flags = 1\<rparr> @ replicate 6 zero_fd\<rparr>)\<rparr>"

definition shell_on :: "u8 list \<Rightarrow> u8 list \<Rightarrow> machine" where
  "shell_on nm c = as_shell (the (init_filesystem (image_of nm c) paged))"

definition sample_proc :: machine where
  "sample_proc = shell_on (bytes ''hi'') (bytes ''yo'' @ [10])"

lemma shell_on_eq:
  "length nm \<le> 32 \<Longrightarrow> shell_on nm c =
     as_shell (paged\<lparr>fs_image := image_of nm c, inode_start := 4096, datablock_start := 8192\<rparr>)"
  by (simp add: shell_on_def image_init)

lemma pcb_ptrs:
  "get_pcb_ptr 0 = 0x7FE000" "get_pcb_ptr 1 = 0x7FC000" "get_pcb_ptr 2 = 0x7FA000"
  "get_pcb_ptr 3 = 0x7F8000" "get_pcb_ptr 4 = 0x7F6000" "get_pcb_ptr 5 = 0x7F4000"
  using get_pcb_ptr_nat [of 0] get_pcb_ptr_nat [of 1] get_pcb_ptr_nat [of 2]
    get_pcb_ptr_nat [of 3] get_pcb_ptr_nat [of 4] get_pcb_ptr_nat [of 5] by simp_all

lemma fs_upd:
  assumes "fs_image s' = fs_image s" "inode_start s' = inode_start s" "datablock_start s' = datablock_start s"
  shows "numDentries s' = numDentries s" "numInodes s' = numInodes s" "numDataBlocks s' = numDataBlocks s"
    "fs_wf s' = fs_wf s" "dir_entries s' = dir_entries s" "file_content s' n = file_content s n"
    "lookup s' = lookup s" "entry_of_inode s' = entry_of_inode s"
proof -
  have i: "img_u32 s' = img_u32 s" "img_bytes s' = img_bytes s"
    by (simp_all add: fun_eq_iff img_u32_def img_bytes_def assms)
  show c: "numDentries s' = numDentries s" "numInodes s' = numInodes s" "numDataBlocks s' = numDataBlocks s"
    by (simp_all add: numDentries_def numInodes_def numDataBlocks_def i)
  have b: "bootDentries s' = bootDentries s" "numBytes s' = numBytes s" "dataBlockNumber s' = dataBlockNumber s"
    "dataBlockValue s' = dataBlockValue s"
    by (simp_all add: fun_eq_iff bootDentries_def numBytes_def dataBlockNumber_def dataBlockValue_def i assms)
  have "inode_ok s' = inode_ok s" by (simp add: fun_eq_iff inode_ok_def c b assms cong: option.case_cong)
  then show "fs_wf s' = fs_wf s" by (simp add: fs_wf_def c b assms cong: option.case_cong)
  show d: "dir_entries s' = dir_entries s" by (simp add: dir_entries_def c b)
  show "file_content s' n = file_content s n"
    by (simp add: file_content_def file_byte_def c b)
  show "lookup s' = lookup s" "entry_of_inode s' = entry_of_inode s"
    by (simp_all add: fun_eq_iff lookup_def entry_of_inode_def d)
qed

definition fits :: "u8 list \<Rightarrow> u8 list \<Rightarrow> bool" where
  "fits nm c \<longleftrightarrow> length nm \<le> 32 \<and> length c \<le> 4096"

lemma shell_holds: "fits nm c \<Longrightarrow> holds_image nm c (shell_on nm c)"
  by (simp add: fits_def shell_on_eq as_shell_def holds_image_def)

lemma shell_proc:
  assumes "fits nm c"
  shows "proc_ok (shell_on nm c)" "current_pcb (shell_on nm c) = get_pcb_ptr 0"
  "pcbs (shell_on nm c) (get_pcb_ptr 0) = zero_pcb\<lparr>in_use := 1, parent_process_id := -1,
     fd_array := replicate 2 \<lparr>file_op_table_ptr = Some TerminalOps, inode_num = 0,
       file_position = 0, flags = 1\<rparr> @ replicate 6 zero_fd\<rparr>"
  "pcbs (shell_on nm c) (get_pcb_ptr 3) = zero_pcb" "next_pid (shell_on nm c) = Some 3"
proof -
  note e = shell_on_eq [of nm c] as_shell_def
  show "proc_ok (shell_on nm c)" "current_pcb (shell_on nm c) = get_pcb_ptr 0"
    "pcbs (shell_on nm c) (get_pcb_ptr 0) = zero_pcb\<lparr>in_use := 1, parent_process_id := -1,
     fd_array := replicate 2 \<lparr>file_op_table_ptr = Some TerminalOps, inode_num = 0,
       file_position = 0, flags = 1\<rparr> @ replicate 6 zero_fd\<rparr>"
    "pcbs (shell_on nm c) (get_pcb_ptr 3) = zero_pcb"
    using assms by (simp_all add: fits_def e proc_ok_def pcb_mapped_def pcb_ptrs)
  have u: "pid_used (shell_on nm c) 0" "pid_used (shell_on nm c) 1" "pid_used (shell_on nm c) 2"
    "\<not> pid_used (shell_on nm c) 3"
    using assms by (simp_all add: fits_def e pid_used_def pcb_ptrs zero_pcb_def)
  have "j = 0 \<or> j = 1 \<or> j = 2" if "j < 3" for j :: nat using that by arith
  then have "\<forall>j < 3. pid_used (shell_on nm c) j" using u by blast
  then show "next_pid (shell_on nm c) = Some 3" using u(4) by (simp add: next_pid_Some)
qed

lemma shell_terminals:
  assumes "fits nm c"
  shows "initialized_terminals (shell_on nm c) = (\<lambda>_. 1)" "active_terminal (shell_on nm c) = 0"
  "scheduled_terminal (shell_on nm c) = 0" "terminals (shell_on nm c) = (\<lambda>_. zero_terminal)"
  "exception_in_child (shell_on nm c) = 0"
  "program_frame (shell_on nm c) = 0x800" "video_frame (shell_on nm c) = 0xB8" "paging_wf (shell_on nm c)"
proof -
  note e = shell_on_eq [of nm c] as_shell_def
  show "initialized_terminals (shell_on nm c) = (\<lambda>_. 1)" "active_terminal (shell_on nm c) = 0"
    "scheduled_terminal (shell_on nm c) = 0" "terminals (shell_on nm c) = (\<lambda>_. zero_terminal)"
    "exception_in_child (shell_on nm c) = 0"
    using assms by (simp_all add: fits_def e) (simp add: paged_def init_paging_def loaded_def Let_def)
  have t: "program_frame (shell_on nm c) = program_frame paged" "video_frame (shell_on nm c) = video_frame paged"
    "paging_wf (shell_on nm c) = paging_wf paged"
    using assms by (simp_all add: fits_def e program_frame_def video_frame_def paging_wf_def tables_linked_def)
  show "program_frame (shell_on nm c) = 0x800" "video_frame (shell_on nm c) = 0xB8" "paging_wf (shell_on nm c)"
    unfolding t by simp_all
qed

definition sample_entry :: dentry where
  "sample_entry = named_entry (bytes ''hi'')"

lemma sample_fits: "fits (bytes ''hi'') (bytes ''yo'' @ [10])"
  by (simp add: fits_def)

lemma sample_proc_holds: "holds_image (bytes ''hi'') (bytes ''yo'' @ [10]) sample_proc"
  unfolding sample_proc_def by (rule shell_holds [OF sample_fits])

lemma sample_proc_fs:
  "numDentries sample_proc = Some 1" "numInodes sample_proc = Some 1" "fs_wf sample_proc"
  "dir_entries sample_proc = [sample_entry]" "file_content sample_proc 0 = bytes ''yo'' @ [10]"
  using image_counts [OF sample_proc_holds] image_wf [OF sample_proc_holds] image_entries [OF sample_proc_holds]
    image_content [OF sample_proc_holds] unfolding sample_entry_def by blast+

lemma sample_proc_ok: "proc_ok sample_proc" "fd_array (cur sample_proc) =
   replicate 2 \<lparr>file_op_table_ptr = Some TerminalOps, inode_num = 0,
         file_position = 0, flags = 1\<rparr> @ replicate 6 zero_fd" "arg (cur sample_proc) = replicate 128 0"
  unfolding sample_proc_def using shell_proc [OF sample_fits] by (simp_all add: zero_pcb_def)

lemma sample_paging: "paging_wf sample_proc"
  unfolding sample_proc_def using shell_terminals [OF sample_fits] by simp

lemma sample_lookup: "lookup sample_proc (bytes ''hi'' @ [0]) = Some sample_entry"
  by (simp add: lookup_def sample_proc_fs entry_name_def cstr_def sample_entry_def named_entry_def)

lemma sample_free: "lowest_free (fd_array (cur sample_proc)) = 2"
  by (simp add: sample_proc_ok lowest_free_def zero_fd_def numeral_eq_Suc)

lemma sample_name: "terminated (bytes ''hi'' @ [0])"
  by simp

lemma sample_effect: "open_effect hw sample_entry s = s"
  by (simp add: open_effect_def sample_entry_def named_entry_def)

definition sample_open :: machine where
  "sample_open = with_fd 2 (opened sample_entry) sample_proc"

lemma sample_file_fd: "file_fd sample_open 2"
proof -
  have "entry_of_inode sample_open = entry_of_inode sample_proc"
    by (rule fs_upd) (simp_all add: sample_open_def with_fd_def)
  then have "entry_of_inode sample_open 0 = Some sample_entry"
    by (simp add: entry_of_inode_def sample_proc_fs sample_entry_def named_entry_def)
  then show ?thesis
    using sample_proc_ok
    by (simp add: file_fd_def sample_open_def opened_def sample_entry_def named_entry_def
        table_of_type_def RTC_FILE_TYPE_def DIRECTORY_FILE_TYPE_def)
qed

section \<open>Properties\<close>

text \<open>C13: \<open>open\<close> on a well-formed image takes the lowest descriptor that is not in use, 0 and 1 not
  excepted, makes it an open descriptor at position 0 for the directory entry of that name, with the
  clock's operations for an entry of type 0, the directory's for type 1 and a file's for any other,
  initialises the clock for an entry of type 0, and returns the number; with eight descriptors in use,
  or no such entry, it returns -1 and changes nothing.\<close>

theorem open_takes_lowest_descriptor:
  assumes "proc_ok s" "fs_wf s" "terminated fname" "n = lowest_free (fd_array (cur s))"
  shows "sys_open hw fname s = Some
      (if n = 8 then (-1, s)
       else case lookup s fname of
         None \<Rightarrow> (-1, s)
       | Some d \<Rightarrow> (int n, open_effect hw d (with_fd n
           \<lparr>file_op_table_ptr = Some (if fileType d = 0 then RtcOps else if fileType d = 1 then DirOps else FileOps),
            inode_num = inodeNumber d, file_position = 0, flags = 1\<rparr> s))) \<and>
    (\<forall>i < n. flags (fd_array (cur s) ! i) = 1) \<and> (n < 8 \<longrightarrow> flags (fd_array (cur s) ! n) \<noteq> 1)"
  using sys_open_eq [OF assms(1-3), of hw] lowest_free_below [of _ "fd_array (cur s)"]
    lowest_free_at [of "fd_array (cur s)"] assms(1,4)
  unfolding opened_def by (auto simp: proc_ok_def)

theorem open_takes_lowest_descriptor_witness:
  "sys_open (\<lambda>_ _. 0) (bytes ''hi'' @ [0]) sample_proc = Some (2, sample_open) \<and>
   file_op_table_ptr (fd_array (cur sample_open) ! 2) = Some FileOps"
proof -
  have "sys_open (\<lambda>_ _. 0) (bytes ''hi'' @ [0]) sample_proc = Some (2, sample_open)"
    using open_takes_lowest_descriptor [OF sample_proc_ok(1) sample_proc_fs(3) sample_name sample_free [symmetric],
        of "\<lambda>_ _. 0"]
    by (simp only: sample_lookup option.case sample_effect if_False sample_open_def opened_def) simp
  moreover have "file_op_table_ptr (fd_array (cur sample_open) ! 2) = Some FileOps"
    using sample_proc_ok by (simp add: sample_open_def opened_def sample_entry_def named_entry_def)
  ultimately show ?thesis ..
qed

lemma close_eq:
  assumes "proc_ok s" "2 \<le> n" "n < 8" "flags (fd_array (cur s) ! n) = 1"
    "file_op_table_ptr (fd_array (cur s) ! n) \<in> {Some FileOps, Some RtcOps, Some DirOps}"
  shows "sys_close (int n) s = Some (0, with_fd n zero_fd s)"
proof -
  have z: "e\<lparr>file_op_table_ptr := None, file_position := 0, flags := 0, inode_num := 0\<rparr> = zero_fd" for e :: fd_element
    by (cases e) (simp add: zero_fd_def)
  show ?thesis using assms
    by (auto simp: sys_close_def STDOUT_FD_def FD_ARRAY_LENGTH_def call_close_def rtc_close_def z)
qed

text \<open>C14: closing what was just opened succeeds and gives the descriptor table back with that slot
  zeroed: on a free slot that was all zero, opening a file or directory and closing it again leaves
  the machine exactly as it was.\<close>

theorem open_close_roundtrip:
  assumes "proc_ok s" "fs_wf s" "terminated fname" "fd_array (cur s) ! lowest_free (fd_array (cur s)) = zero_fd"
    and "sys_open hw fname s = Some (fd, s1)" "2 \<le> fd"
  shows "\<exists>d s2. lookup s fname = Some d \<and> sys_close fd s1 = Some (0, s2) \<and>
    fd_array (cur s2) = fd_array (cur s) \<and> (fileType d \<noteq> 0 \<longrightarrow> s2 = s)"
proof -
  let ?n = "lowest_free (fd_array (cur s))"
  have n: "?n \<le> 8" using lowest_free_le [of "fd_array (cur s)"] assms(1) by (simp add: proc_ok_def)
  obtain d where d: "?n < 8" "lookup s fname = Some d" "fd = int ?n" "s1 = open_effect hw d (with_fd ?n (opened d) s)"
    using sys_open_eq [OF assms(1-3), of hw] assms(5,6) n by (auto split: if_splits option.splits)
  have l: "length (fd_array (cur s)) = 8" using assms(1) by (simp add: proc_ok_def)
  have fds: "fd_array (cur s1) = (fd_array (cur s))[?n := opened d]"
    unfolding d(4) open_effect_def by simp
  have p1: "proc_ok s1" using assms(1) unfolding d(4) open_effect_def by simp
  have "sys_close fd s1 = Some (0, with_fd ?n zero_fd s1)"
    unfolding d(3) by (rule close_eq [OF p1]) (use assms(6) d(1,3) fds l in \<open>auto simp: opened_def table_of_type_def\<close>)
  moreover have "fd_array (cur (with_fd ?n zero_fd s1)) = fd_array (cur s)"
    using fds assms(4) by simp (metis list_update_id)
  moreover have "with_fd ?n zero_fd s1 = s" if "fileType d \<noteq> 0"
    using that assms(4) list_update_id [of "fd_array (cur s)" ?n]
    by (simp add: d(4) open_effect_def with_fd_def)
  ultimately show ?thesis using d(2) by blast
qed

theorem open_close_roundtrip_witness: "sys_close 2 sample_open = Some (0, sample_proc)"
proof -
  have "sys_open (\<lambda>_ _. 0) (bytes ''hi'' @ [0]) sample_proc = Some (2, sample_open)"
    using sys_open_eq [OF sample_proc_ok(1) sample_proc_fs(3) sample_name, of "\<lambda>_ _. 0"]
    by (simp only: sample_free sample_lookup option.case sample_effect if_False sample_open_def) simp
  moreover have "fd_array (cur sample_proc) ! lowest_free (fd_array (cur sample_proc)) = zero_fd"
    unfolding sample_free by (simp add: sample_proc_ok nth_append)
  ultimately show ?thesis
    using open_close_roundtrip [OF sample_proc_ok(1) sample_proc_fs(3) sample_name, of "\<lambda>_ _. 0" 2 sample_open]
    by (simp only: sample_lookup option.inject) (auto simp: sample_entry_def named_entry_def)
qed
text \<open>a descriptor number out of range or not open is refused by \<open>read\<close>, \<open>write\<close> and \<open>close\<close>
  alike with -1, as are reading the output, writing the input, writing a file or a directory, and
  closing the two standard descriptors; a refused call changes nothing.\<close>

theorem bad_descriptor_refused:
  assumes "proc_ok s"
  shows "(fd < 0 \<or> 8 \<le> fd \<or> flags (fd_array (cur s) ! nat fd) \<noteq> 1 \<longrightarrow>
      sys_read env fd buf n s = Some (Returned (-1, s)) \<and> sys_write hw fd buf n s = Some (-1, s) \<and>
      sys_close fd s = Some (-1, s)) \<and>
    sys_read env 1 buf n s = Some (Returned (-1, s)) \<and> sys_write hw 0 buf n s = Some (-1, s) \<and>
    sys_close 0 s = Some (-1, s) \<and> sys_close 1 s = Some (-1, s) \<and>
    (2 \<le> fd \<and> fd < 8 \<and> file_op_table_ptr (fd_array (cur s) ! nat fd) \<in> {Some FileOps, Some DirOps} \<longrightarrow>
      sys_write hw fd buf n s = Some (-1, s))"
  using assms
  by (auto simp: sys_read_def sys_write_def sys_close_def FD_ARRAY_LENGTH_def STDOUT_FD_def)

theorem bad_descriptor_refused_witness:
  "sys_read [] 7 0x8000000 4 sample_proc = Some (Returned (-1, sample_proc))"
  using bad_descriptor_refused [OF sample_proc_ok(1), of 7]
  by (simp add: sample_proc_ok nth_append zero_fd_def)

text \<open>C6: reading \<open>nbytes\<close> from an open regular file into the program's page stores exactly the bytes
  of the file from the descriptor's position on, as many as there are up to \<open>nbytes\<close>, touches no
  other byte of memory, returns their number and advances the position by it; the next read goes on
  where this one ended, and at the end of the file 0 comes back.\<close>

theorem read_file_slice:
  assumes "proc_ok s" "fs_wf s" "paging_wf s" "file_fd s fd"
    and "numInodes s = Some m" "inode_num (fd_array (cur s) ! fd) < m" "e = fd_array (cur s) ! fd"
    and "0 \<le> nbytes" "unat (file_position e) + nat nbytes < 2 ^ 32" "k + nat nbytes \<le> 0x400000"
    and "out = slice (unat (file_position e)) (nat nbytes) (file_content s (inode_num e))"
  shows "\<exists>s1. stored k out s s1 \<and>
    sys_read env (int fd) (0x8000000 + of_nat k) nbytes s =
      Some (Returned (int (length out),
        with_fd fd (e\<lparr>file_position := file_position e + of_nat (length out)\<rparr>) s1))"
  using sys_read_file [OF assms(1-10)] assms(11) by blast

theorem read_file_slice_witness:
  "\<exists>s1. umem s1 0 = of_char (CHR ''y'') \<and> umem s1 1 = of_char (CHR ''o'') \<and>
     sys_read [] 2 0x8000000 2 sample_open = Some (Returned (2, with_fd 2 ((opened sample_entry)\<lparr>file_position := 2\<rparr>) s1))"
proof -
  have f: "fs_wf sample_open = fs_wf sample_proc" "numInodes sample_open = numInodes sample_proc"
    "file_content sample_open 0 = file_content sample_proc 0"
    by (rule fs_upd; simp add: sample_open_def with_fd_def)+
  have w: "paging_wf sample_open" using sample_paging
    by (simp add: sample_open_def with_fd_def paging_wf_def tables_linked_def program_frame_def video_frame_def)
  have e: "fd_array (cur sample_open) ! 2 = opened sample_entry" "proc_ok sample_open"
    using sample_proc_ok by (simp_all add: sample_open_def proc_ok_def)
  have o: "inode_num (opened sample_entry) = 0" "file_position (opened sample_entry) = 0"
    by (simp_all add: opened_def sample_entry_def named_entry_def)
  have out: "slice 0 2 (file_content sample_open 0) = bytes ''yo''"
    using f(3) by (simp add: sample_proc_fs slice_def)
  have pos: "inode_num (fd_array (cur sample_open) ! 2) < 1" "(0 :: int) \<le> 2"
    "unat (file_position (opened sample_entry)) + nat 2 < 2 ^ 32" "0 + nat 2 \<le> 0x400000"
    "bytes ''yo'' = slice (unat (file_position (opened sample_entry))) (nat 2)
       (file_content sample_open (inode_num (opened sample_entry)))"
    using e(1) o out by simp_all
  have wf: "fs_wf sample_open" "numInodes sample_open = Some 1"
    using f(1,2) sample_proc_fs(2,3) by simp_all
  obtain s1 where s1: "stored 0 (bytes ''yo'') sample_open s1" and r:
    "sys_read [] (int 2) (0x8000000 + of_nat 0) 2 sample_open = Some (Returned (int (length (bytes ''yo'')),
        with_fd 2 ((opened sample_entry)\<lparr>file_position := file_position (opened sample_entry) + of_nat (length (bytes ''yo''))\<rparr>) s1))"
    using read_file_slice [OF e(2) wf(1) w sample_file_fd wf(2) pos(1) e(1) [symmetric] pos(2-5), of "[]"] by blast
  moreover have "umem s1 0 = of_char (CHR ''y'')" "umem s1 1 = of_char (CHR ''o'')"
    using s1 by (simp_all add: stored_def)
  ultimately show ?thesis using o(2) by (intro exI [of _ s1]) simp
qed

lemma getargs_user:
  assumes "proc_ok s" "paging_wf s" "terminated (arg (cur s))" "k + n \<le> 0x400000" "0 < n"
  shows "\<exists>s1. getargs (0x8000000 + of_nat k) (int n) s = Some (0, s1) \<and>
      stored k (take n (cstr (arg (cur s))) @ replicate (n - length (cstr (arg (cur s)))) 0) s s1"
proof -
  let ?b = "0x8000000 + of_nat k :: u32"
  let ?out = "take n (cstr (arg (cur s))) @ replicate (n - length (cstr (arg (cur s)))) 0"
  have b: "?b \<noteq> 0"
  proof
    assume "?b = 0"
    then have "unat ?b = 0" by simp
    then show False using assms(4) by (simp add: unat_add_nat)
  qed
  have l: "load_bytes ?b n s = map (umem s) [k..<k + n]" using load_bytes_user assms(2,4) by blast
  have c: "strncpy (load_bytes ?b n s) (arg (cur s)) n = Some ?out"
    using strncpy_eq [of n "load_bytes ?b n s" "arg (cur s)"] assms(3) by (simp add: l)
  have "k + length ?out \<le> 0x400000" using assms(4,5) by simp
  then obtain s1 where "store_bytes ?b ?out s = Some s1" "stored k ?out s s1"
    using store_bytes_user [OF assms(2)] by blast
  then show ?thesis using b c assms(1,5) by (simp add: getargs_def get_pcb_def proc_ok_def)
qed

text \<open>C22: \<open>getargs\<close> with a buffer in the program's page stores the arguments there, cut at \<open>nbytes\<close> or
  filled with NULs up to \<open>nbytes\<close>, and returns 0 (also when there are no arguments); a null buffer or a
  count that is not positive is refused.\<close>

theorem getargs_copies_arguments:
  assumes "proc_ok s" "paging_wf s" "terminated (arg (cur s))" "k + n \<le> 0x400000" "0 < n"
  shows "(\<exists>s1. getargs (0x8000000 + of_nat k) (int n) s = Some (0, s1) \<and>
      stored k (take n (cstr (arg (cur s))) @ replicate (n - length (cstr (arg (cur s)))) 0) s s1) \<and>
    getargs 0 nb s = Some (-1, s) \<and> (nb \<le> 0 \<longrightarrow> getargs buf nb s = Some (-1, s))"
  using getargs_user [OF assms] by (simp_all add: getargs_def)

theorem getargs_copies_arguments_witness:
  "\<exists>s1. getargs 0x8000000 8 sample_proc = Some (0, s1) \<and> umem s1 0 = 0 \<and> umem s1 7 = 0"
proof -
  note a = sample_proc_ok(3)
  then have t: "terminated (arg (cur sample_proc))" "cstr (arg (cur sample_proc)) = []"
    by (simp_all add: terminated_def numeral_eq_Suc)
  obtain s1 where "getargs (0x8000000 + of_nat 0) (int 8) sample_proc = Some (0, s1)" "stored 0 (replicate 8 0) sample_proc s1"
    using getargs_copies_arguments [OF sample_proc_ok(1) sample_paging t(1), of 0 8] t(2) by auto
  then show ?thesis by (auto simp: stored_def)
qed

lemma kstore_past_user: "paging_wf s \<Longrightarrow> kstore 0x8400000 v s = None"
  using addr_parts [of "0x8400000" 33 0 0] by (simp add: kstore_def mmu_walk_wf)

lemma store_bytes_past_user:
  "paging_wf s \<Longrightarrow> k \<le> 0x400000 \<Longrightarrow> 0x400000 < k + length vs \<Longrightarrow>
     store_bytes (0x8000000 + of_nat k) vs s = None"
proof (induction vs arbitrary: k s)
  case (Cons v vs)
  have a: "(0x8000000 :: u32) + of_nat k + 1 = 0x8000000 + of_nat (Suc k)" by simp
  show ?case
  proof (cases "k = 0x400000")
    case True
    then have "(0x8000000 :: u32) + of_nat k = 0x8400000" by simp
    then show ?thesis using kstore_past_user [OF Cons.prems(1)] by simp
  next
    case False
    then have k: "k < 0x400000" "Suc k \<le> 0x400000" using Cons.prems(2) by simp_all
    have "store_bytes (0x8000000 + of_nat (Suc k)) vs s' = None" if "paging_wf s'" for s'
      using Cons.IH [OF that k(2)] Cons.prems(3) by simp
    then show ?thesis using kstore_user [OF Cons.prems(1) k(1)] Cons.prems(1) by (simp add: a del: of_nat_Suc)
  qed
qed simp

lemma vidmap_address_eq: "vidmap_address = 0x8C0A000"
  by (simp add: vidmap_address_def VIDMAP_VMEM_LOC_def VIDMAP_VMEM_LOC_PAGE_def FOUR_MB_def FOUR_KB_def)

lemma vidmap_in_range:
  assumes "k \<le> 0x400000"
  shows "vidmap (0x8000000 + of_nat k) s =
    do { s \<leftarrow> store_bytes (0x8000000 + of_nat k) (le_bytes 0x8C0A000) s; Some (0, s) }"
proof -
  have u: "unat (0x8000000 + of_nat k :: u32) = 0x8000000 + k" using assms by (simp add: unat_add_nat)
  have "(0x8000000 :: u32) + of_nat k \<noteq> 0" "\<not> 0x8000000 + of_nat k < (0x8000000 :: u32)"
    "\<not> (0x8400000 :: u32) < 0x8000000 + of_nat k"
    using assms u by (auto simp: word_less_nat_alt)
  then show ?thesis by (simp add: vidmap_def ADDR_128MB_def FOUR_MB_def vidmap_address_eq)
qed

lemma vidmap_stores:
  assumes "paging_wf s" "k + 4 \<le> 0x400000"
  shows "\<exists>s'. vidmap (0x8000000 + of_nat k) s = Some (0, s') \<and> stored k (le_bytes 0x8C0A000) s s'"
  using store_bytes_user [OF assms(1), of k "le_bytes 0x8C0A000"] assms(2) by (auto simp: vidmap_in_range)

text \<open>C23: \<open>vidmap\<close> hands out the address 140 MB + 40 KB, the fixed user page of video memory, through a
  pointer into the program's page, and refuses a null pointer and pointers outside 128 MB to 132 MB;
  but it lets 132 MB itself and the three addresses below it through, for which the four byte store
  leaves the mapped page and the kernel faults.\<close>

theorem vidmap_checks_pointer:
  assumes "paging_wf s"
  shows "vidmap 0 s = Some (-1, s) \<and>
    (p < 0x8000000 \<or> 0x8400000 < p \<longrightarrow> vidmap p s = Some (-1, s)) \<and>
    (k \<le> 0x3FFFFC \<longrightarrow> (\<exists>s1. vidmap (0x8000000 + of_nat k) s = Some (0, s1) \<and>
      stored k (le_bytes 0x8C0A000) s s1)) \<and>
    (0x3FFFFC < k \<and> k \<le> 0x400000 \<longrightarrow> vidmap (0x8000000 + of_nat k) s = None)"
proof -
  have "\<exists>s1. vidmap (0x8000000 + of_nat k) s = Some (0, s1) \<and> stored k (le_bytes 0x8C0A000) s s1"
    if "k \<le> 0x3FFFFC"
    using vidmap_stores [OF assms, of k] that by simp
  moreover have "vidmap (0x8000000 + of_nat k) s = None" if "0x3FFFFC < k" "k \<le> 0x400000"
    using store_bytes_past_user [OF assms that(2), of "le_bytes 0x8C0A000"] that by (simp add: vidmap_in_range)
  moreover have "vidmap 0 s = Some (-1, s)" by (simp add: vidmap_def)
  moreover have "p < 0x8000000 \<or> 0x8400000 < p \<longrightarrow> vidmap p s = Some (-1, s)"
    by (simp add: vidmap_def ADDR_128MB_def FOUR_MB_def)
  ultimately show ?thesis by blast
qed

theorem vidmap_checks_pointer_witness:
  "vidmap 0x8400001 sample_proc = Some (-1, sample_proc) \<and> vidmap 0x8400000 sample_proc = None"
  using vidmap_checks_pointer [OF sample_paging, of "0x8400001" "0x400000"] by simp

text \<open>\<open>get_pid\<close> returns the lowest process id whose control block is not in use, and -1 exactly
  when all six are.\<close>

theorem get_pid_lowest_free:
  "(\<exists>pid. get_pid s = Some pid \<and> (pid = -1 \<or> (\<exists>n < 6. pid = int n))) \<and>
   (get_pid s = Some (int n) \<longleftrightarrow> n < 6 \<and> \<not> pid_used s n \<and> (\<forall>j < n. pid_used s j)) \<and>
   (get_pid s = Some (-1) \<longleftrightarrow> (\<forall>j < 6. pid_used s j))"
proof -
  have a: "get_pid s = Some (int n) \<longleftrightarrow> next_pid s = Some n" "get_pid s = Some (-1) \<longleftrightarrow> next_pid s = None"
    unfolding get_pid_eq by (simp_all split: option.split)
  have "\<exists>pid. get_pid s = Some pid \<and> (pid = -1 \<or> (\<exists>n < 6. pid = int n))"
  proof (cases "next_pid s")
    case (Some i)
    then have "i < 6" by (simp add: next_pid_Some)
    then show ?thesis using Some by (simp add: get_pid_eq)
  qed (simp add: get_pid_eq)
  then show ?thesis unfolding a next_pid_Some next_pid_None by blast
qed

theorem get_pid_lowest_free_witness: "get_pid sample_proc = Some 3"
proof -
  have "next_pid sample_proc = Some 3" unfolding sample_proc_def by (rule shell_proc(5) [OF sample_fits])
  then show ?thesis using get_pid_lowest_free [of sample_proc 3] by (simp add: next_pid_Some)
qed

definition with_fds :: "fd_element list \<Rightarrow> machine \<Rightarrow> machine" where
  "with_fds fds s = s\<lparr>pcbs := (pcbs s)(current_pcb s := (cur s)\<lparr>fd_array := fds\<rparr>)\<rparr>"

lemma with_fds_sel [simp]:
  "current_pcb (with_fds fds s) = current_pcb s"
  "cur (with_fds fds s) = (cur s)\<lparr>fd_array := fds\<rparr>"
  "pcbs (with_fds fds s) (current_pcb s) = (cur s)\<lparr>fd_array := fds\<rparr>"
  "p \<noteq> current_pcb s \<Longrightarrow> pcbs (with_fds fds s) p = pcbs s p"
  "with_fd n e (with_fds fds s) = with_fds (fds[n := e]) s"
  by (simp_all add: with_fds_def with_fd_def)

lemma proc_ok_with_fds [simp]: "proc_ok s \<Longrightarrow> proc_ok (with_fds fds s) = (length fds = 8)"
  by (simp add: proc_ok_def)

lemma clear_fds:
  assumes "proc_ok s" "n \<le> 8"
  shows "for_each [0..<n] (\<lambda>i. upd_fd i (\<lambda>_. zero_fd)) s =
    Some (with_fds (replicate n zero_fd @ drop n (fd_array (cur s))) s)"
  using assms(2)
proof (induction n)
  case 0
  then show ?case by (simp add: with_fds_def)
next
  case (Suc n)
  have l: "length (fd_array (cur s)) = 8" using assms(1) by (simp add: proc_ok_def)
  then have "(replicate n zero_fd @ drop n (fd_array (cur s)))[n := zero_fd] =
      replicate (Suc n) zero_fd @ drop (Suc n) (fd_array (cur s))"
    using Suc.prems by (simp add: list_update_append replicate_append_same Cons_nth_drop_Suc [symmetric])
  then show ?case using Suc assms(1) l by (simp add: for_each_append)
qed

text \<open>\<open>init_current_pcb\<close> leaves the current process with two open standard descriptors, the six
  others zero, and process id 0; the lowest free descriptor is then 2.\<close>

theorem init_current_pcb_ready:
  assumes "proc_ok s"
  shows "\<exists>s1. init_current_pcb s = Some s1 \<and> process_id (cur s1) = 0 \<and> parent_process_id (cur s1) = 0 \<and>
    fd_array (cur s1) = replicate 2 (zero_fd\<lparr>flags := 1\<rparr>) @ replicate 6 zero_fd \<and>
    lowest_free (fd_array (cur s1)) = 2 \<and> (\<forall>p. p \<noteq> current_pcb s \<longrightarrow> pcbs s1 p = pcbs s p)"
proof -
  have m: "pcb_mapped (current_pcb s)" using assms by (simp add: proc_ok_def)
  have "for_each [0..<8] (\<lambda>i. upd_fd i (\<lambda>_. zero_fd)) s = Some (with_fds (replicate 8 zero_fd) s)"
    using clear_fds [OF assms, of 8] assms by (simp add: proc_ok_def)
  then show ?thesis
    using m by (simp add: init_current_pcb_def FD_ARRAY_LENGTH_def upd_fd_def get_pcb_def upd_pcb_def
        lowest_free_def numeral_eq_Suc zero_fd_def)
qed

theorem init_current_pcb_ready_witness:
  "\<exists>s1. init_current_pcb sample_proc = Some s1 \<and> lowest_free (fd_array (cur s1)) = 2"
  using init_current_pcb_ready [OF sample_proc_ok(1)] by blast
end
