(* ===== verification/FileApi.thy ===== *)
theory FileApi
  imports SysCallFacts
begin

text \<open>
  The file calls of one process against an abstract file system: a directory of named byte strings and
  a table of open files with positions. Every sequence of opens, reads and closes gives the same
  results on the kernel as on the abstraction.
\<close>

section \<open>The abstract file system\<close>

datatype file_op = FOpen "u8 list" | FRead int nat | FClose int

type_synonym file_table = "int \<Rightarrow> (u8 list \<times> nat) option"

text \<open>Each call returns a number and the bytes it delivers.\<close>

fun file_step :: "(u8 list \<Rightarrow> u8 list option) \<Rightarrow> file_op \<Rightarrow> file_table \<Rightarrow> (int \<times> u8 list) \<times> file_table" where
  "file_step disk (FOpen nm) t =
     (case (find (\<lambda>fd. t fd = None) [2..7], disk nm) of
        (Some fd, Some c) \<Rightarrow> ((fd, []), t(fd := Some (c, 0)))
      | _ \<Rightarrow> ((-1, []), t))"
| "file_step disk (FRead fd n) t =
     (case t fd of
        None \<Rightarrow> ((-1, []), t)
      | Some (c, p) \<Rightarrow>
          let out = slice p n c in ((int (length out), out), t(fd := Some (c, p + length out))))"
| "file_step disk (FClose fd) t =
     (if t fd = None then ((-1, []), t) else ((0, []), t(fd := None)))"

fun file_run :: "(u8 list \<Rightarrow> u8 list option) \<Rightarrow> file_op list \<Rightarrow> file_table \<Rightarrow> (int \<times> u8 list) list \<times> file_table" where
  "file_run disk [] t = ([], t)"
| "file_run disk (x # xs) t =
     (case file_step disk x t of (r, t) \<Rightarrow> case file_run disk xs t of (rs, t) \<Rightarrow> (r # rs, t))"

section \<open>The same calls on the kernel\<close>

text \<open>Reads go to the buffer at offset \<open>k\<close> of the program's page; what they deliver is what lies there.\<close>

fun call_step :: "device \<Rightarrow> interference \<Rightarrow> nat \<Rightarrow> file_op \<Rightarrow> machine \<Rightarrow> ((int \<times> u8 list) \<times> machine) option" where
  "call_step hw env k (FOpen nm) s = do { (r, s) \<leftarrow> sys_open hw (nm @ [0]) s; Some ((r, []), s) }"
| "call_step hw env k (FRead fd n) s =
     (case sys_read env fd (0x8000000 + of_nat k) (int n) s of
        Some (Returned (r, s)) \<Rightarrow> Some ((r, map (umem s) [k..<k + nat r]), s)
      | _ \<Rightarrow> None)"
| "call_step hw env k (FClose fd) s = do { (r, s) \<leftarrow> sys_close fd s; Some ((r, []), s) }"

fun call_run :: "device \<Rightarrow> interference \<Rightarrow> nat \<Rightarrow> file_op list \<Rightarrow> machine \<Rightarrow> ((int \<times> u8 list) list \<times> machine) option" where
  "call_run hw env k [] s = Some ([], s)"
| "call_run hw env k (x # xs) s =
     do { (r, s) \<leftarrow> call_step hw env k x s; (rs, s) \<leftarrow> call_run hw env k xs s; Some (r # rs, s) }"

section \<open>The abstraction\<close>

definition disk_of :: "machine \<Rightarrow> u8 list \<Rightarrow> u8 list option" where
  "disk_of s nm = map_option (\<lambda>d. file_content s (inodeNumber d)) (lookup s (nm @ [0]))"

definition table_of :: "machine \<Rightarrow> file_table" where
  "table_of s fd =
     (let e = fd_array (cur s) ! nat fd
      in if 2 \<le> fd \<and> fd < 8 \<and> flags e = 1 then Some (file_content s (inode_num e), unat (file_position e)) else None)"

text \<open>A regular file: the entry, and the first entry with the same inode, are of the file type.\<close>

definition regular :: "machine \<Rightarrow> u32 \<Rightarrow> bool" where
  "regular s n \<longleftrightarrow> (case numInodes s of None \<Rightarrow> False | Some m \<Rightarrow> n < m) \<and>
     (case entry_of_inode s n of None \<Rightarrow> False | Some d \<Rightarrow> fileType d \<noteq> 0 \<and> fileType d \<noteq> 1)"

definition open_file :: "machine \<Rightarrow> fd_element \<Rightarrow> bool" where
  "open_file s e \<longleftrightarrow> file_op_table_ptr e = Some FileOps \<and> regular s (inode_num e) \<and>
     unat (file_position e) \<le> length (file_content s (inode_num e))"

definition files_ok :: "machine \<Rightarrow> bool" where
  "files_ok s \<longleftrightarrow> proc_ok s \<and> fs_wf s \<and> paging_wf s \<and> flags (fd_array (cur s) ! 0) = 1 \<and> flags (fd_array (cur s) ! 1) = 1 \<and>
     (\<forall>i. 2 \<le> i \<and> i < 8 \<and> flags (fd_array (cur s) ! i) = 1 \<longrightarrow> open_file s (fd_array (cur s) ! i))"

text \<open>Only regular files are opened, reads are not from the keyboard and fit the page.\<close>

fun op_ok :: "machine \<Rightarrow> nat \<Rightarrow> file_op \<Rightarrow> bool" where
  "op_ok s k (FOpen nm) \<longleftrightarrow>
     (case lookup s (nm @ [0]) of None \<Rightarrow> True
      | Some d \<Rightarrow> fileType d \<noteq> 0 \<and> fileType d \<noteq> 1 \<and> regular s (inodeNumber d))"
| "op_ok s k (FRead fd n) \<longleftrightarrow> fd \<noteq> 0 \<and> k + n \<le> 0x400000"
| "op_ok s k (FClose fd) \<longleftrightarrow> True"

section \<open>Lemmas\<close>

lemma regular_length: "fs_wf s \<Longrightarrow> regular s n \<Longrightarrow> length (file_content s n) < 2 ^ 23"
proof -
  assume a: "fs_wf s" "regular s n"
  then obtain m b where m: "numInodes s = Some m" "n < m" "numDataBlocks s = Some b"
    "list_all (\<lambda>i. inode_ok s (unat b) (of_nat i)) [0..<unat m]"
    by (auto simp: fs_wf_def regular_def split: option.splits)
  then have "\<forall>i < unat m. inode_ok s (unat b) (of_nat i)" "unat n < unat m"
    by (simp_all add: list_all_iff word_less_nat_alt)
  then have "inode_ok s (unat b) (of_nat (unat n))" by blast
  then obtain len where len: "numBytes s n = Some len" "blocks_of len \<le> MAX_DATA_BLOCKS"
    by (auto simp: inode_ok_def split: option.splits)
  then have "unat len < 2 ^ 23" by (simp add: blocks_of_def MAX_DATA_BLOCKS_def)
  then show ?thesis using len(1) by (simp add: file_content_def)
qed

text \<open>What an operation on the current process' table or the program's page leaves of the disk.\<close>

definition same_disk :: "machine \<Rightarrow> machine \<Rightarrow> bool" where
  "same_disk s s' \<longleftrightarrow> fs_image s' = fs_image s \<and> inode_start s' = inode_start s \<and> datablock_start s' = datablock_start s"

lemma same_diskD:
  assumes "same_disk s s'"
  shows "file_content s' n = file_content s n" "regular s' n = regular s n" "open_file s' e = open_file s e"
    "disk_of s' = disk_of s" "op_ok s' k x = op_ok s k x" "fs_wf s' = fs_wf s"
proof -
  note f = fs_upd [OF assms [unfolded same_disk_def, THEN conjunct1]
      assms [unfolded same_disk_def, THEN conjunct2, THEN conjunct1]
      assms [unfolded same_disk_def, THEN conjunct2, THEN conjunct2]]
  show r: "file_content s' n = file_content s n" "regular s' n = regular s n" for n
    by (simp_all add: f regular_def)
  show "open_file s' e = open_file s e" "disk_of s' = disk_of s" "fs_wf s' = fs_wf s"
    by (simp_all add: open_file_def r fun_eq_iff disk_of_def f)
  show "op_ok s' k x = op_ok s k x" by (cases x) (simp_all add: f r split: option.split)
qed

lemma same_disk_trans: "same_disk s t \<Longrightarrow> same_disk t u \<Longrightarrow> same_disk s u"
  by (simp add: same_disk_def)

text \<open>Changing one descriptor above the standard ones.\<close>

lemma with_fd_file:
  assumes s: "files_ok s" and fd: "2 \<le> fd" "fd < 8" and e: "flags e = 1 \<Longrightarrow> open_file s e"
    and t: "stored k vs s t"
  shows "files_ok (with_fd fd e t)" "same_disk s (with_fd fd e t)"
    "table_of (with_fd fd e t) = (table_of s)(int fd :=
       (if flags e = 1 then Some (file_content s (inode_num e), unat (file_position e)) else None))"
proof -
  note f = stored_fields [OF t]
  have l: "length (fd_array (cur s)) = 8" using s by (simp add: files_ok_def proc_ok_def)
  have a: "current_pcb (with_fd fd e t) = current_pcb s"
    "fd_array (pcbs (with_fd fd e t) (current_pcb s)) = (fd_array (cur s))[fd := e]"
    using f by (simp_all add: with_fd_def)
  show d: "same_disk s (with_fd fd e t)" using f by (simp add: same_disk_def with_fd_def)
  have "paging_wf (with_fd fd e t) = paging_wf t"
    by (simp add: with_fd_def paging_wf_def tables_linked_def program_frame_def video_frame_def)
  then show "files_ok (with_fd fd e t)"
    using s fd e l f by (auto simp: files_ok_def a same_diskD [OF d] nth_list_update proc_ok_def)
  show "table_of (with_fd fd e t) = (table_of s)(int fd :=
       (if flags e = 1 then Some (file_content s (inode_num e), unat (file_position e)) else None))"
    using fd l by (auto simp: fun_eq_iff table_of_def a f(1,2) same_diskD [OF d] nth_list_update Let_def nat_eq_iff)
qed

lemma stored_refl: "stored k [] s s"
  by (auto simp: stored_def)

lemma first_free:
  assumes "files_ok s"
  shows "find (\<lambda>fd. table_of s fd = None) [2..7] =
    (if lowest_free (fd_array (cur s)) = 8 then None else Some (int (lowest_free (fd_array (cur s)))))"
    and "2 \<le> lowest_free (fd_array (cur s))" "lowest_free (fd_array (cur s)) \<le> 8"
proof -
  define n where "n = lowest_free (fd_array (cur s))"
  have l: "length (fd_array (cur s)) = 8" and std: "flags (fd_array (cur s) ! 0) = 1" "flags (fd_array (cur s) ! 1) = 1"
    using assms by (simp_all add: files_ok_def proc_ok_def)
  have n8: "n \<le> 8" using lowest_free_le [of "fd_array (cur s)"] l by (simp add: n_def)
  have at: "flags (fd_array (cur s) ! n) \<noteq> 1" if "n < 8"
    using lowest_free_at [of "fd_array (cur s)"] that l by (simp add: n_def)
  have "n \<noteq> 0" "n \<noteq> 1" using at std by (cases "n = 0"; cases "n = 1"; simp)+
  then have n2: "2 \<le> n" by simp
  have b: "table_of s (int i) \<noteq> None" if "2 \<le> i" "i < n" for i
    using that n8 lowest_free_below [of i "fd_array (cur s)"] by (simp add: table_of_def Let_def n_def [symmetric])
  have "[2..7] = map int [2..<8]" by (simp add: upto_rec_numeral upt_rec_numeral)
  also have "[2..<8] = [2..<n] @ [n..<8]" using n2 n8 by (metis le_Suc_ex upt_add_eq_append)
  finally have u: "[2..7] = map int [2..<n] @ map int [n..<8]" by simp
  have "find (\<lambda>fd. table_of s fd = None) (map int [2..<n] @ xs) = find (\<lambda>fd. table_of s fd = None) xs" for xs
  proof -
    have "find (\<lambda>fd. table_of s fd = None) (ys @ xs) = find (\<lambda>fd. table_of s fd = None) xs"
      if "\<forall>y \<in> set ys. table_of s y \<noteq> None" for ys
      using that by (induction ys) auto
    then show ?thesis using b by auto
  qed
  then have e: "find (\<lambda>fd. table_of s fd = None) [2..7] = find (\<lambda>fd. table_of s fd = None) (map int [n..<8])"
    unfolding u .
  show "find (\<lambda>fd. table_of s fd = None) [2..7] =
    (if lowest_free (fd_array (cur s)) = 8 then None else Some (int (lowest_free (fd_array (cur s)))))"
  proof (cases "n = 8")
    case True
    then show ?thesis using e by (simp add: n_def)
  next
    case False
    then have "[n..<8] = n # [Suc n..<8]" using n8 by (simp add: upt_conv_Cons)
    moreover have "table_of s (int n) = None" using at False n8 by (simp add: table_of_def)
    ultimately show ?thesis using e False by (simp add: n_def)
  qed
  show "2 \<le> lowest_free (fd_array (cur s))" "lowest_free (fd_array (cur s)) \<le> 8" using n2 n8 by (simp_all add: n_def)
qed

section \<open>Every call is simulated\<close>

lemma table_of_open:
  assumes "2 \<le> fd" "fd < 8"
  shows "table_of s fd \<noteq> None \<longleftrightarrow> flags (fd_array (cur s) ! nat fd) = 1"
  using assms by (simp add: table_of_def Let_def)

lemma open_simulated:
  assumes s: "files_ok s" and op: "op_ok s k (FOpen nm)"
  shows "\<exists>r s'. call_step hw env k (FOpen nm) s = Some (r, s') \<and> files_ok s' \<and> same_disk s s' \<and>
    file_step (disk_of s) (FOpen nm) (table_of s) = (r, table_of s')"
proof -
  let ?n = "lowest_free (fd_array (cur s))"
  have p: "proc_ok s" "fs_wf s" using s by (simp_all add: files_ok_def)
  have o: "sys_open hw (nm @ [0]) s = Some (if ?n = 8 then (-1, s) else case lookup s (nm @ [0]) of None \<Rightarrow> (-1, s)
      | Some d \<Rightarrow> (int ?n, open_effect hw d (with_fd ?n (opened d) s)))"
    using sys_open_eq [OF p, of "nm @ [0]" hw] by (simp add: terminated_def)
  show ?thesis
  proof (cases "?n = 8 \<or> lookup s (nm @ [0]) = None")
    case True
    then show ?thesis using s o first_free(1) [OF s] by (auto simp: disk_of_def same_disk_def split: option.split)
  next
    case False
    then obtain d where d: "lookup s (nm @ [0]) = Some d" "?n \<noteq> 8" by auto
    have r: "fileType d \<noteq> 0" "fileType d \<noteq> 1" "regular s (inodeNumber d)" using op d(1) by simp_all
    have e: "open_file s (opened d)"
      using r by (simp add: open_file_def opened_def table_of_type_def RTC_FILE_TYPE_def DIRECTORY_FILE_TYPE_def)
      have n: "2 \<le> ?n" "?n < 8" using first_free(2,3) [OF s] d(2) by simp_all
    have "files_ok (with_fd ?n (opened d) s)" "same_disk s (with_fd ?n (opened d) s)"
      "table_of (with_fd ?n (opened d) s) = (table_of s)(int ?n := Some (file_content s (inodeNumber d), 0))"
      using with_fd_file [OF s n e stored_refl] by (simp_all add: opened_def)
    then show ?thesis using o d r(1) first_free(1) [OF s] by (simp add: disk_of_def open_effect_def)
  qed
qed

lemma close_simulated:
  assumes s: "files_ok s"
  shows "\<exists>r s'. call_step hw env k (FClose fd) s = Some (r, s') \<and> files_ok s' \<and> same_disk s s' \<and>
    file_step (disk_of s) (FClose fd) (table_of s) = (r, table_of s')"
proof (cases "2 \<le> fd \<and> fd < 8 \<and> flags (fd_array (cur s) ! nat fd) = 1")
  case True
  then have n: "2 \<le> nat fd" "nat fd < 8" "flags (fd_array (cur s) ! nat fd) = 1" by (simp_all add: nat_less_iff le_nat_iff)
  have e: "open_file s (fd_array (cur s) ! nat fd)" using s n unfolding files_ok_def by blast
  have "sys_close (int (nat fd)) s = Some (0, with_fd (nat fd) zero_fd s)"
    using s n e by (intro close_eq) (simp_all add: files_ok_def open_file_def)
  moreover have "files_ok (with_fd (nat fd) zero_fd s)" "same_disk s (with_fd (nat fd) zero_fd s)"
    "table_of (with_fd (nat fd) zero_fd s) = (table_of s)(fd := None)"
    using with_fd_file [OF s n(1,2) _ stored_refl, of zero_fd] True by (simp_all add: zero_fd_def)
  moreover have "table_of s fd \<noteq> None" using True table_of_open by blast
  ultimately show ?thesis using True by simp
next
  case False
  then have "table_of s fd = None" by (auto simp: table_of_def Let_def)
  moreover have "sys_close fd s = Some (-1, s)"
    using False s by (auto simp: files_ok_def sys_close_def FD_ARRAY_LENGTH_def STDOUT_FD_def)
  ultimately show ?thesis using s by (simp add: same_disk_def)
qed

lemma read_simulated:
  assumes s: "files_ok s" and op: "op_ok s k (FRead fd n)"
  shows "\<exists>r s'. call_step hw env k (FRead fd n) s = Some (r, s') \<and> files_ok s' \<and> same_disk s s' \<and>
    file_step (disk_of s) (FRead fd n) (table_of s) = (r, table_of s')"
proof (cases "2 \<le> fd \<and> fd < 8 \<and> flags (fd_array (cur s) ! nat fd) = 1")
  case True
  define e where "e = fd_array (cur s) ! nat fd"
  have n: "2 \<le> nat fd" "nat fd < 8" "flags e = 1" using True by (simp_all add: e_def nat_less_iff le_nat_iff)
  have p: "proc_ok s" "fs_wf s" "paging_wf s" using s by (simp_all add: files_ok_def)
  have e: "open_file s e" using s n unfolding files_ok_def e_def by blast
  obtain m where m: "numInodes s = Some m" "inode_num e < m"
    using e by (auto simp: open_file_def regular_def split: option.splits)
  have fd: "file_fd s (nat fd)" using e n by (simp add: file_fd_def open_file_def regular_def e_def split: option.splits)
  define c where "c = file_content s (inode_num e)"
  define q where "q = unat (file_position e)"
  have c: "length c < 2 ^ 23" "q \<le> length c"
    using e regular_length [OF p(2)] by (simp_all add: open_file_def c_def q_def)
  have kn: "k + n \<le> 0x400000" using op by simp
  define out where "out = slice q n c"
  have lo: "length out \<le> n" "q + length out \<le> length c" using c by (simp_all add: out_def)
  have "inode_num (fd_array (cur s) ! nat fd) < m" "(0 :: int) \<le> int n" "unat (file_position e) + nat (int n) < 2 ^ 32" "k + nat (int n) \<le> 0x400000"
    using m c kn by (simp_all add: e_def [symmetric] q_def)
  from sys_read_file [OF p fd m(1) this(1) e_def this(2-4), of env]
  obtain t where t: "stored k out s t" "sys_read env (int (nat fd)) (0x8000000 + of_nat k) (int n) s =
      Some (Returned (int (length out), with_fd (nat fd) (e\<lparr>file_position := file_position e + of_nat (length out)\<rparr>) t))"
    by (auto simp: out_def c_def q_def)
  define e' where "e' = e\<lparr>file_position := file_position e + of_nat (length out)\<rparr>"
  have pos: "unat (file_position e') = q + length out"
    using lo(2) c(1) by (simp add: e'_def q_def unat_word_ariths unat_of_nat)
  have oe: "open_file s e'" using e pos lo(2) by (simp add: open_file_def e'_def c_def)
  have w: "files_ok (with_fd (nat fd) e' t)" "same_disk s (with_fd (nat fd) e' t)"
    "table_of (with_fd (nat fd) e' t) = (table_of s)(fd := Some (c, q + length out))"
    using with_fd_file [OF s n(1,2) oe t(1)] True n(3) pos by (simp_all add: e'_def c_def)
  have "umem (with_fd (nat fd) e' t) = umem t" by (simp add: fun_eq_iff umem_def user_frame_def with_fd_def program_frame_def)
  moreover have "map (umem t) [k..<k + length out] = out"
    using t(1) lo(1) kn by (intro nth_equalityI) (auto simp: stored_def)
  ultimately have "call_step hw env k (FRead fd n) s = Some ((int (length out), out), with_fd (nat fd) e' t)"
    using t(2) True by (simp add: e'_def [symmetric])
  moreover have "table_of s fd = Some (c, q)" using True n(3) by (simp add: table_of_def Let_def c_def q_def e_def [symmetric])
  moreover have "file_step (disk_of s) (FRead fd n) (table_of s) =
      ((int (length out), out), (table_of s)(fd := Some (c, q + length out)))" if "table_of s fd = Some (c, q)"
    unfolding file_step.simps that by (simp only: option.case prod.case Let_def out_def)
  ultimately show ?thesis using w by (metis (no_types))
next
  case False
  then have "table_of s fd = None" by (auto simp: table_of_def Let_def)
  moreover have "sys_read env fd (0x8000000 + of_nat k) (int n) s = Some (Returned (-1, s))"
    using False s op by (auto simp: files_ok_def sys_read_def FD_ARRAY_LENGTH_def)
  ultimately show ?thesis using s by (simp add: same_disk_def)
qed

lemma step_simulated:
  "files_ok s \<Longrightarrow> op_ok s k x \<Longrightarrow> \<exists>r s'. call_step hw env k x s = Some (r, s') \<and> files_ok s' \<and> same_disk s s' \<and>
    file_step (disk_of s) x (table_of s) = (r, table_of s')"
  by (cases x) (simp_all only: open_simulated read_simulated close_simulated)

lemma run_simulated:
  "files_ok s \<Longrightarrow> list_all (op_ok s k) xs \<Longrightarrow> \<exists>rs s'. call_run hw env k xs s = Some (rs, s') \<and> files_ok s' \<and> same_disk s s' \<and>
    file_run (disk_of s) xs (table_of s) = (rs, table_of s')"
proof (induction xs arbitrary: s)
  case Nil
  then show ?case by (simp add: same_disk_def)
next
  case (Cons x xs)
  obtain r s1 where 1: "call_step hw env k x s = Some (r, s1)" "files_ok s1" "same_disk s s1"
    "file_step (disk_of s) x (table_of s) = (r, table_of s1)"
    using step_simulated [OF Cons.prems(1)] Cons.prems(2) by fastforce
  note d = same_diskD [OF 1(3)]
  obtain rs s2 where 2: "call_run hw env k xs s1 = Some (rs, s2)" "files_ok s2" "same_disk s1 s2"
    "file_run (disk_of s1) xs (table_of s1) = (rs, table_of s2)"
    using Cons.IH [OF 1(2)] Cons.prems(2) d by (auto simp: list_all_iff)
  then show ?case using 1 same_disk_trans [OF 1(3) 2(3)] d by auto
qed

text \<open>C10: the calls on files implement the abstract file system: any sequence of opens, reads and
  closes by one process, started with the terminal and regular files open, ends without a fault, and
  what each call returns and delivers is what the abstraction computes from the contents of the disk
  and a table of positions: the lowest free number for a name that exists, the next bytes of the file,
  -1 for everything else; what is open afterwards is what the abstraction has open.\<close>

theorem file_calls_refine:
  assumes "files_ok s" "list_all (op_ok s k) xs"
  shows "\<exists>rs s'. call_run hw env k xs s = Some (rs, s') \<and>
    file_run (disk_of s) xs (table_of s) = (rs, table_of s') \<and> disk_of s' = disk_of s \<and> files_ok s'"
  using run_simulated [OF assms, of hw env] same_diskD(4) by blast

theorem file_calls_refine_witness:
  "\<exists>s'. call_run (\<lambda>_ _. 0) [] 0 [FOpen (bytes ''hi''), FRead 2 2, FOpen (bytes ''no''), FRead 2 8, FRead 2 8, FClose 2, FRead 2 1]
      sample_proc =
    Some ([(2, []), (2, bytes ''yo''), (-1, []), (1, [10]), (0, []), (0, []), (-1, [])], s')"
proof -
  let ?xs = "[FOpen (bytes ''hi''), FRead 2 2, FOpen (bytes ''no''), FRead 2 8, FRead 2 8, FClose 2, FRead 2 1]"
  have fl: "flags (fd_array (cur sample_proc) ! i) = (if i < 2 then 1 else 0)" if "i < 8" for i
    using that by (auto simp: sample_proc_ok nth_append zero_fd_def)
  have ok: "files_ok sample_proc"
    using fl sample_proc_ok(1) sample_proc_fs(3) sample_paging by (auto simp: files_ok_def)
  have look: "lookup sample_proc (bytes ''no'' @ [0]) = None"
    by (simp add: lookup_def sample_proc_fs entry_name_def cstr_def sample_entry_def named_entry_def)
  have "entry_of_inode sample_proc 0 = Some sample_entry"
    by (simp add: entry_of_inode_def sample_proc_fs sample_entry_def named_entry_def)
  then have reg: "regular sample_proc 0" "fileType sample_entry = 2" "inodeNumber sample_entry = 0"
    by (simp_all add: regular_def sample_proc_fs sample_entry_def named_entry_def)
  have ops: "list_all (op_ok sample_proc 0) ?xs" using reg sample_lookup look by simp
  have disk: "disk_of sample_proc (bytes ''hi'') = Some (bytes ''yo'' @ [10])" "disk_of sample_proc (bytes ''no'') = None"
    using sample_lookup look reg(3) sample_proc_fs(5) by (simp_all add: disk_of_def)
  have tab: "table_of sample_proc = (\<lambda>_. None)"
    using fl by (auto simp: fun_eq_iff table_of_def Let_def)
  define h where "h = bytes ''hi''"
  define n where "n = bytes ''no''"
  have "[2..7] = [2, 3, 4, 5, 6, 7 :: int]" by (simp add: upto_rec_numeral)
  then have "\<exists>t. file_run (disk_of sample_proc) ?xs (\<lambda>_. None) =
      ([(2, []), (2, bytes ''yo''), (-1, []), (1, [10]), (0, []), (0, []), (-1, [])], t)"
    using disk unfolding h_def [symmetric] n_def [symmetric] by (simp add: slice_def)
  then show ?thesis using file_calls_refine [OF ok ops, of "\<lambda>_ _. 0" "[]"] unfolding tab by auto
qed

end
