(* ===== verification/Process.thy ===== *)
theory Process
  imports SysCalls
begin

text \<open>
  Processes: \<open>execute\<close> and \<open>halt\<close> of \<^verbatim>\<open>system_calls.c\<close>. A call that leaves through \<^verbatim>\<open>iret\<close> or by
  switching stacks does not return to its caller, so both have an outcome type. The command
  is the caller's memory from the pointer on; a null pointer is not among the arguments.
\<close>

section \<open>Constants (system_calls.c)\<close>

definition MAGIC_NUM_LEN :: nat where "MAGIC_NUM_LEN = 4"
definition ENTRY_PT_START :: nat where "ENTRY_PT_START = 24"
definition ENTRY_PT_LEN :: nat where "ENTRY_PT_LEN = 4"
definition SIZE_OF_BYTE :: nat where "SIZE_OF_BYTE = 8"
definition PROG_IMG_OFFSET :: u32 where "PROG_IMG_OFFSET = 0x00048000"
definition EXCEPTION_RET_VAL :: u32 where "EXCEPTION_RET_VAL = 256"
definition MAX_FILENAME_LEN :: nat where "MAX_FILENAME_LEN = 32"

definition file_check :: "u8 list" where
  "file_check = [0x7f, 0x45, 0x4c, 0x46]"

lemmas exec_consts = MAGIC_NUM_LEN_def ENTRY_PT_START_def ENTRY_PT_LEN_def SIZE_OF_BYTE_def
  PROG_IMG_OFFSET_def EXCEPTION_RET_VAL_def MAX_FILENAME_LEN_def

section \<open>execute\<close>

text \<open>The file name up to the first space; the result is \<open>arg_start_idx\<close> and the name array.\<close>

function scan_name :: "u8 list \<Rightarrow> nat \<Rightarrow> nat \<Rightarrow> u8 list \<Rightarrow> (nat \<times> u8 list) option" where
  "scan_name command cmd_len i filename =
     (if i < cmd_len then
        (case rd command i of
           None \<Rightarrow> None
         | Some c \<Rightarrow>
             if c = 32 then Some (i + 1, filename)
             else (case wr filename i c of
                     None \<Rightarrow> None
                   | Some filename \<Rightarrow> scan_name command cmd_len (i + 1) filename))
      else Some (0, filename))"
  by pat_completeness auto
termination by (relation "measure (\<lambda>(c, n, i, f). n - i)") auto

declare scan_name.simps [simp del]

definition copy_args :: "u8 list \<Rightarrow> nat \<Rightarrow> nat \<Rightarrow> u8 list \<Rightarrow> u8 list option" where
  "copy_args command arg_start_idx cmd_len arg0 =
     for_each [arg_start_idx..<cmd_len]
       (\<lambda>i a. do { c \<leftarrow> rd command i; wr a (i - arg_start_idx) c }) arg0"

text \<open>The parsing of the command: \<open>None\<close> in the result is the early return of -1.\<close>

definition parse_command :: "u8 list \<Rightarrow> (u8 list \<times> u8 list \<times> nat \<times> nat) option option" where
  "parse_command command =
     do {
       cmd_len \<leftarrow> strlen command;
       if EXEC_ARG_LEN < cmd_len then Some None
       else do {
         (arg_start_idx, filename) \<leftarrow> scan_name command cmd_len 0 (replicate MAX_FILENAME_LEN 0);
         a \<leftarrow> (if arg_start_idx \<noteq> 0
              then copy_args command arg_start_idx cmd_len (replicate EXEC_ARG_LEN 0)
              else Some (replicate EXEC_ARG_LEN 0));
         Some (Some (filename, a, arg_start_idx, cmd_len))
       }
     }"

definition is_executable :: "u8 list \<Rightarrow> bool" where
  "is_executable header \<longleftrightarrow> list_all (\<lambda>i. header ! i = file_check ! i) [0..<MAGIC_NUM_LEN]"

definition entry_point_of :: "u8 list \<Rightarrow> u32" where
  "entry_point_of header =
     fold (\<lambda>i e. e OR push_bit (i * SIZE_OF_BYTE) (ucast (header ! (i + ENTRY_PT_START)) AND 0xFF))
       [0..<ENTRY_PT_LEN] 0"

text \<open>\<open>read_data\<close> into a local array that starts out with whatever the stack holds.\<close>

definition read_header :: "u32 \<Rightarrow> machine \<Rightarrow> (u8 list \<times> machine) option" where
  "read_header inode s =
     do {
       (r, out, s') \<leftarrow> read_data inode 0 (of_nat (ENTRY_PT_START + ENTRY_PT_LEN)) s;
       header \<leftarrow> wr_bytes (map (stack_junk s) [0..<ENTRY_PT_START + ENTRY_PT_LEN]) 0 out;
       Some (header, s')
     }"

definition init_pcb :: "int \<Rightarrow> pcb \<Rightarrow> pcb" where
  "init_pcb pid p =
     p\<lparr>in_use := 1, fd_array := replicate (nat FD_ARRAY_LENGTH) zero_fd, process_id := pid,
       ebp_val := 0, esp_val := 0\<rparr>"

definition stdio_fd :: "fd_element \<Rightarrow> fd_element" where
  "stdio_fd e = e\<lparr>file_op_table_ptr := Some TerminalOps, flags := 1\<rparr>"

definition set_parent :: "u32 \<Rightarrow> u32 \<Rightarrow> machine \<Rightarrow> machine option" where
  "set_parent pid new_pcb s =
     (if pid < of_int MAX_TERMINALS
      then do {
        s \<leftarrow> (if pid = 0
              then do {
                let s = s\<lparr>active_terminal := 0\<rparr>;
                s \<leftarrow> upd_pcb (get_pcb_ptr 1) (\<lambda>p. p\<lparr>in_use := 1\<rparr>) s;
                upd_pcb (get_pcb_ptr 2) (\<lambda>p. p\<lparr>in_use := 1\<rparr>) s
              }
              else Some s);
        upd_pcb new_pcb (\<lambda>p. p\<lparr>parent_process_id := -1\<rparr>) s
      }
      else upd_pcb new_pcb
        (\<lambda>p. p\<lparr>parent_process_id := uint (active_pid (terminals s (active_terminal s)))\<rparr>) s)"

datatype exec_outcome =
    ExecReturn int machine
  | ExecUser u32 machine
  | ExecWaiting u32 machine

fun exec_wait :: "interference \<Rightarrow> u32 \<Rightarrow> machine \<Rightarrow> exec_outcome option" where
  "exec_wait [] entry s =
     Some (if active_terminal s = scheduled_terminal s then ExecUser entry s else ExecWaiting entry s)"
| "exec_wait (e # env) entry s =
     (if active_terminal s = scheduled_terminal s then Some (ExecUser entry s)
      else case e s of None \<Rightarrow> None | Some s \<Rightarrow> exec_wait env entry s)"

text \<open>From the assigned process id on: page, image, control block, context switch.\<close>

definition exec_setup :: "u32 \<Rightarrow> u32 \<Rightarrow> u8 list \<Rightarrow> bool \<Rightarrow> machine \<Rightarrow> machine option" where
  "exec_setup pid inode arg_buf copy_arg s =
     do {
       let s = map_program (sint pid) s;
       (r, image, s) \<leftarrow> read_data inode 0 (of_int FOUR_MB) s;
       s \<leftarrow> store_bytes (ADDR_128MB + PROG_IMG_OFFSET) image s;
       let new_pcb = get_pcb_ptr (sint pid);
       s \<leftarrow> upd_pcb new_pcb (init_pcb (sint pid)) s;
       s \<leftarrow> set_parent pid new_pcb s;
       s \<leftarrow> (if copy_arg
             then do {
               p \<leftarrow> get_pcb new_pcb s;
               a \<leftarrow> strcpy (arg p) arg_buf;
               upd_pcb new_pcb (\<lambda>p. p\<lparr>arg := a\<rparr>) s
             }
             else Some s);
       s \<leftarrow> upd_pcb new_pcb
             (\<lambda>p. p\<lparr>fd_array := (fd_array p)[STDIN_FD := stdio_fd (fd_array p ! STDIN_FD),
                                     STDOUT_FD := stdio_fd (fd_array p ! STDOUT_FD)]\<rparr>) s;
       let s = s\<lparr>tss_esp0 := of_int EIGHT_MB - of_int EIGHT_KB * pid - 4\<rparr>;
       s \<leftarrow> upd_pcb new_pcb (\<lambda>p. p\<lparr>ebp_val := cpu_ebp s, esp_val := cpu_esp s\<rparr>) s;
       let s = s\<lparr>current_pcb := new_pcb\<rparr>;
       p \<leftarrow> get_pcb new_pcb s;
       Some (upd_term (active_terminal s) (\<lambda>t. t\<lparr>active_pid := of_int (process_id p)\<rparr>) s)
     }"

definition execute :: "interference \<Rightarrow> u8 list \<Rightarrow> machine \<Rightarrow> exec_outcome option" where
  "execute env command s =
     do {
       parsed \<leftarrow> parse_command command;
       case parsed of
         None \<Rightarrow> Some (ExecReturn (-1) s)
       | Some (filename, arg_buf, arg_start_idx, cmd_len) \<Rightarrow> do {
           (r, file_dentry) \<leftarrow> read_dentry_by_name filename (blank_dentry s) s;
           if r \<noteq> 0 then Some (ExecReturn (-1) s)
           else do {
             (header, s) \<leftarrow> read_header (inodeNumber file_dentry) s;
             if \<not> is_executable header then Some (ExecReturn (-1) s)
             else do {
               let entry_point = entry_point_of header;
               pid \<leftarrow> (if initialized_terminals s (active_terminal s) = 0
                             then Some (ucast (active_terminal s))
                             else map_option of_int (get_pid s));
               if pid = -1 then Some (ExecReturn (-1) s)
               else do {
                 s \<leftarrow> exec_setup pid (inodeNumber file_dentry) arg_buf (arg_start_idx < cmd_len) s;
                 if initialized_terminals s (active_terminal s) = 0
                 then exec_wait env entry_point
                   (s\<lparr>initialized_terminals := (initialized_terminals s)(active_terminal s := 1)\<rparr>)
                 else Some (ExecUser entry_point s)
               }
             }
           }
         }
     }"

section \<open>halt\<close>

text \<open>
  A halted child makes the parent's pending \<open>execute\<close> return a value on the saved stack; a
  halted base shell starts a new one.
\<close>

datatype halt_outcome =
    HaltResume u32 u32 u32 machine \<comment> \<open>return value, saved ESP and EBP\<close>
  | HaltShell exec_outcome

definition close_all :: "machine \<Rightarrow> machine option" where
  "close_all s =
     for_each [0..<nat FD_ARRAY_LENGTH] (\<lambda>i s. do { (r, s) \<leftarrow> sys_close (int i) s; Some s }) s"

definition halt_to_parent :: "u32 \<Rightarrow> u32 \<Rightarrow> u32 \<Rightarrow> machine \<Rightarrow> halt_outcome option" where
  "halt_to_parent ret_val esp ebp s =
     do {
       p \<leftarrow> get_pcb (current_pcb s) s;
       let parent_pcb = get_pcb_ptr (parent_process_id p);
       let s = s\<lparr>tss_esp0 := of_int EIGHT_MB - of_int EIGHT_KB * of_int (parent_process_id p) - 4\<rparr>;
       s \<leftarrow> upd_pcb (current_pcb s) (\<lambda>p. p\<lparr>parent_process_id := 0, process_id := 0\<rparr>) s;
       parent \<leftarrow> get_pcb parent_pcb s;
       let s = map_program (process_id parent) s;
       let s = s\<lparr>current_pcb := parent_pcb\<rparr>;
       let s = upd_term (scheduled_terminal s) (\<lambda>t. t\<lparr>active_pid := of_int (process_id parent)\<rparr>) s;
       Some (HaltResume ret_val esp ebp (sti s))
     }"

definition halt_status :: "u8 \<Rightarrow> machine \<Rightarrow> u32 \<times> machine" where
  "halt_status status s =
     (if exception_in_child s \<noteq> 0 then (EXCEPTION_RET_VAL, s\<lparr>exception_in_child := 0\<rparr>)
      else (ucast status, s))"

definition halt :: "interference \<Rightarrow> u8 \<Rightarrow> machine \<Rightarrow> halt_outcome option" where
  "halt env status s =
     do {
       p \<leftarrow> get_pcb (current_pcb s) s;
       let (ret_val, s) = halt_status status s;
       s \<leftarrow> close_all s;
       let s = cli s;
       s \<leftarrow> upd_pcb (current_pcb s) (\<lambda>p. p\<lparr>ebp_val := 0, esp_val := 0, in_use := 0\<rparr>) s;
       q \<leftarrow> get_pcb (current_pcb s) s;
       if process_id q < MAX_TERMINALS
       then do {
         s \<leftarrow> upd_pcb (current_pcb s) (\<lambda>p. p\<lparr>parent_process_id := 0, process_id := 0\<rparr>) s;
         let s = s\<lparr>current_pcb := 0\<rparr>;
         let s = sti (s\<lparr>tss_esp0 := of_int EIGHT_MB - of_int EIGHT_KB * of_int (process_id q) - 4\<rparr>);
         r \<leftarrow> execute env (bytes ''shell'' @ [0]) s;
         case r of
           ExecReturn v s \<Rightarrow> halt_to_parent ret_val (esp_val p) (ebp_val p) s
         | _ \<Rightarrow> Some (HaltShell r)
       }
       else halt_to_parent ret_val (esp_val p) (ebp_val p) s
     }"

end
