(* ===== verification/ProcessFacts.thy ===== *)
theory ProcessFacts
  imports SysCallFacts Process
begin

text \<open>
  What \<open>execute\<close> and \<open>halt\<close> do: the parsed command line, the program image in memory, the control
  block of the new process, the return to the parent, and the cases in which they fail.
\<close>

section \<open>The command line\<close>

definition cmd_name :: "u8 list \<Rightarrow> u8 list" where
  "cmd_name cs = takeWhile (\<lambda>c. c \<noteq> 32) cs"

definition cmd_args :: "u8 list \<Rightarrow> u8 list" where
  "cmd_args cs = drop (Suc (length (cmd_name cs))) cs"

lemma scan_name_eq:
  assumes "n \<le> length command"
  shows "i \<le> n \<Longrightarrow> scan_name command n i f =
    (let r = cmd_name (drop i (take n command))
     in if i + length r \<le> length f \<or> r = []
        then Some (if i + length r < n then i + length r + 1 else 0, if r = [] then f else take i f @ r @ drop (i + length r) f)
        else None)"
proof (induction "n - i" arbitrary: i f)
  case 0
  then have "n = i" by simp
  then show ?case by (simp add: scan_name.simps [of command i i] cmd_name_def)
next
  case (Suc k)
  then have i: "i < n" "k = n - Suc i" "i < length command" using assms by auto
  have d: "drop i (take n command) = command ! i # drop (Suc i) (take n command)"
    using i by (simp add: Cons_nth_drop_Suc [symmetric])
  show ?case
  proof (cases "command ! i = 32")
    case True
    then show ?thesis using i d by (simp add: scan_name.simps [of command n i] cmd_name_def)
  next
    case False
    let ?r = "cmd_name (drop (Suc i) (take n command))"
    have r: "cmd_name (drop i (take n command)) = command ! i # ?r" using False d by (simp add: cmd_name_def)
    show ?thesis
    proof (cases "i < length f")
      case True
      have s: "scan_name command n i f = scan_name command n (Suc i) (f[i := command ! i])"
        using True False i by (simp add: scan_name.simps [of command n i])
      show ?thesis unfolding s r using Suc.hyps(1) [of "Suc i" "f[i := command ! i]"] i True
        by (auto simp: Let_def take_Suc_conv_app_nth) (simp_all add: upd_conv_take_nth_drop)
    next
      case F: False
      then show ?thesis unfolding r using False i by (simp add: scan_name.simps [of command n i])
    qed
  qed
qed

lemma copy_args_eq:
  assumes "st \<le> n" "n \<le> length command" "n - st \<le> length a"
  shows "copy_args command st n a = Some (drop st (take n command) @ drop (n - st) a)"
proof -
  have "for_each [st..<st + k] (\<lambda>i a. do { c \<leftarrow> rd command i; wr a (i - st) c }) a =
      Some (take k (drop st command) @ drop k a)" if "k \<le> n - st" for k
    using that
  proof (induction k)
    case (Suc k)
    then have k: "st + k < length command" "k < length a" using assms by auto
    then have "(take k (drop st command) @ drop k a)[k := command ! (st + k)] =
        take (Suc k) (drop st command) @ drop (Suc k) a"
      by (simp add: list_update_append take_Suc_conv_app_nth Cons_nth_drop_Suc [of k a, symmetric])
    then show ?case using Suc k by (simp add: for_each_append)
  qed simp
  from this [of "n - st"] show ?thesis using assms by (simp add: copy_args_def drop_take)
qed

definition padded :: "nat \<Rightarrow> u8 list \<Rightarrow> u8 list" where
  "padded n xs = xs @ replicate (n - length xs) 0"

lemma parse_command_eq:
  assumes "terminated command" "cs = cstr command"
  shows "parse_command command =
    (if 128 < length cs then Some None
     else if 32 < length (cmd_name cs) then None
     else Some (Some (padded 32 (cmd_name cs), padded 128 (cmd_args cs),
       if length (cmd_name cs) < length cs then length (cmd_name cs) + 1 else 0, length cs)))"
proof -
  have l: "length cs < length command" using length_cstr_terminated assms by simp
  have t: "take (length cs) command = cs"
    using cstr_decomp [OF assms(1)] assms(2) by (metis append_eq_conv_conj)
  have n: "length (cmd_name cs) \<le> length cs" by (simp add: cmd_name_def length_takeWhile_le)
  have s: "scan_name command (length cs) 0 (replicate 32 0) =
      (if length (cmd_name cs) \<le> 32 then Some (if length (cmd_name cs) < length cs then length (cmd_name cs) + 1 else 0,
         padded 32 (cmd_name cs)) else None)"
    using scan_name_eq [of "length cs" command 0 "replicate 32 0"] l
    by (auto simp: t Let_def padded_def)
  have a: "copy_args command (Suc (length (cmd_name cs))) (length cs) (replicate 128 0) = Some (padded 128 (cmd_args cs))"
    if "length (cmd_name cs) < length cs" "length cs \<le> 128"
    using copy_args_eq [of "Suc (length (cmd_name cs))" "length cs" command "replicate 128 0"] l that
    by (simp add: t cmd_args_def padded_def)
  have e: "cmd_args cs = []" if "\<not> length (cmd_name cs) < length cs" using that by (simp add: cmd_args_def)
  show ?thesis
    using s a e n assms by (auto simp: parse_command_def strlen_eq EXEC_ARG_LEN_def MAX_FILENAME_LEN_def padded_def)
qed


lemma ucast_and_FF: "(ucast (b :: u8) :: u32) AND 0xFF = ucast b"
proof -
  have "(0xFF :: u32) = mask 8" by (simp add: mask_eq_exp_minus_1)
  then show ?thesis by (simp add: bit_eq_iff bit_and_iff bit_ucast_iff bit_mask_iff) (auto dest: bit_imp_le_length)
qed

lemma entry_point_of_eq: "entry_point_of h = le32 (h ! 24) (h ! 25) (h ! 26) (h ! 27)"
  by (simp add: entry_point_of_def exec_consts upt_rec ucast_and_FF le32_def or.assoc)

lemma read_header_eq:
  assumes "fs_wf s" "numInodes s = Some m" "n < m"
  shows "read_header n s = Some (take 28 (file_content s n) @
    drop (length (take 28 (file_content s n))) (map (stack_junk s) [0..<28]), s)"
proof -
  have "read_data n 0 28 s = Some (int (length (take 28 (file_content s n))), take 28 (file_content s n), s)"
    using read_data_eq [OF assms, of 0 28] by (simp add: slice_def)
  then show ?thesis by (simp add: read_header_def exec_consts wr_bytes_def)
qed

lemma is_executable_iff: "4 \<le> length h \<Longrightarrow> is_executable h \<longleftrightarrow> take 4 h = file_check"
proof -
  assume "4 \<le> length h"
  then obtain a b c d r where "h = a # b # c # d # r" by (auto simp: numeral_eq_Suc Suc_le_length_iff)
  then show ?thesis by (auto simp: is_executable_def exec_consts upt_rec file_check_def)
qed

text \<open>What \<open>exec_setup\<close> makes of the machine once the image is in memory.\<close>

definition exec_pcb :: "nat \<Rightarrow> int \<Rightarrow> u8 list option \<Rightarrow> machine \<Rightarrow> pcb" where
  "exec_pcb p parent a s = (pcbs s (get_pcb_ptr (int p)))
     \<lparr>in_use := 1, process_id := int p, parent_process_id := parent,
      arg := (case a of None \<Rightarrow> arg (pcbs s (get_pcb_ptr (int p)))
        | Some a \<Rightarrow> cstr a @ 0 # drop (Suc (length (cstr a))) (arg (pcbs s (get_pcb_ptr (int p))))),
      fd_array := replicate 2 (stdio_fd zero_fd) @ replicate 6 zero_fd,
      ebp_val := cpu_ebp s, esp_val := cpu_esp s\<rparr>"

definition reserve_shells :: "machine \<Rightarrow> machine" where
  "reserve_shells s = s\<lparr>active_terminal := 0,
     pcbs := (pcbs s)(get_pcb_ptr 1 := (pcbs s (get_pcb_ptr 1))\<lparr>in_use := 1\<rparr>,
                      get_pcb_ptr 2 := (pcbs s (get_pcb_ptr 2))\<lparr>in_use := 1\<rparr>)\<rparr>"

definition parent_of :: "nat \<Rightarrow> machine \<Rightarrow> int" where
  "parent_of p s = (if p < 3 then -1 else uint (active_pid (terminals s (active_terminal s))))"

definition installed :: "nat \<Rightarrow> u8 list option \<Rightarrow> machine \<Rightarrow> machine" where
  "installed p a s0 =
     (let s = (if p = 0 then reserve_shells s0 else s0)
      in upd_term (active_terminal s) (\<lambda>t. t\<lparr>active_pid := of_nat p\<rparr>)
          (s\<lparr>tss_esp0 := 0x7FFFFC - 0x2000 * of_nat p,
             pcbs := (pcbs s)(get_pcb_ptr (int p) := exec_pcb p (parent_of p s0) a s),
             current_pcb := get_pcb_ptr (int p)\<rparr>))"

lemma pid_cases: "p < 6 \<Longrightarrow> p = 0 \<or> p = 1 \<or> p = 2 \<or> p = 3 \<or> p = 4 \<or> (p :: nat) = 5"
  by arith

lemma pcb_ptrs_mapped: "p < 6 \<Longrightarrow> pcb_mapped (get_pcb_ptr (int p))"
  by simp

lemma map_program_same:
  "pcbs (map_program pid s) = pcbs s" "terminals (map_program pid s) = terminals s"
  "active_terminal (map_program pid s) = active_terminal s" "cpu_esp (map_program pid s) = cpu_esp s"
  "cpu_ebp (map_program pid s) = cpu_ebp s" "fs_image (map_program pid s) = fs_image s"
  "inode_start (map_program pid s) = inode_start s" "datablock_start (map_program pid s) = datablock_start s"
  "initialized_terminals (map_program pid s) = initialized_terminals s"
  "scheduled_terminal (map_program pid s) = scheduled_terminal s" "exception_in_child (map_program pid s) = exception_in_child s"
  by (simp_all add: map_program_def)

lemma fds_start:
  "(replicate 8 zero_fd)[0 := a, Suc 0 := b] = [a, b] @ replicate 6 zero_fd"
  "replicate 2 z = [z, z]"
  "(replicate 8 zero_fd) ! 0 = zero_fd" "(replicate 8 zero_fd) ! Suc 0 = zero_fd"
  by (simp_all add: numeral_eq_Suc)

lemma exec_setup_eq:
  assumes "paging_wf s" "fs_wf s" "numInodes s = Some m" "n < m" "p < 6"
    and size: "length (file_content s n) \<le> 0x3B8000"
    and args: "copy \<longrightarrow> terminated a \<and> length (cstr a) < length (arg (pcbs s (get_pcb_ptr (int p))))"
  shows "\<exists>s1. stored 0x48000 (file_content s n) (map_program (int p) s) s1 \<and>
    exec_setup (of_nat p) n a copy s = Some (installed p (if copy then Some a else None) s1)"
proof -
  let ?s0 = "map_program (int p) s"
  have sp: "sint (of_nat p :: u32) = int p" using pid_cases [OF assms(5)] by auto
  have f0: "fs_wf ?s0" "numInodes ?s0 = Some m" "file_content ?s0 n = file_content s n"
    using fs_upd [of ?s0 s] assms(2,3) by (simp_all add: map_program_same)
  have r: "read_data n 0 0x400000 ?s0 = Some (int (length (file_content s n)), file_content s n, ?s0)"
    using read_data_eq [OF f0(1,2) assms(4), of 0 "0x400000"] size f0(3) by (simp add: slice_def)
  have a: "(0x8048000 :: u32) = 0x8000000 + of_nat 0x48000" by simp
  obtain s1 where s1: "store_bytes 0x8048000 (file_content s n) ?s0 = Some s1" "stored 0x48000 (file_content s n) ?s0 s1"
    using store_bytes_user [OF map_program_wf [OF assms(1)], of "0x48000" "file_content s n" "int p"] size unfolding a by auto
  have same: "pcbs s1 = pcbs s" using stored_fields(2) [OF s1(2)] by (simp add: map_program_same)
  have c: "strcpy (arg (pcbs s1 (get_pcb_ptr (int p)))) a =
      Some (cstr a @ 0 # drop (Suc (length (cstr a))) (arg (pcbs s1 (get_pcb_ptr (int p)))))" if copy
    using args that by (simp add: strcpy_eq same)
  have lt: "of_nat p < (of_int MAX_TERMINALS :: u32) \<longleftrightarrow> p < 3" "(of_nat p :: u32) = 0 \<longleftrightarrow> p = 0"
    "(of_nat p :: u32) < 3 \<longleftrightarrow> p < 3"
    using pid_cases [OF assms(5)] by (auto simp: MAX_TERMINALS_def)
  have "exec_setup (of_nat p) n a copy s = Some (installed p (if copy then Some a else None) s1)"
  proof (cases "p = 0")
    case False
    have m: "pcb_mapped (get_pcb_ptr (int p))" using assms(5) by simp
    show ?thesis
      using False m c
      by (auto simp: exec_setup_def sp FOUR_MB_def ADDR_128MB_def PROG_IMG_OFFSET_def r s1 upd_pcb_def get_pcb_def lt
        set_parent_def installed_def exec_pcb_def parent_of_def Let_def size_consts init_pcb_def sys_consts stdio_fd_def same fds_start)
  next
    case True
    then have z: "of_nat p = (0 :: u32)" "int p = 0" by simp_all
    have ne: "get_pcb_ptr 0 \<noteq> get_pcb_ptr 1" "get_pcb_ptr 0 \<noteq> get_pcb_ptr 2" "get_pcb_ptr 1 \<noteq> get_pcb_ptr 2"
      by (simp_all add: pcb_ptrs)
    have m: "pcb_mapped (get_pcb_ptr 0)" "pcb_mapped (get_pcb_ptr 1)" "pcb_mapped (get_pcb_ptr 2)"
      by (simp_all add: pcb_ptrs pcb_mapped_def)
    show ?thesis
      using ne m c sp r s1 same unfolding z True
      by (auto simp: exec_setup_def FOUR_MB_def ADDR_128MB_def PROG_IMG_OFFSET_def upd_pcb_def get_pcb_def
        set_parent_def installed_def exec_pcb_def parent_of_def reserve_shells_def Let_def size_consts init_pcb_def
        sys_consts stdio_fd_def fds_start fun_upd_twist)
  qed
  then show ?thesis using s1 by blast
qed


lemma cmd_name_nz: "0 \<notin> set cs \<Longrightarrow> 0 \<notin> set (cmd_name cs)"
  by (auto simp: cmd_name_def dest: set_takeWhileD)

lemma length_cmd_args: "length cs \<le> 128 \<Longrightarrow> length (cmd_args cs) < 128"
  by (simp add: cmd_args_def)

lemma padded_terminated: "length xs < n \<Longrightarrow> terminated (padded n xs)"
  by (auto simp: padded_def terminated_def)

lemma padded_cstr: "length xs < n \<Longrightarrow> 0 \<notin> set xs \<Longrightarrow> cstr (padded n xs) = xs"
proof -
  assume a: "length xs < n" "0 \<notin> set xs"
  then obtain k where "n - length xs = Suc k" by (metis Suc_diff_Suc)
  then show ?thesis using cstr_append [of xs "replicate k 0"] a(2) by (simp add: padded_def cstr_no_zero)
qed

definition find_file :: "machine \<Rightarrow> u8 list \<Rightarrow> dentry option" where
  "find_file s name = find (\<lambda>e. entry_name e = name) (dir_entries s)"

definition header_of :: "machine \<Rightarrow> u32 \<Rightarrow> u8 list" where
  "header_of s n = take 28 (file_content s n) @ drop (length (take 28 (file_content s n))) (map (stack_junk s) [0..<28])"

text \<open>The process id \<open>execute\<close> settles on: -1 as a 32-bit value when there is none.\<close>

definition chosen_pid :: "machine \<Rightarrow> u32" where
  "chosen_pid s =
     (if initialized_terminals s (active_terminal s) = 0 then ucast (active_terminal s)
      else case next_pid s of None \<Rightarrow> -1 | Some i \<Rightarrow> of_nat i)"

lemma execute_eq:
  assumes "fs_wf s" "terminated command" "cs = cstr command" "length cs \<le> 128" "length (cmd_name cs) < 32"
    and "numInodes s = Some m" "\<And>d. find_file s (cmd_name cs) = Some d \<Longrightarrow> inodeNumber d < m"
    and that: "s0 = s"
  shows "execute env command s =
    (case find_file s (cmd_name cs) of
       None \<Rightarrow> Some (ExecReturn (-1) s)
     | Some d \<Rightarrow>
         if \<not> is_executable (header_of s (inodeNumber d)) \<or> chosen_pid s = -1 then Some (ExecReturn (-1) s)
         else do {
           s \<leftarrow> exec_setup (chosen_pid s) (inodeNumber d) (padded 128 (cmd_args cs))
             (length (cmd_name cs) + 1 < length cs \<or> length (cmd_name cs) = length cs \<and> cs \<noteq> []) s;
           if initialized_terminals s (active_terminal s) = 0
           then exec_wait env (entry_point_of (header_of s0 (inodeNumber d)))
             (s\<lparr>initialized_terminals := (initialized_terminals s)(active_terminal s := 1)\<rparr>)
           else Some (ExecUser (entry_point_of (header_of s0 (inodeNumber d))) s)
         })"
proof -
  have nz: "0 \<notin> set (cmd_name cs)" using cmd_name_nz zero_notin_cstr assms(3) by blast
  have n: "terminated (padded 32 (cmd_name cs))" "cstr (padded 32 (cmd_name cs)) = cmd_name cs"
    using padded_terminated padded_cstr nz assms(5) by blast+
  have le: "length (cmd_name cs) \<le> length cs" by (simp add: cmd_name_def length_takeWhile_le)
  have p: "parse_command command = Some (Some (padded 32 (cmd_name cs), padded 128 (cmd_args cs),
       if length (cmd_name cs) < length cs then length (cmd_name cs) + 1 else 0, length cs))"
    using parse_command_eq [OF assms(2,3)] assms(4,5) by simp
  have l: "read_dentry_by_name (padded 32 (cmd_name cs)) (blank_dentry s) s =
      (case find_file s (cmd_name cs) of None \<Rightarrow> Some (-1, blank_dentry s)
       | Some e \<Rightarrow> Some (0, e\<lparr>reserved := reserved (blank_dentry s)\<rparr>))"
    using read_dentry_by_name_eq [OF assms(1) n(1), of "blank_dentry s"] assms(5) by (simp add: n(2) find_file_def)
  have h: "read_header (inodeNumber d) s = Some (header_of s (inodeNumber d), s)" if "find_file s (cmd_name cs) = Some d" for d
    using read_header_eq [OF assms(1,6) assms(7) [OF that]] by (simp add: header_of_def)
  have g: "map_option of_int (get_pid s) = Some (case next_pid s of None \<Rightarrow> (-1 :: u32) | Some i \<Rightarrow> of_nat i)"
    by (simp add: get_pid_eq split: option.split)
  have pid: "(if initialized_terminals s (active_terminal s) = 0 then Some (ucast (active_terminal s))
      else map_option of_int (get_pid s)) = Some (chosen_pid s)"
    unfolding g chosen_pid_def by simp
  show ?thesis
  proof (cases "find_file s (cmd_name cs)")
    case None
    then show ?thesis using p l by (simp add: execute_def)
  next
    case (Some d)
    have le': "length (cmd_name cs) = length cs \<longleftrightarrow> \<not> length (cmd_name cs) < length cs" using le by auto
    show ?thesis unfolding that using p l h [OF Some] pid Some
      by (simp add: execute_def Let_def le' del: map_option_eq_Some)
  qed
qed

definition new_args :: "u8 list \<Rightarrow> u8 list option" where
  "new_args cs =
     (if length (cmd_name cs) + 1 < length cs \<or> length (cmd_name cs) = length cs \<and> cs \<noteq> []
      then Some (padded 128 (cmd_args cs)) else None)"

definition program_file :: "machine \<Rightarrow> u32 \<Rightarrow> bool" where
  "program_file s n \<longleftrightarrow> 28 \<le> length (file_content s n) \<and> length (file_content s n) \<le> 0x3B8000 \<and>
     take 4 (file_content s n) = file_check"

lemma program_header:
  assumes "program_file s n"
  shows "is_executable (header_of s n)" "header_of s n = take 28 (file_content s n)"
proof -
  show h: "header_of s n = take 28 (file_content s n)" using assms by (simp add: header_of_def program_file_def)
  show "is_executable (header_of s n)"
    using assms is_executable_iff [of "header_of s n"] by (simp add: h program_file_def)
qed

definition entry_point :: "machine \<Rightarrow> u32 \<Rightarrow> u32" where
  "entry_point s n = le32 (file_content s n ! 24) (file_content s n ! 25) (file_content s n ! 26) (file_content s n ! 27)"

lemma entry_point_header: "program_file s n \<Longrightarrow> entry_point_of (header_of s n) = entry_point s n"
  by (simp add: program_header entry_point_of_eq entry_point_def program_file_def)

lemma installed_sel:
  "current_pcb (installed p a s) = get_pcb_ptr (int p)"
  "frames (installed p a s) = frames s" "program_frame (installed p a s) = program_frame s"
  "video_frame (installed p a s) = video_frame s"
  "active_terminal (installed p a s) = (if p = 0 then 0 else active_terminal s)"
  "scheduled_terminal (installed p a s) = scheduled_terminal s"
  "initialized_terminals (installed p a s) = initialized_terminals s"
  "tss_esp0 (installed p a s) = 0x7FFFFC - 0x2000 * of_nat p"
  "fs_image (installed p a s) = fs_image s" "inode_start (installed p a s) = inode_start s"
  "datablock_start (installed p a s) = datablock_start s"
  "exception_in_child (installed p a s) = exception_in_child s"
  "paging_wf (installed p a s) = paging_wf s"
  by (auto simp: installed_def Let_def reserve_shells_def upd_term_def program_frame_def video_frame_def
      paging_wf_def tables_linked_def)

lemma installed_pcb:
  assumes "p < 6"
  shows "pcbs (installed p a s) (get_pcb_ptr (int p)) = exec_pcb p (parent_of p s) a s"
    "\<And>q. q < 6 \<Longrightarrow> q \<noteq> p \<Longrightarrow> p \<noteq> 0 \<Longrightarrow> pcbs (installed p a s) (get_pcb_ptr (int q)) = pcbs s (get_pcb_ptr (int q))"
proof -
  have "exec_pcb p (parent_of p s) a (reserve_shells s) = exec_pcb p (parent_of p s) a s" if "p = 0"
    using that by (simp add: exec_pcb_def reserve_shells_def pcb_ptrs split: option.split)
  then show "pcbs (installed p a s) (get_pcb_ptr (int p)) = exec_pcb p (parent_of p s) a s"
    by (simp add: installed_def Let_def upd_term_def)
  show "pcbs (installed p a s) (get_pcb_ptr (int q)) = pcbs s (get_pcb_ptr (int q))"
    if "q < 6" "q \<noteq> p" "p \<noteq> 0" for q
    using that assms pcb_ptr_inject [of q p] by (simp add: installed_def Let_def upd_term_def)
qed

lemma umem_installed: "umem (installed p a s) j = umem s j"
  by (simp add: umem_def user_frame_def installed_sel)

text \<open>\<open>execute\<close> on a program file, with a free process id and a terminal that is running.\<close>

lemma execute_program:
  assumes "paging_wf s" "fs_wf s" "terminated command" "cs = cstr command" "length cs \<le> 128"
    "length (cmd_name cs) < 32" "numInodes s = Some m" "find_file s (cmd_name cs) = Some d" "inodeNumber d < m"
    and "program_file s (inodeNumber d)" "initialized_terminals s (active_terminal s) \<noteq> 0" "next_pid s = Some p"
    and "p = 0 \<longrightarrow> initialized_terminals s 0 \<noteq> 0" "128 \<le> length (arg (pcbs s (get_pcb_ptr (int p))))"
  shows "\<exists>s1. stored 0x48000 (file_content s (inodeNumber d)) (map_program (int p) s) s1 \<and>
    execute env command s = Some (ExecUser (entry_point s (inodeNumber d)) (installed p (new_args cs) s1))"
proof -
  have p: "p < 6" using assms(12) by (simp add: next_pid_Some)
  have c: "chosen_pid s = of_nat p" "(of_nat p :: u32) \<noteq> -1"
    using assms(11,12) pid_cases [OF p] by (auto simp: chosen_pid_def)
  let ?cp = "length (cmd_name cs) + 1 < length cs \<or> length (cmd_name cs) = length cs \<and> cs \<noteq> []"
  have al: "length (cmd_args cs) < 128" using assms(5) by (rule length_cmd_args)
  have "0 \<notin> set (cmd_args cs)" using zero_notin_cstr [of command] assms(4) by (auto simp: cmd_args_def dest: in_set_dropD)
  then have a: "terminated (padded 128 (cmd_args cs))" "cstr (padded 128 (cmd_args cs)) = cmd_args cs"
    using padded_terminated padded_cstr al by blast+
  obtain s1 where s1: "stored 0x48000 (file_content s (inodeNumber d)) (map_program (int p) s) s1"
    "exec_setup (of_nat p) (inodeNumber d) (padded 128 (cmd_args cs)) ?cp s = Some (installed p (new_args cs) s1)"
    using exec_setup_eq [OF assms(1,2,7,9) p, of ?cp "padded 128 (cmd_args cs)"] assms(10,14) a al
    by (auto simp: program_file_def new_args_def)
  have i: "initialized_terminals s1 = initialized_terminals s" "active_terminal s1 = active_terminal s"
    using stored_fields [OF s1(1)] by (simp_all add: map_program_same)
  have "execute env command s = Some (ExecUser (entry_point s (inodeNumber d)) (installed p (new_args cs) s1))"
    using execute_eq [OF assms(2-7) _ refl, of env] assms(8,9,11,13) s1(2) c i
    by (simp add: program_header(1) [OF assms(10)] entry_point_header [OF assms(10)] installed_sel)
  then show ?thesis using s1(1) by blast
qed


section \<open>halt\<close>

definition closable :: "fd_element list \<Rightarrow> bool" where
  "closable fds \<longleftrightarrow> (\<forall>i < length fds. 2 \<le> i \<and> flags (fds ! i) = 1 \<longrightarrow>
     file_op_table_ptr (fds ! i) \<in> {Some FileOps, Some RtcOps, Some DirOps})"

definition closed_fds :: "nat \<Rightarrow> fd_element list \<Rightarrow> fd_element list" where
  "closed_fds n fds = map (\<lambda>i. if 2 \<le> i \<and> i < n \<and> flags (fds ! i) = 1 then zero_fd else fds ! i) [0..<length fds]"

lemma with_fd_with_fds: "with_fd n e s = with_fds ((fd_array (cur s))[n := e]) s"
  by (simp add: with_fd_def with_fds_def)

lemma close_all_eq:
  assumes "proc_ok s" "closable (fd_array (cur s))"
  shows "close_all s = Some (with_fds (closed_fds 8 (fd_array (cur s))) s)"
proof -
  let ?fds = "fd_array (cur s)"
  have l: "length ?fds = 8" using assms(1) by (simp add: proc_ok_def)
  have "for_each [0..<n] (\<lambda>i s. do { (r, s) \<leftarrow> sys_close (int i) s; Some s }) s =
      Some (with_fds (closed_fds n ?fds) s)" if "n \<le> 8" for n
    using that
  proof (induction n)
    case 0
    have "closed_fds 0 ?fds = ?fds" by (simp add: closed_fds_def map_nth)
    then show ?case by (simp add: with_fds_def)
  next
    case (Suc n)
    let ?s = "with_fds (closed_fds n ?fds) s"
    have p: "proc_ok ?s" using assms(1) l by (simp add: closed_fds_def)
    have at: "fd_array (cur ?s) ! n = ?fds ! n" using Suc.prems l by (simp add: closed_fds_def)
    have c: "sys_close (int n) ?s = Some (if 2 \<le> n \<and> flags (?fds ! n) = 1 then (0, with_fd n zero_fd ?s) else (-1, ?s))"
    proof (cases "2 \<le> n \<and> flags (?fds ! n) = 1")
      case True
      then show ?thesis
        using close_eq [OF p, of n] at assms(2) Suc.prems l by (simp add: closable_def)
    next
      case False
      then show ?thesis using p at Suc.prems
        by (auto simp: sys_close_def STDOUT_FD_def FD_ARRAY_LENGTH_def)
    qed
    have step: "(if 2 \<le> n \<and> flags (?fds ! n) = 1 then (closed_fds n ?fds)[n := zero_fd] else closed_fds n ?fds) =
        closed_fds (Suc n) ?fds"
      using Suc.prems l by (auto simp: closed_fds_def list_eq_iff_nth_eq nth_list_update less_Suc_eq)
    show ?case
      using Suc c step by (auto simp: for_each_append)
  qed
  from this [of 8] show ?thesis by (simp add: close_all_def FD_ARRAY_LENGTH_def)
qed

definition cur_done :: "machine \<Rightarrow> pcb" where
  "cur_done s = (cur s)\<lparr>fd_array := closed_fds 8 (fd_array (cur s)), ebp_val := 0, esp_val := 0, in_use := 0,
     parent_process_id := 0, process_id := 0\<rparr>"

definition returned :: "nat \<Rightarrow> int \<Rightarrow> machine \<Rightarrow> machine" where
  "returned q r s =
     sti (upd_term (scheduled_terminal s) (\<lambda>t. t\<lparr>active_pid := of_int r\<rparr>)
       (map_program r (s\<lparr>int_flag := False, exception_in_child := 0, tss_esp0 := 0x7FFFFC - 0x2000 * of_nat q,
          pcbs := (pcbs s)(current_pcb s := cur_done s),
          current_pcb := get_pcb_ptr (int q)\<rparr>)))"

lemma halt_child_eq:
  assumes "proc_ok s" "closable (fd_array (cur s))" "3 \<le> process_id (cur s)"
    and "parent_process_id (cur s) = int q" "q < 6" "get_pcb_ptr (int q) \<noteq> current_pcb s"
  shows "halt env status s = Some (HaltResume
    (if exception_in_child s \<noteq> 0 then 256 else ucast status) (esp_val (cur s)) (ebp_val (cur s))
    (returned q (process_id (pcbs s (get_pcb_ptr (int q)))) s))"
proof -
  have m: "pcb_mapped (current_pcb s)" "pcb_mapped (get_pcb_ptr (int q))" using assms(1,5) by (simp_all add: proc_ok_def)
  let ?s = "s\<lparr>exception_in_child := 0\<rparr>"
  have st: "halt_status status s = (if exception_in_child s \<noteq> 0 then 256 else ucast status, ?s)"
    by (simp add: halt_status_def EXCEPTION_RET_VAL_def)
  have p: "proc_ok ?s" "fd_array (cur ?s) = fd_array (cur s)" using assms(1) by (simp_all add: proc_ok_def)
  have c: "close_all ?s = Some (with_fds (closed_fds 8 (fd_array (cur s))) ?s)"
    using close_all_eq [OF p(1)] assms(2) p(2) by simp
  show ?thesis
    using assms(3-6) m
    by (simp add: halt_def st c get_pcb_def upd_pcb_def halt_to_parent_def MAX_TERMINALS_def Let_def cli_def
        returned_def cur_done_def size_consts with_fds_def map_program_def sti_def upd_term_def)
qed

section \<open>A sample program\<close>

definition sample_program :: "u8 list" where
  "sample_program = file_check @ replicate 20 0 @ [0x94, 0x80, 0x04, 0x08]"

definition sample_host :: machine where
  "sample_host = shell_on (bytes ''hi'') sample_program"

lemma program_fits: "fits (bytes ''hi'') sample_program"
  by (simp add: fits_def sample_program_def file_check_def)

lemma host_holds: "holds_image (bytes ''hi'') sample_program sample_host"
  unfolding sample_host_def by (rule shell_holds [OF program_fits])

lemmas host_proc = shell_proc [OF program_fits, folded sample_host_def]
lemmas host_terminals = shell_terminals [OF program_fits, folded sample_host_def]

lemma host_find: "find_file sample_host (bytes ''hi'') = Some sample_entry"
proof -
  have e: "dir_entries sample_host = [sample_entry]"
    using image_entries [OF host_holds] by (simp only: sample_entry_def)
  have n: "entry_name sample_entry = bytes ''hi''"
    by (simp add: sample_entry_def named_entry_def entry_name_def cstr_def)
  show ?thesis unfolding find_file_def e by (simp only: find.simps n if_True simp_thms)
qed

lemma host_program: "program_file sample_host 0"
  using image_content [OF host_holds] by (simp add: program_file_def sample_program_def file_check_def)

lemma host_entry: "entry_point sample_host 0 = 0x8048094"
proof -
  have "le32 0x94 0x80 0x04 0x08 = 0x8048094" by (simp add: le32_def)
  then show ?thesis
    using image_content [OF host_holds] by (simp add: entry_point_def sample_program_def file_check_def nth_append)
qed

lemma sample_inode: "inodeNumber sample_entry = 0"
  by (simp add: sample_entry_def named_entry_def)

lemma sample_command:
  "terminated (bytes ''hi x'' @ [0])" "cstr (bytes ''hi x'' @ [0]) = bytes ''hi x''"
  "cmd_name (bytes ''hi x'') = bytes ''hi''" "cmd_args (bytes ''hi x'') = bytes ''x''"
  by (simp_all add: cmd_name_def cmd_args_def)

section \<open>Properties\<close>

text \<open>What \<open>exec_pcb\<close> reads of the machine.\<close>

lemma exec_pcb_cong:
  "pcbs s1 = pcbs s \<Longrightarrow> cpu_ebp s1 = cpu_ebp s \<Longrightarrow> cpu_esp s1 = cpu_esp s \<Longrightarrow>
     exec_pcb p q a s1 = exec_pcb p q a s"
  by (simp add: exec_pcb_def split: option.split)

lemma user_frame_pid: "program_frame s = get_phys_addr pid \<Longrightarrow> program_frame t = get_phys_addr pid \<Longrightarrow> user_frame s j = user_frame t j"
  by (simp add: user_frame_def)

text \<open>C1: \<open>execute\<close> of a program file, on a terminal that is running and with a free process id, puts
  the whole file at 0x08048000 of the page of the lowest free process, gives that process a control
  block with the two terminal descriptors, the new arguments, the caller's stack registers and the
  process of the active terminal as parent, points the page directory and the kernel stack at it,
  and enters user code at the address in bytes 24 to 27 of the file; no other frame is written.\<close>

theorem execute_starts_program:
  assumes "paging_wf s" "fs_wf s" "terminated command" "cs = cstr command" "length cs \<le> 128"
    "length (cmd_name cs) < 32" "numInodes s = Some m" "find_file s (cmd_name cs) = Some d" "inodeNumber d < m"
    and "program_file s (inodeNumber d)" "initialized_terminals s (active_terminal s) \<noteq> 0" "next_pid s = Some p"
    and "3 \<le> p" "128 \<le> length (arg (pcbs s (get_pcb_ptr (int p))))" "content = file_content s (inodeNumber d)"
  shows "\<exists>s1. execute env command s = Some (ExecUser (entry_point s (inodeNumber d)) s1) \<and>
    program_frame s1 = get_phys_addr (int p) \<and>
    (\<forall>i < length content. umem s1 (0x48000 + i) = content ! i) \<and>
    (\<forall>f. (\<forall>j < 0x400000. f \<noteq> user_frame s1 j) \<longrightarrow> frames s1 f = frames s f) \<and>
    current_pcb s1 = get_pcb_ptr (int p) \<and>
    cur s1 = exec_pcb p (uint (active_pid (terminals s (active_terminal s)))) (new_args cs) s \<and>
    tss_esp0 s1 = 0x7FFFFC - 0x2000 * of_nat p \<and>
    terminals s1 = (terminals s)(active_terminal s := (terminals s (active_terminal s))\<lparr>active_pid := of_nat p\<rparr>)"
proof -
  obtain s1 where s1: "stored 0x48000 content (map_program (int p) s) s1"
    "execute env command s = Some (ExecUser (entry_point s (inodeNumber d)) (installed p (new_args cs) s1))"
    using execute_program [OF assms(1-12) _ assms(14)] assms(13,15) by auto
  let ?t = "installed p (new_args cs) s1"
  have p: "p < 6" "p \<noteq> 0" using assms(12,13) by (auto simp: next_pid_Some)
  note f = stored_fields [OF s1(1)]
  have "cur ?t = exec_pcb p (parent_of p s1) (new_args cs) s1"
    using installed_pcb(1) [OF p(1)] by (simp add: installed_sel)
  moreover have "parent_of p s1 = uint (active_pid (terminals s (active_terminal s)))"
    using assms(13) f by (simp add: parent_of_def map_program_same)
  moreover have "exec_pcb p q a s1 = exec_pcb p q a s" for q a
    using f by (intro exec_pcb_cong) (simp_all add: map_program_same)
  moreover have "program_frame ?t = get_phys_addr (int p)" using f by (simp add: installed_sel)
  moreover have "umem ?t (0x48000 + i) = content ! i" if "i < length content" for i
    using s1(1) that assms(10,15) by (simp add: umem_installed stored_def program_file_def)
  moreover have "frames ?t f = frames s f" if "\<forall>j < 0x400000. f \<noteq> user_frame ?t j" for f
  proof -
    have "user_frame ?t j = user_frame (map_program (int p) s) j" for j
      using f by (intro user_frame_pid) (simp_all add: installed_sel)
    then show ?thesis using s1(1) that by (simp add: stored_def installed_sel)
  qed
  moreover have "terminals ?t = (terminals s)(active_terminal s := (terminals s (active_terminal s))\<lparr>active_pid := of_nat p\<rparr>)"
    using f p(2) by (simp add: installed_def Let_def upd_term_def map_program_same)
  ultimately show ?thesis using s1(2) by (intro exI [of _ ?t]) (simp add: installed_sel)
qed

lemma host_facts:
  "paging_wf sample_host" "fs_wf sample_host" "length (bytes ''hi x'') \<le> 128" "length (bytes ''hi'') < 32"
  "numInodes sample_host = Some 1" "inodeNumber sample_entry < 1" "program_file sample_host (inodeNumber sample_entry)"
  "initialized_terminals sample_host (active_terminal sample_host) \<noteq> 0" "next_pid sample_host = Some 3" "(3 :: nat) \<le> 3"
  "128 \<le> length (arg (pcbs sample_host (get_pcb_ptr (int 3))))"
  using host_terminals image_wf [OF host_holds] image_counts [OF host_holds] host_program host_proc
  by (simp_all add: sample_inode zero_pcb_def)

theorem execute_starts_program_witness:
  "\<exists>s1. execute [] (bytes ''hi x'' @ [0]) sample_host = Some (ExecUser 0x8048094 s1) \<and> umem s1 0x48001 = 0x45"
proof -
  note c = sample_command
  have "\<exists>s1. execute [] (bytes ''hi x'' @ [0]) sample_host = Some (ExecUser (entry_point sample_host (inodeNumber sample_entry)) s1) \<and>
     (\<forall>i < length sample_program. umem s1 (0x48000 + i) = sample_program ! i)"
    using execute_starts_program [OF host_facts(1,2) c(1) c(2) [symmetric] host_facts(3), unfolded c(3), OF host_facts(4,5)
        host_find host_facts(6-11) refl, of "[]"] image_content [OF host_holds] unfolding sample_inode by auto
  then obtain s1 where s1: "execute [] (bytes ''hi x'' @ [0]) sample_host = Some (ExecUser 0x8048094 s1)"
    "\<forall>i < length sample_program. umem s1 (0x48000 + i) = sample_program ! i"
    unfolding sample_inode host_entry by blast
  have "1 < length sample_program" "sample_program ! 1 = 0x45" by (simp_all add: sample_program_def file_check_def)
  with s1(2) have "umem s1 (0x48000 + 1) = 0x45" by metis
  with s1(1) show ?thesis by auto
qed

text \<open>C18: what \<open>execute\<close> refuses, when the command names its program in fewer than 32 characters and the
  file of that name, if there is one, has at least four bytes: it returns -1 and changes nothing when the
  command is longer than 128 characters, when no file has that name, when the file does not begin with
  the four magic bytes, and when all six process ids are taken and the displayed terminal has been
  started. (A longer name overruns the buffer, a shorter file leaves the magic bytes to what the stack
  holds, and on a terminal not yet started the id is that of the terminal, taken or not.)\<close>

theorem execute_refuses:
  assumes "fs_wf s" "terminated command" "cs = cstr command" "length (cmd_name cs) < 32" "numInodes s = Some m"
    and "\<And>d. find_file s (cmd_name cs) = Some d \<Longrightarrow> inodeNumber d < m \<and> 4 \<le> length (file_content s (inodeNumber d))"
    and "128 < length cs \<or> find_file s (cmd_name cs) = None \<or>
      (\<exists>d. find_file s (cmd_name cs) = Some d \<and> take 4 (file_content s (inodeNumber d)) \<noteq> file_check) \<or>
      initialized_terminals s (active_terminal s) \<noteq> 0 \<and> (\<forall>p < 6. pid_used s p)"
  shows "execute env command s = Some (ExecReturn (-1) s)"
proof (cases "128 < length cs")
  case True
  then show ?thesis using parse_command_eq [OF assms(2,3)] by (simp add: execute_def)
next
  case False
  have e: "\<not> is_executable (header_of s (inodeNumber d))"
    if "find_file s (cmd_name cs) = Some d" "take 4 (file_content s (inodeNumber d)) \<noteq> file_check" for d
  proof -
    have l: "4 \<le> length (file_content s (inodeNumber d))" using assms(6) that(1) by blast
    then have "4 \<le> length (header_of s (inodeNumber d))" "take 4 (header_of s (inodeNumber d)) = take 4 (file_content s (inodeNumber d))"
      by (simp_all add: header_of_def)
    then show ?thesis using is_executable_iff that(2) by metis
  qed
  have c: "chosen_pid s = -1" if "initialized_terminals s (active_terminal s) \<noteq> 0" "\<forall>p < 6. pid_used s p"
    using that next_pid_None [of s] by (simp add: chosen_pid_def)
  have i: "\<And>d. find_file s (cmd_name cs) = Some d \<Longrightarrow> inodeNumber d < m" using assms(6) by blast
  show ?thesis
    using execute_eq [OF assms(1-3) _ assms(4,5) i refl, of env] False assms(7) e c by (auto split: option.split)
qed

theorem execute_refuses_witness:
  "execute [] (bytes ''ho'' @ [0]) sample_host = Some (ExecReturn (-1) sample_host)"
proof -
  have n: "entry_name sample_entry = bytes ''hi''"
    by (simp add: sample_entry_def named_entry_def entry_name_def cstr_def)
  have "find_file sample_host (bytes ''ho'') = None"
    unfolding find_file_def image_entries [OF host_holds, folded sample_entry_def] by (simp add: n)
  then have f: "find_file sample_host (cmd_name (bytes ''ho'')) = None" by (simp add: cmd_name_def)
  have t: "terminated (bytes ''ho'' @ [0])" "bytes ''ho'' = cstr (bytes ''ho'' @ [0])" "length (cmd_name (bytes ''ho'')) < 32"
    by (simp_all add: cmd_name_def)
  show ?thesis
    by (rule execute_refuses [OF host_facts(2) t host_facts(5)]) (simp_all only: f option.distinct simp_thms)
qed

text \<open>C19: a program name of 32 characters or more, with or without arguments after it, overruns the
  32-byte array of \<open>execute\<close>: 32 characters leave it without a terminator, more are stored
  behind it. Only the length of the whole command is checked.\<close>

theorem execute_long_name_overflows:
  assumes "fs_wf s" "terminated command" "length (cstr command) \<le> 128" "32 \<le> length (cmd_name (cstr command))"
  shows "execute env command s = None"
proof (cases "32 < length (cmd_name (cstr command))")
  case True
  then show ?thesis using parse_command_eq [OF assms(2) refl] assms(3) by (simp add: execute_def)
next
  case False
  let ?nm = "cmd_name (cstr command)"
  have "0 \<notin> set ?nm" using cmd_name_nz zero_notin_cstr by blast
  then have "\<not> terminated (padded 32 ?nm)" using False assms(4) by (simp add: padded_def terminated_def)
  then have "read_dentry_by_name (padded 32 ?nm) (blank_dentry s) s = None"
    by (simp add: read_dentry_by_name_def strlen_eq)
  then show ?thesis using parse_command_eq [OF assms(2) refl] assms(3) False by (simp add: execute_def)
qed

theorem execute_long_name_overflows_witness: "execute [] (replicate 32 97 @ [0]) sample_host = None"
proof -
  have c: "cstr (replicate 32 97 @ [0]) = replicate 32 97"
    using cstr_append [of "replicate 32 97" "[]"] by (simp add: cstr_no_zero)
  have "takeWhile (\<lambda>c. c \<noteq> 32) (replicate 32 97) = replicate 32 (97 :: u8)"
    by (subst takeWhile_eq_all_conv) simp
  then have "length (cmd_name (replicate 32 97)) = 32" by (simp add: cmd_name_def)
  then show ?thesis
    by (intro execute_long_name_overflows [OF host_facts(2)]) (simp_all add: c terminated_def)
qed

text \<open>A command with nothing behind the space after its name does not reset the arguments: the
  program gets those of the process that had the same id before.\<close>

theorem execute_trailing_space_keeps_arguments:
  assumes "paging_wf s" "fs_wf s" "terminated command" "cstr command = nm @ [32]" "length nm < 32" "32 \<notin> set nm"
    and "numInodes s = Some m" "find_file s nm = Some d" "inodeNumber d < m" "program_file s (inodeNumber d)"
    and "initialized_terminals s (active_terminal s) \<noteq> 0" "next_pid s = Some p" "3 \<le> p"
    and "128 \<le> length (arg (pcbs s (get_pcb_ptr (int p))))"
  shows "\<exists>s1. execute env command s = Some (ExecUser (entry_point s (inodeNumber d)) s1) \<and>
    current_pcb s1 = get_pcb_ptr (int p) \<and> arg (cur s1) = arg (pcbs s (get_pcb_ptr (int p)))"
proof -
  have n: "cmd_name (nm @ [32]) = nm" using assms(6) unfolding cmd_name_def by (subst takeWhile_append2) auto
  have a: "new_args (nm @ [32]) = None" by (simp add: new_args_def n)
  obtain s1 where s1: "stored 0x48000 (file_content s (inodeNumber d)) (map_program (int p) s) s1"
    "execute env command s = Some (ExecUser (entry_point s (inodeNumber d)) (installed p None s1))"
    using execute_program [OF assms(1-3) assms(4) [symmetric], of m d p env] assms(5,7-14) n a by auto
  have "p < 6" using assms(12) by (simp add: next_pid_Some)
  then have "cur (installed p None s1) = exec_pcb p (parent_of p s1) None s1"
    using installed_pcb(1) by (simp add: installed_sel)
  moreover have "pcbs s1 = pcbs s" using stored_fields(2) [OF s1(1)] by (simp add: map_program_same)
  ultimately show ?thesis using s1(2) by (intro exI [of _ "installed p None s1"]) (simp add: exec_pcb_def installed_sel)
qed

theorem execute_trailing_space_keeps_arguments_witness:
  "\<exists>s1. execute [] (bytes ''hi '' @ [0]) sample_host = Some (ExecUser 0x8048094 s1) \<and> arg (cur s1) = replicate 128 0"
proof -
  have c: "terminated (bytes ''hi '' @ [0])" "cstr (bytes ''hi '' @ [0]) = bytes ''hi'' @ [32]" "32 \<notin> set (bytes ''hi'')"
    by simp_all
  have a: "arg (pcbs sample_host (get_pcb_ptr (int 3))) = replicate 128 0" using host_proc(4) by (simp add: zero_pcb_def)
  show ?thesis
    using execute_trailing_space_keeps_arguments [OF host_facts(1,2) c(1,2) host_facts(4) c(3) host_facts(5) host_find
        host_facts(6-11), of "[]"] unfolding sample_inode host_entry a by blast
qed

lemma halt_child:
  assumes "proc_ok s" "closable (fd_array (cur s))" "3 \<le> process_id (cur s)"
    and "parent_process_id (cur s) = int q" "q < 6" "get_pcb_ptr (int q) \<noteq> current_pcb s"
    and "process_id (pcbs s (get_pcb_ptr (int q))) = int q"
  shows "\<exists>s1. halt env status s = Some (HaltResume
      (if exception_in_child s \<noteq> 0 then 256 else ucast status) (esp_val (cur s)) (ebp_val (cur s)) s1) \<and>
    current_pcb s1 = get_pcb_ptr (int q) \<and> program_frame s1 = get_phys_addr (int q) \<and>
    tss_esp0 s1 = 0x7FFFFC - 0x2000 * of_nat q \<and> exception_in_child s1 = 0 \<and> int_flag s1 \<and>
    in_use (pcbs s1 (current_pcb s)) = 0 \<and>
    (\<forall>e \<in> set (drop 2 (fd_array (pcbs s1 (current_pcb s)))). flags e \<noteq> 1) \<and>
    (\<forall>a. a \<noteq> current_pcb s \<longrightarrow> pcbs s1 a = pcbs s a) \<and>
    active_pid (terminals s1 (scheduled_terminal s)) = of_nat q \<and> frames s1 = frames s"
proof -
  have l: "length (fd_array (cur s)) = 8" using assms(1) by (simp add: proc_ok_def)
  have fds: "flags e \<noteq> 1" if "e \<in> set (drop 2 (closed_fds 8 (fd_array (cur s))))" for e
    using that l by (auto simp: closed_fds_def drop_map zero_fd_def split: if_splits)
  note h = halt_child_eq [OF assms(1-6), of env status, unfolded assms(7)]
  show ?thesis
    by (rule exI [of _ "returned q (int q) s"])
      (use h fds in \<open>simp add: returned_def sti_def upd_term_def map_program_same program_frame_def cur_done_def
         tables_linked_def, simp add: map_program_def upd_at_def\<close>)
qed

text \<open>C15: \<open>halt\<close> of a child process closes its descriptors, frees its id, goes back to the parent's
  page, kernel stack and control block, and makes the parent's \<open>execute\<close> return, on the stack saved
  there, the status as an unsigned byte, or 256 when the child was ended by an exception.\<close>

theorem halt_returns_to_parent:
  assumes "proc_ok s" "closable (fd_array (cur s))" "3 \<le> process_id (cur s)"
    and "parent_process_id (cur s) = int q" "q < 6" "get_pcb_ptr (int q) \<noteq> current_pcb s"
    and "process_id (pcbs s (get_pcb_ptr (int q))) = int q"
  shows "\<exists>s1. halt env status s = Some (HaltResume
      (if exception_in_child s \<noteq> 0 then 256 else ucast status) (esp_val (cur s)) (ebp_val (cur s)) s1) \<and>
    current_pcb s1 = get_pcb_ptr (int q) \<and> program_frame s1 = get_phys_addr (int q) \<and>
    tss_esp0 s1 = 0x7FFFFC - 0x2000 * of_nat q \<and> exception_in_child s1 = 0 \<and> int_flag s1 \<and>
    in_use (pcbs s1 (current_pcb s)) = 0 \<and>
    (\<forall>e \<in> set (drop 2 (fd_array (pcbs s1 (current_pcb s)))). flags e \<noteq> 1) \<and>
    (\<forall>a. a \<noteq> current_pcb s \<longrightarrow> pcbs s1 a = pcbs s a) \<and>
    active_pid (terminals s1 (scheduled_terminal s)) = of_nat q \<and> frames s1 = frames s"
  using assms by (rule halt_child)

definition sample_child :: machine where
  "sample_child = sample_host\<lparr>current_pcb := get_pcb_ptr 3, pcbs := (pcbs sample_host)
     (get_pcb_ptr 3 := zero_pcb\<lparr>in_use := 1, process_id := 3, esp_val := 7, ebp_val := 9\<rparr>)\<rparr>"

lemma child_facts:
  "proc_ok sample_child" "cur sample_child = zero_pcb\<lparr>in_use := 1, process_id := 3, esp_val := 7, ebp_val := 9\<rparr>"
  "process_id (pcbs sample_child (get_pcb_ptr 0)) = 0" "get_pcb_ptr 0 \<noteq> current_pcb sample_child"
  "exception_in_child sample_child = 0" "closable (fd_array (cur sample_child))"
  using host_proc host_terminals
  by (simp_all add: sample_child_def proc_ok_def pcb_mapped_def pcb_ptrs zero_pcb_def)
     (auto simp: closable_def zero_fd_def)

theorem halt_returns_to_parent_witness:
  "\<exists>s1. halt [] 42 sample_child = Some (HaltResume 42 7 9 s1) \<and> current_pcb s1 = get_pcb_ptr 0"
  using halt_returns_to_parent [OF child_facts(1,6), of 0 "[]" 42] child_facts(2-5)
  by (auto simp: zero_pcb_def)

lemma uint_u8: "p < 6 \<Longrightarrow> uint (of_nat p :: u8) = int p" "p < 6 \<Longrightarrow> unat (of_nat p :: u8) = p"
  using pid_cases [of p] by auto

lemma execute_then_halt:
  assumes "paging_wf s" "fs_wf s" "terminated command" "cs = cstr command" "length cs \<le> 128"
    "length (cmd_name cs) < 32" "numInodes s = Some m" "find_file s (cmd_name cs) = Some d" "inodeNumber d < m"
    and "program_file s (inodeNumber d)" "initialized_terminals s (active_terminal s) \<noteq> 0" "next_pid s = Some p"
    and "3 \<le> p" "128 \<le> length (arg (pcbs s (get_pcb_ptr (int p))))"
    and r: "r < 6" "r \<noteq> p" "process_id (pcbs s (get_pcb_ptr (int r))) = int r"
      "active_pid (terminals s (active_terminal s)) = of_nat r" "exception_in_child s = 0"
  shows "\<exists>s1 s2. execute env command s = Some (ExecUser (entry_point s (inodeNumber d)) s1) \<and>
    halt env' status s1 = Some (HaltResume (ucast status) (cpu_esp s) (cpu_ebp s) s2) \<and>
    current_pcb s2 = get_pcb_ptr (int r) \<and> program_frame s2 = get_phys_addr (int r) \<and>
    (\<forall>j < 6. j \<noteq> p \<longrightarrow> pcbs s2 (get_pcb_ptr (int j)) = pcbs s (get_pcb_ptr (int j))) \<and>
    tss_esp0 s2 = 0x7FFFFC - 0x2000 * of_nat r \<and> next_pid s2 = Some p \<and>
    active_pid (terminals s2 (scheduled_terminal s)) = of_nat r"
proof -
  obtain s0 where s0: "stored 0x48000 (file_content s (inodeNumber d)) (map_program (int p) s) s0"
    "execute env command s = Some (ExecUser (entry_point s (inodeNumber d)) (installed p (new_args cs) s0))"
    using execute_program [OF assms(1-12) _ assms(14)] assms(13) by auto
  let ?t = "installed p (new_args cs) s0"
  have p: "p < 6" "p \<noteq> 0" using assms(12,13) by (auto simp: next_pid_Some)
  note f = stored_fields [OF s0(1)]
  have par: "parent_of p s0 = int r"
    using assms(13) f r(4) uint_u8(1) [OF r(1)] by (simp add: parent_of_def map_program_same)
  have c: "cur ?t = exec_pcb p (int r) (new_args cs) s0"
    using installed_pcb(1) [OF p(1), of "new_args cs" s0] par by (simp add: installed_sel)
  have others: "pcbs ?t (get_pcb_ptr (int j)) = pcbs s (get_pcb_ptr (int j))" if "j < 6" "j \<noteq> p" for j
    using installed_pcb(2) [OF p(1) that p(2), of "new_args cs" s0] f by (simp add: map_program_same)
  have fds: "fd_array (cur ?t) = replicate 2 (stdio_fd zero_fd) @ replicate 6 zero_fd" unfolding c by (simp add: exec_pcb_def)
  have ok: "proc_ok ?t" using p(1) fds by (simp add: proc_ok_def installed_sel)
  have cl: "closable (fd_array (cur ?t))" unfolding fds by (auto simp: closable_def nth_append zero_fd_def)
  have ne: "get_pcb_ptr (int j) \<noteq> current_pcb ?t" if "j < 6" "j \<noteq> p" for j
    using pcb_ptr_inject [OF that(1) p(1)] that(2) by (simp add: installed_sel)
  have exc: "exception_in_child ?t = 0" using r(5) f by (simp add: installed_sel map_program_same)
  have pid: "process_id (pcbs ?t (get_pcb_ptr (int r))) = int r" using others [OF r(1,2)] r(3) by simp
  obtain s2 where s2: "halt env' status ?t = Some (HaltResume (ucast status) (cpu_esp s) (cpu_ebp s) s2)"
    "current_pcb s2 = get_pcb_ptr (int r)" "program_frame s2 = get_phys_addr (int r)"
    "tss_esp0 s2 = 0x7FFFFC - 0x2000 * of_nat r" "in_use (pcbs s2 (current_pcb ?t)) = 0"
    "\<forall>a. a \<noteq> current_pcb ?t \<longrightarrow> pcbs s2 a = pcbs ?t a" "active_pid (terminals s2 (scheduled_terminal ?t)) = of_nat r"
    using halt_child [OF ok cl, of r env' status] c assms(13) p r ne [OF r(1,2)] pid exc f
    by (auto simp: exec_pcb_def installed_sel map_program_same)
  have kept: "pcbs s2 (get_pcb_ptr (int j)) = pcbs s (get_pcb_ptr (int j))" if "j < 6" "j \<noteq> p" for j
    using s2(6) ne [OF that] others [OF that] by simp
  have "\<not> pid_used s2 p" using s2(5) by (simp add: pid_used_def installed_sel)
  then have "next_pid s2 = Some p" using kept assms(12) p(1) by (auto simp: next_pid_Some pid_used_def)
  moreover have "active_pid (terminals s2 (scheduled_terminal s)) = of_nat r"
    using s2(7) f by (simp add: installed_sel map_program_same)
  ultimately show ?thesis using s0(2) s2 kept by (intro exI [of _ ?t] exI [of _ s2]) simp
qed

text \<open>C2: running a program and coming back. When the process of the displayed and running terminal
  executes a program and that program halts at once, its \<open>execute\<close> returns the status on the stack
  it was called on, and the caller has its control block, its page, its kernel stack and its place
  as the terminal's process back; the child's id is again the next free one.\<close>

theorem execute_halt_roundtrip:
  assumes "paging_wf s" "fs_wf s" "terminated command" "cs = cstr command" "length cs \<le> 128"
    "length (cmd_name cs) < 32" "numInodes s = Some m" "find_file s (cmd_name cs) = Some d" "inodeNumber d < m"
    and "program_file s (inodeNumber d)" "initialized_terminals s (active_terminal s) \<noteq> 0" "next_pid s = Some p"
    and "3 \<le> p" "128 \<le> length (arg (pcbs s (get_pcb_ptr (int p))))"
    and caller: "q < p" "current_pcb s = get_pcb_ptr (int q)" "process_id (cur s) = int q"
      "program_frame s = get_phys_addr (int q)" "active_terminal s = scheduled_terminal s"
      "active_pid (terminals s (active_terminal s)) = of_nat q" "exception_in_child s = 0"
  shows "\<exists>s1 s2. execute env command s = Some (ExecUser (entry_point s (inodeNumber d)) s1) \<and>
    halt env' status s1 = Some (HaltResume (ucast status) (cpu_esp s) (cpu_ebp s) s2) \<and>
    current_pcb s2 = current_pcb s \<and> cur s2 = cur s \<and> program_frame s2 = program_frame s \<and>
    tss_esp0 s2 = 0x7FFFFC - 0x2000 * of_nat q \<and> next_pid s2 = Some p \<and>
    active_pid (terminals s2 (active_terminal s)) = of_nat q"
proof -
  have q: "q < 6" "q \<noteq> p" "process_id (pcbs s (get_pcb_ptr (int q))) = int q"
    using assms(12) caller by (auto simp: next_pid_Some)
  show ?thesis
    using execute_then_halt [OF assms(1-14) q caller(6,7), of env env' status] q(1,2)
    by (simp only: caller(2,4,5)) metis
qed

theorem execute_halt_roundtrip_witness:
  "\<exists>s1 s2. execute [] (bytes ''hi x'' @ [0]) sample_host = Some (ExecUser 0x8048094 s1) \<and>
     halt [] 42 s1 = Some (HaltResume 42 (cpu_esp sample_host) (cpu_ebp sample_host) s2) \<and> next_pid s2 = Some 3"
proof -
  note c = sample_command
  have q: "(0 :: nat) < 3" "current_pcb sample_host = get_pcb_ptr (int 0)" "process_id (cur sample_host) = int 0"
    "program_frame sample_host = get_phys_addr (int 0)" "active_terminal sample_host = scheduled_terminal sample_host"
    "active_pid (terminals sample_host (active_terminal sample_host)) = of_nat 0" "exception_in_child sample_host = 0"
    using host_proc host_terminals get_phys_addr_nat [of 0] by (simp_all add: zero_pcb_def zero_terminal_def)
  obtain s1 s2 where "execute [] (bytes ''hi x'' @ [0]) sample_host =
      Some (ExecUser (entry_point sample_host (inodeNumber sample_entry)) s1)"
    "halt [] 42 s1 = Some (HaltResume (ucast (42 :: u8)) (cpu_esp sample_host) (cpu_ebp sample_host) s2)" "next_pid s2 = Some 3"
    using execute_halt_roundtrip [OF host_facts(1,2) c(1) c(2) [symmetric] host_facts(3), unfolded c(3), OF host_facts(4,5)
        host_find host_facts(6-11) q, of "[]" "[]" 42] by blast
  then show ?thesis unfolding sample_inode host_entry by auto
qed
text \<open>C20: \<open>execute\<close> asks for the displayed terminal where it means the running one. A process \<open>q\<close> that
  runs in the background and executes a program makes the displayed terminal's process \<open>r\<close> the parent;
  when the program halts, the kernel continues \<open>q\<close>'s call with \<open>r\<close>'s control block and page.\<close>

theorem background_execute_returns_elsewhere:
  assumes "paging_wf s" "fs_wf s" "terminated command" "cs = cstr command" "length cs \<le> 128"
    "length (cmd_name cs) < 32" "numInodes s = Some m" "find_file s (cmd_name cs) = Some d" "inodeNumber d < m"
    and "program_file s (inodeNumber d)" "initialized_terminals s (active_terminal s) \<noteq> 0" "next_pid s = Some p"
    and "3 \<le> p" "128 \<le> length (arg (pcbs s (get_pcb_ptr (int p))))"
    and r: "r < 6" "r \<noteq> p" "process_id (pcbs s (get_pcb_ptr (int r))) = int r"
      "active_pid (terminals s (active_terminal s)) = of_nat r" "exception_in_child s = 0"
    and q: "q < 6" "q \<noteq> r" "current_pcb s = get_pcb_ptr (int q)"
  shows "\<exists>s1 s2. execute env command s = Some (ExecUser (entry_point s (inodeNumber d)) s1) \<and>
    halt env' status s1 = Some (HaltResume (ucast status) (cpu_esp s) (cpu_ebp s) s2) \<and>
    current_pcb s2 = get_pcb_ptr (int r) \<and> current_pcb s2 \<noteq> current_pcb s \<and> program_frame s2 = get_phys_addr (int r)"
proof -
  have "get_pcb_ptr (int r) \<noteq> get_pcb_ptr (int q)" using pcb_ptr_inject [OF r(1) q(1)] q(2) by simp
  then show ?thesis
    using execute_then_halt [OF assms(1-14) r, of env env' status] by (simp only: q(3)) metis
qed

theorem background_execute_returns_elsewhere_witness:
  "\<exists>s1 s2. execute [] (bytes ''hi x'' @ [0]) (sample_host\<lparr>current_pcb := get_pcb_ptr 1, scheduled_terminal := 1\<rparr>) =
       Some (ExecUser 0x8048094 s1) \<and>
     halt [] 0 s1 = Some (HaltResume 0 (cpu_esp sample_host) (cpu_ebp sample_host) s2) \<and> current_pcb s2 = get_pcb_ptr 0"
proof -
  let ?s = "sample_host\<lparr>current_pcb := get_pcb_ptr 1, scheduled_terminal := 1\<rparr>"
  have fs: "fs_wf ?s = fs_wf sample_host" "numInodes ?s = numInodes sample_host" "dir_entries ?s = dir_entries sample_host"
    "file_content ?s 0 = file_content sample_host 0"
    by (rule fs_upd; simp)+
  have w: "paging_wf ?s = paging_wf sample_host"
    by (simp add: paging_wf_def tables_linked_def program_frame_def video_frame_def)
  have h: "paging_wf ?s" "fs_wf ?s" "numInodes ?s = Some 1" "program_file ?s (inodeNumber sample_entry)"
    "find_file ?s (bytes ''hi'') = Some sample_entry"
    using host_facts(1,2,5,7) host_find fs w unfolding program_file_def sample_inode find_file_def by simp_all
  have e: "entry_point ?s (inodeNumber sample_entry) = 0x8048094"
    using host_entry fs(4) unfolding entry_point_def sample_inode by simp
  have i: "initialized_terminals ?s (active_terminal ?s) \<noteq> 0" "next_pid ?s = Some 3"
    "128 \<le> length (arg (pcbs ?s (get_pcb_ptr (int 3))))"
    using host_facts(8,9,11) by (simp_all add: next_pid_def pid_used_def)
  have r: "(0 :: nat) < 6" "(0 :: nat) \<noteq> 3" "process_id (pcbs ?s (get_pcb_ptr (int 0))) = int 0"
    "active_pid (terminals ?s (active_terminal ?s)) = of_nat 0" "exception_in_child ?s = 0"
    "(1 :: nat) < 6" "(1 :: nat) \<noteq> 0" "current_pcb ?s = get_pcb_ptr (int 1)"
    using host_proc host_terminals by (simp_all add: zero_pcb_def zero_terminal_def)
  note c = sample_command
  show ?thesis
    using background_execute_returns_elsewhere [OF h(1,2) c(1) c(2) [symmetric] host_facts(3), unfolded c(3),
        OF host_facts(4) h(3,5) host_facts(6) h(4) i(1,2) host_facts(10) i(3) r, of "[]" "[]" 0]
    unfolding e by auto
qed


section \<open>Isolation\<close>

definition process_frames :: "nat \<Rightarrow> nat set" where
  "process_frames p = {0x800 + 0x400 * p ..< 0x800 + 0x400 * (p + 1)}"

lemma phys_addr_or:
  assumes "p < 6"
  shows "unat ((get_phys_addr (int p) AND 0xFFC00) OR ucast (t :: 10 word)) = 0x800 + 0x400 * p + unat t"
proof -
  let ?a = "get_phys_addr (int p) AND 0xFFC00 :: 20 word" and ?t = "ucast t :: 20 word"
  have a: "?a = push_bit 10 (of_nat (2 + p))" "?a = of_nat (0x800 + 0x400 * p)"
    using pid_cases [OF assms] by (auto simp: get_phys_addr_nat [of 0, simplified] get_phys_addr_nat [of 1, simplified]
        get_phys_addr_nat [of 2, simplified] get_phys_addr_nat [of 3, simplified] get_phys_addr_nat [of 4, simplified]
        get_phys_addr_nat [of 5, simplified])
  have "\<not> bit ?a n \<or> \<not> bit ?t n" for n
    unfolding a(1) by (auto simp: bit_push_bit_iff bit_ucast_iff dest: bit_imp_le_length)
  then have "?a OR ?t = ?a + ?t" by (intro disjunctive_add [symmetric]) blast
  moreover have t: "unat ?t = unat t" "unat t < 1024"
    using unsigned_less [of t, where ?'a = nat] by (simp_all add: unsigned_ucast_eq take_bit_nat_eq_self)
  moreover have "unat ?a = 0x800 + 0x400 * p" using assms unfolding a(2) by (simp only: unat_of_nat) simp
  ultimately show ?thesis using assms by (simp add: unat_word_ariths)
qed

text \<open>C4: with the page of process \<open>p\<close> in the directory, user code reaches the 1024 frames of \<open>p\<close> and
  the one frame video memory is mapped to, and nothing else: no frame of another process and none of
  the kernel.\<close>

theorem processes_are_isolated:
  assumes "paging_wf s" "program_frame s = get_phys_addr (int p)" "p < 6" "user_access s va = Some (f, k)"
  shows "(f = video_frame s \<or> unat f \<in> process_frames p) \<and>
    (\<forall>q. q \<noteq> p \<longrightarrow> process_frames p \<inter> process_frames q = {}) \<and>
    process_frames p \<inter> ({0xB8} \<union> {0xBA..0xBC} \<union> {0x400..<0x800}) = {}"
proof (intro conjI allI impI)
  have t: "unat (tab_ix va) < 1024" using unsigned_less [of "tab_ix va", where ?'a = nat] by simp
  have "f = video_frame s \<or> f = (program_frame s AND 0xFFC00) OR ucast (tab_ix va)"
    using assms(4) mmu_walk_wf [OF assms(1), of va]
    by (auto simp: user_access_def split: option.splits prod.splits bool.splits if_splits)
  then show "f = video_frame s \<or> unat f \<in> process_frames p"
    using phys_addr_or [OF assms(3), of "tab_ix va"] t unfolding assms(2) process_frames_def by auto
  show "process_frames p \<inter> process_frames q = {}" if "q \<noteq> p" for q
    using that by (auto simp: process_frames_def)
  show "process_frames p \<inter> ({0xB8} \<union> {0xBA..0xBC} \<union> {0x400..<0x800}) = {}"
    by (auto simp: process_frames_def)
qed

theorem processes_are_isolated_witness: "user_access sample_host 0x8001005 = Some (0x801, 5) \<and> unat (0x801 :: 20 word) \<in> process_frames 0"
proof -
  have f: "program_frame sample_host = get_phys_addr (int 0)"
    using host_terminals(6) get_phys_addr_nat [of 0] by simp
  have "user_access sample_host 0x8001005 = Some (0x801, 5)"
    using mmu_walk_wf [OF host_facts(1), of "0x8001005"] host_terminals(6)
      addr_parts [of "0x8001005" 32 1 5] by (simp add: user_access_def)
  moreover have "(0x801 :: 20 word) \<noteq> video_frame sample_host" using host_terminals(7) by simp
  ultimately show ?thesis using processes_are_isolated [OF host_facts(1) f, of "0x8001005" "0x801" 5] by simp
qed

text \<open>The machine in which a base shell \<open>n\<close> that has ended is started again.\<close>

definition shell_gone :: "nat \<Rightarrow> machine \<Rightarrow> machine" where
  "shell_gone n s = sti (s\<lparr>exception_in_child := 0, int_flag := False,
     pcbs := (pcbs s)(current_pcb s := cur_done s), current_pcb := 0, tss_esp0 := 0x7FFFFC - 0x2000 * of_nat n\<rparr>)"

lemma halt_base_shell:
  assumes "proc_ok s" "closable (fd_array (cur s))" "process_id (cur s) = int n" "n < 3"
  shows "halt env status s = (case execute env (bytes ''shell'' @ [0]) (shell_gone n s) of
      None \<Rightarrow> None
    | Some (ExecReturn v s') \<Rightarrow>
        halt_to_parent (if exception_in_child s \<noteq> 0 then 256 else ucast status) (esp_val (cur s)) (ebp_val (cur s)) s'
    | Some x \<Rightarrow> Some (HaltShell x))"
proof -
  have m: "pcb_mapped (current_pcb s)" using assms(1) by (simp add: proc_ok_def)
  let ?s = "s\<lparr>exception_in_child := 0\<rparr>"
  define r where "r = (if exception_in_child s \<noteq> 0 then 256 else ucast status :: u32)"
  have st: "halt_status status s = (r, ?s)" by (simp add: halt_status_def EXCEPTION_RET_VAL_def r_def)
  have p: "proc_ok ?s" "fd_array (cur ?s) = fd_array (cur s)" using assms(1) by (simp_all add: proc_ok_def)
  have c: "close_all ?s = Some (with_fds (closed_fds 8 (fd_array (cur s))) ?s)"
    using close_all_eq [OF p(1)] assms(2) p(2) by simp
  show ?thesis
    unfolding r_def [symmetric] using assms(3,4) m
    by (simp add: halt_def st c get_pcb_def upd_pcb_def MAX_TERMINALS_def Let_def cli_def shell_gone_def
        cur_done_def size_consts with_fds_def sti_def split: option.split exec_outcome.split Option.bind_split)
qed

lemma shell_gone_facts:
  assumes "current_pcb s = get_pcb_ptr (int n)" "n < 3" "\<forall>j < 3. pid_used s j"
  shows "fs_wf (shell_gone n s) = fs_wf s" "numInodes (shell_gone n s) = numInodes s"
    "dir_entries (shell_gone n s) = dir_entries s" "file_content (shell_gone n s) i = file_content s i"
    "initialized_terminals (shell_gone n s) = initialized_terminals s" "active_terminal (shell_gone n s) = active_terminal s"
    "terminals (shell_gone n s) = terminals s" "paging_wf (shell_gone n s) = paging_wf s"
    "pcbs (shell_gone n s) (get_pcb_ptr (int n)) = cur_done s" "next_pid (shell_gone n s) = Some n"
proof -
  show "fs_wf (shell_gone n s) = fs_wf s" "numInodes (shell_gone n s) = numInodes s"
    "dir_entries (shell_gone n s) = dir_entries s" "file_content (shell_gone n s) i = file_content s i"
    by (rule fs_upd; simp add: shell_gone_def sti_def)+
  show "initialized_terminals (shell_gone n s) = initialized_terminals s" "active_terminal (shell_gone n s) = active_terminal s"
    "terminals (shell_gone n s) = terminals s" "paging_wf (shell_gone n s) = paging_wf s"
    by (simp_all add: shell_gone_def sti_def paging_wf_def tables_linked_def program_frame_def video_frame_def)
  show self: "pcbs (shell_gone n s) (get_pcb_ptr (int n)) = cur_done s" using assms(1) by (simp add: shell_gone_def sti_def)
  have "pid_used (shell_gone n s) j" if "j < n" for j
    using that assms pcb_ptr_inject [of j n] by (simp add: shell_gone_def sti_def pid_used_def)
  then show "next_pid (shell_gone n s) = Some n"
    using self assms(2) by (simp add: next_pid_Some pid_used_def cur_done_def)
qed

text \<open>C21: \<open>halt\<close> of a base shell starts the shell again in its place: with the ids 0 to 2 in use and a
  program file \<open>shell\<close>, process \<open>n\<close> is set up anew under the same id with no parent. It becomes the process
  of the terminal that is displayed, or, for \<open>n = 0\<close>, of the first one, which then counts as the displayed
  one. The entry of every other terminal, that of the one which goes on running included, is left as it was.\<close>

theorem base_shell_restarts:
  assumes "proc_ok s" "paging_wf s" "fs_wf s" "closable (fd_array (cur s))" "numInodes s = Some m"
    and "find_file s (bytes ''shell'') = Some d" "inodeNumber d < m" "program_file s (inodeNumber d)"
    and "current_pcb s = get_pcb_ptr (int n)" "process_id (cur s) = int n" "n < 3" "\<forall>j < 3. pid_used s j"
    and "128 \<le> length (arg (cur s))" "initialized_terminals s (active_terminal s) \<noteq> 0" "initialized_terminals s 0 \<noteq> 0"
  shows "\<exists>s1. halt env status s = Some (HaltShell (ExecUser (entry_point s (inodeNumber d)) s1)) \<and>
    current_pcb s1 = get_pcb_ptr (int n) \<and> process_id (cur s1) = int n \<and> parent_process_id (cur s1) = -1 \<and>
    active_terminal s1 = (if n = 0 then 0 else active_terminal s) \<and> scheduled_terminal s1 = scheduled_terminal s \<and>
    terminals s1 = (terminals s)(active_terminal s1 := (terminals s (active_terminal s1))\<lparr>active_pid := of_nat n\<rparr>)"
proof -
  let ?t = "shell_gone n s" and ?a = "new_args (bytes ''shell'')"
  note f = shell_gone_facts [OF assms(9,11,12)]
  have n6: "n < 6" using assms(11) by simp
  have cmd: "terminated (bytes ''shell'' @ [0])" "bytes ''shell'' = cstr (bytes ''shell'' @ [0])"
    "length (bytes ''shell'') \<le> 128" "cmd_name (bytes ''shell'') = bytes ''shell''" "length (bytes ''shell'') < 32"
    by (simp_all add: cmd_name_def)
  have pre: "paging_wf ?t" "fs_wf ?t" "numInodes ?t = Some m" "find_file ?t (bytes ''shell'') = Some d" "program_file ?t (inodeNumber d)"
    "initialized_terminals ?t (active_terminal ?t) \<noteq> 0" "128 \<le> length (arg (pcbs ?t (get_pcb_ptr (int n))))"
    using f assms(2,3,5,6,8,13,14) by (simp_all add: find_file_def program_file_def cur_done_def)
  have first: "n = 0 \<longrightarrow> initialized_terminals ?t 0 \<noteq> 0" unfolding f(5) using assms(15) by simp
  obtain s1 where s1: "stored 0x48000 (file_content ?t (inodeNumber d)) (map_program (int n) ?t) s1"
    "execute env (bytes ''shell'' @ [0]) ?t = Some (ExecUser (entry_point ?t (inodeNumber d)) (installed n ?a s1))"
    using execute_program [OF pre(1,2) cmd(1-3), unfolded cmd(4), OF cmd(5) pre(3,4) assms(7) pre(5,6) f(10) first pre(7), of env] by blast
  have e: "entry_point ?t (inodeNumber d) = entry_point s (inodeNumber d)" using f(4) by (simp add: entry_point_def)
  have "halt env status s = Some (HaltShell (ExecUser (entry_point s (inodeNumber d)) (installed n ?a s1)))"
    unfolding halt_base_shell [OF assms(1,4,10,11)] s1(2) e by simp
  moreover have "cur (installed n ?a s1) = exec_pcb n (-1) ?a s1"
    using installed_pcb(1) [OF n6, of ?a s1] assms(11) by (simp add: installed_sel parent_of_def)
  moreover have t1: "active_terminal s1 = active_terminal s" "scheduled_terminal s1 = scheduled_terminal s" "terminals s1 = terminals s"
    using stored_fields [OF s1(1)] f(6,7) by (simp_all add: map_program_same) (simp add: shell_gone_def sti_def)
  moreover have "terminals (installed n ?a s1) = (terminals s)(active_terminal (installed n ?a s1) :=
      (terminals s (active_terminal (installed n ?a s1)))\<lparr>active_pid := of_nat n\<rparr>)"
    using t1 by (simp add: installed_def Let_def upd_term_def reserve_shells_def)
  ultimately show ?thesis
    by (intro exI [of _ "installed n ?a s1"]) (simp add: installed_sel exec_pcb_def)
qed

definition shell_host :: machine where
  "shell_host = shell_on (bytes ''shell'') sample_program"

lemma shell_fits: "fits (bytes ''shell'') sample_program"
  by (simp add: fits_def sample_program_def file_check_def)

lemma shell_host_holds: "holds_image (bytes ''shell'') sample_program shell_host"
  unfolding shell_host_def by (rule shell_holds [OF shell_fits])

lemmas shell_host_proc = shell_proc [OF shell_fits, folded shell_host_def]
lemmas shell_host_terminals = shell_terminals [OF shell_fits, folded shell_host_def]

text \<open>Process 1 ends on the second terminal while the first one is displayed.\<close>

definition second_shell :: machine where
  "second_shell = shell_host\<lparr>current_pcb := get_pcb_ptr 1, scheduled_terminal := 1,
     terminals := (\<lambda>i. zero_terminal\<lparr>active_pid := ucast i\<rparr>)\<rparr>"

lemma second_shell_facts:
  "proc_ok second_shell" "paging_wf second_shell" "closable (fd_array (cur second_shell))"
  "fs_wf second_shell = fs_wf shell_host" "numInodes second_shell = numInodes shell_host"
  "dir_entries second_shell = dir_entries shell_host" "file_content second_shell i = file_content shell_host i"
  "process_id (cur second_shell) = int 1" "length (arg (cur second_shell)) = 128" "\<forall>j < 3. pid_used second_shell j"
  "initialized_terminals second_shell = (\<lambda>_. 1)" "active_terminal second_shell = 0"
proof -
  show "fs_wf second_shell = fs_wf shell_host" "numInodes second_shell = numInodes shell_host"
    "dir_entries second_shell = dir_entries shell_host" "file_content second_shell i = file_content shell_host i"
    by (rule fs_upd; simp add: second_shell_def)+
  have p: "pcbs shell_host (get_pcb_ptr 1) = zero_pcb\<lparr>in_use := 1, process_id := 1, parent_process_id := -1\<rparr>"
    using shell_on_eq [of "bytes ''shell''" sample_program] by (simp add: shell_host_def as_shell_def pcb_ptrs)
  show "proc_ok second_shell" "closable (fd_array (cur second_shell))" "process_id (cur second_shell) = int 1"
    "length (arg (cur second_shell)) = 128"
    by (simp_all add: second_shell_def p [unfolded pcb_ptrs] proc_ok_def pcb_mapped_def pcb_ptrs closable_def zero_pcb_def zero_fd_def)
  show "paging_wf second_shell" using shell_host_terminals(8)
    by (simp add: second_shell_def paging_wf_def tables_linked_def program_frame_def video_frame_def)
  have "\<forall>j < 3. pid_used shell_host j" using shell_host_proc(5) by (simp add: next_pid_Some)
  then show "\<forall>j < 3. pid_used second_shell j" by (simp add: second_shell_def pid_used_def)
  show "initialized_terminals second_shell = (\<lambda>_. 1)" "active_terminal second_shell = 0"
    using shell_host_terminals by (simp_all add: second_shell_def)
qed

theorem base_shell_restarts_witness:
  "\<exists>e s1. halt [] 0 second_shell = Some (HaltShell (ExecUser e s1)) \<and> process_id (cur s1) = 1 \<and>
     active_terminal s1 = 0 \<and> active_pid (terminals s1 0) = 1 \<and> active_pid (terminals second_shell 0) = 0 \<and>
     scheduled_terminal s1 = 1 \<and> active_pid (terminals s1 1) = 1"
proof -
  note F = second_shell_facts
  let ?d = "named_entry (bytes ''shell'')"
  have n: "entry_name ?d = bytes ''shell''" "inodeNumber ?d = 0"
    by (simp_all add: named_entry_def entry_name_def cstr_def)
  have f: "find_file second_shell (bytes ''shell'') = Some ?d"
    unfolding find_file_def F(6) image_entries [OF shell_host_holds] by (simp only: find.simps n if_True simp_thms)
  have pr: "program_file second_shell (inodeNumber ?d)" "inodeNumber ?d < 1" "fs_wf second_shell" "numInodes second_shell = Some 1"
    using image_content [OF shell_host_holds] image_wf [OF shell_host_holds] image_counts(2) [OF shell_host_holds]
    unfolding n(2) program_file_def F(4,5,7) by (simp_all add: sample_program_def file_check_def)
  have r: "current_pcb second_shell = get_pcb_ptr (int 1)" "(1 :: nat) < 3" "128 \<le> length (arg (cur second_shell))"
    "initialized_terminals second_shell (active_terminal second_shell) \<noteq> 0" "initialized_terminals second_shell 0 \<noteq> 0"
    using F(9,11) by (simp_all add: second_shell_def)
  have t: "scheduled_terminal second_shell = 1" "terminals second_shell = (\<lambda>i. zero_terminal\<lparr>active_pid := ucast i\<rparr>)"
    by (simp_all add: second_shell_def)
  show ?thesis
    using base_shell_restarts [OF F(1,2) pr(3) F(3) pr(4) f pr(2,1) r(1) F(8) r(2) F(10) r(3-5), of "[]" 0] t F(12)
    by auto
qed

end
