(* ===== verification/Scheduler.thy ===== *)
theory Scheduler
  imports Process
begin

text \<open>
  Terminals and time slices (\<^verbatim>\<open>scheduler.c\<close>) and the timer interrupt (\<^verbatim>\<open>devices/pit.c\<close>).
  \<open>terminal_switch\<close> changes which terminal is displayed, \<open>scheduler\<close> which one runs. The displayed
  terminal owns the frame behind the video address; the screens of the others are kept in the three
  backing pages.
\<close>

section \<open>Constants (scheduler.h, keyboard.h)\<close>

definition KEYBOARD_IRQ :: u32 where "KEYBOARD_IRQ = 1"
definition TERMINAL_1 :: int where "TERMINAL_1 = 0"
definition TERMINAL_2 :: int where "TERMINAL_2 = 1"
definition TERMINAL_3 :: int where "TERMINAL_3 = 2"

section \<open>terminal_switch\<close>

text \<open>The part that ends with the new value of \<open>active_terminal\<close>.\<close>

definition switch_display :: "u8 \<Rightarrow> machine \<Rightarrow> machine option" where
  "switch_display target_terminal s =
     do {
       let s = (if active_terminal s \<noteq> scheduled_terminal s then map_video VIDEO s else s);
       s \<leftarrow> memcpy kload kstore (terminal_page (active_terminal s)) VIDEO 4096 s;
       s \<leftarrow> memcpy kload kstore VIDEO (terminal_page target_terminal) 4096 s;
       let s = (if target_terminal \<noteq> scheduled_terminal s
                then map_video (terminal_page (scheduled_terminal s)) s else s);
       Some (s\<lparr>active_terminal := target_terminal\<rparr>)
     }"

text \<open>The first switch to a terminal starts its shell and does not come back.\<close>

datatype switch_outcome = SwitchDone machine | SwitchShell exec_outcome

definition terminal_switch :: "interference \<Rightarrow> u8 \<Rightarrow> machine \<Rightarrow> switch_outcome option" where
  "terminal_switch env target_terminal s =
     (if active_terminal s = target_terminal then Some (SwitchDone s)
      else do {
        s \<leftarrow> switch_display target_terminal s;
        if initialized_terminals s (active_terminal s) = 0
        then do {
          let s = sti (send_eoi KEYBOARD_IRQ s);
          r \<leftarrow> execute env (bytes ''shell'' @ [0]) s;
          Some (case r of ExecReturn v s \<Rightarrow> SwitchDone s | _ \<Rightarrow> SwitchShell r)
        }
        else Some (SwitchDone s)
      })"

section \<open>scheduler\<close>

text \<open>The search loop; without an initialised terminal it does not end.\<close>

partial_function (option) find_initialized :: "(u8 \<Rightarrow> u8) \<Rightarrow> u8 \<Rightarrow> u8 option" where
  "find_initialized initialized next_scheduled_terminal =
     (if initialized next_scheduled_terminal = 0
      then find_initialized initialized ((next_scheduled_terminal + 1) mod of_int MAX_TERMINALS)
      else Some next_scheduled_terminal)"

definition first_candidate :: "u8 \<Rightarrow> u8" where
  "first_candidate i = of_int ((uint i + 1) mod MAX_TERMINALS)"

text \<open>The outgoing terminal: its stack registers and its cursor.\<close>

definition scheduler_save :: "machine \<Rightarrow> machine option" where
  "scheduler_save s =
     do {
       s \<leftarrow> upd_pcb (current_pcb s)
             (\<lambda>p. p\<lparr>scheduling_esp_val := cpu_esp s, scheduling_ebp_val := cpu_ebp s\<rparr>) s;
       Some (upd_term (scheduled_terminal s)
         (\<lambda>t. t\<lparr>terminal_screen_x := get_screen_x s, terminal_screen_y := get_screen_y s\<rparr>) s)
     }"

text \<open>The incoming terminal: process, kernel stack, program page, video pages, cursor, registers.\<close>

definition scheduler_resume :: "u8 \<Rightarrow> machine \<Rightarrow> machine option" where
  "scheduler_resume next_scheduled_terminal s =
     do {
       let s = s\<lparr>scheduled_terminal := next_scheduled_terminal\<rparr>;
       let s = s\<lparr>current_pcb := get_pcb_ptr (uint (active_pid (terminals s (scheduled_terminal s))))\<rparr>;
       p \<leftarrow> get_pcb (current_pcb s) s;
       let s = s\<lparr>tss_esp0 := of_int EIGHT_MB - of_int EIGHT_KB * of_int (process_id p) - 4\<rparr>;
       let s = map_program (process_id p) s;
       let s = (if scheduled_terminal s = active_terminal s then map_video VIDEO s
                else map_video (terminal_page (scheduled_terminal s)) s);
       let t = terminals s (scheduled_terminal s);
       let s = set_cursor (of_int (terminal_screen_x t)) (of_int (terminal_screen_y t)) s;
       Some (s\<lparr>cpu_ebp := scheduling_ebp_val p, cpu_esp := scheduling_esp_val p\<rparr>)
     }"

definition scheduler :: "machine \<Rightarrow> machine option" where
  "scheduler s =
     do {
       let s = (if first_swap s \<noteq> 0 then s\<lparr>scheduled_terminal := 0, first_swap := 0\<rparr> else s);
       s \<leftarrow> scheduler_save s;
       next_scheduled_terminal \<leftarrow>
         find_initialized (initialized_terminals s) (first_candidate (scheduled_terminal s));
       scheduler_resume next_scheduled_terminal s
     }"

text \<open>\<open>initialized_terminals\<close> and \<open>terminals\<close> are arrays, so their addresses are not null.\<close>

definition pit_handler :: "machine \<Rightarrow> machine option" where
  "pit_handler s =
     (let s = send_eoi PIT_LINE s in if current_pcb s \<noteq> 0 then scheduler s else Some s)"

end
