(* ===== verification/SchedulerFacts.thy ===== *)
theory SchedulerFacts
  imports ProcessFacts Scheduler
begin

text \<open>
  What \<open>terminal_switch\<close> and \<open>scheduler\<close> keep: the screens of the terminals through every switch,
  and what each terminal was doing through every time slice.
\<close>

section \<open>Copying a page\<close>

lemma of_nat_add_1: "(a :: u32) + of_nat j + 1 = a + of_nat (Suc j)"
  by simp

lemma copy_page_bytes:
  assumes "\<And>k s. paging_wf s \<Longrightarrow> video_frame s = v \<Longrightarrow> k < 4096 \<Longrightarrow> kload s (src + of_nat k) = Some (frames s fs k)"
    and "\<And>k s x. paging_wf s \<Longrightarrow> video_frame s = v \<Longrightarrow> k < 4096 \<Longrightarrow> kstore (dst + of_nat k) x s = Some (poke fd k x s)"
    and "fs \<noteq> fd"
  shows "paging_wf s \<Longrightarrow> video_frame s = v \<Longrightarrow> j + n \<le> 4096 \<Longrightarrow>
    copy_bytes kload kstore (dst + of_nat j) (src + of_nat j) n s =
      Some (s\<lparr>frames := (frames s)(fd := (\<lambda>k. if j \<le> k \<and> k < j + n then frames s fs k else frames s fd k))\<rparr>)"
proof (induction n arbitrary: j s)
  case 0
  have "(\<lambda>k. if j \<le> k \<and> k < j + 0 then frames s fs k else frames s fd k) = frames s fd" by (rule ext) auto
  then show ?case by simp
next
  case (Suc n)
  let ?s = "poke fd j (frames s fs j) s"
  have j: "j < 4096" using Suc.prems by simp
  have "copy_bytes kload kstore (dst + of_nat (Suc j)) (src + of_nat (Suc j)) n ?s =
    Some (?s\<lparr>frames := (frames ?s)(fd := (\<lambda>k. if Suc j \<le> k \<and> k < Suc j + n then frames ?s fs k else frames ?s fd k))\<rparr>)"
    by (rule Suc.IH) (use Suc.prems in simp_all)
  moreover have "(frames ?s)(fd := (\<lambda>k. if Suc j \<le> k \<and> k < Suc j + n then frames ?s fs k else frames ?s fd k)) =
      (frames s)(fd := (\<lambda>k. if j \<le> k \<and> k < j + Suc n then frames s fs k else frames s fd k))"
    using assms(3) by (auto simp: fun_eq_iff)
  ultimately show ?case
    using assms(1) [OF Suc.prems(1,2) j] assms(2) [OF Suc.prems(1,2) j]
    by (simp add: of_nat_add_1 poke_def fun_upd_def del: of_nat_Suc)
qed

definition copied :: "20 word \<Rightarrow> 20 word \<Rightarrow> machine \<Rightarrow> machine" where
  "copied fd fs s = s\<lparr>frames := (frames s)(fd := (\<lambda>k. if k < 4096 then frames s fs k else frames s fd k))\<rparr>"

lemma memcpy_page:
  assumes ld: "\<And>k s. paging_wf s \<Longrightarrow> video_frame s = v \<Longrightarrow> k < 4096 \<Longrightarrow> kload s (src + of_nat k) = Some (frames s fs k)"
    and st: "\<And>k s x. paging_wf s \<Longrightarrow> video_frame s = v \<Longrightarrow> k < 4096 \<Longrightarrow> kstore (dst + of_nat k) x s = Some (poke fd k x s)"
    and cells: "\<And>k. k < 4096 \<Longrightarrow> kcell s (src + of_nat k) = Some (fs, k) \<and> kcell s (dst + of_nat k) = Some (fd, k)"
    and "fs \<noteq> fd" "paging_wf s" "video_frame s = v"
  shows "memcpy kload kstore dst src 4096 s = Some (copied fd fs s)"
proof -
  have c: "kcell s (src + of_nat k) = Some (fs, k)" "kcell s (dst + of_nat k) = Some (fd, k)" if "k < 4096" for k
    using cells [OF that] by (rule conjunct1, rule conjunct2)
  have ne: "kcell s (dst + of_nat i) \<noteq> kcell s (src + of_nat j)" if "i < 4096" "j < 4096" for i j
    unfolding c(2) [OF that(1)] c(1) [OF that(2)] using assms(4) by simp
  have "kmem.mapped s dst 4096" "kmem.mapped s src 4096" "kmem.apart s dst src 4096"
    unfolding kmem.mapped_def kmem.apart_def using c ne by blast+
  then have "memcpy kload kstore dst src 4096 s = copy_bytes kload kstore dst src 4096 s"
    by (rule kmem.memcpy_eq)
  also have "\<dots> = Some (copied fd fs s)"
  proof -
    have z: "dst + of_nat 0 = dst" "src + of_nat 0 = src" "(0 :: nat) + 4096 \<le> 4096" by simp_all
    show ?thesis
      using copy_page_bytes [OF ld st assms(4-6) z(3)] unfolding copied_def z
      by (simp only: le0 add_0 simp_thms)
  qed
  finally show ?thesis .
qed

lemma copied_sel [simp]:
  "video_frame (copied fd fs s) = video_frame s" "program_frame (copied fd fs s) = program_frame s"
  "paging_wf (copied fd fs s) = paging_wf s" "active_terminal (copied fd fs s) = active_terminal s"
  "scheduled_terminal (copied fd fs s) = scheduled_terminal s" "terminals (copied fd fs s) = terminals s"
  "initialized_terminals (copied fd fs s) = initialized_terminals s" "pcbs (copied fd fs s) = pcbs s"
  "current_pcb (copied fd fs s) = current_pcb s"
  by (simp_all add: copied_def video_frame_def program_frame_def paging_wf_def tables_linked_def)

lemma terminal_page_nat: "terminal_page i = TERMINAL_VIDEO + of_nat (unat i) * 4096"
  by (simp add: terminal_page_def ALIGN_4KB_def)

lemma terminal_access:
  assumes "paging_wf s" "unat i < 3" "k < 4096"
  shows "kload s (terminal_page i + of_nat k) = Some (frames s (terminal_frame (unat i)) k)"
    "kstore (terminal_page i + of_nat k) x s = Some (poke (terminal_frame (unat i)) k x s)"
    "kcell s (terminal_page i + of_nat k) = Some (terminal_frame (unat i), k)"
  unfolding terminal_page_nat using assms
  by (simp_all add: kcell_def terminal_walk del: of_nat_unat)

lemma video_cell: "paging_wf s \<Longrightarrow> k < 4096 \<Longrightarrow> kcell s (VIDEO + of_nat k) = Some (video_frame s, k)"
  by (simp add: kcell_def mmu_walk_wf video_parts)

lemma save_screen:
  assumes "paging_wf s" "unat i < 3" "video_frame s = 0xB8"
  shows "memcpy kload kstore (terminal_page i) VIDEO 4096 s = Some (copied (terminal_frame (unat i)) 0xB8 s)"
  using assms terminal_frame_not_screen [OF assms(2)]
  by (intro memcpy_page [where v = "0xB8"]) (simp_all add: kload_video terminal_access video_cell)

lemma restore_screen:
  assumes "paging_wf s" "unat i < 3" "video_frame s = 0xB8"
  shows "memcpy kload kstore VIDEO (terminal_page i) 4096 s = Some (copied 0xB8 (terminal_frame (unat i)) s)"
  using assms terminal_frame_not_screen [OF assms(2)]
  by (intro memcpy_page [where v = "0xB8"]) (simp_all add: kstore_video terminal_access video_cell)

section \<open>The screens of the terminals\<close>

text \<open>Byte \<open>k\<close> of the screen of a terminal: in video memory when it is displayed, else in its page.\<close>

definition screen_of :: "machine \<Rightarrow> u8 \<Rightarrow> nat \<Rightarrow> u8" where
  "screen_of s i k = frames s (if i = active_terminal s then 0xB8 else terminal_frame (unat i)) (k mod 4096)"

definition terminals_ok :: "machine \<Rightarrow> bool" where
  "terminals_ok s \<longleftrightarrow> paging_wf s \<and> mapping_ok s \<and> unat (active_terminal s) < 3 \<and> unat (scheduled_terminal s) < 3"

definition switched :: "u8 \<Rightarrow> machine \<Rightarrow> machine" where
  "switched t s =
     (let s = map_video VIDEO s;
          s = copied (terminal_frame (unat (active_terminal s))) 0xB8 s;
          s = copied 0xB8 (terminal_frame (unat t)) s;
          s = map_video (if t = scheduled_terminal s then VIDEO else terminal_page (scheduled_terminal s)) s
      in s\<lparr>active_terminal := t\<rparr>)"

lemma map_video_id:
  assumes "paging_wf s" "video_frame s = page_of a"
  shows "map_video a s = s"
proof -
  have "tableArray (map_video a s) = tableArray s" "vmemTableArray (map_video a s) = vmemTableArray s"
    using map_video_tables [where a = a and s = s] assms by (simp_all add: paging_wf_def)
  then show ?thesis by (simp add: map_video_def)
qed

lemma map_video_twice: "map_video a (map_video b s) = map_video a s"
  by (simp add: map_video_def upd_at_def fun_upd_upd)

lemma switch_display_eq:
  assumes "terminals_ok s" "unat t < 3"
  shows "switch_display t s = Some (switched t s)"
proof -
  have w: "paging_wf s" and a: "unat (active_terminal s) < 3" and sc: "unat (scheduled_terminal s) < 3"
    using assms(1) by (simp_all add: terminals_ok_def)
  have m: "(if active_terminal s \<noteq> scheduled_terminal s then map_video VIDEO s else s) = map_video VIDEO s"
    using assms(1) map_video_id [OF w, of VIDEO]
    by (auto simp: terminals_ok_def mapping_ok_def page_consts)
  let ?s = "map_video VIDEO s"
  have v: "paging_wf ?s" "video_frame ?s = 0xB8" using w by (simp_all add: map_video_wf page_consts)
  have c: "memcpy kload kstore (terminal_page (active_terminal ?s)) VIDEO 4096 ?s =
      Some (copied (terminal_frame (unat (active_terminal s))) 0xB8 ?s)"
    using save_screen [of ?s "active_terminal s"] v a by simp
  let ?s1 = "copied (terminal_frame (unat (active_terminal s))) 0xB8 ?s"
  have d: "memcpy kload kstore VIDEO (terminal_page t) 4096 ?s1 = Some (copied 0xB8 (terminal_frame (unat t)) ?s1)"
    using restore_screen [of ?s1 t] v assms(2) by simp
  let ?s2 = "copied 0xB8 (terminal_frame (unat t)) ?s1"
  have e: "(if t \<noteq> scheduled_terminal ?s2 then map_video (terminal_page (scheduled_terminal ?s2)) ?s2 else ?s2) =
      map_video (if t = scheduled_terminal ?s2 then VIDEO else terminal_page (scheduled_terminal ?s2)) ?s2"
  proof (cases "t = scheduled_terminal ?s2")
    case True
    then have n: "\<not> t \<noteq> scheduled_terminal ?s2" by simp
    have "map_video VIDEO ?s2 = ?s2" by (rule map_video_id) (use v in \<open>simp_all add: page_consts\<close>)
    then show ?thesis unfolding if_P [OF True] if_not_P [OF n] by (rule sym)
  qed simp
  show ?thesis
    unfolding switch_display_def switched_def Let_def m by (simp only: c d bind.bind_lunit e) simp
qed


lemma screen_switched:
  assumes "unat (active_terminal s) < 3" "unat t < 3" "unat i < 3" "t \<noteq> active_terminal s"
  shows "screen_of (switched t s) i = screen_of s i"
proof -
  let ?a = "active_terminal s"
  have inj: "terminal_frame (unat j) = terminal_frame (unat k) \<longleftrightarrow> j = k" if "unat j < 3" "unat k < 3" for j k :: u8
    unfolding terminal_frame_inject [OF that] by (rule word_unat_eq_iff [symmetric])
  have ne: "terminal_frame (unat j) \<noteq> 0xB8" if "unat j < 3" for j :: u8
    using that by (rule terminal_frame_not_screen)
  show ?thesis
    using assms ne [of ?a] ne [of t] ne [of i] inj [of i ?a] inj [of t ?a] inj [of i t]
    by (auto simp: screen_of_def switched_def Let_def copied_def fun_eq_iff)
qed

lemma switched_sel:
  "active_terminal (switched t s) = t" "scheduled_terminal (switched t s) = scheduled_terminal s"
  "initialized_terminals (switched t s) = initialized_terminals s" "terminals (switched t s) = terminals s"
  "pcbs (switched t s) = pcbs s" "current_pcb (switched t s) = current_pcb s"
  "program_frame (switched t s) = program_frame s"
  by (simp_all add: switched_def Let_def program_frame_def copied_def map_video_def)

lemma active_upd_wf [simp]:
  "paging_wf (s\<lparr>active_terminal := t\<rparr>) = paging_wf s" "video_frame (s\<lparr>active_terminal := t\<rparr>) = video_frame s"
  by (simp_all add: paging_wf_def tables_linked_def program_frame_def video_frame_def)

lemma switched_ok:
  assumes "terminals_ok s" "unat t < 3"
  shows "terminals_ok (switched t s)"
proof -
  have "paging_wf (switched t s)"
    using assms(1) by (simp add: switched_def Let_def map_video_wf terminals_ok_def)
  moreover have "video_frame (switched t s) = (if scheduled_terminal s = t then 0xB8 else terminal_frame (unat (scheduled_terminal s)))"
    using assms(1) terminal_page_frame [of "scheduled_terminal s"]
    by (auto simp: switched_def Let_def terminals_ok_def page_consts)
  ultimately show ?thesis
    using assms by (simp add: terminals_ok_def mapping_ok_def switched_sel)
qed

text \<open>The display as its clients see it: switching shows another screen and keeps them all.\<close>

locale display =
  fixes ok :: "'m \<Rightarrow> bool" and valid :: "'i \<Rightarrow> bool" and shown :: "'m \<Rightarrow> 'i"
    and screen :: "'m \<Rightarrow> 'i \<Rightarrow> 'p" and switch :: "'i \<Rightarrow> 'm \<Rightarrow> 'm"
  assumes ok_switch: "ok m \<Longrightarrow> valid i \<Longrightarrow> ok (switch i m)"
    and shown_switch: "ok m \<Longrightarrow> valid i \<Longrightarrow> shown (switch i m) = i"
    and screen_switch: "ok m \<Longrightarrow> valid i \<Longrightarrow> valid j \<Longrightarrow> screen (switch i m) j = screen m j"
begin

lemma ok_fold: "ok m \<Longrightarrow> list_all valid is \<Longrightarrow> ok (fold switch is m)"
  by (induction "is" arbitrary: m) (simp_all add: ok_switch)

lemma screen_fold: "ok m \<Longrightarrow> list_all valid is \<Longrightarrow> valid j \<Longrightarrow> screen (fold switch is m) j = screen m j"
  by (induction "is" arbitrary: m) (simp_all add: ok_switch screen_switch)

lemma shown_fold: "ok m \<Longrightarrow> list_all valid is \<Longrightarrow> valid j \<Longrightarrow> shown (fold switch (is @ [j]) m) = j"
  by (simp add: ok_fold shown_switch)

end

definition switch_to :: "u8 \<Rightarrow> machine \<Rightarrow> machine" where
  "switch_to t s = (if active_terminal s = t then s else switched t s)"

interpretation disp: display terminals_ok "\<lambda>i. unat i < 3" active_terminal screen_of switch_to
proof
  show "terminals_ok (switch_to i m)" if "terminals_ok m" "unat i < 3" for m i
    using that switched_ok by (simp add: switch_to_def)
  show "active_terminal (switch_to i m) = i" if "terminals_ok m" "unat i < 3" for m i
    by (simp add: switch_to_def switched_sel)
  show "screen_of (switch_to i m) j = screen_of m j" if "terminals_ok m" "unat i < 3" "unat j < 3" for m i j
    using that screen_switched [of m i j] by (auto simp: switch_to_def terminals_ok_def)
qed

lemma terminal_switch_running:
  assumes "terminals_ok s" "unat t < 3" "initialized_terminals s t \<noteq> 0"
  shows "terminal_switch env t s = Some (SwitchDone (switch_to t s))"
  using assms switch_display_eq [OF assms(1,2)] by (auto simp: terminal_switch_def switch_to_def switched_sel)

text \<open>A sequence of switches, none of which starts a shell.\<close>

fun switch_all :: "interference \<Rightarrow> u8 list \<Rightarrow> machine \<Rightarrow> machine option" where
  "switch_all env [] s = Some s"
| "switch_all env (t # ts) s =
     (case terminal_switch env t s of Some (SwitchDone s) \<Rightarrow> switch_all env ts s | _ \<Rightarrow> None)"

lemma initialized_switch_to [simp]: "initialized_terminals (switch_to t s) = initialized_terminals s"
  by (simp add: switch_to_def switched_sel)

lemma switch_all_eq:
  "terminals_ok s \<Longrightarrow> list_all (\<lambda>t. unat t < 3 \<and> initialized_terminals s t \<noteq> 0) ts \<Longrightarrow>
     switch_all env ts s = Some (fold switch_to ts s)"
  by (induction ts arbitrary: s) (simp_all add: terminal_switch_running disp.ok_switch)

text \<open>C5: switching between terminals that have been started loses nothing: after any sequence of
  switches each of the three screens reads as before, the last terminal asked for is displayed, and
  the video page of the running terminal is still where its screen is.\<close>

theorem switching_keeps_screens:
  assumes "terminals_ok s" "list_all (\<lambda>t. unat t < 3 \<and> initialized_terminals s t \<noteq> 0) (ts @ [t])" "unat i < 3"
  shows "\<exists>s1. switch_all env (ts @ [t]) s = Some s1 \<and> screen_of s1 i = screen_of s i \<and>
    active_terminal s1 = t \<and> terminals_ok s1"
proof -
  have v: "list_all (\<lambda>i. unat i < 3) (ts @ [t])" using assms(2) by (auto simp: list_all_iff)
  then have v': "list_all (\<lambda>i. unat i < 3) ts" "unat t < 3" by simp_all
  show ?thesis
    using switch_all_eq [OF assms(1,2)] disp.screen_fold [OF assms(1) v assms(3)]
      disp.shown_fold [OF assms(1) v'] disp.ok_fold [OF assms(1) v] by blast
qed

lemma paged_terminals_ok: "terminals_ok paged"
  by (simp add: terminals_ok_def mapping_ok_def)

theorem switching_keeps_screens_witness:
  "\<exists>s1. switch_all [] [1, 2] (paged\<lparr>initialized_terminals := (\<lambda>_. 1)\<rparr>) = Some s1 \<and> active_terminal s1 = 2"
proof -
  let ?s = "paged\<lparr>initialized_terminals := (\<lambda>_. 1)\<rparr>"
  have "terminals_ok ?s = terminals_ok paged"
    by (simp add: terminals_ok_def mapping_ok_def paging_wf_def tables_linked_def program_frame_def video_frame_def)
  then show ?thesis
    using switching_keeps_screens [of ?s "[1]" 2 0 "[]"] paged_terminals_ok by auto
qed

section \<open>Round robin\<close>

definition next_terminal :: "machine \<Rightarrow> u8" where
  "next_terminal s =
     (let i = scheduled_terminal s; a = (i + 1) mod 3; b = (a + 1) mod 3 in
      if initialized_terminals s a \<noteq> 0 then a
      else if initialized_terminals s b \<noteq> 0 then b
      else i)"

lemma u8_mod3:
  "unat (i :: u8) < 3 \<Longrightarrow> first_candidate i = (i + 1) mod 3"
  "unat (i :: u8) < 3 \<Longrightarrow> ((i + 1) mod 3 + 1) mod 3 \<noteq> i"
  "unat (i :: u8) < 3 \<Longrightarrow> (((i + 1) mod 3 + 1) mod 3 + 1) mod 3 = i"
  "unat (i :: u8) < 3 \<Longrightarrow> unat ((i + 1) mod 3) < 3 \<and> unat (((i + 1) mod 3 + 1) mod 3) < 3"
  by (erule u8_below_3; simp add: first_candidate_def MAX_TERMINALS_def)+

lemma find_next:
  assumes "unat (scheduled_terminal s) < 3" "initialized_terminals s (scheduled_terminal s) \<noteq> 0"
  shows "find_initialized (initialized_terminals s) (first_candidate (scheduled_terminal s)) = Some (next_terminal s)"
proof -
  let ?i = "scheduled_terminal s" and ?f = "initialized_terminals s"
  have step: "find_initialized ?f c = (if ?f c = 0 then find_initialized ?f ((c + 1) mod 3) else Some c)" for c
    by (subst find_initialized.simps) (simp add: MAX_TERMINALS_def)
  show ?thesis
    unfolding u8_mod3(1) [OF assms(1)] next_terminal_def Let_def
    using assms(2) step [of "(?i + 1) mod 3"] step [of "((?i + 1) mod 3 + 1) mod 3"] step [of ?i] u8_mod3(3) [OF assms(1)]
    by simp
qed

lemma next_terminal_bound:
  assumes "unat (scheduled_terminal s) < 3" "initialized_terminals s (scheduled_terminal s) \<noteq> 0"
  shows "unat (next_terminal s) < 3" "initialized_terminals s (next_terminal s) \<noteq> 0"
  using assms u8_mod3(4) [OF assms(1)] by (auto simp: next_terminal_def Let_def)

text \<open>The process of a terminal, and the invariant of the scheduler.\<close>

definition pid_of :: "machine \<Rightarrow> u8 \<Rightarrow> nat" where
  "pid_of s i = unat (active_pid (terminals s i))"

definition started :: "machine \<Rightarrow> u8 \<Rightarrow> bool" where
  "started s i \<longleftrightarrow> unat i < 3 \<and> initialized_terminals s i \<noteq> 0"

definition sched_ok :: "machine \<Rightarrow> bool" where
  "sched_ok s \<longleftrightarrow> terminals_ok s \<and> first_swap s = 0 \<and> started s (scheduled_terminal s) \<and>
     current_pcb s = get_pcb_ptr (int (pid_of s (scheduled_terminal s))) \<and>
     program_frame s = get_phys_addr (int (pid_of s (scheduled_terminal s))) \<and>
     0 \<le> screen_x s \<and> screen_x s < 256 \<and> 0 \<le> screen_y s \<and> screen_y s < 256 \<and>
     (\<forall>i. started s i \<longrightarrow> pid_of s i < 6 \<and> process_id (pcbs s (get_pcb_ptr (int (pid_of s i)))) = int (pid_of s i) \<and>
        (i \<noteq> scheduled_terminal s \<longrightarrow>
           0 \<le> terminal_screen_x (terminals s i) \<and> terminal_screen_x (terminals s i) < 256 \<and>
           0 \<le> terminal_screen_y (terminals s i) \<and> terminal_screen_y (terminals s i) < 256)) \<and>
     (\<forall>i j. started s i \<and> started s j \<and> pid_of s i = pid_of s j \<longrightarrow> i = j)"

lemma sched_okD:
  assumes "sched_ok s"
  shows "terminals_ok s" "first_swap s = 0" "started s (scheduled_terminal s)"
    "current_pcb s = get_pcb_ptr (int (pid_of s (scheduled_terminal s)))"
    "program_frame s = get_phys_addr (int (pid_of s (scheduled_terminal s)))"
    "0 \<le> screen_x s" "screen_x s < 256" "0 \<le> screen_y s" "screen_y s < 256"
    "started s i \<Longrightarrow> pid_of s i < 6"
    "started s i \<Longrightarrow> process_id (pcbs s (get_pcb_ptr (int (pid_of s i)))) = int (pid_of s i)"
    "started s i \<Longrightarrow> i \<noteq> scheduled_terminal s \<Longrightarrow> 0 \<le> terminal_screen_x (terminals s i) \<and>
       terminal_screen_x (terminals s i) < 256 \<and> 0 \<le> terminal_screen_y (terminals s i) \<and>
       terminal_screen_y (terminals s i) < 256"
    "started s i \<Longrightarrow> started s j \<Longrightarrow> pid_of s i = pid_of s j \<Longrightarrow> i = j"
  using assms unfolding sched_ok_def by blast+

text \<open>What a terminal resumes with: its process, its page, its stack and its cursor.\<close>

record slice =
  s_pcb :: u32
  s_frame :: "20 word"
  s_esp :: u32
  s_ebp :: u32
  s_cursor :: "int \<times> int"

definition live :: "machine \<Rightarrow> slice" where
  "live s = \<lparr>s_pcb = current_pcb s, s_frame = program_frame s, s_esp = cpu_esp s, s_ebp = cpu_ebp s,
     s_cursor = (screen_x s, screen_y s)\<rparr>"

definition parked :: "machine \<Rightarrow> u8 \<Rightarrow> slice" where
  "parked s i =
     (let t = terminals s i; p = pcbs s (get_pcb_ptr (int (pid_of s i))) in
      \<lparr>s_pcb = get_pcb_ptr (int (pid_of s i)), s_frame = get_phys_addr (int (pid_of s i)),
       s_esp = scheduling_esp_val p, s_ebp = scheduling_ebp_val p,
       s_cursor = (terminal_screen_x t, terminal_screen_y t)\<rparr>)"

definition parked_now :: "machine \<Rightarrow> machine" where
  "parked_now s = upd_term (scheduled_terminal s) (\<lambda>t. t\<lparr>terminal_screen_x := screen_x s, terminal_screen_y := screen_y s\<rparr>)
     (s\<lparr>pcbs := (pcbs s)(current_pcb s := (cur s)\<lparr>scheduling_esp_val := cpu_esp s, scheduling_ebp_val := cpu_ebp s\<rparr>)\<rparr>)"

definition resumed :: "u8 \<Rightarrow> machine \<Rightarrow> machine" where
  "resumed i s =
     (let pid = int (pid_of s i); p = pcbs s (get_pcb_ptr pid); t = terminals s i;
          s = s\<lparr>scheduled_terminal := i, current_pcb := get_pcb_ptr pid, tss_esp0 := 0x7FFFFC - 0x2000 * of_int pid\<rparr>;
          s = map_video (if i = active_terminal s then VIDEO else terminal_page i) (map_program pid s);
          s = set_cursor (of_int (terminal_screen_x t)) (of_int (terminal_screen_y t)) s
      in s\<lparr>cpu_ebp := scheduling_ebp_val p, cpu_esp := scheduling_esp_val p\<rparr>)"

definition tick :: "machine \<Rightarrow> machine" where
  "tick s = resumed (next_terminal s) (parked_now s)"

lemma parked_now_sel:
  "scheduled_terminal (parked_now s) = scheduled_terminal s" "active_terminal (parked_now s) = active_terminal s"
  "initialized_terminals (parked_now s) = initialized_terminals s" "pid_of (parked_now s) = pid_of s"
  "first_swap (parked_now s) = first_swap s" "frames (parked_now s) = frames s"
  "paging_wf (parked_now s) = paging_wf s" "process_id (pcbs (parked_now s) a) = process_id (pcbs s a)"
  "started (parked_now s) i = started s i"
  by (simp_all add: parked_now_def upd_term_def pid_of_def fun_eq_iff paging_wf_def tables_linked_def program_frame_def
      video_frame_def started_def)

lemma scheduler_resume_eq:
  assumes "pid_of s i < 6" "process_id (pcbs s (get_pcb_ptr (int (pid_of s i)))) = int (pid_of s i)"
  shows "scheduler_resume i s = Some (resumed i s)"
proof -
  have m: "pcb_mapped (get_pcb_ptr (int (pid_of s i)))" using assms(1) by simp
  have u: "uint (active_pid (terminals s i)) = int (pid_of s i)" by (simp add: pid_of_def)
  note f = assms(2) m u
  show ?thesis
  proof (cases "i = active_terminal s")
    case True
    show ?thesis
      using f [unfolded True] unfolding True
      by (simp add: scheduler_resume_def resumed_def get_pcb_def map_program_same size_consts Let_def)
  next
    case False
    then show ?thesis
      using f by (simp add: scheduler_resume_def resumed_def get_pcb_def map_program_same size_consts Let_def)
  qed
qed

lemma scheduler_save_eq: "pcb_mapped (current_pcb s) \<Longrightarrow> scheduler_save s = Some (parked_now s)"
  by (simp add: scheduler_save_def upd_pcb_def parked_now_def get_screen_x_def get_screen_y_def)

lemma scheduler_eq:
  assumes "sched_ok s"
  shows "scheduler s = Some (tick s)"
proof -
  let ?n = "next_terminal s"
  have i: "unat (scheduled_terminal s) < 3" "initialized_terminals s (scheduled_terminal s) \<noteq> 0" "first_swap s = 0"
    using sched_okD(2,3) [OF assms] by (simp_all add: started_def)
  have n: "started s ?n" using next_terminal_bound [OF i(1,2)] by (simp add: started_def)
  then have p: "pid_of s ?n < 6" "process_id (pcbs s (get_pcb_ptr (int (pid_of s ?n)))) = int (pid_of s ?n)"
    "pid_of s (scheduled_terminal s) < 6"
    using sched_okD(3,10,11) [OF assms] by blast+
  then have m: "pcb_mapped (current_pcb s)" unfolding sched_okD(4) [OF assms] by simp
  have r: "scheduler_resume ?n (parked_now s) = Some (tick s)"
    unfolding tick_def by (rule scheduler_resume_eq) (use p in \<open>simp_all add: parked_now_sel\<close>)
  show ?thesis
    using i(3) find_next [OF i(1,2)] r by (simp add: scheduler_def scheduler_save_eq [OF m] parked_now_sel)
qed


text \<open>The machine \<open>resumed\<close> builds before the cursor is set.\<close>

definition remapped :: "u8 \<Rightarrow> machine \<Rightarrow> machine" where
  "remapped i s = map_video (if i = active_terminal s then VIDEO else terminal_page i) (map_program (int (pid_of s i))
     (s\<lparr>scheduled_terminal := i, current_pcb := get_pcb_ptr (int (pid_of s i)),
        tss_esp0 := 0x7FFFFC - 0x2000 * of_nat (pid_of s i)\<rparr>))"

lemma resumed_form:
  "\<exists>l. resumed i s = (remapped i s)
      \<lparr>screen_x := uint (of_int (terminal_screen_x (terminals s i)) :: u8),
       screen_y := uint (of_int (terminal_screen_y (terminals s i)) :: u8), io_log := l,
       cpu_ebp := scheduling_ebp_val (pcbs s (get_pcb_ptr (int (pid_of s i)))),
       cpu_esp := scheduling_esp_val (pcbs s (get_pcb_ptr (int (pid_of s i))))\<rparr>"
proof -
  let ?x = "of_int (terminal_screen_x (terminals s i)) :: u8"
  let ?y = "of_int (terminal_screen_y (terminals s i)) :: u8"
  obtain l where l: "set_cursor ?x ?y (remapped i s) =
      (remapped i s)\<lparr>screen_x := uint ?x, screen_y := uint ?y, io_log := l\<rparr>"
    using show_cursor_log [of "(remapped i s)\<lparr>screen_x := uint ?x, screen_y := uint ?y\<rparr>"]
    by (auto simp: set_cursor_def)
  have "resumed i s = (set_cursor ?x ?y (remapped i s))
      \<lparr>cpu_ebp := scheduling_ebp_val (pcbs s (get_pcb_ptr (int (pid_of s i)))),
       cpu_esp := scheduling_esp_val (pcbs s (get_pcb_ptr (int (pid_of s i))))\<rparr>"
    by (simp add: resumed_def remapped_def Let_def)
  then show ?thesis unfolding l by blast
qed

lemma small_cursor:
  assumes "0 \<le> x" "x < 256" shows "uint (of_int x :: u8) = x"
proof -
  have "int (unat (of_int x :: u8)) = int (nat x)" using unat_of_int_u8 [OF assms] by (rule arg_cong)
  then show ?thesis using assms by simp
qed

lemma remapped_sel:
  "scheduled_terminal (remapped i s) = i" "active_terminal (remapped i s) = active_terminal s"
  "initialized_terminals (remapped i s) = initialized_terminals s" "terminals (remapped i s) = terminals s"
  "pcbs (remapped i s) = pcbs s" "first_swap (remapped i s) = first_swap s" "frames (remapped i s) = frames s"
  "current_pcb (remapped i s) = get_pcb_ptr (int (pid_of s i))"
  "tss_esp0 (remapped i s) = 0x7FFFFC - 0x2000 * of_nat (pid_of s i)"
  by (simp_all add: remapped_def map_video_def map_program_def)

lemma resumed_sel:
  "scheduled_terminal (resumed i s) = i" "active_terminal (resumed i s) = active_terminal s"
  "initialized_terminals (resumed i s) = initialized_terminals s" "terminals (resumed i s) = terminals s"
  "pcbs (resumed i s) = pcbs s" "first_swap (resumed i s) = first_swap s" "frames (resumed i s) = frames s"
  "current_pcb (resumed i s) = get_pcb_ptr (int (pid_of s i))"
  "tss_esp0 (resumed i s) = 0x7FFFFC - 0x2000 * of_nat (pid_of s i)"
  "cpu_esp (resumed i s) = scheduling_esp_val (pcbs s (get_pcb_ptr (int (pid_of s i))))"
  "cpu_ebp (resumed i s) = scheduling_ebp_val (pcbs s (get_pcb_ptr (int (pid_of s i))))"
  "screen_x (resumed i s) = uint (of_int (terminal_screen_x (terminals s i)) :: u8)"
  "screen_y (resumed i s) = uint (of_int (terminal_screen_y (terminals s i)) :: u8)"
  using resumed_form [of i s] by (auto simp: remapped_sel)

lemma resumed_paging:
  "program_frame (resumed i s) = get_phys_addr (int (pid_of s i))"
  "video_frame (resumed i s) = page_of (if i = active_terminal s then VIDEO else terminal_page i)"
  "paging_wf s \<Longrightarrow> paging_wf (resumed i s)"
proof -
  have "\<exists>x y l b e. resumed i s = (remapped i s)\<lparr>screen_x := x, screen_y := y, io_log := l, cpu_ebp := b, cpu_esp := e\<rparr>"
    using resumed_form by blast
  then obtain x y l b e where
    r: "resumed i s = (remapped i s)\<lparr>screen_x := x, screen_y := y, io_log := l, cpu_ebp := b, cpu_esp := e\<rparr>"
    by blast
  have f: "program_frame (resumed i s) = program_frame (remapped i s)" "video_frame (resumed i s) = video_frame (remapped i s)"
    "paging_wf (resumed i s) = paging_wf (remapped i s)"
    unfolding r by (simp_all add: program_frame_def video_frame_def paging_wf_def tables_linked_def)
  have w: "paging_wf (s\<lparr>scheduled_terminal := i, current_pcb := p, tss_esp0 := q\<rparr>) = paging_wf s" for p q
    by (simp add: program_frame_def video_frame_def paging_wf_def tables_linked_def)
  show "program_frame (resumed i s) = get_phys_addr (int (pid_of s i))"
    "video_frame (resumed i s) = page_of (if i = active_terminal s then VIDEO else terminal_page i)"
    "paging_wf s \<Longrightarrow> paging_wf (resumed i s)"
    unfolding f remapped_def by (simp_all only: map_video_other map_program_frame map_video_frame map_video_wf map_program_wf w)
qed

lemma terminals_parked: "terminals (parked_now s) = (terminals s)(scheduled_terminal s :=
   (terminals s (scheduled_terminal s))\<lparr>terminal_screen_x := screen_x s, terminal_screen_y := screen_y s\<rparr>)"
  "pcbs (parked_now s) = (pcbs s)(current_pcb s := (cur s)\<lparr>scheduling_esp_val := cpu_esp s, scheduling_ebp_val := cpu_ebp s\<rparr>)"
  by (simp_all add: parked_now_def upd_term_def)

lemma tick_sel:
  "scheduled_terminal (tick s) = next_terminal s" "active_terminal (tick s) = active_terminal s"
  "initialized_terminals (tick s) = initialized_terminals s" "first_swap (tick s) = first_swap s"
  "frames (tick s) = frames s" "pid_of (tick s) = pid_of s" "started (tick s) = started s"
  "process_id (pcbs (tick s) a) = process_id (pcbs s a)"
proof -
  show "pid_of (tick s) = pid_of s"
    unfolding parked_now_sel(4) [of s, symmetric] by (simp add: pid_of_def fun_eq_iff tick_def resumed_sel)
qed (simp_all add: tick_def resumed_sel parked_now_sel started_def fun_eq_iff)

lemma started_next:
  assumes "sched_ok s" shows "started s (next_terminal s)"
  using next_terminal_bound [of s] sched_okD(3) [OF assms] by (simp add: started_def)

text \<open>Two terminals that have been started have two control blocks.\<close>

lemma own_pcb:
  assumes ok: "sched_ok s" and i: "started s i"
  shows "get_pcb_ptr (int (pid_of s i)) = current_pcb s \<longleftrightarrow> i = scheduled_terminal s"
  unfolding sched_okD(4) [OF ok]
  using pcb_ptr_inject sched_okD(3,10,13) [OF ok] i by metis

lemma sched_ok_tick:
  assumes ok: "sched_ok s"
  shows "sched_ok (tick s)"
proof -
  let ?n = "next_terminal s" and ?p = "parked_now s"
  note n = started_next [OF ok]
  have sx: "0 \<le> terminal_screen_x (terminals ?p i) \<and> terminal_screen_x (terminals ?p i) < 256 \<and>
    0 \<le> terminal_screen_y (terminals ?p i) \<and> terminal_screen_y (terminals ?p i) < 256" if "started s i" for i
    using sched_okD(12) [OF ok that] sched_okD(6-9) [OF ok] by (simp add: terminals_parked)
  have n3: "unat ?n < 3" using n by (simp add: started_def)
  have t: "terminals_ok (tick s)"
    using sched_okD(1) [OF ok] n3 terminal_page_frame [OF n3]
    by (simp add: terminals_ok_def mapping_ok_def tick_def resumed_sel resumed_paging parked_now_sel page_consts)
  have c: "current_pcb (tick s) = get_pcb_ptr (int (pid_of s ?n))" "program_frame (tick s) = get_phys_addr (int (pid_of s ?n))"
    by (simp_all add: tick_def resumed_sel resumed_paging parked_now_sel)
  have xy: "0 \<le> screen_x (tick s) \<and> screen_x (tick s) < 256 \<and> 0 \<le> screen_y (tick s) \<and> screen_y (tick s) < 256"
    using sx [OF n] by (simp add: tick_def resumed_sel small_cursor)
  have tm: "terminals (tick s) = terminals ?p" by (simp add: tick_def resumed_sel)
  show ?thesis
    unfolding sched_ok_def tick_sel tm c
    using t n xy sx sched_okD(2,10,11,13) [OF ok] by blast
qed

lemma live_tick:
  assumes ok: "sched_ok s"
  shows "live (tick s) = (if next_terminal s = scheduled_terminal s then live s else parked s (next_terminal s))"
proof -
  let ?n = "next_terminal s" and ?p = "parked_now s"
  note n = started_next [OF ok] and inj = own_pcb [OF ok started_next [OF ok]]
  show ?thesis
  proof (cases "?n = scheduled_terminal s")
    case True
    then show ?thesis
      using inj sched_okD(4-9) [OF ok]
      by (simp add: live_def tick_def resumed_sel resumed_paging parked_now_sel terminals_parked small_cursor)
  next
    case False
    then show ?thesis
      using inj sched_okD(12) [OF ok n]
      by (simp add: live_def parked_def Let_def tick_def resumed_sel resumed_paging parked_now_sel terminals_parked small_cursor)
  qed
qed

lemma parked_tick:
  assumes ok: "sched_ok s" and i: "started s i"
  shows "parked (tick s) i = (if i = scheduled_terminal s then live s else parked s i)"
proof -
  have pt: "pcbs (tick s) = pcbs (parked_now s)" "terminals (tick s) = terminals (parked_now s)"
    by (simp_all add: tick_def resumed_sel)
  show ?thesis
  proof (cases "i = scheduled_terminal s")
    case True
    then show ?thesis
      using own_pcb [OF ok i] sched_okD(5) [OF ok]
      by (simp add: parked_def Let_def live_def tick_sel pt terminals_parked)
  next
    case False
    then show ?thesis
      using own_pcb [OF ok i] by (simp add: parked_def Let_def tick_sel pt terminals_parked)
  qed
qed

section \<open>The interface of time slicing\<close>

text \<open>
  A machine runs one of several contexts and keeps the others aside. If a tick saves what ran and
  loads what it goes on with, then no context is ever lost: it is always either running or kept.
\<close>

locale time_slicing =
  fixes ok :: "'m \<Rightarrow> bool" and member :: "'m \<Rightarrow> 'i \<Rightarrow> bool" and running :: "'m \<Rightarrow> 'i"
    and live :: "'m \<Rightarrow> 'c" and parked :: "'m \<Rightarrow> 'i \<Rightarrow> 'c" and tick :: "'m \<Rightarrow> 'm"
  assumes ok_tick: "ok m \<Longrightarrow> ok (tick m)"
    and member_tick: "ok m \<Longrightarrow> member (tick m) i = member m i"
    and live_tick: "ok m \<Longrightarrow>
      live (tick m) = (if running (tick m) = running m then live m else parked m (running (tick m)))"
    and parked_tick: "ok m \<Longrightarrow> member m i \<Longrightarrow> parked (tick m) i = (if i = running m then live m else parked m i)"
begin

definition context_of :: "'m \<Rightarrow> 'i \<Rightarrow> 'c" where
  "context_of m i = (if i = running m then live m else parked m i)"

lemma context_tick: "ok m \<Longrightarrow> member m i \<Longrightarrow> context_of (tick m) i = context_of m i"
  by (auto simp: context_of_def live_tick parked_tick)

lemma ok_ticks: "ok m \<Longrightarrow> ok ((tick ^^ n) m)"
  by (induction n) (simp_all add: ok_tick)

lemma member_ticks: "ok m \<Longrightarrow> member ((tick ^^ n) m) i = member m i"
  by (induction n) (simp_all add: ok_ticks member_tick)

lemma context_ticks: "ok m \<Longrightarrow> member m i \<Longrightarrow> context_of ((tick ^^ n) m) i = context_of m i"
  by (induction n) (simp_all add: ok_ticks member_ticks context_tick)

lemma comes_back:
  "ok m \<Longrightarrow> member m (running m) \<Longrightarrow> running ((tick ^^ n) m) = running m \<Longrightarrow> live ((tick ^^ n) m) = live m"
  using context_ticks [of m "running m" n] by (simp add: context_of_def)

lemma goes_on: "ok m \<Longrightarrow> member m i \<Longrightarrow> running ((tick ^^ n) m) = i \<Longrightarrow> live ((tick ^^ n) m) = context_of m i"
  using context_ticks [of m i n] by (simp add: context_of_def)

end

interpretation slices: time_slicing sched_ok started scheduled_terminal live parked tick
  by unfold_locales (simp_all add: sched_ok_tick tick_sel live_tick parked_tick)

text \<open>What terminal \<open>i\<close> is doing: running now, or set aside.\<close>

definition slice_of :: "machine \<Rightarrow> u8 \<Rightarrow> slice" where
  "slice_of s i = (if i = scheduled_terminal s then live s else parked s i)"

lemma slice_context: "slices.context_of = slice_of"
  by (simp add: fun_eq_iff slices.context_of_def slice_of_def)

fun ticks :: "nat \<Rightarrow> machine \<Rightarrow> machine option" where
  "ticks 0 s = Some s"
| "ticks (Suc n) s = (case scheduler s of None \<Rightarrow> None | Some s \<Rightarrow> ticks n s)"

lemma ticks_eq: "sched_ok s \<Longrightarrow> ticks n s = Some ((tick ^^ n) s)"
  by (induction n arbitrary: s) (simp_all add: scheduler_eq sched_ok_tick funpow_swap1)

section \<open>Fairness\<close>

definition successor :: "(u8 \<Rightarrow> u8) \<Rightarrow> u8 \<Rightarrow> u8" where
  "successor f i =
     (let a = (i + 1) mod 3; b = (a + 1) mod 3 in if f a \<noteq> 0 then a else if f b \<noteq> 0 then b else i)"

lemma next_successor: "next_terminal s = successor (initialized_terminals s) (scheduled_terminal s)"
  by (simp add: next_terminal_def successor_def Let_def)

lemma scheduled_ticks: "scheduled_terminal ((tick ^^ n) s) = (successor (initialized_terminals s) ^^ n) (scheduled_terminal s)"
proof -
  have "initialized_terminals ((tick ^^ n) s) = initialized_terminals s" for n
    by (induction n) (simp_all add: tick_sel)
  then show ?thesis by (induction n) (simp_all add: tick_sel next_successor)
qed

lemma successor_values:
  "successor f 0 = (if f 1 \<noteq> 0 then 1 else if f 2 \<noteq> 0 then 2 else 0)"
  "successor f 1 = (if f 2 \<noteq> 0 then 2 else if f 0 \<noteq> 0 then 0 else 1)"
  "successor f 2 = (if f 0 \<noteq> 0 then 0 else if f 1 \<noteq> 0 then 1 else 2)"
  by (simp_all add: successor_def Let_def)

lemma up_to_three: "(\<exists>n \<in> {1, 2, 3}. (g ^^ n) i = j) \<longleftrightarrow> g i = j \<or> g (g i) = j \<or> g (g (g i)) = j"
  by (simp add: eval_nat_numeral)

lemma successor_reaches:
  assumes "unat (i :: u8) < 3" "unat j < 3" "f i \<noteq> 0" "f j \<noteq> 0"
  shows "\<exists>n \<in> {1, 2, 3}. (successor f ^^ n) i = j"
proof -
  have "i = 0 \<or> i = 1 \<or> i = 2" "j = 0 \<or> j = 1 \<or> j = 2"
    using u8_below_3 [OF assms(1)] u8_below_3 [OF assms(2)] by blast+
  then show ?thesis unfolding up_to_three using assms(3,4)
    by (elim disjE) (simp_all add: successor_values)
qed

section \<open>Properties\<close>

text \<open>C3: a time slice is lost on nobody. However many timer ticks pass, the process, page, stack and
  cursor of every started terminal are kept, in the machine or set aside, and a terminal that runs
  again goes on with exactly those; the screens are not touched and the invariant stays.\<close>

theorem scheduler_preserves_contexts:
  assumes "sched_ok s" "started s i"
  shows "\<exists>s1. ticks n s = Some s1 \<and> sched_ok s1 \<and> slice_of s1 i = slice_of s i \<and>
    (scheduled_terminal s1 = i \<longrightarrow> live s1 = slice_of s i) \<and> screen_of s1 i = screen_of s i"
proof -
  have f: "frames ((tick ^^ n) s) = frames s" "active_terminal ((tick ^^ n) s) = active_terminal s"
    by (induction n) (simp_all add: tick_sel)
  have c: "slice_of ((tick ^^ n) s) i = slice_of s i"
    using slices.context_ticks [OF assms, of n] unfolding slice_context .
  then have "scheduled_terminal ((tick ^^ n) s) = i \<longrightarrow> live ((tick ^^ n) s) = slice_of s i"
    unfolding slice_of_def by metis
  moreover have "screen_of ((tick ^^ n) s) i = screen_of s i" using f by (simp add: screen_of_def fun_eq_iff)
  ultimately show ?thesis using ticks_eq [OF assms(1)] slices.ok_ticks [OF assms(1)] c by blast
qed

text \<open>C9: round robin is fair: every started terminal runs again within three ticks.\<close>

theorem scheduler_is_fair:
  assumes "sched_ok s" "started s i"
  shows "\<exists>n \<in> {1, 2, 3}. \<exists>s1. ticks n s = Some s1 \<and> scheduled_terminal s1 = i \<and> live s1 = slice_of s i"
proof -
  have st: "started s (scheduled_terminal s)" by (rule sched_okD(3) [OF assms(1)])
  obtain n where n: "n \<in> {1, 2, 3}" "(successor (initialized_terminals s) ^^ n) (scheduled_terminal s) = i"
    using successor_reaches [of "scheduled_terminal s" i "initialized_terminals s"] st assms(2)
    unfolding started_def by blast
  have r: "scheduled_terminal ((tick ^^ n) s) = i" using n(2) by (simp add: scheduled_ticks)
  have "live ((tick ^^ n) s) = slice_of s i"
    using slices.goes_on [OF assms r] unfolding slice_context .
  then show ?thesis using ticks_eq [OF assms(1)] n(1) r by blast
qed

lemma find_initialized_sound:
  "find_initialized f c = Some r \<Longrightarrow> unat c < 3 \<longrightarrow> unat r < 3 \<and> f r \<noteq> 0"
proof (induction rule: find_initialized.raw_induct [rotated, consumes 1])
  case (1 find f c r)
  then show ?case using u8_mod3(4) [of c] by (auto simp: MAX_TERMINALS_def split: if_splits)
qed

text \<open>the search of \<open>scheduler\<close> for the next terminal ends exactly when one of the three has been
  started; then it gives the first started one after the running one, the running one itself last.\<close>

theorem scheduler_search_terminates:
  assumes "unat i < 3"
  shows "((\<exists>r. find_initialized f (first_candidate i) = Some r) \<longleftrightarrow> (\<exists>j. unat j < 3 \<and> f j \<noteq> 0)) \<and>
    (f i \<noteq> 0 \<longrightarrow> find_initialized f (first_candidate i) = Some (successor f i))"
proof -
  have step: "find_initialized f c = (if f c = 0 then find_initialized f ((c + 1) mod 3) else Some c)" for c
    by (subst find_initialized.simps) (simp add: MAX_TERMINALS_def)
  let ?a = "(i + 1) mod 3" and ?b = "((i + 1) mod 3 + 1) mod 3"
  have r: "find_initialized f (first_candidate i) = Some (if f ?a \<noteq> 0 then ?a else if f ?b \<noteq> 0 then ?b else i)"
    if "f ?a \<noteq> 0 \<or> f ?b \<noteq> 0 \<or> f i \<noteq> 0"
    unfolding u8_mod3(1) [OF assms] using that step [of ?a] step [of ?b] step [of i] u8_mod3(3) [OF assms] by auto
  have ij: "i = 0 \<or> i = 1 \<or> i = 2" using u8_below_3 [OF assms] by blast
  have "f ?a \<noteq> 0 \<or> f ?b \<noteq> 0 \<or> f i \<noteq> 0" if "unat j < 3" "f j \<noteq> 0" for j
  proof -
    have "j = 0 \<or> j = 1 \<or> j = 2" using u8_below_3 [OF that(1)] by blast
    then show ?thesis using that(2) ij by (elim disjE) simp_all
  qed
  moreover have "\<exists>j. unat j < 3 \<and> f j \<noteq> 0" if "find_initialized f (first_candidate i) = Some r" for r
    using find_initialized_sound [OF that] u8_mod3(1,4) [OF assms] by auto
  moreover have "find_initialized f (first_candidate i) = Some (successor f i)" if "f i \<noteq> 0"
    using r that by (simp add: successor_def Let_def)
  ultimately show ?thesis using r by blast
qed

theorem scheduler_search_terminates_witness:
  "find_initialized (\<lambda>_. 0) (first_candidate 0) = None \<and>
   find_initialized (\<lambda>i. if i = 1 then 1 else 0) (first_candidate 1) = Some 1"
  using scheduler_search_terminates [of 0 "\<lambda>_. 0"] scheduler_search_terminates [of 1 "\<lambda>i. if i = 1 then 1 else 0"]
  by (simp add: successor_values)

text \<open>Three base shells, each on its terminal; the second and third stopped at stacks 200 and 300.\<close>

definition three_shells :: machine where
  "three_shells = paged\<lparr>initialized_terminals := (\<lambda>_. 1), first_swap := 0, current_pcb := get_pcb_ptr 0,
     terminals := (\<lambda>i. zero_terminal\<lparr>active_pid := i\<rparr>),
     pcbs := (\<lambda>_. zero_pcb)(get_pcb_ptr 1 := zero_pcb\<lparr>process_id := 1, scheduling_esp_val := 200\<rparr>,
       get_pcb_ptr 2 := zero_pcb\<lparr>process_id := 2, scheduling_esp_val := 300\<rparr>)\<rparr>"

lemma three_shells_ok: "sched_ok three_shells"
proof -
  have "terminals_ok three_shells = terminals_ok paged"
    by (simp add: three_shells_def terminals_ok_def mapping_ok_def paging_wf_def tables_linked_def program_frame_def video_frame_def)
  then have t: "terminals_ok three_shells" using paged_terminals_ok by simp
  have s: "started three_shells i \<longleftrightarrow> i = 0 \<or> i = 1 \<or> i = 2" for i
    using u8_below_3 [of i] by (auto simp: started_def three_shells_def)
  have pid: "pid_of three_shells i = unat i" for i by (simp add: pid_of_def three_shells_def)
  have c: "current_pcb three_shells = get_pcb_ptr 0" "scheduled_terminal three_shells = 0" "first_swap three_shells = 0"
    "screen_x three_shells = 0" "screen_y three_shells = 0" "\<And>i. terminal_screen_x (terminals three_shells i) = 0"
    "\<And>i. terminal_screen_y (terminals three_shells i) = 0" "program_frame three_shells = program_frame paged"
    by (simp_all add: three_shells_def zero_terminal_def program_frame_def)
  have p: "process_id (pcbs three_shells (get_pcb_ptr 0)) = 0" "process_id (pcbs three_shells (get_pcb_ptr 1)) = 1"
    "process_id (pcbs three_shells (get_pcb_ptr 2)) = 2"
    by (simp_all add: three_shells_def pcb_ptrs zero_pcb_def)
  have "pid_of three_shells i < 6 \<and> process_id (pcbs three_shells (get_pcb_ptr (int (pid_of three_shells i)))) = int (pid_of three_shells i)"
    if "started three_shells i" for i
    using that p unfolding s pid by auto
  then show ?thesis
    unfolding sched_ok_def using t c get_phys_addr_nat [of 0] by (simp add: s pid word_unat_eq_iff)
qed

theorem scheduler_preserves_contexts_witness:
  "\<exists>s1. ticks 4 three_shells = Some s1 \<and> sched_ok s1 \<and> s_esp (slice_of s1 2) = 300"
proof -
  have "started three_shells 2" by (simp add: started_def three_shells_def)
  moreover have "s_esp (slice_of three_shells 2) = 300"
    by (simp add: slice_of_def parked_def Let_def three_shells_def pid_of_def)
  ultimately show ?thesis using scheduler_preserves_contexts [OF three_shells_ok, of 2 4] by auto
qed

theorem scheduler_is_fair_witness: "\<exists>n s1. ticks n three_shells = Some s1 \<and> cpu_esp s1 = 300"
proof -
  have "started three_shells 2" by (simp add: started_def three_shells_def)
  moreover have "s_esp (slice_of three_shells 2) = 300"
    by (simp add: slice_of_def parked_def Let_def three_shells_def pid_of_def)
  moreover obtain n s1 where "ticks n three_shells = Some s1" "live s1 = slice_of three_shells 2"
    using scheduler_is_fair [OF three_shells_ok, of 2] calculation(1) by blast
  ultimately show ?thesis by (metis live_def slice.select_convs(3))
qed
end
