(* ===== verification/Frames.thy ===== *)
theory Frames
  imports SchedulerFacts
begin

text \<open>
  What text output and line input leave alone. A part \<open>proj\<close> of the machine that does not depend on
  memory, the cursor, the log, the interrupt flag and the terminal records is the same after every
  operation that only changes these, whatever its arguments and however it ends. The interface is
  interpreted twice: for the modifier keys and for what decides which memory user code can reach.
\<close>

locale text_frame =
  fixes proj :: "machine \<Rightarrow> 'a"
  assumes proj_frames: "proj (s\<lparr>frames := f\<rparr>) = proj s"
    and proj_screen_x: "proj (s\<lparr>screen_x := x\<rparr>) = proj s"
    and proj_screen_y: "proj (s\<lparr>screen_y := y\<rparr>) = proj s"
    and proj_io_log: "proj (s\<lparr>io_log := l\<rparr>) = proj s"
    and proj_int_flag: "proj (s\<lparr>int_flag := b\<rparr>) = proj s"
    and proj_terminals: "proj (s\<lparr>terminals := t\<rparr>) = proj s"
begin

lemmas proj_fields = proj_frames proj_screen_x proj_screen_y proj_io_log proj_int_flag proj_terminals

lemma proj_prims [simp]:
  "proj (outb d p s) = proj s" "proj (cli s) = proj s" "proj (sti s) = proj s"
  "proj (upd_term i g s) = proj s" "proj (snd (inb hw p s)) = proj s"
  by (simp_all add: effect_defs proj_fields Let_def)

lemma proj_set_cursor [simp]: "proj (show_cursor s) = proj s" "proj (set_cursor x y s) = proj s"
  by (simp_all add: set_cursor_def show_cursor_def update_cursor_position_def Let_def proj_fields)

lemma proj_kstore: "kstore va v s = Some s' \<Longrightarrow> proj s' = proj s"
  by (auto simp: kstore_def proj_fields split: option.splits)

lemma proj_for_each:
  "for_each xs f s = Some s' \<Longrightarrow> (\<And>i s s'. f i s = Some s' \<Longrightarrow> proj s' = proj s) \<Longrightarrow> proj s' = proj s"
  using for_each_inv [of xs "\<lambda>t. proj t = proj s" f s s'] by simp

lemma proj_store_bytes: "store_bytes a vs s = Some s' \<Longrightarrow> proj s' = proj s"
  by (induction a vs s rule: store_bytes.induct) (auto split: option.splits dest: proj_kstore)

lemma proj_copy_bytes: "copy_bytes kload kstore d src n s = Some s' \<Longrightarrow> proj s' = proj s"
  by (induction n arbitrary: d src s) (auto simp: bind_eq_Some_conv proj_kstore)

lemma proj_rep_movsl: "rep_movsl kload kstore d src n s = Some s' \<Longrightarrow> proj s' = proj s"
proof (induction n arbitrary: d src s)
  case (Suc n)
  then obtain v0 v1 v2 v3 s1 s2 s3 s4 where "kstore d v0 s = Some s1" "kstore (d + 1) v1 s1 = Some s2"
    "kstore (d + 2) v2 s2 = Some s3" "kstore (d + 3) v3 s3 = Some s4"
    "rep_movsl kload kstore (d + 4) (src + 4) n s4 = Some s'"
    by (auto simp: bind_eq_Some_conv)
  then show ?case using Suc.IH proj_kstore by metis
qed simp

lemma proj_memcpy: "memcpy kload kstore d src n s = Some s' \<Longrightarrow> proj s' = proj s"
proof (induction n arbitrary: d src s)
  case (Suc n)
  show ?case
  proof (cases "d AND 3 = 0")
    case True
    then have "memcpy_aligned kload kstore d src (Suc n) s = Some s'" using Suc.prems by simp
    then show ?thesis unfolding memcpy_aligned_def bind_eq_Some_conv
      using proj_rep_movsl proj_copy_bytes by metis
  next
    case False
    then show ?thesis using Suc by (auto simp: bind_eq_Some_conv proj_kstore)
  qed
qed simp

lemma proj_putc:
  assumes "putc c s = Some s'" shows "proj s' = proj s"
proof (cases "c = 10 \<or> c = 13")
  case True
  then show ?thesis using assms by (auto simp: putc_def proj_fields)
next
  case False
  define p where "p = VIDEO + of_int (2 * (NUM_COLS * screen_y s + screen_x s))"
  obtain s1 s2 x y where "kstore p c s = Some s1" "kstore (p + 1) ATTRIB s1 = Some s2"
    "s' = show_cursor (s2\<lparr>screen_y := y, screen_x := x\<rparr>)"
    using assms False unfolding putc_def Let_def p_def [symmetric]
    by (simp add: bind_eq_Some_conv del: of_int_mult of_int_add) blast
  then show ?thesis by (simp add: proj_kstore proj_fields)
qed

lemma proj_puts: "puts cs s = Some (n, s') \<Longrightarrow> proj s' = proj s"
proof (induction cs arbitrary: s n)
  case (Cons c cs)
  show ?case
  proof (cases "c = 0")
    case False
    then obtain s1 m where "putc c s = Some s1" "puts cs s1 = Some (m, s')"
      using Cons.prems by (auto simp: bind_eq_Some_conv)
    then show ?thesis using Cons.IH by (simp add: proj_putc)
  qed (use Cons.prems in simp)
qed simp

lemma proj_fill_row: "fill_row ch row s = Some s' \<Longrightarrow> proj s' = proj s"
  unfolding fill_row_def by (erule proj_for_each) (erule proj_kstore)

lemma proj_copy_row: "copy_row row s = Some s' \<Longrightarrow> proj s' = proj s"
  unfolding copy_row_def by (erule proj_for_each) (auto simp: bind_eq_Some_conv proj_kstore)

lemma proj_clear: "clear s = Some s' \<Longrightarrow> proj s' = proj s"
  unfolding clear_def by (erule proj_for_each) (auto simp: bind_eq_Some_conv proj_kstore)

lemma proj_shift: "shift_video_mem_up a b s = Some (r, s') \<Longrightarrow> proj s' = proj s"
  unfolding shift_video_mem_up_def Let_def
  by (auto simp: bind_eq_Some_conv proj_fill_row split: if_splits dest: proj_for_each [OF _ proj_copy_row])

lemma proj_backspace: "backspace_called s = Some s' \<Longrightarrow> proj s' = proj s"
  unfolding backspace_called_def Let_def
  by (auto simp: bind_eq_Some_conv proj_putc split: if_splits)

lemma proj_conversion: "conversion alt fmt args s = Some (fmt', args', s') \<Longrightarrow> proj s' = proj s"
  by (induction alt fmt args s rule: conversion.induct)
    (auto simp: bind_eq_Some_conv proj_putc proj_puts print_hex8_def print_number_def print_signed_def Let_def
      split: if_splits list.splits vararg.splits)

lemma proj_printf_loop: "printf_loop fmt args s = Some (rest, s') \<Longrightarrow> proj s' = proj s"
proof (induction fmt args s rule: printf_loop.induct)
  case (1 fmt args s)
  from "1.prems" [unfolded printf_loop.simps [of fmt args s]] show ?case
    using "1.IH" by (auto split: list.splits if_splits option.splits dest: proj_putc proj_conversion)
qed

lemma proj_printf: "printf fmt args s = Some (n, s') \<Longrightarrow> proj s' = proj s"
  unfolding printf_def by (auto simp: bind_eq_Some_conv proj_printf_loop)

text \<open>The terminal.\<close>

lemma proj_reset_terminals: "reset_terminals s = Some s' \<Longrightarrow> proj s' = proj s"
  unfolding reset_terminals_def by (erule proj_for_each) (auto simp: bind_eq_Some_conv)

lemma proj_terminal_open: "terminal_open f s = Some (r, s') \<Longrightarrow> proj s' = proj s"
  by (auto simp: terminal_open_def bind_eq_Some_conv proj_reset_terminals)

lemma proj_terminal_close: "terminal_close fd s = Some (r, s') \<Longrightarrow> proj s' = proj s"
  by (auto simp: terminal_close_def bind_eq_Some_conv proj_reset_terminals)

lemma proj_read_redraw: "read_redraw l s = Some (l', s') \<Longrightarrow> proj s' = proj s"
  unfolding read_redraw_def Let_def
  by (auto simp: bind_eq_Some_conv proj_shift split: if_splits)

lemma proj_read_echo: "read_echo s = Some s' \<Longrightarrow> proj s' = proj s"
  unfolding read_echo_def Let_def by (auto simp: bind_eq_Some_conv proj_puts)

lemma proj_read_finish: "read_finish l s = Some (r, out, s') \<Longrightarrow> proj s' = proj s"
  unfolding read_finish_def Let_def by (auto simp: bind_eq_Some_conv split: if_splits)

lemma proj_read_step:
  "read_step l s = Some (Poll l' s') \<Longrightarrow> proj s' = proj s"
  "read_step l s = Some (Line r out s') \<Longrightarrow> proj s' = proj s"
  unfolding read_step_def Let_def
  by (auto simp: bind_eq_Some_conv proj_read_redraw proj_read_echo proj_read_finish
      split: read_point.splits if_splits)

lemma proj_scroll_line: "scroll_line s = Some s' \<Longrightarrow> proj s' = proj s"
  unfolding scroll_line_def by (auto simp: bind_eq_Some_conv proj_shift)

lemma proj_scroll_to_bottom:
  assumes "scroll_to_bottom s = Some s'" shows "proj s' = proj s"
proof (rule scroll_to_bottom.raw_induct [OF _ assms, where P = "\<lambda>s s'. proj s' = proj s"])
  fix f s s' assume "\<And>s s'. f s = Some s' \<Longrightarrow> proj s' = proj s"
    "(if NUM_ROWS - 1 < sched_line s then scroll_line s \<bind> (\<lambda>s. f s) else Some s) = Some s'"
  then show "proj s' = proj s" by (auto simp: bind_eq_Some_conv proj_scroll_line split: if_splits)
qed

lemma proj_make_room:
  assumes "make_room n s = Some s'" shows "proj s' = proj s"
proof (rule make_room.raw_induct [OF _ assms, where P = "\<lambda>n s s'. proj s' = proj s"])
  fix f n s s' assume "\<And>n s s'. f n s = Some s' \<Longrightarrow> proj s' = proj s"
    "(if NUM_ROWS - sched_line s < n then scroll_line s \<bind> (\<lambda>s. f n s) else Some s) = Some s'"
  then show "proj s' = proj s" by (auto simp: bind_eq_Some_conv proj_scroll_line split: if_splits)
qed

lemma proj_write_begin: "write_begin s = Some s' \<Longrightarrow> proj s' = proj s"
  unfolding write_begin_def Let_def by (auto simp: bind_eq_Some_conv)

lemma proj_write_scroll: "write_scroll nbytes k s = Some s' \<Longrightarrow> proj s' = proj s"
  unfolding write_scroll_def
  by (auto simp: bind_eq_Some_conv proj_scroll_line dest!: proj_scroll_to_bottom proj_make_room split: if_splits)

lemma proj_write_advance:
  assumes "write_advance buf nbytes k s = Some s'" shows "proj s' = proj s"
proof -
  define c where "c = scheduled_terminal s"
  obtain nb s1 where a: "(if nbytes \<noteq> NUM_COLS
      then do { last \<leftarrow> (if 0 < nbytes then rd buf (nat (nbytes - 1)) else None);
        if last \<noteq> NEWLINE_ASCII
        then Some (nbytes, upd_term c (\<lambda>t. t\<lparr>char_in_line := char_in_line t + of_int nbytes\<rparr>) s)
        else Some (nbytes - 1, s) }
      else Some (nbytes - 1, s)) = Some (nb, s1)"
    and b: "(if k \<noteq> 0
       then do {
         let s = upd_term c (\<lambda>t. t\<lparr>current_line := current_line t + of_int k\<rparr>) s1;
         let s = (if nb \<ge> NUM_COLS - sched_char s
                  then upd_term c (\<lambda>t. t\<lparr>current_line := current_line t + 1\<rparr>) s else s);
         s \<leftarrow> scroll_to_bottom s;
         Some (upd_term c (\<lambda>t. t\<lparr>char_in_line := 0\<rparr>) s)
       }
       else Some s1) = Some s'"
    using assms unfolding write_advance_def Let_def c_def [symmetric] bind_eq_Some_conv split_paired_Ex prod.case by blast
  have p: "proj s1 = proj s" using a by (auto simp: bind_eq_Some_conv split: if_splits)
  show ?thesis
  proof (cases "k = 0")
    case False
    then show ?thesis using b p unfolding Let_def
      by (auto simp: bind_eq_Some_conv dest!: proj_scroll_to_bottom split: if_splits)
  qed (use b p in simp)
qed

lemma proj_terminal_write: "terminal_write fd buf nbytes s = Some (r, s') \<Longrightarrow> proj s' = proj s"
  unfolding terminal_write_def cursor_to_terminal_def Let_def
  by (auto simp: bind_eq_Some_conv proj_puts proj_write_begin proj_write_scroll proj_write_advance split: if_splits)

end

end
