(* ===== verification/Keyboard.thy ===== *)
theory Keyboard
  imports Frames
begin

text \<open>
  The keyboard driver (\<^verbatim>\<open>devices/keyboard.c\<close>): the two scan code tables, the modifier keys and the
  interrupt handler. The handler can start the shell of another terminal and then does not return.
\<close>

section \<open>Constants and tables (keyboard.h, keyboard.c)\<close>

definition KEYBOARD_STATUS_PORT :: u16 where "KEYBOARD_STATUS_PORT = 0x64"
definition KEYBOARD_OUTPUT_BUFFER_STATUS_MASK :: u8 where "KEYBOARD_OUTPUT_BUFFER_STATUS_MASK = 0x01"
definition KEYBOARD_DATA_PORT :: u16 where "KEYBOARD_DATA_PORT = 0x60"
definition NUM_SCAN_CODES :: u8 where "NUM_SCAN_CODES = 58"
definition UPPER_ROW_LETTER_START :: u8 where "UPPER_ROW_LETTER_START = 0x10"
definition UPPER_ROW_LETTER_END :: u8 where "UPPER_ROW_LETTER_END = 0x19"
definition MID_ROW_LETTER_START :: u8 where "MID_ROW_LETTER_START = 0x1E"
definition MID_ROW_LETTER_END :: u8 where "MID_ROW_LETTER_END = 0x26"
definition LOWER_ROW_LETTER_START :: u8 where "LOWER_ROW_LETTER_START = 0x2C"
definition LOWER_ROW_LETTER_END :: u8 where "LOWER_ROW_LETTER_END = 0x32"
definition CAPS_LOCK :: u8 where "CAPS_LOCK = 0x3A"
definition L_SHIFT_PRESS :: u8 where "L_SHIFT_PRESS = 0x2A"
definition L_SHIFT_RELEASE :: u8 where "L_SHIFT_RELEASE = 0xAA"
definition R_SHIFT_PRESS :: u8 where "R_SHIFT_PRESS = 0x36"
definition R_SHIFT_RELEASE :: u8 where "R_SHIFT_RELEASE = 0xB6"
definition CTRL_PRESS :: u8 where "CTRL_PRESS = 0x1D"
definition CTRL_RELEASE :: u8 where "CTRL_RELEASE = 0x9D"
definition ALT_PRESS :: u8 where "ALT_PRESS = 0x38"
definition ALT_RELEASE :: u8 where "ALT_RELEASE = 0xB8"
definition F1_PRESS :: u8 where "F1_PRESS = 0x3B"
definition F2_PRESS :: u8 where "F2_PRESS = 0x3C"
definition F3_PRESS :: u8 where "F3_PRESS = 0x3D"
definition CAPS_LOCK_BITMASK :: u8 where "CAPS_LOCK_BITMASK = 0x01"
definition L_PRESS :: u8 where "L_PRESS = 0x26"
definition TAB_PRESS :: u8 where "TAB_PRESS = 0x0F"
definition TAB_SPACE :: nat where "TAB_SPACE = 4"

lemmas key_consts = KEYBOARD_STATUS_PORT_def KEYBOARD_OUTPUT_BUFFER_STATUS_MASK_def
  KEYBOARD_DATA_PORT_def NUM_SCAN_CODES_def UPPER_ROW_LETTER_START_def UPPER_ROW_LETTER_END_def
  MID_ROW_LETTER_START_def MID_ROW_LETTER_END_def LOWER_ROW_LETTER_START_def LOWER_ROW_LETTER_END_def
  CAPS_LOCK_def L_SHIFT_PRESS_def L_SHIFT_RELEASE_def R_SHIFT_PRESS_def R_SHIFT_RELEASE_def
  CTRL_PRESS_def CTRL_RELEASE_def ALT_PRESS_def ALT_RELEASE_def F1_PRESS_def F2_PRESS_def
  F3_PRESS_def CAPS_LOCK_BITMASK_def L_PRESS_def TAB_PRESS_def TAB_SPACE_def

definition lowercase_scancode_to_char :: "u8 list" where
  "lowercase_scancode_to_char =
     [0, 0] @ bytes ''1234567890-='' @ [8, 0] @ bytes ''qwertyuiop[]'' @ [10, 0] @
     bytes ''asdfghjkl;'' @ [39, 96, 0, 92] @ bytes ''zxcvbnm,./'' @ [0, 0, 0, 32]"

definition uppercase_scancode_to_char :: "u8 list" where
  "uppercase_scancode_to_char =
     [0, 0] @ bytes ''!@#$%^&*()_+'' @ [8, 0] @ bytes ''QWERTYUIOP{}'' @ [10, 0] @
     bytes ''ASDFGHJKL:'' @ [34, 126, 0, 124] @ bytes ''ZXCVBNM<>?'' @ [0, 0, 0, 32]"

section \<open>Operations\<close>

definition keyboard_init :: "machine \<Rightarrow> machine" where
  "keyboard_init s = enable_irq KEYBOARD_IRQ
     (s\<lparr>caps_lock_flag := 0, l_shift_flag := 0, r_shift_flag := 0, ctrl_flag := 0, alt_flag := 0\<rparr>)"

definition keyboard_close :: "machine \<Rightarrow> machine" where
  "keyboard_close s = disable_irq KEYBOARD_IRQ s"

definition is_letter_code :: "u8 \<Rightarrow> bool" where
  "is_letter_code scan_code \<longleftrightarrow>
     UPPER_ROW_LETTER_START \<le> scan_code \<and> scan_code \<le> UPPER_ROW_LETTER_END \<or>
     MID_ROW_LETTER_START \<le> scan_code \<and> scan_code \<le> MID_ROW_LETTER_END \<or>
     LOWER_ROW_LETTER_START \<le> scan_code \<and> scan_code \<le> LOWER_ROW_LETTER_END"

definition use_caps :: "u8 \<Rightarrow> machine \<Rightarrow> u8" where
  "use_caps scan_code s =
     (let c = l_shift_flag s OR r_shift_flag s in
      if is_letter_code scan_code then c XOR caps_lock_flag s else c)"

definition output_char :: "u8 \<Rightarrow> machine \<Rightarrow> u8 option" where
  "output_char scan_code s =
     rd (if use_caps scan_code s \<noteq> 0 then uppercase_scancode_to_char else lowercase_scancode_to_char)
       (unat scan_code)"

text \<open>The modifier keys set or clear one flag.\<close>

definition modifier_key :: "u8 \<Rightarrow> machine \<Rightarrow> machine option" where
  "modifier_key scan_code s =
     (if scan_code = CAPS_LOCK then Some (s\<lparr>caps_lock_flag := caps_lock_flag s XOR CAPS_LOCK_BITMASK\<rparr>)
      else if scan_code = L_SHIFT_PRESS then Some (s\<lparr>l_shift_flag := 1\<rparr>)
      else if scan_code = R_SHIFT_PRESS then Some (s\<lparr>r_shift_flag := 1\<rparr>)
      else if scan_code = L_SHIFT_RELEASE then Some (s\<lparr>l_shift_flag := 0\<rparr>)
      else if scan_code = R_SHIFT_RELEASE then Some (s\<lparr>r_shift_flag := 0\<rparr>)
      else if scan_code = CTRL_PRESS then Some (s\<lparr>ctrl_flag := 1\<rparr>)
      else if scan_code = CTRL_RELEASE then Some (s\<lparr>ctrl_flag := 0\<rparr>)
      else if scan_code = ALT_PRESS then Some (s\<lparr>alt_flag := 1\<rparr>)
      else if scan_code = ALT_RELEASE then Some (s\<lparr>alt_flag := 0\<rparr>)
      else None)"

text \<open>The chain of conditions on the scan code; \<open>None\<close> is a fault.\<close>

definition key_action :: "interference \<Rightarrow> u8 \<Rightarrow> machine \<Rightarrow> switch_outcome option" where
  "key_action env scan_code s =
     (case modifier_key scan_code s of
        Some s \<Rightarrow> Some (SwitchDone s)
      | None \<Rightarrow>
          if scan_code = L_PRESS \<and> ctrl_flag s \<noteq> 0 then map_option SwitchDone (clear_terminal s)
          else if alt_flag s \<noteq> 0 \<and> (scan_code = F1_PRESS \<or> scan_code = F2_PRESS \<or> scan_code = F3_PRESS)
          then terminal_switch env (if scan_code = F1_PRESS then 0 else if scan_code = F2_PRESS then 1 else 2) s
          else if scan_code = TAB_PRESS
          then map_option SwitchDone (for_each [0..<TAB_SPACE] (\<lambda>_. update_kb_buffer SPACE_ASCII) s)
          else if scan_code \<le> NUM_SCAN_CODES
          then do { c \<leftarrow> output_char scan_code s; map_option SwitchDone (update_kb_buffer c s) }
          else Some (SwitchDone s))"

definition keyboard_handler :: "device \<Rightarrow> interference \<Rightarrow> machine \<Rightarrow> switch_outcome option" where
  "keyboard_handler hw env s =
     do {
       let s = cli s;
       let (keyboard_status, s) = inb hw KEYBOARD_STATUS_PORT s;
       r \<leftarrow> (if keyboard_status AND KEYBOARD_OUTPUT_BUFFER_STATUS_MASK \<noteq> 0
             then (let (scan_code, s) = inb hw KEYBOARD_DATA_PORT s in key_action env scan_code s)
             else Some (SwitchDone s));
       Some (case r of SwitchDone s \<Rightarrow> SwitchDone (send_eoi KEYBOARD_IRQ (sti s)) | SwitchShell r \<Rightarrow> SwitchShell r)
     }"

section \<open>The layout\<close>

lemma table_lengths [simp]:
  "length lowercase_scancode_to_char = 58" "length uppercase_scancode_to_char = 58"
  by (simp_all add: lowercase_scancode_to_char_def uppercase_scancode_to_char_def)


lemma modifier_None_iff:
  "modifier_key c s = None \<longleftrightarrow> c \<notin> {0x3A, 0x2A, 0x36, 0xAA, 0xB6, 0x1D, 0x9D, 0x38, 0xB8}"
  unfolding modifier_key_def key_consts by (simp split: if_split)

lemma letter_codes: "is_letter_code c \<longleftrightarrow> unat c \<in> {16..25} \<union> {30..38} \<union> {44..50}"
  by (simp add: is_letter_code_def key_consts word_le_nat_alt)

text \<open>
  A keyboard as its user sees it: which modifiers are down or locked, and the characters a key types.
  The shifted character of a key is read off a US keyboard, not off the second table.
\<close>

record modifiers =
  locked :: bool
  left_shift :: bool
  right_shift :: bool
  ctrl_down :: bool
  alt_down :: bool

definition mods :: "machine \<Rightarrow> modifiers" where
  "mods s = \<lparr>locked = caps_lock_flag s \<noteq> 0, left_shift = l_shift_flag s \<noteq> 0,
     right_shift = r_shift_flag s \<noteq> 0, ctrl_down = ctrl_flag s \<noteq> 0, alt_down = alt_flag s \<noteq> 0\<rparr>"

definition press :: "u8 \<Rightarrow> modifiers \<Rightarrow> modifiers" where
  "press c m =
     (if c = 0x3A then m\<lparr>locked := \<not> locked m\<rparr>
      else m\<lparr>left_shift := c = 0x2A \<or> c \<noteq> 0xAA \<and> left_shift m,
             right_shift := c = 0x36 \<or> c \<noteq> 0xB6 \<and> right_shift m,
             ctrl_down := c = 0x1D \<or> c \<noteq> 0x9D \<and> ctrl_down m,
             alt_down := c = 0x38 \<or> c \<noteq> 0xB8 \<and> alt_down m\<rparr>)"

definition is_letter :: "u8 \<Rightarrow> bool" where
  "is_letter c \<longleftrightarrow> 97 \<le> unat c \<and> unat c \<le> 122"

definition us_shift :: "u8 \<Rightarrow> u8" where
  "us_shift c =
     (if is_letter c then c - 32
      else case map_of (zip (bytes ''1234567890-=[];'' @ [39, 96, 92] @ bytes '',./'')
                            (bytes ''!@#$%^&*()_+{}:'' @ [34, 126, 124] @ bytes ''<>?'')) c of
             Some d \<Rightarrow> d | None \<Rightarrow> c)"

text \<open>
  The keyboard itself, set 1 of the scan codes: the number of the leftmost key of each row and the
  characters printed on its keys from there on; backspace, Enter and the space bar stand alone. A key
  that is not listed types nothing.
\<close>

definition us_rows :: "(nat \<times> u8 list) list" where
  "us_rows =
     [(2, bytes ''1234567890-=''), (16, bytes ''qwertyuiop[]''), (30, bytes ''asdfghjkl;'' @ [39, 96]),
      (43, 92 # bytes ''zxcvbnm,./''), (14, [8]), (28, [10]), (57, [32])]"

definition us_key :: "u8 \<Rightarrow> u8" where
  "us_key c =
     (case List.find (\<lambda>(first, keys). first \<le> unat c \<and> unat c < first + length keys) us_rows of
        Some (first, keys) \<Rightarrow> keys ! (unat c - first) | None \<Rightarrow> 0)"

definition typed_char :: "u8 \<Rightarrow> modifiers \<Rightarrow> u8" where
  "typed_char c m =
     (let k = us_key c; shift = left_shift m \<or> right_shift m in
      if (if is_letter k then shift \<noteq> locked m else shift) then us_shift k else k)"

definition flags_ok :: "machine \<Rightarrow> bool" where
  "flags_ok s \<longleftrightarrow> caps_lock_flag s \<in> {0, 1} \<and> l_shift_flag s \<in> {0, 1} \<and> r_shift_flag s \<in> {0, 1} \<and>
     ctrl_flag s \<in> {0, 1} \<and> alt_flag s \<in> {0, 1}"

lemma modifier_key_press:
  "flags_ok s \<Longrightarrow> modifier_key c s = Some s' \<Longrightarrow> mods s' = press c (mods s) \<and> flags_ok s'"
  (is "?ok \<Longrightarrow> ?e \<Longrightarrow> _")
proof -
  assume ok: ?ok and e: ?e
  have x: "caps_lock_flag s XOR 1 \<in> {0, 1}" "caps_lock_flag s XOR 1 \<noteq> 0 \<longleftrightarrow> caps_lock_flag s = 0"
    using ok by (auto simp: flags_ok_def)
  have "c \<in> {0x3A, 0x2A, 0x36, 0xAA, 0xB6, 0x1D, 0x9D, 0x38, 0xB8}"
    using e modifier_None_iff [of c s] by auto
  then show ?thesis
    using e x ok unfolding modifier_key_def key_consts
    by (elim insertE emptyE; simp add: mods_def press_def flags_ok_def; hypsubst?; simp)
qed

lemma no_modifier_press: "modifier_key c s = None \<Longrightarrow> press c m = m"
  by (simp add: modifier_None_iff press_def)

lemma table_chars: "k < 58 \<Longrightarrow>
   is_letter (lowercase_scancode_to_char ! k) = (k \<in> {16..25} \<union> {30..38} \<union> {44..50}) \<and>
   uppercase_scancode_to_char ! k = us_shift (lowercase_scancode_to_char ! k)"
proof -
  have "list_all (\<lambda>k. is_letter (lowercase_scancode_to_char ! k) = (k \<in> {16..25} \<union> {30..38} \<union> {44..50}) \<and>
     uppercase_scancode_to_char ! k = us_shift (lowercase_scancode_to_char ! k)) [0..<58]"
    by (simp add: upt_rec lowercase_scancode_to_char_def uppercase_scancode_to_char_def is_letter_def us_shift_def)
  moreover assume "k < 58"
  ultimately show ?thesis unfolding list_all_iff by simp
qed

lemma table_keys:
  assumes "unat c < 58" shows "lowercase_scancode_to_char ! unat c = us_key c"
proof -
  have "list_all (\<lambda>k. lowercase_scancode_to_char ! k = us_key (of_nat k)) [0..<58]"
    by (simp add: upt_rec lowercase_scancode_to_char_def us_key_def us_rows_def)
  then have "lowercase_scancode_to_char ! k = us_key (of_nat k)" if "k < 58" for k
    using that unfolding list_all_iff by simp
  from this [OF assms] show ?thesis by simp
qed

lemma output_char_typed:
  assumes "flags_ok s" "unat c < 58"
  shows "output_char c s = Some (typed_char c (mods s))"
proof -
  have f: "caps_lock_flag s = 0 \<or> caps_lock_flag s = 1" "l_shift_flag s = 0 \<or> l_shift_flag s = 1"
    "r_shift_flag s = 0 \<or> r_shift_flag s = 1"
    using assms(1) by (simp_all add: flags_ok_def)
  have u: "use_caps c s \<noteq> 0 \<longleftrightarrow>
     (if is_letter_code c then (left_shift (mods s) \<or> right_shift (mods s)) \<noteq> locked (mods s)
      else left_shift (mods s) \<or> right_shift (mods s))"
    using f by (auto simp: use_caps_def Let_def mods_def)
  show ?thesis
    unfolding output_char_def u typed_char_def Let_def
    using table_chars [OF assms(2)] table_keys [OF assms(2)] assms(2) by (simp add: letter_codes)
qed

section \<open>Typing leaves the modifiers alone\<close>

definition kb_flags :: "machine \<Rightarrow> u8 \<times> u8 \<times> u8 \<times> u8 \<times> u8" where
  "kb_flags s = (caps_lock_flag s, l_shift_flag s, r_shift_flag s, ctrl_flag s, alt_flag s)"

lemma kb_flags_mods: "kb_flags s' = kb_flags s \<Longrightarrow> mods s' = mods s \<and> flags_ok s' = flags_ok s"
  by (simp add: kb_flags_def mods_def flags_ok_def)

interpretation kb: text_frame kb_flags
  by unfold_locales (simp_all add: kb_flags_def)

lemma kb_flags_map_video [simp]: "kb_flags (map_video a s) = kb_flags s"
  by (simp add: kb_flags_def map_video_def)

lemma kb_flags_update: "update_kb_buffer c s = Some s' \<Longrightarrow> kb_flags s' = kb_flags s"
  unfolding update_kb_buffer_def Let_def
  by (auto simp: bind_eq_Some_conv kb.proj_backspace split: if_splits)

section \<open>One key\<close>

text \<open>The controller with one scan code ready, and the interrupt it raises.\<close>

definition key_device :: "u8 \<Rightarrow> device" where
  "key_device c = (\<lambda>log port. if port = KEYBOARD_DATA_PORT then c else KEYBOARD_OUTPUT_BUFFER_STATUS_MASK)"

definition key_press :: "u8 \<Rightarrow> machine \<Rightarrow> machine option" where
  "key_press c s = (case keyboard_handler (key_device c) [] s of Some (SwitchDone s) \<Rightarrow> Some s | _ \<Rightarrow> None)"

definition special :: "u8 \<Rightarrow> modifiers \<Rightarrow> bool" where
  "special c m \<longleftrightarrow> c = 0x26 \<and> ctrl_down m \<or> c \<in> {0x3B, 0x3C, 0x3D} \<and> alt_down m"

definition key_chars :: "u8 \<Rightarrow> modifiers \<Rightarrow> u8 list" where
  "key_chars c m =
     (if c \<in> {0x2A, 0x36, 0x1D, 0x38} \<or> 0x3A \<le> c then []
      else if c = 0x0F then [32, 32, 32, 32] else [typed_char c m])"

definition same_terminals :: "machine \<Rightarrow> machine \<Rightarrow> bool" where
  "same_terminals s s' \<longleftrightarrow> terminals s' = terminals s \<and> active_terminal s' = active_terminal s \<and>
     scheduled_terminal s' = scheduled_terminal s \<and> paging_wf s' = paging_wf s"

lemma modifier_key_same:
  "modifier_key c s = Some s' \<Longrightarrow> same_terminals s s'"
  unfolding modifier_key_def same_terminals_def
  by (auto simp: paging_wf_def tables_linked_def program_frame_def video_frame_def split: if_splits)

lemma send_eoi_keyboard: "send_eoi KEYBOARD_IRQ s = outb 0x61 0x20 s"
  by (simp add: send_eoi_def KEYBOARD_IRQ_def pic_consts word_le_nat_alt)

lemma same_terminals_sel [simp]:
  "same_terminals s (outb d p s') = same_terminals s s'" "same_terminals s (sti s') = same_terminals s s'"
  "same_terminals s (cli s') = same_terminals s s'"
  "same_terminals s (s'\<lparr>io_log := l\<rparr>) = same_terminals s s'"
  by (auto simp: same_terminals_def outb_def)

lemma same_terminals_refl [simp]: "same_terminals s s"
  by (simp add: same_terminals_def)

lemma for_each_same: "for_each xs (\<lambda>_. f v) s = for_each (replicate (length xs) v) f s"
  by (induction xs arbitrary: s) (auto split: option.split)

lemma key_action_types:
  assumes "flags_ok s" "\<not> special c (mods s)"
  shows "\<exists>s1. same_terminals s s1 \<and> flags_ok s1 \<and> mods s1 = press c (mods s) \<and>
     key_action env c s = map_option SwitchDone (for_each (key_chars c (mods s)) update_kb_buffer s1)"
proof (cases "modifier_key c s")
  case (Some s1)
  have "c \<in> {0x3A, 0x2A, 0x36, 0xAA, 0xB6, 0x1D, 0x9D, 0x38, 0xB8}"
    using Some modifier_None_iff [of c s] by auto
  then have "key_chars c (mods s) = []" by (auto simp: key_chars_def)
  then show ?thesis
    using modifier_key_press [OF assms(1) Some] modifier_key_same [OF Some] Some
    by (intro exI [of _ s1]) (simp add: key_action_def)
next
  case None
  have n: "c \<notin> {0x3A, 0x2A, 0x36, 0xAA, 0xB6, 0x1D, 0x9D, 0x38, 0xB8}"
    using None modifier_None_iff by blast
  have l: "\<not> (c = L_PRESS \<and> ctrl_flag s \<noteq> 0)"
    "\<not> (alt_flag s \<noteq> 0 \<and> (c = F1_PRESS \<or> c = F2_PRESS \<or> c = F3_PRESS))"
    using assms(2) by (auto simp: special_def key_consts mods_def)
  have ka: "key_action env c s =
      (if c = TAB_PRESS then map_option SwitchDone (for_each [0..<TAB_SPACE] (\<lambda>_. update_kb_buffer SPACE_ASCII) s)
       else if c \<le> NUM_SCAN_CODES
       then do { c \<leftarrow> output_char c s; map_option SwitchDone (update_kb_buffer c s) }
       else Some (SwitchDone s))"
    unfolding key_action_def None option.case if_not_P [OF l(1)] if_not_P [OF l(2)] by (rule refl)
  have "key_action env c s = map_option SwitchDone (for_each (key_chars c (mods s)) update_kb_buffer s)"
  proof (cases "c = TAB_PRESS")
    case True
    have "key_chars c (mods s) = replicate (length [0..<TAB_SPACE]) SPACE_ASCII"
      using True by (simp add: key_chars_def TAB_PRESS_def SPACE_ASCII_def) (simp add: TAB_SPACE_def numeral_eq_Suc)
    moreover have "key_action env c s =
        map_option SwitchDone (for_each [0..<TAB_SPACE] (\<lambda>_. update_kb_buffer SPACE_ASCII) s)"
      unfolding ka using True by (rule if_P)
    ultimately show ?thesis by (simp only: for_each_same)
  next
    case False
    show ?thesis
    proof (cases "c \<le> NUM_SCAN_CODES")
      case True
      have "c \<noteq> 58" using n by simp
      then have lt: "unat c < 58"
        using True by (simp add: NUM_SCAN_CODES_def word_le_nat_alt order_less_le word_unat_eq_iff)
      then have "\<not> 0x3A \<le> c" by (simp add: word_le_nat_alt)
      then have "key_chars c (mods s) = [typed_char c (mods s)]"
        using n False by (simp add: key_chars_def TAB_PRESS_def)
      moreover have "map_option SwitchDone (update_kb_buffer k s) =
          map_option SwitchDone (for_each [k] update_kb_buffer s)" for k
        by (simp split: option.split)
      ultimately show ?thesis
        using False True output_char_typed [OF assms(1) lt] by (simp add: ka del: for_each.simps)
    next
      case no: False
      then have "0x3A \<le> c" by (simp add: NUM_SCAN_CODES_def)
      then show ?thesis using False no by (simp add: ka key_chars_def)
    qed
  qed
  then show ?thesis using assms(1) no_modifier_press [OF None] by (intro exI [of _ s]) simp
qed

lemma key_press_types:
  assumes "flags_ok s" "\<not> special c (mods s)"
  shows "\<exists>s1. same_terminals s s1 \<and> flags_ok s1 \<and> mods s1 = press c (mods s) \<and>
     key_press c s = map_option (\<lambda>s. outb 0x61 0x20 (sti s)) (for_each (key_chars c (mods s)) update_kb_buffer s1)"
proof -
  define s0 where "s0 = (cli s)\<lparr>io_log := In KEYBOARD_DATA_PORT c # In KEYBOARD_STATUS_PORT 1 # io_log s\<rparr>"
  have s0: "same_terminals s s0" "flags_ok s0 = flags_ok s" "mods s0 = mods s"
    by (simp_all add: s0_def) (simp_all add: cli_def flags_ok_def mods_def)
  obtain s1 where s1: "same_terminals s0 s1" "flags_ok s1" "mods s1 = press c (mods s0)"
    "key_action [] c s0 = map_option SwitchDone (for_each (key_chars c (mods s0)) update_kb_buffer s1)"
    using key_action_types [of s0 c "[]"] assms s0 by auto
  have "keyboard_handler (key_device c) [] s =
     map_option (\<lambda>s. SwitchDone (outb 0x61 0x20 (sti s))) (for_each (key_chars c (mods s)) update_kb_buffer s1)"
    using s1(4) s0(3) unfolding keyboard_handler_def
    by (simp add: Let_def inb_def key_device_def key_consts s0_def cli_def)
      (cases "for_each (key_chars c (mods s)) update_kb_buffer s1"; simp add: send_eoi_keyboard)
  then have "key_press c s =
     map_option (\<lambda>s. outb 0x61 0x20 (sti s)) (for_each (key_chars c (mods s)) update_kb_buffer s1)"
    by (simp add: key_press_def split: option.split)
  then show ?thesis using s1 s0 by (intro exI [of _ s1]) (simp add: same_terminals_def)
qed

section \<open>A typed line\<close>

lemma poll_ok_same: "same_terminals s s' \<Longrightarrow> poll_ok s' = poll_ok s"
  by (simp add: same_terminals_def poll_ok_def)

lemma poll_keys:
  assumes "poll_ok s" "enter_flag (terminals s (active_terminal s)) = 0" "plain cs"
  shows "\<exists>s'. for_each cs update_kb_buffer s = Some s' \<and> poll_ok s' \<and> active_terminal s' = active_terminal s \<and>
    enter_flag (terminals s' (active_terminal s)) = 0 \<and>
    typed (terminals s' (active_terminal s)) = fold edit cs (typed (terminals s (active_terminal s)))"
  using assms
proof (induction cs arbitrary: s)
  case (Cons c cs)
  obtain s1 where s1: "update_kb_buffer c s = Some s1" "poll_ok s1" "active_terminal s1 = active_terminal s"
    "key_effect c (terminals s (active_terminal s)) (terminals s1 (active_terminal s))"
    using poll_key [OF Cons.prems(1), of c] Cons.prems(3) by (auto simp: plain_def)
  have "enter_flag (terminals s1 (active_terminal s)) = 0"
    "typed (terminals s1 (active_terminal s)) = edit c (typed (terminals s (active_terminal s)))"
    using s1(4) Cons.prems(2,3) by (auto simp: key_effect_def plain_def)
  then show ?case using Cons.IH [of s1] s1 Cons.prems(3) by (auto simp: plain_def)
qed simp

text \<open>The characters that a sequence of scan codes types, while it types plain text only.\<close>

fun text_of :: "modifiers \<Rightarrow> u8 list \<Rightarrow> u8 list option" where
  "text_of m [] = Some []"
| "text_of m (c # cs) =
     (if special c m \<or> \<not> plain (key_chars c m) then None
      else map_option ((@) (key_chars c m)) (text_of (press c m) cs))"

lemma key_press_poll:
  assumes "flags_ok s" "poll_ok s" "enter_flag (terminals s (active_terminal s)) = 0"
    and "\<not> special c (mods s)" "plain (key_chars c (mods s))"
  shows "\<exists>s'. key_press c s = Some s' \<and> flags_ok s' \<and> mods s' = press c (mods s) \<and> poll_ok s' \<and>
    active_terminal s' = active_terminal s \<and> enter_flag (terminals s' (active_terminal s)) = 0 \<and>
    typed (terminals s' (active_terminal s)) =
      fold edit (key_chars c (mods s)) (typed (terminals s (active_terminal s)))"
proof -
  obtain s1 where s1: "same_terminals s s1" "flags_ok s1" "mods s1 = press c (mods s)"
    "key_press c s = map_option (\<lambda>s. outb 0x61 0x20 (sti s)) (for_each (key_chars c (mods s)) update_kb_buffer s1)"
    using key_press_types [OF assms(1,4)] by blast
  have e: "poll_ok s1" "terminals s1 = terminals s" "active_terminal s1 = active_terminal s"
    using s1(1) assms(2) by (simp_all add: poll_ok_same) (simp_all add: same_terminals_def)
  then obtain s2 where s2: "for_each (key_chars c (mods s)) update_kb_buffer s1 = Some s2" "poll_ok s2"
    "active_terminal s2 = active_terminal s" "enter_flag (terminals s2 (active_terminal s)) = 0"
    "typed (terminals s2 (active_terminal s)) =
      fold edit (key_chars c (mods s)) (typed (terminals s (active_terminal s)))"
    using poll_keys [OF e(1) _ assms(5)] assms(3) by auto
  define s3 where "s3 = outb 0x61 0x20 (sti s2)"
  have k: "kb_flags s3 = kb_flags s1"
    using kb.proj_for_each [OF s2(1) kb_flags_update] by (simp add: s3_def)
  have t: "same_terminals s2 s3" by (simp add: s3_def)
  then have "terminals s3 = terminals s2" "active_terminal s3 = active_terminal s2" "poll_ok s3"
    using poll_ok_same [OF t] s2(2) by (simp_all add: same_terminals_def)
  moreover have "key_press c s = Some s3" using s1(4) s2(1) by (simp add: s3_def)
  moreover have "flags_ok s3" "mods s3 = press c (mods s)"
    using kb_flags_mods [OF k] s1(2,3) by simp_all
  ultimately show ?thesis using s2(3-5) by (intro exI [of _ s3]) simp
qed

lemma key_press_enter:
  assumes "flags_ok s" "poll_ok s"
  shows "\<exists>s'. key_press 0x1C s = Some s' \<and> poll_ok s' \<and> active_terminal s' = active_terminal s \<and>
    enter_flag (terminals s' (active_terminal s)) = 1 \<and>
    typed (terminals s' (active_terminal s)) = typed (terminals s (active_terminal s))"
proof -
  have ch: "key_chars 0x1C (mods s) = [10]"
    by (auto simp: key_chars_def typed_char_def Let_def us_key_def us_rows_def is_letter_def us_shift_def)
  have "\<not> special 0x1C (mods s)" by (simp add: special_def)
  then obtain s1 where s1: "same_terminals s s1"
    "key_press 0x1C s = map_option (\<lambda>s. outb 0x61 0x20 (sti s)) (for_each (key_chars 0x1C (mods s)) update_kb_buffer s1)"
    using key_press_types [OF assms(1), of "0x1C"] by blast
  have e: "poll_ok s1" "terminals s1 = terminals s" "active_terminal s1 = active_terminal s"
    using s1(1) assms(2) by (simp_all add: poll_ok_same) (simp_all add: same_terminals_def)
  obtain s2 where s2: "update_kb_buffer 10 s1 = Some s2" "poll_ok s2" "active_terminal s2 = active_terminal s1"
    "key_effect 10 (terminals s1 (active_terminal s1)) (terminals s2 (active_terminal s1))"
    using poll_key [OF e(1), of 10] by auto
  define s3 where "s3 = outb 0x61 0x20 (sti s2)"
  have t: "same_terminals s2 s3" by (simp add: s3_def)
  then have "terminals s3 = terminals s2" "active_terminal s3 = active_terminal s2" "poll_ok s3"
    using poll_ok_same [OF t] s2(2) by (simp_all add: same_terminals_def)
  moreover have "key_press 0x1C s = Some s3" using s1(2) s2(1) by (simp add: s3_def ch)
  ultimately show ?thesis using s2 e by (intro exI [of _ s3]) (simp add: key_effect_def)
qed

lemma read_spin_codes:
  assumes "poll_ok s" "flags_ok s" "enter_flag (terminals s (active_terminal s)) = 0"
    and "text_of (mods s) codes = Some keys"
  shows "\<exists>s'. read_spin (map key_press (codes @ [0x1C]) @ [idle, idle]) l s =
     Some (Line (int (length (fold edit keys (typed (terminals s (active_terminal s))))) + 1)
       (fold edit keys (typed (terminals s (active_terminal s))) @ [10]) s')"
  using assms
proof (induction codes arbitrary: l s keys)
  case Nil
  obtain l1 s1 where r: "read_step l s = Some (Poll l1 s1)" "poll_ok s1" "active_terminal s1 = active_terminal s"
    "same_line (terminals s (active_terminal s)) (terminals s1 (active_terminal s))"
    using read_step_waits [OF Nil(1), of l] Nil(3) by blast
  have f: "flags_ok s1" using kb_flags_mods [OF kb.proj_read_step(1) [OF r(1)]] Nil(2) by simp
  obtain s2 where k: "key_press 0x1C s1 = Some s2" "poll_ok s2" "active_terminal s2 = active_terminal s1"
    "enter_flag (terminals s2 (active_terminal s1)) = 1"
    "typed (terminals s2 (active_terminal s1)) = typed (terminals s1 (active_terminal s1))"
    using key_press_enter [OF f r(2)] by blast
  have "enter_flag (terminals s2 (active_terminal s2)) \<noteq> 0"
    "typed (terminals s2 (active_terminal s2)) = typed (terminals s (active_terminal s))"
    using k r by (simp_all add: same_line_def)
  then show ?case using read_spin_entered [OF k(2), of l1] r k Nil(4) by simp
next
  case (Cons c codes)
  obtain l1 s1 where r: "read_step l s = Some (Poll l1 s1)" "poll_ok s1" "active_terminal s1 = active_terminal s"
    "same_line (terminals s (active_terminal s)) (terminals s1 (active_terminal s))"
    using read_step_waits [OF Cons.prems(1), of l] Cons.prems(3) by blast
  have f: "flags_ok s1" "mods s1 = mods s"
    using kb_flags_mods [OF kb.proj_read_step(1) [OF r(1)]] Cons.prems(2) by simp_all
  obtain ks where ks: "\<not> special c (mods s)" "plain (key_chars c (mods s))"
    "text_of (press c (mods s)) codes = Some ks" "keys = key_chars c (mods s) @ ks"
    using Cons.prems(4) by (auto split: if_splits)
  obtain s2 where k: "key_press c s1 = Some s2" "flags_ok s2" "mods s2 = press c (mods s1)" "poll_ok s2"
    "active_terminal s2 = active_terminal s1" "enter_flag (terminals s2 (active_terminal s1)) = 0"
    "typed (terminals s2 (active_terminal s1)) =
       fold edit (key_chars c (mods s1)) (typed (terminals s1 (active_terminal s1)))"
    using key_press_poll [OF f(1) r(2), of c] ks(1,2) f(2) r(3,4) Cons.prems(3) by (auto simp: same_line_def)
  have e: "enter_flag (terminals s2 (active_terminal s2)) = 0" "text_of (mods s2) codes = Some ks"
    "typed (terminals s2 (active_terminal s2)) = fold edit (key_chars c (mods s)) (typed (terminals s (active_terminal s)))"
    using k r f(2) ks(3) by (simp_all add: same_line_def)
  show ?case using Cons.IH [OF k(4,2) e(1,2), of l1] e(3) ks(4) r k by simp
qed

section \<open>Properties\<close>

text \<open>C33: the scan code tables and the modifier logic give the US keyboard layout: for every scan
  code that reaches the tables the lookup is inside them and yields the key's character, shifted
  exactly when Shift is down, or, for a letter, when one of Shift and Caps Lock is active.\<close>

theorem output_char_layout:
  assumes "flags_ok s" "modifier_key scan_code s = None" "scan_code \<le> NUM_SCAN_CODES"
  shows "output_char scan_code s = Some (typed_char scan_code (mods s))"
proof -
  have "scan_code \<noteq> 58" using assms(2) modifier_None_iff [of scan_code s] by auto
  then have "unat scan_code < 58"
    using assms(3) by (simp add: NUM_SCAN_CODES_def word_le_nat_alt order_less_le word_unat_eq_iff)
  then show ?thesis by (rule output_char_typed [OF assms(1)])
qed

theorem output_char_layout_witness:
  "output_char 0x10 (loaded\<lparr>caps_lock_flag := 1\<rparr>) = Some 81"
  using output_char_layout [of "loaded\<lparr>caps_lock_flag := 1\<rparr>" "0x10"]
  by (simp add: flags_ok_def loaded_def modifier_None_iff NUM_SCAN_CODES_def typed_char_def mods_def
      us_key_def us_rows_def is_letter_def us_shift_def)

text \<open>C34: keyboard and terminal together: scan codes arrive as interrupts while \<open>terminal_read\<close> polls.
  The read returns the text that the keys mean on a US keyboard, with Shift and Caps Lock as they
  were pressed and released on the way, a tab as four spaces, edited by backspace and cut at 127
  characters, followed by the newline of Enter.\<close>

theorem typed_line_is_read:
  assumes "poll_ok s" "flags_ok s" "enter_flag (terminals s (active_terminal s)) = 0"
    and "text_of (mods s) codes = Some keys"
  shows "\<exists>s'. terminal_read (map key_press (codes @ [0x1C]) @ [idle, idle]) nbytes s =
     Some (Line (int (length (fold edit keys (typed (terminals s (active_terminal s))))) + 1)
       (fold edit keys (typed (terminals s (active_terminal s))) @ [10]) s')"
  unfolding terminal_read_def using assms by (rule read_spin_codes)

lemma paged_mods: "kb_flags paged = (0, 0, 0, 0, 0)"
  by (simp add: kb_flags_def paged_def init_paging_def loaded_def Let_def)

theorem typed_line_is_read_witness:
  "\<exists>s'. terminal_read (map key_press [0x26, 0x2A, 0x1F, 0xAA, 0x2D, 0x0E, 0x1C] @ [idle, idle]) 128 paged =
     Some (Line 3 (bytes ''lS'' @ [10]) s')"
proof -
  have fl: "mods paged = \<lparr>locked = False, left_shift = False, right_shift = False, ctrl_down = False, alt_down = False\<rparr>"
    "flags_ok paged"
    using paged_mods by (simp_all add: mods_def flags_ok_def kb_flags_def)
  have "text_of (mods paged) [0x26, 0x2A, 0x1F, 0xAA, 0x2D, 0x0E] = Some (bytes ''lSx'' @ [8])"
    by (simp add: fl special_def key_chars_def press_def typed_char_def plain_def Let_def
        us_key_def us_rows_def is_letter_def us_shift_def)
  then show ?thesis
    using typed_line_is_read [OF paged_poll_ok fl(2), of "[0x26, 0x2A, 0x1F, 0xAA, 0x2D, 0x0E]" _ 128]
    by (simp add: zero_terminal_def typed_def edit_def BACKSPACE_ASCII_def)
qed
end
