(* ===== verification/Descriptors.thy ===== *)
theory Descriptors
  imports MachineState
begin

text \<open>
  The processor's descriptor tables (\<^verbatim>\<open>x86_desc.h\<close>): segment descriptors, the task state segment and
  the gates of the interrupt table, each as the bit fields of its C structure, with the macros that
  fill in addresses and sizes. What the processor reads out of the eight bytes is shown to be what
  the macros put in.
\<close>

section \<open>Constants\<close>

definition KERNEL_CS :: u16 where "KERNEL_CS = 0x0010"
definition KERNEL_DS :: u16 where "KERNEL_DS = 0x0018"
definition KERNEL_TSS :: u16 where "KERNEL_TSS = 0x0030"
definition KERNEL_LDT :: u16 where "KERNEL_LDT = 0x0038"
definition TSS_SIZE :: u32 where "TSS_SIZE = 104"
definition NUM_VEC :: nat where "NUM_VEC = 256"
definition TRAP_32_GATE :: "4 word" where "TRAP_32_GATE = 0xF"

lemmas desc_consts = KERNEL_CS_def KERNEL_DS_def KERNEL_TSS_def KERNEL_LDT_def TSS_SIZE_def NUM_VEC_def
  TRAP_32_GATE_def

section \<open>Structures\<close>

record seg_desc =
  seg_lim_15_00 :: u16
  base_15_00 :: u16
  base_23_16 :: u8
  sd_type :: "4 word"
  sd_sys :: "1 word"
  sd_dpl :: "2 word"
  sd_present :: "1 word"
  seg_lim_19_16 :: "4 word"
  sd_avail :: "1 word"
  sd_reserved :: "1 word"
  sd_opsize :: "1 word"
  sd_granularity :: "1 word"
  base_31_24 :: u8

text \<open>The task state segment; its field \<open>esp0\<close> is \<open>tss_esp0\<close> of the machine.\<close>

record tss =
  prev_task_link :: u16
  ss0 :: u16
  tss_esp1 :: u32
  ss1 :: u16
  tss_esp2 :: u32
  ss2 :: u16
  tss_cr3 :: u32
  tss_eip :: u32
  tss_eflags :: u32
  tss_eax :: u32
  tss_ecx :: u32
  tss_edx :: u32
  tss_ebx :: u32
  tss_esp :: u32
  tss_ebp :: u32
  tss_esi :: u32
  tss_edi :: u32
  tss_es :: u16
  tss_cs :: u16
  tss_ss :: u16
  tss_ds :: u16
  tss_fs :: u16
  tss_gs :: u16
  ldt_segment_selector :: u16
  debug_trap :: "1 word"
  io_base_addr :: u16

record idt_desc =
  offset_15_00 :: u16
  seg_selector :: u16
  gate_reserved4 :: u8
  gate_reserved3 :: "1 word"
  gate_reserved2 :: "1 word"
  gate_reserved1 :: "1 word"
  gate_size :: "1 word"
  gate_reserved0 :: "1 word"
  gate_dpl :: "2 word"
  gate_present :: "1 word"
  offset_31_16 :: u16

section \<open>The macros\<close>

definition SET_LDT_PARAMS :: "u32 \<Rightarrow> u32 \<Rightarrow> seg_desc \<Rightarrow> seg_desc" where
  "SET_LDT_PARAMS addr lim str =
     str\<lparr>base_31_24 := ucast (drop_bit 24 (addr AND 0xFF000000)),
         base_23_16 := ucast (drop_bit 16 (addr AND 0x00FF0000)),
         base_15_00 := ucast (addr AND 0x0000FFFF),
         seg_lim_19_16 := ucast (drop_bit 16 (lim AND 0x000F0000)),
         seg_lim_15_00 := ucast (lim AND 0x0000FFFF)\<rparr>"

definition SET_TSS_PARAMS :: "u32 \<Rightarrow> u32 \<Rightarrow> seg_desc \<Rightarrow> seg_desc" where
  "SET_TSS_PARAMS addr lim str =
     str\<lparr>base_31_24 := ucast (drop_bit 24 (addr AND 0xFF000000)),
         base_23_16 := ucast (drop_bit 16 (addr AND 0x00FF0000)),
         base_15_00 := ucast (addr AND 0x0000FFFF),
         seg_lim_19_16 := ucast (drop_bit 16 (lim AND 0x000F0000)),
         seg_lim_15_00 := ucast (lim AND 0x0000FFFF)\<rparr>"

definition SET_IDT_ENTRY :: "u32 \<Rightarrow> idt_desc \<Rightarrow> idt_desc" where
  "SET_IDT_ENTRY handler str =
     str\<lparr>offset_31_16 := ucast (drop_bit 16 (handler AND 0xFFFF0000)),
         offset_15_00 := ucast (handler AND 0xFFFF)\<rparr>"

section \<open>The eight bytes as the processor sees them\<close>

text \<open>The packed structures as 64-bit values; the first field is the lowest.\<close>

definition seg_val :: "seg_desc \<Rightarrow> 64 word" where
  "seg_val d =
     ucast (seg_lim_15_00 d) OR push_bit 16 (ucast (base_15_00 d)) OR push_bit 32 (ucast (base_23_16 d)) OR
     push_bit 40 (ucast (sd_type d)) OR push_bit 44 (ucast (sd_sys d)) OR push_bit 45 (ucast (sd_dpl d)) OR
     push_bit 47 (ucast (sd_present d)) OR push_bit 48 (ucast (seg_lim_19_16 d)) OR
     push_bit 52 (ucast (sd_avail d)) OR push_bit 53 (ucast (sd_reserved d)) OR
     push_bit 54 (ucast (sd_opsize d)) OR push_bit 55 (ucast (sd_granularity d)) OR
     push_bit 56 (ucast (base_31_24 d))"

definition idt_val :: "idt_desc \<Rightarrow> 64 word" where
  "idt_val d =
     ucast (offset_15_00 d) OR push_bit 16 (ucast (seg_selector d)) OR push_bit 32 (ucast (gate_reserved4 d)) OR
     push_bit 40 (ucast (gate_reserved3 d)) OR push_bit 41 (ucast (gate_reserved2 d)) OR
     push_bit 42 (ucast (gate_reserved1 d)) OR push_bit 43 (ucast (gate_size d)) OR
     push_bit 44 (ucast (gate_reserved0 d)) OR push_bit 45 (ucast (gate_dpl d)) OR
     push_bit 47 (ucast (gate_present d)) OR push_bit 48 (ucast (offset_31_16 d))"

text \<open>Base and limit of a segment; the fields of a gate.\<close>

definition cpu_seg_base :: "64 word \<Rightarrow> u32" where
  "cpu_seg_base v = ucast ((drop_bit 16 v AND 0xFFFFFF) OR push_bit 24 (drop_bit 56 v))"

definition cpu_seg_limit :: "64 word \<Rightarrow> u32" where
  "cpu_seg_limit v = ucast ((v AND 0xFFFF) OR push_bit 16 (drop_bit 48 v AND 0xF))"

definition cpu_gate_offset :: "64 word \<Rightarrow> u32" where
  "cpu_gate_offset v = ucast ((v AND 0xFFFF) OR push_bit 16 (drop_bit 48 v))"

definition cpu_gate_selector :: "64 word \<Rightarrow> u16" where
  "cpu_gate_selector v = ucast (drop_bit 16 v)"

definition cpu_gate_type :: "64 word \<Rightarrow> 4 word" where
  "cpu_gate_type v = ucast (drop_bit 40 v)"

definition cpu_gate_dpl :: "64 word \<Rightarrow> 2 word" where
  "cpu_gate_dpl v = ucast (drop_bit 45 v)"

definition cpu_gate_present :: "64 word \<Rightarrow> bool" where
  "cpu_gate_present v = bit v 47"

lemma mask_numerals:
  "(0xFFFFFF :: 64 word) = mask 24" "(0xFFFF :: 64 word) = mask 16" "(0xF :: 64 word) = mask 4"
  "(0xFFFF :: u32) = mask 16" "(0xFF000000 :: u32) = push_bit 24 (mask 8)"
  "(0xFF0000 :: u32) = push_bit 16 (mask 8)" "(0xF0000 :: u32) = push_bit 16 (mask 4)"
  "(0xFFFF0000 :: u32) = push_bit 16 (mask 16)" "(0xFFFFF :: u32) = mask 20"
  by (simp_all add: mask_eq_exp_minus_1 push_bit_eq_mult)

lemma bit_place:
  "bit (push_bit k (ucast (w :: 'a::len word)) :: 64 word) n \<longleftrightarrow>
     n < 64 \<and> k \<le> n \<and> n < k + LENGTH('a) \<and> bit w (n - k)"
  by (auto simp: bit_push_bit_iff bit_ucast_iff dest: bit_imp_le_length)

lemma bit_place0:
  "bit (ucast (w :: 'a::len word) :: 64 word) n \<longleftrightarrow> n < 64 \<and> n < LENGTH('a) \<and> bit w n"
  by (auto simp: bit_ucast_iff dest: bit_imp_le_length)

lemmas field_bits = bit_or_iff bit_and_iff bit_push_bit_iff bit_ucast_iff bit_drop_bit_eq bit_mask_iff

lemma idt_bits:
  "n < 16 \<Longrightarrow> bit (idt_val d) n = bit (offset_15_00 d) n"
  "16 \<le> n \<Longrightarrow> n < 32 \<Longrightarrow> bit (idt_val d) n = bit (seg_selector d) (n - 16)"
  "45 \<le> n \<Longrightarrow> n < 47 \<Longrightarrow> bit (idt_val d) n = bit (gate_dpl d) (n - 45)"
  "48 \<le> n \<Longrightarrow> n < 64 \<Longrightarrow> bit (idt_val d) n = bit (offset_31_16 d) (n - 48)"
  "bit (idt_val d) 40 = bit (gate_reserved3 d) 0" "bit (idt_val d) 41 = bit (gate_reserved2 d) 0"
  "bit (idt_val d) 42 = bit (gate_reserved1 d) 0" "bit (idt_val d) 43 = bit (gate_size d) 0"
  "bit (idt_val d) 47 = bit (gate_present d) 0"
  unfolding idt_val_def by (simp_all add: bit_or_iff bit_place bit_place0)

lemma seg_bits:
  "n < 16 \<Longrightarrow> bit (seg_val d) n = bit (seg_lim_15_00 d) n"
  "16 \<le> n \<Longrightarrow> n < 32 \<Longrightarrow> bit (seg_val d) n = bit (base_15_00 d) (n - 16)"
  "32 \<le> n \<Longrightarrow> n < 40 \<Longrightarrow> bit (seg_val d) n = bit (base_23_16 d) (n - 32)"
  "48 \<le> n \<Longrightarrow> n < 52 \<Longrightarrow> bit (seg_val d) n = bit (seg_lim_19_16 d) (n - 48)"
  "56 \<le> n \<Longrightarrow> n < 64 \<Longrightarrow> bit (seg_val d) n = bit (base_31_24 d) (n - 56)"
  unfolding seg_val_def by (simp_all add: bit_or_iff bit_place bit_place0)


lemma bit_1_word: "bit (w :: 1 word) 0 \<longleftrightarrow> w = 1"
proof
  assume b: "bit w 0"
  show "w = 1"
  proof (rule bit_word_eqI)
    fix n assume "n < LENGTH(1)"
    then show "bit w n = bit 1 n" using b by simp
  qed
qed simp

lemma idt_read:
  "cpu_gate_selector (idt_val d) = seg_selector d" "cpu_gate_dpl (idt_val d) = gate_dpl d"
  "cpu_gate_present (idt_val d) \<longleftrightarrow> gate_present d = 1"
proof -
  show "cpu_gate_selector (idt_val d) = seg_selector d"
    by (rule bit_word_eqI) (simp add: cpu_gate_selector_def field_bits idt_bits)
  show "cpu_gate_dpl (idt_val d) = gate_dpl d"
    by (rule bit_word_eqI) (simp add: cpu_gate_dpl_def field_bits idt_bits)
  show "cpu_gate_present (idt_val d) \<longleftrightarrow> gate_present d = 1"
    by (simp only: cpu_gate_present_def idt_bits bit_1_word)
qed

lemma idt_type_ones:
  assumes "gate_reserved3 d = 1" "gate_reserved2 d = 1" "gate_reserved1 d = 1" "gate_size d = 1"
  shows "cpu_gate_type (idt_val d) = TRAP_32_GATE"
proof (rule bit_word_eqI)
  fix n assume "n < LENGTH(4)"
  then have "n = 0 \<or> n = 1 \<or> n = 2 \<or> n = 3" by auto
  then show "bit (cpu_gate_type (idt_val d)) n = bit TRAP_32_GATE n"
    using assms by (auto simp: cpu_gate_type_def field_bits idt_bits TRAP_32_GATE_def)
qed

lemma SET_IDT_ENTRY_offset: "cpu_gate_offset (idt_val (SET_IDT_ENTRY h d)) = h"
proof (rule bit_word_eqI)
  fix n assume n: "n < LENGTH(32)"
  show "bit (cpu_gate_offset (idt_val (SET_IDT_ENTRY h d))) n = bit h n"
  proof (cases "n < 16")
    case True
    then show ?thesis using n
      by (simp add: cpu_gate_offset_def field_bits idt_bits SET_IDT_ENTRY_def mask_numerals)
  next
    case False
    then show ?thesis using n
      by (auto simp: cpu_gate_offset_def field_bits idt_bits SET_IDT_ENTRY_def mask_numerals)
  qed
qed

lemma SET_PARAMS_same: "SET_TSS_PARAMS = SET_LDT_PARAMS"
  by (simp add: SET_TSS_PARAMS_def SET_LDT_PARAMS_def fun_eq_iff)

lemma SET_LDT_PARAMS_base: "cpu_seg_base (seg_val (SET_LDT_PARAMS a l d)) = a"
proof (rule bit_word_eqI)
  fix n assume n: "n < LENGTH(32)"
  then consider "n < 16" | "16 \<le> n" "n < 24" | "24 \<le> n" "n < 32" by fastforce
  then show "bit (cpu_seg_base (seg_val (SET_LDT_PARAMS a l d))) n = bit a n"
    by cases (auto simp: cpu_seg_base_def field_bits seg_bits SET_LDT_PARAMS_def mask_numerals)
qed

lemma SET_LDT_PARAMS_limit: "cpu_seg_limit (seg_val (SET_LDT_PARAMS a l d)) = l AND 0xFFFFF"
proof (rule bit_word_eqI)
  fix n assume n: "n < LENGTH(32)"
  then consider "n < 16" | "16 \<le> n" "n < 20" | "20 \<le> n" "n < 32" by fastforce
  then show "bit (cpu_seg_limit (seg_val (SET_LDT_PARAMS a l d))) n = bit (l AND 0xFFFFF) n"
    by cases (auto simp: cpu_seg_limit_def field_bits seg_bits SET_LDT_PARAMS_def mask_numerals)
qed
end
