(* ===== verification/Interrupts.thy ===== *)
theory Interrupts
  imports Keyboard Descriptors
begin

text \<open>
  Interrupts, exceptions and the system call gate (\<^verbatim>\<open>interrupts.c\<close>, \<^verbatim>\<open>sys_call_asm_linkage.S\<close>): the
  interrupt table that \<open>init_interrupts\<close> builds, the exception handler, which ends the running process,
  and the dispatch on the call number. The entry points of the assembly wrappers are addresses chosen
  by the linker, a parameter of the model.
\<close>

section \<open>Constants (interrupts.h, rtc.h, keyboard.h, pit.h)\<close>

definition NUM_EXCEPTIONS :: nat where "NUM_EXCEPTIONS = 0x20"
definition SYSTEM_CALL_INDEX :: nat where "SYSTEM_CALL_INDEX = 0x80"
definition USER_PRIVILEGE_LEVEL :: "2 word" where "USER_PRIVILEGE_LEVEL = 3"
definition KERNEL_PRIVILEGE_LEVEL :: "2 word" where "KERNEL_PRIVILEGE_LEVEL = 0"
definition RTC_INDEX :: nat where "RTC_INDEX = 0x28"
definition KEYBOARD_INDEX :: nat where "KEYBOARD_INDEX = 0x21"
definition PIT_INDEX :: nat where "PIT_INDEX = 0x20"

lemmas intr_consts = NUM_EXCEPTIONS_def SYSTEM_CALL_INDEX_def USER_PRIVILEGE_LEVEL_def
  KERNEL_PRIVILEGE_LEVEL_def RTC_INDEX_def KEYBOARD_INDEX_def PIT_INDEX_def

section \<open>Exceptions\<close>

text \<open>The table of messages; the slots without an initialiser are null pointers.\<close>

definition exception_messages :: "string list" where
  "exception_messages =
     [''EXCEPTION 0: Divide Error Exception'',
      ''EXCEPTION 1: Debug Exception'',
      ''EXCEPTION 2: NMI Interrupt'',
      ''EXCEPTION 3: Breakpoint Exception'',
      ''EXCEPTION 4: Overflow Exception'',
      ''EXCEPTION 5: BOUND Range Exceeded Exception'',
      ''EXCEPTION 6: Invalid Opcode Exception'',
      ''EXCEPTION 7: Device Not Available Exception'',
      ''EXCEPTION 8: Double Fault Exception'',
      ''EXCEPTION 9: Coprocessor Segment Overrun'',
      ''EXCEPTION 10: Invalid TSS Exception'',
      ''EXCEPTION 11: Segment Not Present'',
      ''EXCEPTION 12: Stack Fault Exception'',
      ''EXCEPTION 13: General Protection Exception'',
      ''EXCEPTION 14: Page Fault Exception'',
      ''EXCEPTION 15: Assertion Error'',
      ''EXCEPTION 16: FPU Floating-Point Error'',
      ''EXCEPTION 17: Alignment Check Exception'',
      ''EXCEPTION 18: Machine-Check Exception'',
      ''EXCEPTION 19: SIMD Floating-Point Exception'']"

definition exception_lookup :: "u8 list option list" where
  "exception_lookup =
     map (\<lambda>m. Some (bytes m @ [0])) exception_messages @ replicate (NUM_EXCEPTIONS - length exception_messages) None"

text \<open>
  The handler jumps to \<open>halt\<close>, which takes its argument from the slot where the handler's own frame
  happens to have a byte; it is \<open>stack_slot\<close>.
\<close>

definition exception_handler :: "interference \<Rightarrow> u8 \<Rightarrow> nat \<Rightarrow> machine \<Rightarrow> halt_outcome option" where
  "exception_handler env stack_slot exc_num s =
     do {
       entry \<leftarrow> rd exception_lookup exc_num;
       msg \<leftarrow> entry;
       (n, s) \<leftarrow> printf (bytes '' %s'' @ [0]) [Pointer msg] s;
       halt env stack_slot (s\<lparr>exception_in_child := 1\<rparr>)
     }"

section \<open>The interrupt table\<close>

record linkage =
  exception_stubs :: "u32 list"
  sys_call_linkage :: u32
  rtc_intr :: u32
  keyboard_intr :: u32
  pit_intr :: u32

record desc_tables =
  handlers :: "nat \<Rightarrow> u32"
  idt :: "nat \<Rightarrow> idt_desc"
  ldt_desc_ptr :: seg_desc
  tss_desc_ptr :: seg_desc
  task_state :: tss
  ldt_register :: u16
  task_register :: u16

text \<open>The array of wrappers: the twenty that exist, then null pointers.\<close>

definition exceptions :: "linkage \<Rightarrow> u32 list" where
  "exceptions lk = exception_stubs lk @ replicate (NUM_EXCEPTIONS - 20) 0"

definition vector_handler :: "linkage \<Rightarrow> nat \<Rightarrow> u32" where
  "vector_handler lk i =
     (if i = SYSTEM_CALL_INDEX then sys_call_linkage lk
      else if i = RTC_INDEX then rtc_intr lk
      else if i = KEYBOARD_INDEX then keyboard_intr lk
      else if i = PIT_INDEX then pit_intr lk
      else 0)"

text \<open>The body of the last loop.\<close>

definition init_gate :: "nat \<Rightarrow> u32 \<Rightarrow> idt_desc \<Rightarrow> idt_desc" where
  "init_gate i handler g =
     (let g = SET_IDT_ENTRY handler g;
          g = g\<lparr>seg_selector := KERNEL_CS\<rparr>;
          g = (if handler \<noteq> 0 then g\<lparr>gate_present := 1\<rparr> else g\<lparr>gate_present := 0\<rparr>);
          g = (if i = SYSTEM_CALL_INDEX then g\<lparr>gate_dpl := USER_PRIVILEGE_LEVEL\<rparr>
               else g\<lparr>gate_dpl := KERNEL_PRIVILEGE_LEVEL\<rparr>);
          g = g\<lparr>gate_reserved0 := 0\<rparr>
      in if i = SYSTEM_CALL_INDEX
         then g\<lparr>gate_size := 1, gate_reserved1 := 1, gate_reserved2 := 1, gate_reserved3 := 1\<rparr>
         else if i < NUM_EXCEPTIONS
         then g\<lparr>gate_size := 1, gate_reserved1 := 1, gate_reserved2 := 1, gate_reserved3 := 1\<rparr>
         else g\<lparr>gate_size := 1, gate_reserved1 := 1, gate_reserved2 := 1, gate_reserved3 := 1\<rparr>)"

definition init_interrupts :: "linkage \<Rightarrow> desc_tables \<Rightarrow> desc_tables option" where
  "init_interrupts lk d =
     do {
       h \<leftarrow> for_each [0..<NUM_EXCEPTIONS] (\<lambda>i h. do { e \<leftarrow> rd (exceptions lk) i; Some (h(i := e)) }) (handlers d);
       h \<leftarrow> for_each [NUM_EXCEPTIONS..<NUM_VEC] (\<lambda>i h. Some (h(i := vector_handler lk i))) h;
       t \<leftarrow> for_each [0..<NUM_VEC] (\<lambda>i t. Some (t(i := init_gate i (h i) (t i)))) (idt d);
       Some (d\<lparr>handlers := h, idt := t\<rparr>)
     }"

section \<open>The system call gate\<close>

text \<open>
  The dispatcher compares the number as a signed value with 1 and 10 and calls through the table
  \<open>halt, execute, read, write, open, close, getargs, vidmap, set_handler, sigreturn\<close>. A call that
  returns does so with a value in EAX.
\<close>

datatype call_outcome =
    CallReturns u32 machine
  | CallWaits machine
  | CallExec exec_outcome
  | CallHalt halt_outcome

definition call_value :: "(int \<times> machine) option \<Rightarrow> call_outcome option" where
  "call_value = map_option (\<lambda>(r, s). CallReturns (of_int r) s)"

definition call_blocking :: "(int \<times> machine) blocking option \<Rightarrow> call_outcome option" where
  "call_blocking = map_option (\<lambda>b. case b of Returned (r, s) \<Rightarrow> CallReturns (of_int r) s | Waiting s \<Rightarrow> CallWaits s)"

definition call_exec :: "exec_outcome option \<Rightarrow> call_outcome option" where
  "call_exec = map_option (\<lambda>r. case r of ExecReturn v s \<Rightarrow> CallReturns (of_int v) s | _ \<Rightarrow> CallExec r)"

definition sys_call ::
  "device \<Rightarrow> interference \<Rightarrow> u32 \<Rightarrow> u32 \<Rightarrow> u32 \<Rightarrow> u32 \<Rightarrow> machine \<Rightarrow> call_outcome option" where
  "sys_call hw env eax ebx ecx edx s =
     (if sint eax < 1 \<or> sint eax > 10 then Some (CallReturns (-1) s)
      else if eax = 1 then map_option CallHalt (halt env (ucast ebx) s)
      else if eax = 2 then call_exec (execute env (user_string ebx s) s)
      else if eax = 3 then call_blocking (sys_read env (sint ebx) ecx (sint edx) s)
      else if eax = 4 then call_value (sys_write hw (sint ebx) ecx (sint edx) s)
      else if eax = 5 then call_value (sys_open hw (user_string ebx s) s)
      else if eax = 6 then call_value (sys_close (sint ebx) s)
      else if eax = 7 then call_value (getargs ebx (sint ecx) s)
      else if eax = 8 then call_value (vidmap ebx s)
      else if eax = 9 then Some (CallReturns (of_int (set_handler (sint ebx) ecx)) s)
      else Some (CallReturns (of_int sigreturn) s))"

section \<open>What the table says\<close>

definition linked :: "linkage \<Rightarrow> bool" where
  "linked lk \<longleftrightarrow> length (exception_stubs lk) = 20 \<and> 0 \<notin> set (exception_stubs lk) \<and>
     sys_call_linkage lk \<noteq> 0 \<and> rtc_intr lk \<noteq> 0 \<and> keyboard_intr lk \<noteq> 0 \<and> pit_intr lk \<noteq> 0"

text \<open>Where each vector is to lead: an exception to its own wrapper, the interrupts of the two
  controllers' lines 0, 1 and 8 to those of the timer, the keyboard and the clock, 0x80 to the dispatcher.\<close>

definition gate_target :: "linkage \<Rightarrow> nat \<Rightarrow> u32" where
  "gate_target lk i =
     (if i < 20 then exception_stubs lk ! i
      else if i = 0x20 then pit_intr lk
      else if i = 0x21 then keyboard_intr lk
      else if i = 0x28 then rtc_intr lk
      else if i = 0x80 then sys_call_linkage lk
      else 0)"

lemma vector_handler_target: "20 \<le> i \<Longrightarrow> vector_handler lk i = gate_target lk i"
  by (simp add: vector_handler_def gate_target_def intr_consts)

lemma for_each_upd:
  "for_each [a..<b] (\<lambda>i t. Some (t(i := f i (t i)))) t =
     Some (\<lambda>i. if a \<le> i \<and> i < b then f i (t i) else t i)"
proof (induction "b - a" arbitrary: a t)
  case 0
  then have "[a..<b] = []" by simp
  then show ?case using 0 by (auto simp: fun_eq_iff)
next
  case (Suc n)
  then have lt: "a < b" "n = b - Suc a" by simp_all
  have "for_each [a..<b] (\<lambda>i t. Some (t(i := f i (t i)))) t =
      for_each [Suc a..<b] (\<lambda>i t. Some (t(i := f i (t i)))) (t(a := f a (t a)))"
    using lt by (simp add: upt_conv_Cons)
  also have "\<dots> = Some (\<lambda>i. if a \<le> i \<and> i < b then f i (t i) else t i)"
    using Suc(1) [OF lt(2)] lt by (auto simp: fun_eq_iff)
  finally show ?case .
qed

lemma for_each_eq: "(\<And>i s. i \<in> set xs \<Longrightarrow> f i s = g i s) \<Longrightarrow> for_each xs f s = for_each xs g s"
  by (induction xs arbitrary: s) (auto split: option.split)

lemma init_interrupts_eq:
  assumes "linked lk"
  shows "init_interrupts lk d = Some (d\<lparr>
     handlers := (\<lambda>i. if i < 256 then gate_target lk i else handlers d i),
     idt := (\<lambda>i. if i < 256 then init_gate i (gate_target lk i) (idt d i) else idt d i)\<rparr>)"
proof -
  have l: "length (exceptions lk) = 32" using assms by (simp add: exceptions_def linked_def NUM_EXCEPTIONS_def)
  have e: "exceptions lk ! i = gate_target lk i" if "i < 32" for i
    using that assms by (auto simp: exceptions_def linked_def gate_target_def nth_append intr_consts)
  have "for_each [0..<32] (\<lambda>i h. do { e \<leftarrow> rd (exceptions lk) i; Some (h(i := e)) }) (handlers d) =
      for_each [0..<32] (\<lambda>i h. Some (h(i := gate_target lk i))) (handlers d)"
    using l e by (intro for_each_eq) simp
  then have h1: "for_each [0..<32] (\<lambda>i h. do { e \<leftarrow> rd (exceptions lk) i; Some (h(i := e)) }) (handlers d) =
      Some (\<lambda>i. if 0 \<le> i \<and> i < 32 then gate_target lk i else handlers d i)"
    unfolding for_each_upd [of 0 32 "\<lambda>i _. gate_target lk i"] .
  let ?h = "\<lambda>i. if 32 \<le> i \<and> i < 256 then vector_handler lk i
      else if 0 \<le> i \<and> i < 32 then gate_target lk i else handlers d i"
  have h: "?h = (\<lambda>i. if i < 256 then gate_target lk i else handlers d i)"
    by (rule ext) (simp add: vector_handler_target)
  have t: "for_each [0..<256] (\<lambda>i t. Some (t(i := init_gate i (?h i) (t i)))) (idt d) =
      Some (\<lambda>i. if i < 256 then init_gate i (gate_target lk i) (idt d i) else idt d i)"
    unfolding for_each_upd [of 0 256 "\<lambda>i. init_gate i (?h i)"] h by (rule arg_cong [of _ _ Some]) (rule ext, simp add: vector_handler_target)
  show ?thesis
    unfolding init_interrupts_def h1 bind.bind_lunit NUM_VEC_def NUM_EXCEPTIONS_def
      for_each_upd [of 32 256 "\<lambda>i _. vector_handler lk i"] t unfolding h ..
qed


lemma gate_offset_cong:
  assumes "offset_15_00 d = offset_15_00 e" "offset_31_16 d = offset_31_16 e"
  shows "cpu_gate_offset (idt_val d) = cpu_gate_offset (idt_val e)"
proof (rule bit_word_eqI)
  fix n assume n: "n < LENGTH(32)"
  then consider "n < 16" | "16 \<le> n" "n < 32" by fastforce
  then show "bit (cpu_gate_offset (idt_val d)) n = bit (cpu_gate_offset (idt_val e)) n"
    by cases (auto simp: cpu_gate_offset_def field_bits idt_bits mask_numerals assms)
qed

lemma init_gate_read:
  "cpu_gate_offset (idt_val (init_gate i h g)) = h"
  "cpu_gate_selector (idt_val (init_gate i h g)) = KERNEL_CS"
  "cpu_gate_type (idt_val (init_gate i h g)) = TRAP_32_GATE"
  "cpu_gate_dpl (idt_val (init_gate i h g)) = (if i = SYSTEM_CALL_INDEX then 3 else 0)"
  "cpu_gate_present (idt_val (init_gate i h g)) \<longleftrightarrow> h \<noteq> 0"
proof -
  have o: "offset_15_00 (init_gate i h g) = offset_15_00 (SET_IDT_ENTRY h g)"
    "offset_31_16 (init_gate i h g) = offset_31_16 (SET_IDT_ENTRY h g)"
    by (simp_all add: init_gate_def Let_def SET_IDT_ENTRY_def)
  have "cpu_gate_offset (idt_val (init_gate i h g)) = cpu_gate_offset (idt_val (SET_IDT_ENTRY h g))"
    by (rule gate_offset_cong [OF o])
  then show "cpu_gate_offset (idt_val (init_gate i h g)) = h" by (simp add: SET_IDT_ENTRY_offset)
  show "cpu_gate_selector (idt_val (init_gate i h g)) = KERNEL_CS"
    "cpu_gate_dpl (idt_val (init_gate i h g)) = (if i = SYSTEM_CALL_INDEX then 3 else 0)"
    "cpu_gate_present (idt_val (init_gate i h g)) \<longleftrightarrow> h \<noteq> 0"
    by (simp_all add: idt_read init_gate_def Let_def USER_PRIVILEGE_LEVEL_def KERNEL_PRIVILEGE_LEVEL_def)
  show "cpu_gate_type (idt_val (init_gate i h g)) = TRAP_32_GATE"
    by (rule idt_type_ones) (simp_all add: init_gate_def Let_def)
qed

lemma gate_target_present:
  "linked lk \<Longrightarrow> gate_target lk i \<noteq> 0 \<longleftrightarrow> i < 20 \<or> i \<in> {0x20, 0x21, 0x28, 0x80}"
  by (auto simp: gate_target_def linked_def in_set_conv_nth)

section \<open>An exception ends the process\<close>

lemma unat_of_char: "unat (of_char c :: u8) = of_char c"
proof -
  have "(of_char c :: u8) = of_nat (of_char c)" by (simp only: of_nat_of_char)
  moreover have "(of_char c :: nat) mod 256 = of_char c" by simp
  ultimately show ?thesis by (simp only: unat_of_nat) simp
qed

lemma bytes_printable:
  assumes "list_all (\<lambda>c. 31 < (of_char c :: nat)) m"
  shows "0 \<notin> set (bytes m)" "newlines (bytes m) = 0"
proof -
  have "31 < unat c" if "c \<in> set (bytes m)" for c
    using assms that by (auto simp: bytes_def list_all_iff unat_of_char)
  then have "c \<noteq> 0 \<and> c \<noteq> 10 \<and> c \<noteq> 13" if "c \<in> set (bytes m)" for c
    using that by fastforce
  then show "0 \<notin> set (bytes m)" "newlines (bytes m) = 0"
    by (auto simp: newlines_def filter_empty_conv)
qed

lemma exception_messages_printable:
  "list_all (\<lambda>m. length m < 60 \<and> list_all (\<lambda>c. 31 < (of_char c :: nat)) m) exception_messages"
  "length exception_messages = 20"
  by code_simp+

lemma exception_message:
  assumes "n < 20"
  obtains m where "rd exception_lookup n = Some (Some (m @ [0]))" "0 \<notin> set m" "length m < 60" "newlines m = 0"
proof -
  define m where "m = exception_messages ! n"
  have "m \<in> set exception_messages" using assms exception_messages_printable(2) by (simp add: m_def)
  then have "length m < 60" "list_all (\<lambda>c. 31 < (of_char c :: nat)) m"
    using exception_messages_printable(1) unfolding list_all_iff [of _ exception_messages] by blast+
  moreover have "rd exception_lookup n = Some (Some (bytes m @ [0]))"
    using assms by (simp add: exception_lookup_def exception_messages_printable(2) NUM_EXCEPTIONS_def nth_append m_def)
  ultimately show thesis using that [of "bytes m"] bytes_printable [of m] by (simp add: bytes_def)
qed

lemma render_message:
  "0 \<notin> set m \<Longrightarrow> render (bytes '' %s'' @ [0]) [Pointer (m @ [0])] = Some (32 # m, [0])"
  by (simp add: render.simps [of "_ # _"] cstr_append cstr_no_zero terminated_def)

section \<open>Properties\<close>

text \<open>C35: what the processor reads in the interrupt table that \<open>init_interrupts\<close> builds: exactly the
  twenty exceptions, the timer at 0x20, the keyboard at 0x21, the clock at 0x28 and the system call at
  0x80 have a present gate, each leads to its own wrapper in the kernel's code segment, and only the
  system call can be raised by user code. Every gate is a trap gate, so an interrupt handler starts with
  interrupts still enabled.\<close>

theorem interrupt_table_gates:
  assumes "linked lk" "i < 256"
  shows "\<exists>d'. init_interrupts lk d = Some d' \<and>
    (cpu_gate_present (idt_val (idt d' i)) \<longleftrightarrow> i < 20 \<or> i \<in> {0x20, 0x21, 0x28, 0x80}) \<and>
    cpu_gate_offset (idt_val (idt d' i)) =
      (if i < 20 then exception_stubs lk ! i else if i = 0x20 then pit_intr lk else if i = 0x21 then keyboard_intr lk
       else if i = 0x28 then rtc_intr lk else if i = 0x80 then sys_call_linkage lk else 0) \<and>
    cpu_gate_selector (idt_val (idt d' i)) = KERNEL_CS \<and>
    cpu_gate_dpl (idt_val (idt d' i)) = (if i = 0x80 then 3 else 0) \<and>
    cpu_gate_type (idt_val (idt d' i)) = TRAP_32_GATE"
  using init_interrupts_eq [OF assms(1), of d] assms(2)
  by (simp add: init_gate_read gate_target_present [OF assms(1)] SYSTEM_CALL_INDEX_def flip: gate_target_def)

definition sample_linkage :: linkage where
  "sample_linkage = \<lparr>exception_stubs = map (\<lambda>i. 0x401000 + of_nat (16 * i)) [0..<20],
     sys_call_linkage = 0x402000, rtc_intr = 0x402100, keyboard_intr = 0x402200, pit_intr = 0x402300\<rparr>"

lemma sample_linked: "linked sample_linkage"
  by (simp add: linked_def sample_linkage_def upt_rec)

theorem interrupt_table_gates_witness:
  "\<forall>d. \<exists>d'. init_interrupts sample_linkage d = Some d' \<and>
    map (\<lambda>i. cpu_gate_offset (idt_val (idt d' i))) [14, 0x20, 0x21, 0x28, 0x80] =
      [0x4010E0, 0x402300, 0x402200, 0x402100, 0x402000] \<and> cpu_gate_dpl (idt_val (idt d' 0x80)) = 3"
proof
  fix d
  have o: "exception_stubs sample_linkage ! 14 = 0x4010E0" by (simp add: sample_linkage_def)
  have r: "\<exists>d'. init_interrupts sample_linkage d = Some d' \<and> cpu_gate_offset (idt_val (idt d' i)) =
      (if i < 20 then exception_stubs sample_linkage ! i else if i = 0x20 then 0x402300 else if i = 0x21 then 0x402200
       else if i = 0x28 then 0x402100 else if i = 0x80 then 0x402000 else 0) \<and>
      cpu_gate_dpl (idt_val (idt d' i)) = (if i = 0x80 then 3 else 0)" if "i < 256" for i
    using interrupt_table_gates [OF sample_linked that, of d] by (auto simp: sample_linkage_def)
  show "\<exists>d'. init_interrupts sample_linkage d = Some d' \<and>
    map (\<lambda>i. cpu_gate_offset (idt_val (idt d' i))) [14, 0x20, 0x21, 0x28, 0x80] =
      [0x4010E0, 0x402300, 0x402200, 0x402100, 0x402000] \<and> cpu_gate_dpl (idt_val (idt d' 0x80)) = 3"
    using r [of 14] r [of "0x20"] r [of "0x21"] r [of "0x28"] r [of "0x80"] o by auto
qed

text \<open>C36: an exception in a child process prints the message of its number and ends the process as
  \<open>halt\<close> does, whatever is found in the argument slot: the parent's \<open>execute\<close> returns 256 on the saved
  stack, and the flag that says so is cleared again.\<close>

theorem exception_ends_child:
  assumes "paging_wf s" "cursor_nonneg s" "screen_x s < 80" "screen_y s < 24" "n < 20"
    and "proc_ok s" "closable (fd_array (cur s))" "3 \<le> process_id (cur s)"
    and "parent_process_id (cur s) = int q" "q < 6" "get_pcb_ptr (int q) \<noteq> current_pcb s"
    and "process_id (pcbs s (get_pcb_ptr (int q))) = int q"
  shows "\<exists>m s1. exception_lookup ! n = Some (m @ [0]) \<and>
    exception_handler env stack_slot n s = Some (HaltResume 256 (esp_val (cur s)) (ebp_val (cur s)) s1) \<and>
    current_pcb s1 = get_pcb_ptr (int q) \<and> program_frame s1 = get_phys_addr (int q) \<and>
    exception_in_child s1 = 0 \<and> in_use (pcbs s1 (current_pcb s)) = 0 \<and>
    frames s1 = (frames s)(video_frame s := fst (fold con_putc (32 # m) (con s)))"
proof -
  obtain m where m: "rd exception_lookup n = Some (Some (m @ [0]))" "0 \<notin> set m" "length m < 60" "newlines m = 0"
    using exception_message [OF assms(5)] .
  have "con_fits (32 # m) (vpage s, nat (screen_x s), nat (screen_y s))"
    using assms(2-4) m(3,4) by (intro con_fits_screen) (auto simp: cursor_nonneg_def newlines_def)
  then obtain s2 where s2: "for_each (32 # m) putc s = Some s2" "printed s (fold con_putc (32 # m) (con s)) s2"
    using putc_all_printed [OF assms(1,2)] by (metis con_def)
  define s3 where "s3 = s2\<lparr>exception_in_child := 1\<rparr>"
  note f = printed_frame [OF s2(2)]
  have c: "cur s3 = cur s" "current_pcb s3 = current_pcb s" "pcbs s3 = pcbs s" "exception_in_child s3 = 1"
    using f by (simp_all add: s3_def)
  then have "proc_ok s3" using assms(6) by (simp add: proc_ok_def)
  then obtain s1 where s1: "halt env stack_slot s3 = Some (HaltResume 256 (esp_val (cur s)) (ebp_val (cur s)) s1)"
    "current_pcb s1 = get_pcb_ptr (int q)" "program_frame s1 = get_phys_addr (int q)"
    "exception_in_child s1 = 0" "in_use (pcbs s1 (current_pcb s)) = 0" "frames s1 = frames s3"
    using halt_child [of s3 q env stack_slot] assms(7-12) c by auto
  have "printf (bytes '' %s'' @ [0]) [Pointer (m @ [0])] s = Some (3, s2)"
    by (simp only: printf_render render_message [OF m(2)] s2(1) option.case prod.case option.map) simp
  then have "exception_handler env stack_slot n s = halt env stack_slot s3"
    using m(1) by (simp add: exception_handler_def s3_def)
  moreover have "frames s3 = (frames s)(video_frame s := fst (fold con_putc (32 # m) (con s)))"
    using printed_frames [OF s2(2)] by (simp add: s3_def)
  moreover have "exception_lookup ! n = Some (m @ [0])" using m(1) by (simp add: rd_eq_Some)
  ultimately show ?thesis using s1 by (intro exI [of _ m] exI [of _ s1]) simp
qed

theorem exception_ends_child_witness:
  "\<exists>s1. exception_handler [] 99 14 sample_child = Some (HaltResume 256 7 9 s1) \<and>
     current_pcb s1 = get_pcb_ptr 0"
proof -
  have p: "paging_wf sample_child"
    using host_facts(1) by (simp add: sample_child_def paging_wf_def tables_linked_def program_frame_def video_frame_def)
  have w: "cursor_nonneg sample_child" "screen_x sample_child < 80" "screen_y sample_child < 24"
    using shell_on_eq [of "bytes ''hi''" sample_program]
    by (simp_all add: sample_child_def sample_host_def cursor_nonneg_def as_shell_def)
  show ?thesis
    using exception_ends_child [OF p w, of 14 0 "[]" 99] child_facts by (auto simp: zero_pcb_def)
qed
end
