(* ===== verification/Kernel.thy ===== *)
theory Kernel
  imports Interrupts
begin

text \<open>
  The kernel as a whole: every way in which control reaches it - system calls, exceptions, the three
  device interrupts - and what user code can do to memory in between, as one step relation. The
  invariant of the reachable states says which memory user code can touch.
\<close>

section \<open>Taking a result apart\<close>

lemma if_SomeE:
  assumes "(if b then x else y) = Some r" "b \<Longrightarrow> x = Some r \<Longrightarrow> Q" "\<not> b \<Longrightarrow> y = Some r \<Longrightarrow> Q"
  shows Q
  using assms by (cases b) simp_all

lemma bind_SomeE:
  assumes "m \<bind> f = Some r" "\<And>y. m = Some y \<Longrightarrow> f y = Some r \<Longrightarrow> Q"
  shows Q
  using assms by (cases m) simp_all

lemma bind_pair_SomeE:
  assumes "m \<bind> (\<lambda>(x, y). f x y) = Some r" "\<And>x y. m = Some (x, y) \<Longrightarrow> f x y = Some r \<Longrightarrow> Q"
  shows Q
  using assms by (cases m) auto

lemma bind_triple_SomeE:
  assumes "m \<bind> (\<lambda>(x, y, z). f x y z) = Some r" "\<And>x y z. m = Some (x, y, z) \<Longrightarrow> f x y z = Some r \<Longrightarrow> Q"
  shows Q
  using assms by (cases m) auto

lemma case_prod_SomeE:
  assumes "(case p of (x, y) \<Rightarrow> f x y) = Some r" "\<And>x y. p = (x, y) \<Longrightarrow> f x y = Some r \<Longrightarrow> Q"
  shows Q
  using assms by (cases p) simp_all

lemma case_option_SomeE:
  assumes "(case m of None \<Rightarrow> x | Some y \<Rightarrow> f y) = Some r"
    "m = None \<Longrightarrow> x = Some r \<Longrightarrow> Q" "\<And>y. m = Some y \<Longrightarrow> f y = Some r \<Longrightarrow> Q"
  shows Q
  using assms by (cases m) simp_all

lemmas Some_elims = if_SomeE bind_triple_SomeE bind_pair_SomeE bind_SomeE case_prod_SomeE case_option_SomeE

section \<open>States in outcomes\<close>

fun exec_state :: "exec_outcome \<Rightarrow> machine" where
  "exec_state (ExecReturn v s) = s"
| "exec_state (ExecUser e s) = s"
| "exec_state (ExecWaiting e s) = s"

fun halt_state :: "halt_outcome \<Rightarrow> machine" where
  "halt_state (HaltResume v esp ebp s) = s"
| "halt_state (HaltShell r) = exec_state r"

fun switch_state :: "switch_outcome \<Rightarrow> machine" where
  "switch_state (SwitchDone s) = s"
| "switch_state (SwitchShell r) = exec_state r"

fun call_state :: "call_outcome \<Rightarrow> machine" where
  "call_state (CallReturns v s) = s"
| "call_state (CallWaits s) = s"
| "call_state (CallExec r) = exec_state r"
| "call_state (CallHalt r) = halt_state r"

section \<open>What decides which memory user code reaches\<close>

definition core ::
  "machine \<Rightarrow> (10 word \<Rightarrow> pdir_entry) \<times> (10 word \<Rightarrow> ptble_entry) \<times> (10 word \<Rightarrow> ptble_entry) \<times> u32 \<times> u32 \<times>
     u8 \<times> u8 \<times> (u32 \<Rightarrow> int) \<times> bool" where
  "core s = (directoryArray s, tableArray s, vmemTableArray s, tableArray_addr s, vmemTableArray_addr s,
     active_terminal s, scheduled_terminal s, (\<lambda>a. process_id (pcbs s a)), paging_on s)"

definition confined :: "machine \<Rightarrow> bool" where
  "confined s \<longleftrightarrow>
     paging_wf s \<and> (\<exists>p < 6. program_frame s = get_phys_addr (int p)) \<and>
     video_frame s \<in> {0xB8, 0xBA, 0xBB, 0xBC} \<and>
     unat (active_terminal s) < 3 \<and> unat (scheduled_terminal s) < 3 \<and>
     (\<forall>a. 0 \<le> process_id (pcbs s a) \<and> process_id (pcbs s a) < 6)"

interpretation core: text_frame core
  by unfold_locales (simp_all add: core_def)

lemma confined_cong: "core s' = core s \<Longrightarrow> confined s' = confined s"
  by (simp add: confined_def core_def paging_wf_def tables_linked_def program_frame_def video_frame_def fun_eq_iff)

lemma confinedI: "core s' = core s \<Longrightarrow> confined s \<Longrightarrow> confined s'"
  using confined_cong by blast

lemma confined_prims [simp]:
  "confined (outb d p s) = confined s" "confined (cli s) = confined s" "confined (sti s) = confined s"
  "confined (upd_term i g s) = confined s" "confined (set_cursor x y s) = confined s"
  by (rule confined_cong, simp)+

lemma core_fields [simp]:
  "core (s\<lparr>rtc_interrupt_flag := r\<rparr>) = core s" "core (s\<lparr>exception_in_child := e\<rparr>) = core s"
  "core (s\<lparr>tss_esp0 := t\<rparr>) = core s" "core (s\<lparr>current_pcb := c\<rparr>) = core s"
  "core (s\<lparr>cpu_esp := r\<rparr>) = core s" "core (s\<lparr>cpu_ebp := r\<rparr>) = core s"
  "core (s\<lparr>initialized_terminals := i\<rparr>) = core s" "core (s\<lparr>first_swap := w\<rparr>) = core s"
  "core (s\<lparr>master_mask := m\<rparr>) = core s" "core (s\<lparr>slave_mask := m\<rparr>) = core s"
  by (simp_all add: core_def)

lemma core_irq [simp]: "core (enable_irq n s) = core s" "core (send_eoi n s) = core s"
  by (simp_all add: enable_irq_def send_eoi_def Let_def)

lemma core_rtc [simp]:
  "core (rtc_ack hw s) = core s" "core (rtc_init hw s) = core s" "core (rtc_handler hw s) = core s"
  "core (set_rtc_frequency hw f s) = core s"
  by (simp_all add: rtc_ack_def rtc_init_def rtc_handler_def set_rtc_frequency_def Let_def inb_def core.proj_fields
      split: option.split)

lemma core_upd_pcb:
  "upd_pcb a f s = Some s' \<Longrightarrow> process_id (f (pcbs s a)) = process_id (pcbs s a) \<Longrightarrow> core s' = core s"
  by (auto simp: upd_pcb_def core_def fun_eq_iff split: if_splits)

lemma core_upd_fd: "upd_fd fd f s = Some s' \<Longrightarrow> core s' = core s"
  unfolding upd_fd_def by (auto simp: bind_eq_Some_conv get_pcb_def dest!: core_upd_pcb)

lemma confined_upd_pcb:
  assumes "upd_pcb a f s = Some s'" "confined s" "0 \<le> process_id (f (pcbs s a))" "process_id (f (pcbs s a)) < 6"
  shows "confined s'"
  using assms
  by (auto simp: upd_pcb_def confined_def paging_wf_def tables_linked_def program_frame_def video_frame_def
      split: if_splits)

lemma confined_map_video:
  assumes "confined s" "page_of a \<in> {0xB8, 0xBA, 0xBB, 0xBC}"
  shows "confined (map_video a s)"
  using assms map_video_wf [of s a] unfolding confined_def
  by (simp add: map_video_frame) (simp add: map_video_def)

lemma confined_map_video_screen: "confined s \<Longrightarrow> confined (map_video VIDEO s)"
  by (rule confined_map_video) (simp_all add: VIDEO_def)

lemma terminal_page_in: "unat i < 3 \<Longrightarrow> page_of (terminal_page i) \<in> {0xB8, 0xBA, 0xBB, 0xBC}"
proof -
  assume i: "unat i < 3"
  then have "terminal_frame (unat i) \<in> {terminal_frame 0, terminal_frame 1, terminal_frame 2}"
    by (auto simp: numeral_3_eq_3 less_Suc_eq numeral_2_eq_2)
  then show ?thesis unfolding terminal_page_frame [OF i] by (simp add: terminal_frame_def)
qed

lemma confined_map_terminal: "confined s \<Longrightarrow> unat i < 3 \<Longrightarrow> confined (map_video (terminal_page i) s)"
  by (rule confined_map_video) (simp_all only: terminal_page_in)

lemma confined_scheduled: "confined s \<Longrightarrow> unat (scheduled_terminal s) < 3"
  by (simp add: confined_def)

lemma confined_map_program:
  assumes "confined s" "0 \<le> p" "p < 6"
  shows "confined (map_program p s)"
proof -
  have "\<exists>q < 6. get_phys_addr p = get_phys_addr (int q)"
    using assms(2,3) by (intro exI [of _ "nat p"]) auto
  then show ?thesis
    using assms(1) map_program_wf [of s p] unfolding confined_def
    by (simp add: map_program_frame) (simp add: map_program_def)
qed


section \<open>One operation after the other\<close>

definition keeps :: "(machine \<Rightarrow> bool) \<Rightarrow> interference \<Rightarrow> bool" where
  "keeps P env \<longleftrightarrow> (\<forall>e \<in> set env. \<forall>s s'. e s = Some s' \<longrightarrow> P s \<longrightarrow> P s')"

lemma keeps_Cons [simp]: "keeps P (e # env) \<longleftrightarrow> (\<forall>s s'. e s = Some s' \<longrightarrow> P s \<longrightarrow> P s') \<and> keeps P env"
  by (simp add: keeps_def)

lemma confined_erase:
  assumes "backspace_called (set_cursor x y (map_video VIDEO s)) = Some s2" "confined s"
  shows "confined s2" "confined (map_video (terminal_page (scheduled_terminal s2)) s2)"
proof -
  have "confined (set_cursor x y (map_video VIDEO s))" using confined_map_video_screen [OF assms(2)] by simp
  then show c: "confined s2" by (rule confinedI [OF core.proj_backspace [OF assms(1)]])
  show "confined (map_video (terminal_page (scheduled_terminal s2)) s2)"
    by (rule confined_map_terminal [OF c confined_scheduled [OF c]])
qed

lemma confined_update_kb: "update_kb_buffer c s = Some s' \<Longrightarrow> confined s \<Longrightarrow> confined s'"
  unfolding update_kb_buffer_def Let_def
  by (auto simp: bind_eq_Some_conv confined_erase split: if_splits)

lemma confined_clear_terminal:
  assumes "clear_terminal s = Some s'" "confined s"
  shows "confined s'"
proof -
  obtain s1 where s1: "clear (map_video VIDEO (cli s)) = Some s1"
    "s' = (let s = sti (map_video (terminal_page (scheduled_terminal (set_cursor 0 0 s1))) (set_cursor 0 0 s1))
      in upd_term (active_terminal s) (\<lambda>t. t\<lparr>reset_flag := 1, current_line := 0, char_in_line := 0\<rparr>) s)"
    using assms(1) by (auto simp: clear_terminal_def Let_def bind_eq_Some_conv)
  have "confined (map_video VIDEO (cli s))"
    using confined_map_video_screen confined_cong [of "cli s" s] assms(2) by simp
  then have c: "confined (set_cursor 0 0 s1)"
    using core.proj_clear [OF s1(1)] confined_cong [of "set_cursor 0 0 s1" "map_video VIDEO (cli s)"] by simp
  show ?thesis
    using confined_map_terminal [OF c confined_scheduled [OF c]] confined_cong [of s']
    by (simp add: s1(2) Let_def)
qed

lemma core_read_data: "read_data i off n s = Some (r, out, s') \<Longrightarrow> core s' = core s"
  unfolding read_data_def by (auto simp: bind_eq_Some_conv dest!: core.proj_printf split: if_splits)

lemma core_read_header: "read_header i s = Some (h, s') \<Longrightarrow> core s' = core s"
  unfolding read_header_def by (auto simp: bind_eq_Some_conv dest!: core_read_data)

lemma confined_exec_wait:
  "exec_wait env e s = Some r \<Longrightarrow> confined s \<Longrightarrow> keeps confined env \<Longrightarrow> confined (exec_state r)"
  by (induction env e s rule: exec_wait.induct) (auto split: if_splits option.splits)

fun read_state :: "read_result \<Rightarrow> machine" where
  "read_state (Line v out s) = s"
| "read_state (Poll l s) = s"

lemma confined_read_step: "read_step l s = Some r \<Longrightarrow> confined s \<Longrightarrow> confined (read_state r)"
  by (cases r) (auto intro: confinedI dest: core.proj_read_step)

lemma confined_read_spin:
  "read_spin env l s = Some r \<Longrightarrow> confined s \<Longrightarrow> keeps confined env \<Longrightarrow> confined (read_state r)"
proof (induction env arbitrary: l s)
  case (Cons e env)
  obtain q where q: "read_step l s = Some q" using Cons.prems(1) by (cases "read_step l s") auto
  then have c: "confined (read_state q)" using confined_read_step Cons.prems(2) by blast
  show ?case
  proof (cases q)
    case (Line v out s1)
    then show ?thesis using q c Cons.prems(1) by auto
  next
    case (Poll l1 s1)
    then obtain s2 where s2: "e s1 = Some s2" "read_spin env l1 s2 = Some r"
      using q Cons.prems(1) by (auto split: option.splits)
    then have "confined s2" using c Poll Cons.prems(3) by simp
    then show ?thesis using Cons.IH s2(2) Cons.prems(3) by simp
  qed
qed auto

lemma confined_rtc_spin:
  "rtc_spin env s = Some r \<Longrightarrow> confined s \<Longrightarrow> keeps confined env \<Longrightarrow>
   (case r of Returned (v, s') \<Rightarrow> confined s' | Waiting s' \<Rightarrow> confined s')"
  by (induction env s rule: rtc_spin.induct) (auto split: if_splits option.splits)

text \<open>The calls on files.\<close>

fun block_state :: "(int \<times> machine) blocking \<Rightarrow> machine" where
  "block_state (Returned (r, s)) = s"
| "block_state (Waiting s) = s"

lemma confined_rtc_read: "rtc_read env s = Some r \<Longrightarrow> confined s \<Longrightarrow> keeps confined env \<Longrightarrow> confined (block_state r)"
proof -
  assume a: "rtc_read env s = Some r" "confined s" "keeps confined env"
  have "confined (s\<lparr>rtc_interrupt_flag := 0\<rparr>)" by (rule confinedI [OF _ a(2)]) simp
  then show ?thesis using confined_rtc_spin [OF a(1) [unfolded rtc_read_def] _ a(3)]
    by (cases r) auto
qed

lemma confined_call_read3:
  assumes "call_read3 env t a buf n s = Some r" "confined s" "keeps confined env"
  shows "confined (block_state r)"
proof (cases t)
  case (Some table)
  show ?thesis
  proof (cases table)
    case TerminalOps
    then obtain q where q: "read_spin env (read_start s) s = Some q"
      using assms(1) Some by (auto simp: call_read3_def terminal_read_def split: option.splits)
    then have c: "confined (read_state q)" using confined_read_spin assms(2,3) by blast
    show ?thesis
    proof (cases q)
      case (Line v out s1)
      then obtain s2 where "store_bytes buf out s1 = Some s2" "r = Returned (v, s2)"
        using assms(1) Some TerminalOps q by (auto simp: call_read3_def terminal_read_def bind_eq_Some_conv)
      then show ?thesis using confinedI [OF core.proj_store_bytes, of buf out s1 s2] c Line by simp
    next
      case (Poll l s1)
      then show ?thesis using assms(1) Some TerminalOps q c by (auto simp: call_read3_def terminal_read_def)
    qed
  next
    case RtcOps
    then show ?thesis using assms Some confined_rtc_read by (simp add: call_read3_def)
  next
    case DirOps
    then obtain v out s2 where "store_bytes buf out s = Some s2" "r = Returned (v, s2)"
      using assms(1) Some by (auto simp: call_read3_def bind_eq_Some_conv)
    then show ?thesis using confinedI [OF core.proj_store_bytes, of buf out s s2] assms(2) by simp
  qed (use assms(1) Some in \<open>simp add: call_read3_def\<close>)
qed (use assms(1) in \<open>simp add: call_read3_def\<close>)

lemma confined_call_read4:
  assumes "call_read4 env t i p buf n s = Some r" "confined s" "keeps confined env"
  shows "confined (block_state r)"
proof (cases t)
  case (Some table)
  show ?thesis
  proof (cases table)
    case FileOps
    then obtain v out s1 s2 where s: "read_data i p (of_int n) s = Some (v, out, s1)" "store_bytes buf out s1 = Some s2"
      "r = Returned (v, s2)"
      using assms(1) Some by (auto simp: call_read4_def file_read_def bind_eq_Some_conv)
    have "core s2 = core s" using core.proj_store_bytes [OF s(2)] core_read_data [OF s(1)] by simp
    then show ?thesis using confinedI assms(2) s(3) by simp
  next
    case RtcOps
    then show ?thesis using assms Some confined_rtc_read by (simp add: call_read4_def)
  qed (use assms(1) Some in \<open>simp_all add: call_read4_def\<close>)
qed (use assms(1) in \<open>simp add: call_read4_def\<close>)

lemma confined_on_return:
  assumes "on_return c f = Some r" "\<And>q. c = Some q \<Longrightarrow> confined (block_state q)"
    and "\<And>v s v' s'. f v s = Some (v', s') \<Longrightarrow> core s' = core s"
  shows "confined (block_state r)"
  using assms by (auto simp: on_return_def split: option.splits blocking.splits intro: confinedI)

lemma confined_sys_read:
  assumes "sys_read env fd buf n s = Some r" "confined s" "keeps confined env"
  shows "confined (block_state r)"
proof -
  have u: "core s' = core s" if "upd_fd k f s \<bind> (\<lambda>s. Some (v, s)) = Some (v', s')" for k f v v' s s'
    using that core_upd_fd by (auto simp: bind_eq_Some_conv)
  from assms(1) show ?thesis
    unfolding sys_read_def
  proof (elim Some_elims)
    fix t a assume "call_read3 env t a buf n s = Some r"
    then show ?thesis by (rule confined_call_read3 [OF _ assms(2,3)])
  next
    fix t a f assume "on_return (call_read3 env t a buf n s)
      (\<lambda>r s. upd_fd (nat fd) (f r) s \<bind> (\<lambda>s. Some (r, s))) = Some r"
    then show ?thesis by (rule confined_on_return) (auto intro: u confined_call_read3 [OF _ assms(2,3)])
  next
    fix t i p f assume "on_return (call_read4 env t i p buf n s)
      (\<lambda>r s. upd_fd (nat fd) (f r) s \<bind> (\<lambda>s. Some (r, s))) = Some r"
    then show ?thesis by (rule confined_on_return) (auto intro: u confined_call_read4 [OF _ assms(2,3)])
  qed (use assms(2) confined_call_read3 [OF _ assms(2,3)] in auto)
qed


lemma core_call_write:
  assumes "call_write hw t fd buf n s = Some (r, s')" shows "core s' = core s"
proof (cases t)
  case (Some table)
  then show ?thesis using assms
    by (cases table)
      (auto simp: call_write_def rtc_write_def bind_eq_Some_conv Let_def dest: core.proj_terminal_write
        split: if_splits option.splits)
qed (use assms in \<open>simp add: call_write_def\<close>)

lemma core_sys_write: "sys_write hw fd buf n s = Some (r, s') \<Longrightarrow> core s' = core s"
  unfolding sys_write_def by (elim Some_elims) (auto dest: core_call_write)

lemma core_call_open:
  assumes "call_open hw t f s = Some (r, s')" shows "core s' = core s"
proof (cases t)
  case (Some table)
  then show ?thesis using assms
    by (cases table) (auto simp: call_open_def rtc_open_def directory_open_def dest: core.proj_terminal_open)
qed (use assms in \<open>simp add: call_open_def\<close>)

lemma core_call_close:
  assumes "call_close t fd s = Some (r, s')" shows "core s' = core s"
proof (cases t)
  case (Some table)
  then show ?thesis using assms
    by (cases table) (auto simp: call_close_def rtc_close_def dest: core.proj_terminal_close)
qed (use assms in \<open>simp add: call_close_def\<close>)

lemma core_sys_open: "sys_open hw f s = Some (r, s') \<Longrightarrow> core s' = core s"
  unfolding sys_open_def by (elim Some_elims) (auto dest!: core_call_open core_upd_fd)

lemma core_sys_close: "sys_close fd s = Some (r, s') \<Longrightarrow> core s' = core s"
  unfolding sys_close_def by (elim Some_elims) (auto dest!: core_call_close core_upd_fd)

lemma core_getargs: "getargs buf n s = Some (r, s') \<Longrightarrow> core s' = core s"
  unfolding getargs_def by (elim Some_elims) (auto dest: core.proj_store_bytes)

lemma core_vidmap: "vidmap a s = Some (r, s') \<Longrightarrow> core s' = core s"
  unfolding vidmap_def by (elim Some_elims) (auto dest: core.proj_store_bytes)

text \<open>Processes.\<close>

lemma core_upd_pcb_same:
  "upd_pcb a f s = Some s' \<Longrightarrow> (\<And>p. process_id (f p) = process_id p) \<Longrightarrow> core s' = core s"
  by (rule core_upd_pcb)

lemma set_parent_confined:
  assumes "set_parent pid a s = Some s'" "confined s" shows "confined s'"
proof -
  have z: "confined (s\<lparr>active_terminal := 0\<rparr>)"
    using assms(2) by (simp add: confined_def paging_wf_def tables_linked_def program_frame_def video_frame_def)
  show ?thesis
    using assms(1) unfolding set_parent_def Let_def
  proof (elim Some_elims)
    fix s1 s2 assume u: "upd_pcb (get_pcb_ptr 1) (\<lambda>p. p\<lparr>in_use := 1\<rparr>) (s\<lparr>active_terminal := 0\<rparr>) = Some s1"
      "upd_pcb (get_pcb_ptr 2) (\<lambda>p. p\<lparr>in_use := 1\<rparr>) s1 = Some s2"
      "upd_pcb a (\<lambda>p. p\<lparr>parent_process_id := -1\<rparr>) s2 = Some s'"
    have "core s' = core (s\<lparr>active_terminal := 0\<rparr>)"
      using u [THEN core_upd_pcb_same] by simp
    then show ?thesis using confinedI z by blast
  qed (auto intro: confinedI [OF core_upd_pcb_same assms(2)])
qed

lemma core_upd_pcb_fields:
  "upd_pcb a (\<lambda>p. p\<lparr>arg := x p\<rparr>) s = Some s' \<Longrightarrow> core s' = core s"
  "upd_pcb a (\<lambda>p. p\<lparr>fd_array := y p\<rparr>) s = Some s' \<Longrightarrow> core s' = core s"
  "upd_pcb a (\<lambda>p. p\<lparr>ebp_val := b, esp_val := e\<rparr>) s = Some s' \<Longrightarrow> core s' = core s"
  by (erule core_upd_pcb, simp)+

lemma exec_setup_confined:
  assumes "exec_setup pid i b c s = Some s'" "confined s" "0 \<le> sint pid" "sint pid < 6"
  shows "confined s'"
proof -
  define q where "q = get_pcb_ptr (sint pid)"
  obtain r im s1 s2 s3 s4 where a: "read_data i 0 (of_int FOUR_MB) (map_program (sint pid) s) = Some (r, im, s1)"
    "store_bytes (ADDR_128MB + PROG_IMG_OFFSET) im s1 = Some s2"
    "upd_pcb q (init_pcb (sint pid)) s2 = Some s3" "set_parent pid q s3 = Some s4"
    and b: "core s' = core s4"
    using assms(1) unfolding exec_setup_def Let_def q_def [symmetric]
    by (elim Some_elims) (auto dest!: core_upd_pcb_fields)
  have "confined s2"
    using confined_map_program [OF assms(2-4)] core_read_data [OF a(1)] core.proj_store_bytes [OF a(2)]
    by (metis confinedI)
  then have "confined s3" using a(3) assms(3,4) by (rule_tac confined_upd_pcb) (auto simp: init_pcb_def)
  then show ?thesis using set_parent_confined [OF a(4)] confinedI [OF b] by blast
qed

lemma get_pid_bounds: "get_pid s = Some p \<Longrightarrow> p = -1 \<or> 0 \<le> p \<and> p < 6"
  by (auto simp: get_pid_eq next_pid_Some split: option.splits)

lemma confined_read_header: "read_header i s = Some (h, s') \<Longrightarrow> confined s \<Longrightarrow> confined s'"
  by (rule confinedI [OF core_read_header])

lemma sint_ucast_u8: "unat (a :: u8) < 3 \<Longrightarrow> sint (ucast a :: u32) = int (unat a)"
  by (cases rule: u8_below_3) auto

lemma assigned_pid:
  assumes "confined s" "pid \<noteq> -1"
    and "Some (ucast (active_terminal s)) = Some pid \<or> map_option of_int (get_pid s) = Some (pid :: u32)"
  shows "0 \<le> sint pid \<and> sint pid < 6"
  using assms(3)
proof
  assume "Some (ucast (active_terminal s)) = Some pid"
  moreover have a: "unat (active_terminal s) < 3" using assms(1) by (simp add: confined_def)
  ultimately have "sint pid = int (unat (active_terminal s))" using sint_ucast_u8 [OF a] by simp
  then show ?thesis using a by linarith
next
  assume "map_option of_int (get_pid s) = Some pid"
  then obtain p where p: "get_pid s = Some p" "pid = of_int p" by auto
  then have "0 \<le> p \<and> p < 6" using get_pid_bounds [OF p(1)] assms(2) by auto
  then have "p = 0 \<or> p = 1 \<or> p = 2 \<or> p = 3 \<or> p = 4 \<or> p = 5" by arith
  then show ?thesis using p(2) by auto
qed

lemma confined_started:
  assumes "exec_setup pid i b c s = Some s'" "confined s" "pid \<noteq> -1"
    and "Some (ucast (active_terminal s)) = Some pid \<or> map_option of_int (get_pid s) = Some pid"
  shows "confined s' \<and> confined (s'\<lparr>initialized_terminals := t\<rparr>)"
proof -
  have "confined s'" using exec_setup_confined [OF assms(1,2)] assigned_pid [OF assms(2-4)] by blast
  then show ?thesis using confinedI [of "s'\<lparr>initialized_terminals := t\<rparr>" s'] by simp
qed

lemma execute_confined:
  assumes "execute env command s = Some r" "confined s" "keeps confined env"
  shows "confined (exec_state r)"
  using assms(1) unfolding execute_def Let_def
proof (elim Some_elims)
  fix d h s1 pid b c s2
  assume h: "read_header (inodeNumber d) s = Some (h, s1)"
    and st: "exec_setup pid (inodeNumber d) b c s1 = Some s2" "pid \<noteq> -1"
    and pid: "Some (ucast (active_terminal s1)) = Some pid"
    and w: "exec_wait env (entry_point_of h)
      (s2\<lparr>initialized_terminals := (initialized_terminals s2)(active_terminal s2 := 1)\<rparr>) = Some r"
  show ?thesis
    using confined_exec_wait [OF w _ assms(3)] confined_started [OF st(1) confined_read_header [OF h assms(2)] st(2)] pid
    by blast
next
  fix d h s1 pid b c s2
  assume h: "read_header (inodeNumber d) s = Some (h, s1)"
    and st: "exec_setup pid (inodeNumber d) b c s1 = Some s2" "pid \<noteq> -1"
    and pid: "map_option of_int (get_pid s1) = Some pid"
    and w: "exec_wait env (entry_point_of h)
      (s2\<lparr>initialized_terminals := (initialized_terminals s2)(active_terminal s2 := 1)\<rparr>) = Some r"
  show ?thesis
    using confined_exec_wait [OF w _ assms(3)] confined_started [OF st(1) confined_read_header [OF h assms(2)] st(2)] pid
    by blast
qed (use assms(2) in \<open>auto dest: confined_started intro: confined_read_header\<close>)

text \<open>\<open>halt\<close>, the scheduler, the keyboard.\<close>

lemma core_halt_fields:
  "upd_pcb a (\<lambda>p. p\<lparr>ebp_val := x, esp_val := y, in_use := z\<rparr>) s = Some s' \<Longrightarrow> core s' = core s"
  "upd_pcb a (\<lambda>p. p\<lparr>scheduling_esp_val := x, scheduling_ebp_val := y\<rparr>) s = Some s' \<Longrightarrow> core s' = core s"
  by (erule core_upd_pcb, simp)+

lemma confined_forget_pid:
  "upd_pcb a (\<lambda>p. p\<lparr>parent_process_id := 0, process_id := 0\<rparr>) s = Some s' \<Longrightarrow> confined s \<Longrightarrow> confined s'"
  by (erule confined_upd_pcb; simp)

lemma confined_core_upd:
  assumes "confined s"
  shows "confined (s\<lparr>tss_esp0 := t\<rparr>)" "confined (s\<lparr>current_pcb := c\<rparr>)" "confined (s\<lparr>exception_in_child := e\<rparr>)"
    "confined (s\<lparr>cpu_ebp := b, cpu_esp := d\<rparr>)" "confined (s\<lparr>tss_esp0 := t, current_pcb := c\<rparr>)"
    "confined (s\<lparr>current_pcb := c, tss_esp0 := t\<rparr>)" "confined (s\<lparr>rtc_interrupt_flag := r\<rparr>)"
  by (rule confinedI [OF _ assms], simp)+

lemma core_close_all: "close_all s = Some s' \<Longrightarrow> core s' = core s"
  unfolding close_all_def by (erule core.proj_for_each) (auto simp: bind_eq_Some_conv dest: core_sys_close)

lemma confined_process_id: "confined s \<Longrightarrow> get_pcb a s = Some p \<Longrightarrow> 0 \<le> process_id p \<and> process_id p < 6"
  by (auto simp: get_pcb_def confined_def split: if_splits)

lemma halt_to_parent_confined:
  assumes "halt_to_parent v e b s = Some r" "confined s"
  shows "confined (halt_state r)"
  using assms(1) unfolding halt_to_parent_def Let_def
proof (elim Some_elims)
  fix p s1 parent
  assume u: "upd_pcb (current_pcb (s\<lparr>tss_esp0 := of_int EIGHT_MB - of_int EIGHT_KB * of_int (parent_process_id p) - 4\<rparr>))
      (\<lambda>p. p\<lparr>parent_process_id := 0, process_id := 0\<rparr>)
      (s\<lparr>tss_esp0 := of_int EIGHT_MB - of_int EIGHT_KB * of_int (parent_process_id p) - 4\<rparr>) = Some s1"
    and g: "get_pcb (get_pcb_ptr (parent_process_id p)) s1 = Some parent"
    and r: "Some (HaltResume v e b (sti (upd_term
        (scheduled_terminal ((map_program (process_id parent) s1)\<lparr>current_pcb := get_pcb_ptr (parent_process_id p)\<rparr>))
        (\<lambda>t. t\<lparr>active_pid := of_int (process_id parent)\<rparr>)
        ((map_program (process_id parent) s1)\<lparr>current_pcb := get_pcb_ptr (parent_process_id p)\<rparr>)))) = Some r"
  have c: "confined s1" by (rule confined_forget_pid [OF u confined_core_upd(1) [OF assms(2)]])
  then have "confined (map_program (process_id parent) s1)"
    using confined_process_id [OF c g] by (simp add: confined_map_program)
  then show ?thesis using r confined_core_upd(2) by auto
qed


lemma core_halt_status: "halt_status v s = (r, s') \<Longrightarrow> core s' = core s"
  by (auto simp: halt_status_def split: if_splits)

lemma halt_confined:
  assumes "halt env status s = Some r" "confined s" "keeps confined env"
  shows "confined (halt_state r)"
proof -
  obtain v s1 where v: "halt_status status s = (v, s1)" by fastforce
  have c1: "confined s1" by (rule confinedI [OF core_halt_status [OF v] assms(2)])
  have c3: "confined s3" if "close_all s1 = Some s2"
    "upd_pcb (current_pcb (cli s2)) (\<lambda>p. p\<lparr>ebp_val := 0, esp_val := 0, in_use := 0\<rparr>) (cli s2) = Some s3" for s2 s3
  proof -
    have "confined s2" by (rule confinedI [OF core_close_all [OF that(1)] c1])
    then show ?thesis using confinedI [OF core_halt_fields(1) [OF that(2)]] by simp
  qed
  from assms(1) show ?thesis
    unfolding halt_def Let_def v prod.case
  proof (elim if_SomeE bind_SomeE)
    fix p q s2 s3 s4 x
    assume s3: "close_all s1 = Some s2"
        "upd_pcb (current_pcb (cli s2)) (\<lambda>p. p\<lparr>ebp_val := 0, esp_val := 0, in_use := 0\<rparr>) (cli s2) = Some s3"
      and u: "upd_pcb (current_pcb s3) (\<lambda>p. p\<lparr>parent_process_id := 0, process_id := 0\<rparr>) s3 = Some s4"
      and x: "execute env (bytes ''shell'' @ [0])
        (sti (s4\<lparr>current_pcb := 0, tss_esp0 := of_int EIGHT_MB - of_int EIGHT_KB * of_int (process_id q) - 4\<rparr>)) = Some x"
      and r: "(case x of ExecReturn w s \<Rightarrow> halt_to_parent v (esp_val p) (ebp_val p) s | _ \<Rightarrow> Some (HaltShell x)) = Some r"
    have c: "confined (exec_state x)"
      by (rule execute_confined [OF x _ assms(3)])
        (simp add: confined_core_upd(6) [OF confined_forget_pid [OF u c3 [OF s3]]])
    show ?thesis
    proof (cases x)
      case (ExecReturn w t)
      then show ?thesis using r c halt_to_parent_confined [of v "esp_val p" "ebp_val p" t] by simp
    qed (use r c in auto)
  next
    fix p s2 s3
    assume s3: "close_all s1 = Some s2"
        "upd_pcb (current_pcb (cli s2)) (\<lambda>p. p\<lparr>ebp_val := 0, esp_val := 0, in_use := 0\<rparr>) (cli s2) = Some s3"
      and r: "halt_to_parent v (esp_val p) (ebp_val p) s3 = Some r"
    show ?thesis by (rule halt_to_parent_confined [OF r c3 [OF s3]])
  qed
qed

lemma switch_display_confined:
  assumes "switch_display i s = Some s'" "confined s" "unat i < 3"
  shows "confined s'"
proof -
  define s0 where "s0 = (if active_terminal s \<noteq> scheduled_terminal s then map_video VIDEO s else s)"
  obtain s1 s2 where m: "memcpy kload kstore (terminal_page (active_terminal s0)) VIDEO 4096 s0 = Some s1"
    "memcpy kload kstore VIDEO (terminal_page i) 4096 s1 = Some s2"
    and s': "s' = (if i \<noteq> scheduled_terminal s2 then map_video (terminal_page (scheduled_terminal s2)) s2 else s2)
      \<lparr>active_terminal := i\<rparr>"
    using assms(1) unfolding switch_display_def Let_def s0_def [symmetric] bind_eq_Some_conv by blast
  have "confined s0" using assms(2) confined_map_video_screen by (simp add: s0_def)
  moreover have "core s2 = core s0" using core.proj_memcpy [OF m(1)] core.proj_memcpy [OF m(2)] by simp
  ultimately have c: "confined s2" using confinedI by blast
  then have "confined (if i \<noteq> scheduled_terminal s2 then map_video (terminal_page (scheduled_terminal s2)) s2 else s2)"
    using confined_map_terminal confined_scheduled by simp
  moreover have "confined t \<Longrightarrow> confined (t\<lparr>active_terminal := i\<rparr>)" for t
    using assms(3) by (simp add: confined_def paging_wf_def tables_linked_def program_frame_def video_frame_def)
  ultimately show ?thesis unfolding s' by blast
qed

lemma terminal_switch_confined:
  assumes "terminal_switch env i s = Some r" "confined s" "unat i < 3" "keeps confined env"
  shows "confined (switch_state r)"
  using assms(1) unfolding terminal_switch_def Let_def
proof (elim if_SomeE bind_SomeE)
  fix s1 x
  assume d: "switch_display i s = Some s1"
    and x: "execute env (bytes ''shell'' @ [0]) (sti (send_eoi KEYBOARD_IRQ s1)) = Some x"
    and r: "Some (case x of ExecReturn v s \<Rightarrow> SwitchDone s | _ \<Rightarrow> SwitchShell x) = Some r"
  have "confined (sti (send_eoi KEYBOARD_IRQ s1))"
    by (rule confinedI [OF _ switch_display_confined [OF d assms(2,3)]]) simp
  then have "confined (exec_state x)" by (rule execute_confined [OF x _ assms(4)])
  then show ?thesis using r by (cases x) auto
qed (use assms(2,3) in \<open>auto dest: switch_display_confined\<close>)

lemma core_modifier: "modifier_key c s = Some s' \<Longrightarrow> core s' = core s"
  unfolding modifier_key_def core_def by (auto split: if_splits)

lemma confined_update_all:
  "for_each cs (\<lambda>_. update_kb_buffer c) s = Some s' \<Longrightarrow> confined s \<Longrightarrow> confined s'"
  using for_each_inv [of cs confined "\<lambda>_. update_kb_buffer c" s s'] confined_update_kb by blast

lemma key_action_confined:
  assumes "key_action env c s = Some r" "confined s" "keeps confined env"
  shows "confined (switch_state r)"
  using assms(1) unfolding key_action_def
proof (elim Some_elims)
  assume "terminal_switch env (if c = F1_PRESS then 0 else if c = F2_PRESS then 1 else 2) s = Some r"
  then show ?thesis by (rule terminal_switch_confined [OF _ assms(2) _ assms(3)]) simp
next
  assume "map_option SwitchDone (clear_terminal s) = Some r"
  then show ?thesis using confined_clear_terminal [OF _ assms(2)] by auto
next
  assume "map_option SwitchDone (for_each [0..<TAB_SPACE] (\<lambda>_. update_kb_buffer SPACE_ASCII) s) = Some r"
  then show ?thesis using confined_update_all [OF _ assms(2)] by auto
next
  fix k assume "map_option SwitchDone (update_kb_buffer k s) = Some r"
  then show ?thesis using confined_update_kb [OF _ assms(2)] by auto
qed (use assms(2) confinedI [OF core_modifier] in auto)

lemma keyboard_handler_confined:
  assumes "keyboard_handler hw env s = Some r" "confined s" "keeps confined env"
  shows "confined (switch_state r)"
proof -
  have i: "confined t \<Longrightarrow> inb hw p t = (v, t') \<Longrightarrow> confined t'" for p t v t'
    using confinedI [OF core.proj_prims(5) [of hw p t]] by simp
  obtain x where r: "r = (case x of SwitchDone s \<Rightarrow> SwitchDone (send_eoi KEYBOARD_IRQ (sti s)) | SwitchShell r \<Rightarrow> SwitchShell r)"
    and c: "confined (switch_state x)"
    using assms(1) unfolding keyboard_handler_def Let_def
  proof (elim case_prod_SomeE bind_SomeE)
    fix v t x
    assume e: "inb hw KEYBOARD_STATUS_PORT (cli s) = (v, t)"
      and k: "(if v AND KEYBOARD_OUTPUT_BUFFER_STATUS_MASK \<noteq> 0
        then case inb hw KEYBOARD_DATA_PORT t of (scan_code, s) \<Rightarrow> key_action env scan_code s
        else Some (SwitchDone t)) = Some x"
      and r: "Some (case x of SwitchDone s \<Rightarrow> SwitchDone (send_eoi KEYBOARD_IRQ (sti s)) | SwitchShell r \<Rightarrow> SwitchShell r) = Some r"
    have t: "confined t" by (rule i [OF _ e]) (simp add: assms(2))
    have "confined (switch_state x)"
      using k by (elim if_SomeE case_prod_SomeE) (use t i key_action_confined assms(3) in auto)
    then show thesis by (intro that [of x]) (use r in simp_all)
  qed
  show ?thesis
  proof (cases x)
    case (SwitchDone t)
    then show ?thesis using r c confinedI [of "send_eoi KEYBOARD_IRQ (sti t)" t] by simp
  next
    case (SwitchShell y)
    then show ?thesis using r c by simp
  qed
qed


lemma scheduler_save_core: "scheduler_save s = Some s' \<Longrightarrow> core s' = core s"
  unfolding scheduler_save_def by (auto simp: bind_eq_Some_conv dest: core_halt_fields(2))

lemma confined_resumed: "confined s \<Longrightarrow> unat i < 3 \<Longrightarrow> confined (s\<lparr>scheduled_terminal := i\<rparr>)"
  by (simp add: confined_def paging_wf_def tables_linked_def program_frame_def video_frame_def)

lemma scheduler_resume_confined:
  assumes "scheduler_resume i s = Some s'" "confined s" "unat i < 3"
  shows "confined s'"
proof -
  define s1 where "s1 = s\<lparr>scheduled_terminal := i\<rparr>"
  define s2 where "s2 = s1\<lparr>current_pcb := get_pcb_ptr (uint (active_pid (terminals s1 (scheduled_terminal s1))))\<rparr>"
  have c1: "confined s1" using confined_resumed [OF assms(2,3)] by (simp add: s1_def)
  then have c2: "confined s2" unfolding s2_def by (rule confined_core_upd(2))
  obtain p where p: "get_pcb (current_pcb s2) s2 = Some p"
    using assms(1) unfolding scheduler_resume_def Let_def s1_def [symmetric] s2_def [symmetric] bind_eq_Some_conv
    by blast
  define s3 where "s3 = map_program (process_id p) (s2\<lparr>tss_esp0 := of_int EIGHT_MB - of_int EIGHT_KB * of_int (process_id p) - 4\<rparr>)"
  define s4 where "s4 = (if scheduled_terminal s3 = active_terminal s3 then map_video VIDEO s3
    else map_video (terminal_page (scheduled_terminal s3)) s3)"
  have c3: "confined s3"
    using confined_map_program [OF confined_core_upd(1) [OF c2]] confined_process_id [OF c2 p] by (simp add: s3_def)
  have c4: "confined s4"
    using confined_map_video_screen [OF c3] confined_map_terminal [OF c3 confined_scheduled [OF c3]] by (simp add: s4_def)
  have "\<exists>x y b d. s' = (set_cursor x y s4)\<lparr>cpu_ebp := b, cpu_esp := d\<rparr>"
    using assms(1)
    unfolding scheduler_resume_def Let_def s1_def [symmetric] s2_def [symmetric] p bind.bind_lunit
      s3_def [symmetric] s4_def [symmetric] by blast
  then show ?thesis using confined_core_upd(4) [of "set_cursor _ _ s4"] c4 by auto
qed

lemma first_candidate_bound: "unat (first_candidate i) < 3"
proof -
  have "0 \<le> (uint i + 1) mod MAX_TERMINALS" "(uint i + 1) mod MAX_TERMINALS < 3"
    by (simp_all add: MAX_TERMINALS_def)
  then show ?thesis by (simp add: first_candidate_def unat_of_int_u8)
qed

lemma pit_handler_confined:
  assumes "pit_handler s = Some s'" "confined s"
  shows "confined s'"
proof -
  have c0: "confined (send_eoi PIT_LINE s)" by (rule confinedI [OF _ assms(2)]) simp
  have first: "confined (t\<lparr>scheduled_terminal := 0, first_swap := 0\<rparr>)" if "confined t" for t
    using confinedI [of "t\<lparr>scheduled_terminal := 0, first_swap := 0\<rparr>" "t\<lparr>scheduled_terminal := 0\<rparr>"]
      confined_resumed [OF that, of 0] by (simp add: core_def)
  have "confined s'" if sch: "scheduler t = Some s'" and ct: "confined t" for t
  proof -
    define t0 where "t0 = (if first_swap t \<noteq> 0 then t\<lparr>scheduled_terminal := 0, first_swap := 0\<rparr> else t)"
    have "confined t0" using first [OF ct] ct by (simp add: t0_def)
    moreover obtain t1 i where t1: "scheduler_save t0 = Some t1"
      "find_initialized (initialized_terminals t1) (first_candidate (scheduled_terminal t1)) = Some i"
      "scheduler_resume i t1 = Some s'"
      using sch unfolding scheduler_def Let_def t0_def [symmetric] bind_eq_Some_conv by blast
    moreover have "unat i < 3"
      using find_initialized_sound [OF t1(2)] first_candidate_bound by blast
    ultimately show ?thesis using scheduler_resume_confined confinedI [OF scheduler_save_core] by blast
  qed
  then show ?thesis using assms(1) c0 by (auto simp: pit_handler_def Let_def split: if_splits)
qed

lemma exception_handler_confined:
  assumes "exception_handler env slot n s = Some r" "confined s" "keeps confined env"
  shows "confined (halt_state r)"
  using assms(1) unfolding exception_handler_def
proof (elim Some_elims)
  fix msg k s1
  assume p: "printf (bytes '' %s'' @ [0]) [Pointer msg] s = Some (k, s1)"
    and h: "halt env slot (s1\<lparr>exception_in_child := 1\<rparr>) = Some r"
  have "confined s1" by (rule confinedI [OF core.proj_printf [OF p] assms(2)])
  then show ?thesis by (rule halt_confined [OF h confined_core_upd(3) assms(3)])
qed

lemma sys_call_confined:
  assumes "sys_call hw env eax ebx ecx edx s = Some r" "confined s" "keeps confined env"
  shows "confined (call_state r)"
proof -
  have v: "confined (call_state r)" if "call_value m = Some r" "\<And>x s'. m = Some (x, s') \<Longrightarrow> core s' = core s" for m
    using that confinedI [OF _ assms(2)] by (auto simp: call_value_def)
  from assms(1) show ?thesis
    unfolding sys_call_def
  proof (elim if_SomeE)
    assume "map_option CallHalt (halt env (ucast ebx) s) = Some r"
    then show ?thesis using halt_confined [OF _ assms(2,3)] by auto
  next
    assume "call_exec (execute env (user_string ebx s) s) = Some r"
    then obtain x where x: "execute env (user_string ebx s) s = Some x"
      "r = (case x of ExecReturn v s \<Rightarrow> CallReturns (of_int v) s | _ \<Rightarrow> CallExec x)"
      by (auto simp: call_exec_def)
    then show ?thesis using execute_confined [OF x(1) assms(2,3)] by (cases x) auto
  next
    assume "call_blocking (sys_read env (sint ebx) ecx (sint edx) s) = Some r"
    then obtain b where b: "sys_read env (sint ebx) ecx (sint edx) s = Some b"
      "r = (case b of Returned (r, s) \<Rightarrow> CallReturns (of_int r) s | Waiting s \<Rightarrow> CallWaits s)"
      by (auto simp: call_blocking_def)
    then show ?thesis using confined_sys_read [OF b(1) assms(2,3)] by (auto split: blocking.splits)
  qed (use assms(2) v core_sys_write core_sys_open core_sys_close core_getargs core_vidmap in auto)
qed


section \<open>Steps\<close>

text \<open>
  The kernel's own objects are not among the bytes of \<open>frames\<close>, so a call that makes the kernel store
  into its own page is left out: the buffers of \<open>read\<close> and \<open>getargs\<close> have to be the program's own
  (\<open>terminal_read\<close> stores up to 129 bytes whatever length it is given). Nothing in the code checks this.
\<close>

definition user_range :: "machine \<Rightarrow> u32 \<Rightarrow> nat \<Rightarrow> bool" where
  "user_range s a n \<longleftrightarrow> (\<forall>i < n. user_access s (a + of_nat i) \<noteq> None)"

definition own_buffers :: "u32 \<Rightarrow> u32 \<Rightarrow> u32 \<Rightarrow> u32 \<Rightarrow> machine \<Rightarrow> bool" where
  "own_buffers eax ebx ecx edx s \<longleftrightarrow>
     (eax = 3 \<longrightarrow> user_range s ecx (max 129 (nat (sint edx)))) \<and>
     (eax = 7 \<longrightarrow> user_range s ebx (nat (sint ecx)))"

text \<open>One entry into the kernel, or one store of user code. What happens while a call waits consists
  of such steps again. The gates leave interrupts on, so that on the machine a tick can also fall inside
  a step, at any instruction: this relation has no such ticks.\<close>

inductive kernel_step :: "device \<Rightarrow> machine \<Rightarrow> machine \<Rightarrow> bool" for hw where
  timer: "pit_handler s = Some s' \<Longrightarrow> kernel_step hw s s'"
| clock: "kernel_step hw s (rtc_handler hw s)"
| key: "\<lbrakk>keyboard_handler hw env s = Some r;
    \<forall>e \<in> set env. \<forall>t t'. e t = Some t' \<longrightarrow> rtranclp (kernel_step hw) t t'\<rbrakk> \<Longrightarrow>
    kernel_step hw s (switch_state r)"
| call: "\<lbrakk>sys_call hw env eax ebx ecx edx s = Some r; own_buffers eax ebx ecx edx s;
    \<forall>e \<in> set env. \<forall>t t'. e t = Some t' \<longrightarrow> rtranclp (kernel_step hw) t t'\<rbrakk> \<Longrightarrow>
    kernel_step hw s (call_state r)"
| trap: "\<lbrakk>exception_handler env slot n s = Some r;
    \<forall>e \<in> set env. \<forall>t t'. e t = Some t' \<longrightarrow> rtranclp (kernel_step hw) t t'\<rbrakk> \<Longrightarrow>
    kernel_step hw s (halt_state r)"
| store: "user_access s va = Some (f, k) \<Longrightarrow> kernel_step hw s (poke f k v s)"

lemma keeps_steps:
  assumes "\<forall>e \<in> set env. \<forall>t t'. e t = Some t' \<longrightarrow> rtranclp (\<lambda>t t'. kernel_step hw t t' \<and> (confined t \<longrightarrow> confined t')) t t'"
  shows "keeps confined env"
proof -
  have "confined t \<Longrightarrow> confined t'"
    if "rtranclp (\<lambda>t t'. kernel_step hw t t' \<and> (confined t \<longrightarrow> confined t')) t t'" for t t'
    using that by (induction rule: rtranclp_induct) auto
  then show ?thesis using assms unfolding keeps_def by blast
qed

lemma kernel_step_confined: "kernel_step hw s s' \<Longrightarrow> confined s \<longrightarrow> confined s'"
proof (induction rule: kernel_step.induct)
  case (timer s s')
  then show ?case using pit_handler_confined by blast
next
  case (clock s)
  have "core (rtc_handler hw s) = core s" by simp
  then show ?case using confined_cong by blast
next
  case (key env s r)
  have "keeps confined env" by (rule keeps_steps) (rule key(2))
  then show ?case using keyboard_handler_confined [OF key(1)] by blast
next
  case (call env eax ebx ecx edx s r)
  have "keeps confined env" by (rule keeps_steps) (rule call(3))
  then show ?case using sys_call_confined [OF call(1)] by blast
next
  case (trap env slot n s r)
  have "keeps confined env" by (rule keeps_steps) (rule trap(2))
  then show ?case using exception_handler_confined [OF trap(1)] by blast
next
  case (store s va f k v)
  have "core (poke f k v s) = core s" by (simp add: poke_def core.proj_frames)
  then show ?case using confined_cong by blast
qed

lemma steps_confined: "rtranclp (kernel_step hw) s s' \<Longrightarrow> confined s \<Longrightarrow> confined s'"
  by (induction rule: rtranclp_induct) (auto dest: kernel_step_confined)

section \<open>Properties\<close>

lemma kernel_frame_or: "0x400 OR ucast (w :: 10 word) = (0x400 + ucast w :: 20 word)"
proof (rule disjunctive_add [symmetric])
  fix n
  have e: "(0x400 :: 20 word) = push_bit 10 1" by (simp add: push_bit_eq_mult)
  have "bit (0x400 :: 20 word) n \<Longrightarrow> n = 10" unfolding e bit_push_bit_iff by (auto simp: bit_1_iff)
  moreover have "\<not> bit (ucast w :: 20 word) 10" by (auto simp: bit_ucast_iff dest: bit_imp_le_length)
  ultimately show "\<not> bit (0x400 :: 20 word) n \<or> \<not> bit (ucast w :: 20 word) n" by blast
qed

lemma kernel_frame: "j < 1024 \<Longrightarrow> 0x400 OR ucast (of_nat j :: 10 word) = (of_nat (0x400 + j) :: 20 word)"
  unfolding kernel_frame_or by (simp add: unsigned_of_nat take_bit_nat_eq_self)

definition sample_args :: machine where
  "sample_args = sample_proc\<lparr>pcbs := (pcbs sample_proc)(current_pcb sample_proc := zero_pcb\<lparr>arg := [97, 0, 0]\<rparr>)\<rparr>"

lemma sample_args_facts:
  "paging_wf sample_args" "pcb_mapped (current_pcb sample_args)" "arg (cur sample_args) = [97, 0, 0]"
  using sample_paging sample_proc_ok(1)
  by (simp_all add: sample_args_def paging_wf_def tables_linked_def program_frame_def video_frame_def proc_ok_def)

text \<open>C37: the kernel stores through a pointer it got from a program without a check: \<open>getargs\<close> with a
  buffer inside the kernel's own page returns 0 and has written the argument there, which the program
  could not have done itself.\<close>

theorem getargs_writes_kernel_memory:
  assumes "paging_wf s" "pcb_mapped (current_pcb s)" "arg (cur s) = c # d # cs" "c \<noteq> 0"
    and "unat buf = 0x400000 + k" "k < 0x400000"
  shows "user_access s buf = None \<and>
    (\<exists>s'. getargs buf 1 s = Some (0, s') \<and> frames s' (of_nat (0x400 + k div 4096)) (k mod 4096) = c)"
proof -
  have u: "unat buf = 1 * 4194304 + (k div 4096) * 4096 + k mod 4096" using assms(5) by simp
  have lt: "k div 4096 < 1024" using assms(6) by auto
  have w: "dir_ix buf = 1" "tab_ix buf = of_nat (k div 4096)" "page_off buf = k mod 4096"
    using addr_parts [OF u] lt by simp_all
  have m: "mmu_walk s buf = Some (0x400 OR ucast (of_nat (k div 4096) :: 10 word), k mod 4096, False)"
    by (simp add: mmu_walk_wf [OF assms(1)] w)
  let ?f = "0x400 OR ucast (of_nat (k div 4096) :: 10 word) :: 20 word"
  have f: "?f = of_nat (0x400 + k div 4096)" by (rule kernel_frame [OF lt])
  define s' where "s' = poke ?f (k mod 4096) c s"
  have "load_bytes buf 1 s = [frames s ?f (k mod 4096)]"
    by (simp add: load_bytes.simps kload_def m)
  moreover have "strncpy [frames s ?f (k mod 4096)] (arg (cur s)) 1 = Some [c]"
    using assms(3,4) by (simp add: strncpy_def strncpy_copy.simps strncpy_pad.simps)
  moreover have "store_bytes buf [c] s = Some s'"
    by (simp add: kstore_def m s'_def poke_def)
  moreover have "buf \<noteq> 0" using assms(5) by auto
  ultimately have "getargs buf 1 s = Some (0, s')"
    using assms(2) by (simp add: getargs_def get_pcb_def)
  moreover have "frames s' (of_nat (0x400 + k div 4096)) (k mod 4096) = c"
    unfolding s'_def f by simp
  moreover have "user_access s buf = None" by (simp add: user_access_def m)
  ultimately show ?thesis by blast
qed

theorem getargs_writes_kernel_memory_witness:
  "user_access sample_args 0x401005 = None \<and>
   (\<exists>s'. getargs 0x401005 1 sample_args = Some (0, s') \<and> frames s' 0x401 5 = 97)"
  using getargs_writes_kernel_memory [of sample_args 97 0 "[0]" "0x401005" "0x1005"] sample_args_facts by simp

end
