(* ===== verification/Boot.thy ===== *)
theory Boot
  imports Kernel
begin

text \<open>
  The C entry point of the kernel (\<^verbatim>\<open>kernel.c\<close>, \<^verbatim>\<open>multiboot.h\<close>): \<open>entry\<close> prints what the boot loader
  reports, takes the file system image from the loaded module, builds the descriptor tables, programs
  the devices, turns paging on and executes the first shell. The boot information is the loader's; the
  addresses of the LDT and the TSS are the linker's. Both are parameters.
\<close>

section \<open>Multiboot information (multiboot.h)\<close>

definition MULTIBOOT_BOOTLOADER_MAGIC :: u32 where "MULTIBOOT_BOOTLOADER_MAGIC = 0x2BADB002"

record elf_section_header_table =
  elf_num :: u32
  elf_size :: u32
  elf_addr :: u32
  elf_shndx :: u32

text \<open>A module with the bytes that lie at \<open>mod_start\<close>.\<close>

record module_info =
  mod_start :: u32
  mod_end :: u32
  mod_bytes :: "u8 list"

record memory_map =
  mmap_size :: u32
  base_addr_low :: u32
  base_addr_high :: u32
  length_low :: u32
  length_high :: u32
  mmap_type :: u32

text \<open>
  The pointers \<open>cmdline\<close> and \<open>mods_addr\<close> are given with what they point to; the memory map is read at
  addresses the code computes, so \<open>mmap_at\<close> is what lies at an address.
\<close>

record multiboot_info =
  mb_flags :: u32
  mem_lower :: u32
  mem_upper :: u32
  boot_device :: u32
  cmdline :: "u8 list"
  mods_count :: u32
  mods_addr :: "module_info list"
  elf_sec :: elf_section_header_table
  mmap_length :: u32
  mmap_addr :: u32
  mmap_at :: "u32 \<Rightarrow> memory_map"

section \<open>entry\<close>

definition CHECK_FLAG :: "u32 \<Rightarrow> nat \<Rightarrow> bool" where
  "CHECK_FLAG f n \<longleftrightarrow> f AND push_bit n 1 \<noteq> 0"

text \<open>\<open>printf\<close> as a statement.\<close>

definition say :: "u8 list \<Rightarrow> vararg list \<Rightarrow> machine \<Rightarrow> machine option" where
  "say fmt args s = map_option snd (printf (fmt @ [0]) args s)"

definition print_boot_info :: "multiboot_info \<Rightarrow> machine \<Rightarrow> machine option" where
  "print_boot_info mbi s =
     do {
       s \<leftarrow> say (bytes ''flags = 0x%#x'' @ [10]) [Word (mb_flags mbi)] s;
       s \<leftarrow> (if CHECK_FLAG (mb_flags mbi) 0
             then say (bytes ''mem_lower = %uKB, mem_upper = %uKB'' @ [10])
               [Word (mem_lower mbi), Word (mem_upper mbi)] s
             else Some s);
       s \<leftarrow> (if CHECK_FLAG (mb_flags mbi) 1
             then say (bytes ''boot_device = 0x%#x'' @ [10]) [Word (boot_device mbi)] s
             else Some s);
       if CHECK_FLAG (mb_flags mbi) 2
       then say (bytes ''cmdline = %s'' @ [10]) [Pointer (cmdline mbi)] s
       else Some s
     }"

text \<open>
  \<open>char\<close> is signed, so the byte is sign-extended on its way to \<^verbatim>\<open>%x\<close>. Every module is taken for a
  file system image; the last one stays.
\<close>

definition load_module :: "nat \<Rightarrow> module_info \<Rightarrow> machine \<Rightarrow> machine option" where
  "load_module mod_count m s =
     do {
       s \<leftarrow> say (bytes ''Module %d loaded at address: 0x%#x'' @ [10]) [Word (of_nat mod_count), Word (mod_start m)] s;
       s \<leftarrow> say (bytes ''Module %d ends at address: 0x%#x'' @ [10]) [Word (of_nat mod_count), Word (mod_end m)] s;
       s \<leftarrow> say (bytes ''First few bytes of module:'' @ [10]) [] s;
       s \<leftarrow> for_each [0..<16] (\<lambda>i s. do { c \<leftarrow> rd (mod_bytes m) i; say (bytes ''0x%x '') [Word (scast c)] s }) s;
       s \<leftarrow> say [10] [] s;
       init_filesystem (mod_bytes m) s
     }"

definition load_modules :: "multiboot_info \<Rightarrow> machine \<Rightarrow> machine option" where
  "load_modules mbi s =
     for_each [0..<unat (mods_count mbi)] (\<lambda>i s. do { m \<leftarrow> rd (mods_addr mbi) i; load_module i m s }) s"

definition print_elf :: "elf_section_header_table \<Rightarrow> machine \<Rightarrow> machine option" where
  "print_elf e s =
     say (bytes ''elf_sec: num = %u, size = 0x%#x, addr = 0x%#x, shndx = 0x%#x'' @ [10])
       [Word (elf_num e), Word (elf_size e), Word (elf_addr e), Word (elf_shndx e)] s"

definition print_map_entry :: "memory_map \<Rightarrow> machine \<Rightarrow> machine option" where
  "print_map_entry m s =
     say (bytes ''    size = 0x%x, base_addr = 0x%#x%#x'' @ [10] @ bytes ''    type = 0x%x,  length    = 0x%#x%#x'' @ [10])
       [Word (mmap_size m), Word (base_addr_high m), Word (base_addr_low m),
        Word (mmap_type m), Word (length_high m), Word (length_low m)] s"

text \<open>The walk over the map; the sum is a 32-bit one, so a map with bad sizes can keep it going for ever.\<close>

partial_function (option) map_walk :: "multiboot_info \<Rightarrow> u32 \<Rightarrow> machine \<Rightarrow> machine option" where
  "map_walk mbi mmap s =
     (if mmap < mmap_addr mbi + mmap_length mbi
      then case print_map_entry (mmap_at mbi mmap) s of
             None \<Rightarrow> None
           | Some s \<Rightarrow> map_walk mbi (mmap + mmap_size (mmap_at mbi mmap) + 4) s
      else Some s)"

definition print_memory_map :: "multiboot_info \<Rightarrow> machine \<Rightarrow> machine option" where
  "print_memory_map mbi s =
     do {
       s \<leftarrow> say (bytes ''mmap_addr = 0x%#x, mmap_length = 0x%x'' @ [10]) [Word (mmap_addr mbi), Word (mmap_length mbi)] s;
       map_walk mbi (mmap_addr mbi) s
     }"

text \<open>
  The two descriptors are built in uninitialised locals (\<open>junk\<close>). \<open>ltr\<close> marks the descriptor of the
  task segment busy. The sizes are those of \<^verbatim>\<open>x86_desc.S\<close>: four descriptors and 104 bytes, less one.
\<close>

record table_addresses =
  ldt_addr :: u32
  tss_addr :: u32

definition ldt_size :: u32 where "ldt_size = 31"
definition tss_size :: u32 where "tss_size = 103"

definition load_ldt :: "u32 \<Rightarrow> seg_desc \<Rightarrow> desc_tables \<Rightarrow> desc_tables" where
  "load_ldt addr junk d =
     (let the_ldt_desc = junk\<lparr>sd_granularity := 0, sd_opsize := 1, sd_reserved := 0, sd_avail := 0,
            sd_present := 1, sd_dpl := 0, sd_sys := 0, sd_type := 2\<rparr>;
          the_ldt_desc = SET_LDT_PARAMS addr ldt_size the_ldt_desc
      in d\<lparr>ldt_desc_ptr := the_ldt_desc, ldt_register := KERNEL_LDT\<rparr>)"

definition ltr :: "u16 \<Rightarrow> desc_tables \<Rightarrow> desc_tables" where
  "ltr selector d =
     d\<lparr>task_register := selector,
       tss_desc_ptr := (tss_desc_ptr d)\<lparr>sd_type := sd_type (tss_desc_ptr d) OR 2\<rparr>\<rparr>"

definition load_tss :: "u32 \<Rightarrow> seg_desc \<Rightarrow> desc_tables \<Rightarrow> desc_tables" where
  "load_tss addr junk d =
     (let the_tss_desc = junk\<lparr>sd_granularity := 0, sd_opsize := 0, sd_reserved := 0, sd_avail := 0,
            seg_lim_19_16 := ucast (TSS_SIZE AND 0x000F0000), sd_present := 1, sd_dpl := 0, sd_sys := 0,
            sd_type := 9, seg_lim_15_00 := ucast (TSS_SIZE AND 0x0000FFFF)\<rparr>;
          the_tss_desc = SET_TSS_PARAMS addr tss_size the_tss_desc;
          d = d\<lparr>tss_desc_ptr := the_tss_desc\<rparr>;
          d = d\<lparr>task_state := (task_state d)\<lparr>ldt_segment_selector := KERNEL_LDT, ss0 := KERNEL_DS\<rparr>\<rparr>
      in ltr KERNEL_TSS d)"

text \<open>From the interrupt table to the first shell; \<open>execute\<close> comes back only when it refuses.\<close>

definition init_devices :: "device \<Rightarrow> machine \<Rightarrow> machine" where
  "init_devices hw s =
     (let s = i8259_init s;
          s = keyboard_init s;
          s = snd (rtc_open hw s)
      in init_pit s)"

definition start_shell :: "device \<Rightarrow> interference \<Rightarrow> machine \<Rightarrow> exec_outcome option" where
  "start_shell hw env s =
     do {
       let s = init_devices hw s;
       s \<leftarrow> say (bytes ''Enabling Interrupts'' @ [10]) [] s;
       let s = sti (init_paging s);
       s \<leftarrow> clear s;
       execute env (bytes ''shell'' @ [0]) s
     }"

datatype boot_outcome =
    BootReturns machine
  | BootRuns desc_tables exec_outcome

record boot_context =
  boot_hw :: device
  boot_env :: interference
  boot_linkage :: linkage
  boot_tables :: table_addresses
  ldt_junk :: seg_desc
  tss_junk :: seg_desc

definition entry :: "boot_context \<Rightarrow> u32 \<Rightarrow> multiboot_info \<Rightarrow> desc_tables \<Rightarrow> machine \<Rightarrow> boot_outcome option" where
  "entry b magic mbi d s =
     do {
       s \<leftarrow> clear s;
       if magic \<noteq> MULTIBOOT_BOOTLOADER_MAGIC
       then map_option BootReturns (say (bytes ''Invalid magic number: 0x%#x'' @ [10]) [Word magic] s)
       else do {
         s \<leftarrow> print_boot_info mbi s;
         s \<leftarrow> (if CHECK_FLAG (mb_flags mbi) 3 then load_modules mbi s else Some s);
         if CHECK_FLAG (mb_flags mbi) 4 \<and> CHECK_FLAG (mb_flags mbi) 5
         then map_option BootReturns (say (bytes ''Both bits 4 and 5 are set.'' @ [10]) [] s)
         else do {
           s \<leftarrow> (if CHECK_FLAG (mb_flags mbi) 5 then print_elf (elf_sec mbi) s else Some s);
           s \<leftarrow> (if CHECK_FLAG (mb_flags mbi) 6 then print_memory_map mbi s else Some s);
           let d = load_ldt (ldt_addr (boot_tables b)) (ldt_junk b) d;
           let d = load_tss (tss_addr (boot_tables b)) (tss_junk b) d;
           let s = s\<lparr>tss_esp0 := 0x800000\<rparr>;
           d \<leftarrow> init_interrupts (boot_linkage b) d;
           r \<leftarrow> start_shell (boot_hw b) (boot_env b) s;
           Some (BootRuns d r)
         }
       }
     }"

section \<open>Text output before paging\<close>

text \<open>
  Without paging no store faults, so nothing the kernel prints can stop it; and printing touches only
  memory, the cursor and the log. \<open>rest\<close> is the machine without what printing and the device set-up
  change.
\<close>

definition rest :: "machine \<Rightarrow> machine" where
  "rest s = s\<lparr>frames := (\<lambda>_ _. 0), screen_x := 0, screen_y := 0, io_log := [], int_flag := False,
     terminals := (\<lambda>_. zero_terminal)\<rparr>"

interpretation rest: text_frame rest
  by unfold_locales (simp_all add: rest_def)

lemma rest_sel:
  assumes "rest s' = rest s"
  shows "paging_on s' = paging_on s" "master_mask s' = master_mask s" "slave_mask s' = slave_mask s"
    "directoryArray s' = directoryArray s" "tableArray s' = tableArray s" "vmemTableArray s' = vmemTableArray s"
    "tableArray_addr s' = tableArray_addr s" "vmemTableArray_addr s' = vmemTableArray_addr s"
    "active_terminal s' = active_terminal s" "scheduled_terminal s' = scheduled_terminal s"
    "initialized_terminals s' = initialized_terminals s" "current_pcb s' = current_pcb s" "pcbs s' = pcbs s"
    "fs_image s' = fs_image s" "inode_start s' = inode_start s" "datablock_start s' = datablock_start s"
    "cpu_esp s' = cpu_esp s" "cpu_ebp s' = cpu_ebp s" "tss_esp0 s' = tss_esp0 s"
proof -
  have e: "f (rest s') = f (rest s)" for f :: "machine \<Rightarrow> 'x" using assms by simp
  show "paging_on s' = paging_on s" using e [of paging_on] by (simp add: rest_def)
  show "master_mask s' = master_mask s" using e [of master_mask] by (simp add: rest_def)
  show "slave_mask s' = slave_mask s" using e [of slave_mask] by (simp add: rest_def)
  show "directoryArray s' = directoryArray s" using e [of directoryArray] by (simp add: rest_def)
  show "tableArray s' = tableArray s" using e [of tableArray] by (simp add: rest_def)
  show "vmemTableArray s' = vmemTableArray s" using e [of vmemTableArray] by (simp add: rest_def)
  show "tableArray_addr s' = tableArray_addr s" using e [of tableArray_addr] by (simp add: rest_def)
  show "vmemTableArray_addr s' = vmemTableArray_addr s" using e [of vmemTableArray_addr] by (simp add: rest_def)
  show "active_terminal s' = active_terminal s" using e [of active_terminal] by (simp add: rest_def)
  show "scheduled_terminal s' = scheduled_terminal s" using e [of scheduled_terminal] by (simp add: rest_def)
  show "initialized_terminals s' = initialized_terminals s" using e [of initialized_terminals] by (simp add: rest_def)
  show "current_pcb s' = current_pcb s" using e [of current_pcb] by (simp add: rest_def)
  show "pcbs s' = pcbs s" using e [of pcbs] by (simp add: rest_def)
  show "fs_image s' = fs_image s" using e [of fs_image] by (simp add: rest_def)
  show "inode_start s' = inode_start s" using e [of inode_start] by (simp add: rest_def)
  show "datablock_start s' = datablock_start s" using e [of datablock_start] by (simp add: rest_def)
  show "cpu_esp s' = cpu_esp s" using e [of cpu_esp] by (simp add: rest_def)
  show "cpu_ebp s' = cpu_ebp s" using e [of cpu_ebp] by (simp add: rest_def)
  show "tss_esp0 s' = tss_esp0 s" using e [of tss_esp0] by (simp add: rest_def)
qed

text \<open>\<open>quiet f\<close>: without paging, \<open>f\<close> goes through and keeps the rest.\<close>

definition quiet :: "(machine \<Rightarrow> machine option) \<Rightarrow> bool" where
  "quiet f \<longleftrightarrow> (\<forall>s. \<not> paging_on s \<longrightarrow> (\<exists>s'. f s = Some s' \<and> rest s' = rest s))"

lemma quietI: "(\<And>s. \<not> paging_on s \<Longrightarrow> \<exists>s'. f s = Some s' \<and> rest s' = rest s) \<Longrightarrow> quiet f"
  by (simp add: quiet_def)

lemma quietD: "quiet f \<Longrightarrow> \<not> paging_on s \<Longrightarrow> \<exists>s'. f s = Some s' \<and> rest s' = rest s \<and> \<not> paging_on s'"
  unfolding quiet_def using rest_sel(1) by metis

lemma quiet_Some [simp]: "quiet Some"
  by (simp add: quiet_def)

lemma quiet_kstore: "quiet (kstore a v)"
  by (intro quietI) (simp add: kstore_def mmu_walk_def rest_def)

lemma quiet_bind: "quiet f \<Longrightarrow> quiet g \<Longrightarrow> quiet (\<lambda>s. f s \<bind> g)"
proof (intro quietI)
  fix s :: machine assume q: "quiet f" "quiet g" "\<not> paging_on s"
  obtain s1 where s1: "f s = Some s1" "rest s1 = rest s" "\<not> paging_on s1" using quietD [OF q(1,3)] by blast
  obtain s2 where "g s1 = Some s2" "rest s2 = rest s1" using quietD [OF q(2) s1(3)] by blast
  then show "\<exists>s'. f s \<bind> g = Some s' \<and> rest s' = rest s" using s1 by simp
qed

lemma quiet_if: "quiet f \<Longrightarrow> quiet g \<Longrightarrow> quiet (\<lambda>s. if b then f s else g s)"
  by (cases b) simp_all

lemma quiet_map: "(\<And>s. rest (f s) = rest s) \<Longrightarrow> quiet (\<lambda>s. Some (f s))"
  by (simp add: quiet_def)

lemma quiet_for_each: "(\<And>x. x \<in> set xs \<Longrightarrow> quiet (f x)) \<Longrightarrow> quiet (for_each xs f)"
proof (induction xs)
  case (Cons x xs)
  have e: "for_each (x # xs) f = (\<lambda>s. f x s \<bind> for_each xs f)"
    by (auto simp: fun_eq_iff split: option.split)
  show ?case unfolding e using Cons by (intro quiet_bind) simp_all
qed (simp add: quiet_def)

lemma quiet_putc: "quiet (putc c)"
proof (intro quietI)
  fix s :: machine assume p: "\<not> paging_on s"
  let ?p = "VIDEO + of_int (2 * (NUM_COLS * screen_y s + screen_x s)) :: u32"
  have "\<exists>s'. putc c s = Some s'"
  proof (cases "c = 10 \<or> c = 13")
    case False
    obtain s1 where "kstore ?p c s = Some s1" "\<not> paging_on s1" using quietD [OF quiet_kstore p] by blast
    moreover obtain s2 where "kstore (?p + 1) ATTRIB s1 = Some s2"
      using quietD [OF quiet_kstore calculation(2)] by blast
    ultimately show ?thesis using False by (simp add: putc_def Let_def del: of_int_mult of_int_add)
  qed (simp add: putc_def)
  then show "\<exists>s'. putc c s = Some s' \<and> rest s' = rest s" using rest.proj_putc by blast
qed

lemma quiet_clear: "quiet clear"
proof -
  have "quiet (for_each [0..<2000] (\<lambda>i s. do { s \<leftarrow> kstore (VIDEO + of_nat (2 * i)) SPACE_ASCII s;
                   kstore (VIDEO + of_nat (2 * i + 1)) ATTRIB s }))"
    by (intro quiet_for_each quiet_bind quiet_kstore)
  then show ?thesis unfolding clear_def [abs_def] .
qed

definition prints :: "u8 list \<Rightarrow> vararg list \<Rightarrow> bool" where
  "prints fmt args \<longleftrightarrow> render (fmt @ [0]) args \<noteq> None"

lemma quiet_say: "prints fmt args \<Longrightarrow> quiet (say fmt args)"
proof (intro quietI)
  fix s :: machine assume a: "prints fmt args" "\<not> paging_on s"
  then obtain out left where r: "render (fmt @ [0]) args = Some (out, left)" by (auto simp: prints_def)
  have "quiet (for_each out putc)" by (intro quiet_for_each quiet_putc)
  then obtain s' where "for_each out putc s = Some s'" "rest s' = rest s" using quietD a(2) by blast
  then show "\<exists>s'. say fmt args s = Some s' \<and> rest s' = rest s" by (simp add: say_def printf_render r)
qed

text \<open>Whether a format prints: characters outside conversions do, and each conversion finds its argument.\<close>

lemma prints_Nil [simp]: "prints [] args"
  by (simp add: prints_def render.simps [of "_ # _"])

lemma prints_conv:
  "prints (37 # 35 # 120 # fmt) (Word w # args) = prints fmt args"
  "prints (37 # 120 # fmt) (Word w # args) = prints fmt args"
  "prints (37 # 117 # fmt) (Word w # args) = prints fmt args"
  "prints (37 # 100 # fmt) (Word w # args) = prints fmt args"
  "terminated p \<Longrightarrow> prints (37 # 115 # fmt) (Pointer p # args) = prints fmt args"
  by (auto simp: prints_def render.simps [of "_ # _"] split: option.split)

lemma prints_plain: "c \<noteq> 37 \<Longrightarrow> c \<noteq> 0 \<Longrightarrow> prints (c # fmt) args = prints fmt args"
  by (auto simp: prints_def render.simps [of "_ # _"] split: option.split)

lemmas prints_simps = prints_conv prints_plain

lemma boot_formats:
  "prints (bytes ''flags = 0x%#x'' @ [10]) [Word a]"
  "prints (bytes ''mem_lower = %uKB, mem_upper = %uKB'' @ [10]) [Word a, Word b]"
  "prints (bytes ''boot_device = 0x%#x'' @ [10]) [Word a]"
  "terminated p \<Longrightarrow> prints (bytes ''cmdline = %s'' @ [10]) [Pointer p]"
  "prints (bytes ''Module %d loaded at address: 0x%#x'' @ [10]) [Word a, Word b]"
  "prints (bytes ''Module %d ends at address: 0x%#x'' @ [10]) [Word a, Word b]"
  "prints (bytes ''First few bytes of module:'' @ [10]) []"
  "prints (bytes ''0x%x '') [Word a]"
  "prints [10] []"
  "prints (bytes ''elf_sec: num = %u, size = 0x%#x, addr = 0x%#x, shndx = 0x%#x'' @ [10]) [Word a, Word b, Word c, Word d]"
  "prints (bytes ''    size = 0x%x, base_addr = 0x%#x%#x'' @ [10] @ bytes ''    type = 0x%x,  length    = 0x%#x%#x'' @ [10])
     [Word a, Word b, Word c, Word d, Word e, Word f]"
  "prints (bytes ''mmap_addr = 0x%#x, mmap_length = 0x%x'' @ [10]) [Word a, Word b]"
  "prints (bytes ''Enabling Interrupts'' @ [10]) []"
  "prints (bytes ''Invalid magic number: 0x%#x'' @ [10]) [Word a]"
  "prints (bytes ''Both bits 4 and 5 are set.'' @ [10]) []"
  by (simp_all add: prints_simps)

section \<open>The stages of entry\<close>

lemma quiet_boot_info:
  assumes "CHECK_FLAG (mb_flags mbi) 2 \<Longrightarrow> terminated (cmdline mbi)"
  shows "quiet (print_boot_info mbi)"
proof (cases "CHECK_FLAG (mb_flags mbi) 2")
  case True
  show ?thesis
    unfolding print_boot_info_def [abs_def]
    by (intro quiet_bind quiet_if quiet_say boot_formats quiet_Some) (rule assms [OF True])
next
  case False
  then have c: "(CHECK_FLAG (mb_flags mbi) 2) = False" by simp
  show ?thesis
    unfolding print_boot_info_def [abs_def] c if_False
    by (intro quiet_bind quiet_if quiet_say boot_formats quiet_Some)
qed

lemma quiet_elf: "quiet (print_elf e)"
  unfolding print_elf_def [abs_def] by (intro quiet_say boot_formats)

lemma quiet_map_entry: "quiet (print_map_entry m)"
  unfolding print_map_entry_def [abs_def] by (intro quiet_say boot_formats)

text \<open>The walk ends when some number of steps leads past the end of the map.\<close>

fun map_ends :: "multiboot_info \<Rightarrow> nat \<Rightarrow> u32 \<Rightarrow> bool" where
  "map_ends mbi 0 a \<longleftrightarrow> mmap_addr mbi + mmap_length mbi \<le> a"
| "map_ends mbi (Suc n) a \<longleftrightarrow>
     mmap_addr mbi + mmap_length mbi \<le> a \<or> map_ends mbi n (a + mmap_size (mmap_at mbi a) + 4)"

lemma quiet_map_walk: "map_ends mbi n a \<Longrightarrow> quiet (map_walk mbi a)"
proof (induction n arbitrary: a)
  case 0
  then have "\<not> a < mmap_addr mbi + mmap_length mbi" by (simp add: not_less)
  then show ?case by (intro quietI) (subst map_walk.simps, simp)
next
  case (Suc n)
  show ?case
  proof (cases "a < mmap_addr mbi + mmap_length mbi")
    case True
    then have "quiet (map_walk mbi (a + mmap_size (mmap_at mbi a) + 4))"
      using Suc.prems by (intro Suc.IH) auto
    then have q: "quiet (\<lambda>s. print_map_entry (mmap_at mbi a) s \<bind> map_walk mbi (a + mmap_size (mmap_at mbi a) + 4))"
      by (intro quiet_bind quiet_map_entry)
    have e: "map_walk mbi a = (\<lambda>s. print_map_entry (mmap_at mbi a) s \<bind> map_walk mbi (a + mmap_size (mmap_at mbi a) + 4))"
      using True by (intro ext, subst map_walk.simps) (simp split: option.split Option.bind_split)
    show ?thesis unfolding e by (rule q)
  next
    case False
    then show ?thesis by (intro quietI) (subst map_walk.simps, simp)
  qed
qed

text \<open>And otherwise it does not end: the machine never comes out of the loop.\<close>

lemma map_walk_ends: "map_walk mbi a s = Some s' \<Longrightarrow> \<exists>n. map_ends mbi n a"
proof (induction rule: map_walk.raw_induct [rotated, consumes 1])
  case (1 walk mbi a s s')
  show ?case
  proof (cases "a < mmap_addr mbi + mmap_length mbi")
    case True
    then obtain s1 where "walk mbi (a + mmap_size (mmap_at mbi a) + 4) s1 = Some s'"
      using 1(2) by (auto split: option.splits)
    then obtain n where "map_ends mbi n (a + mmap_size (mmap_at mbi a) + 4)" using 1(1) by blast
    then have "map_ends mbi (Suc n) a" by simp
    then show ?thesis ..
  next
    case False
    then have "map_ends mbi 0 a" by simp
    then show ?thesis ..
  qed
qed

lemma quiet_memory_map: "map_ends mbi n (mmap_addr mbi) \<Longrightarrow> quiet (print_memory_map mbi)"
  unfolding print_memory_map_def [abs_def] by (intro quiet_bind quiet_say boot_formats quiet_map_walk)

text \<open>Loading one module: the text, then the pointers into its image.\<close>

definition module_text :: "nat \<Rightarrow> module_info \<Rightarrow> machine \<Rightarrow> machine option" where
  "module_text mod_count m s =
     do {
       s \<leftarrow> say (bytes ''Module %d loaded at address: 0x%#x'' @ [10]) [Word (of_nat mod_count), Word (mod_start m)] s;
       s \<leftarrow> say (bytes ''Module %d ends at address: 0x%#x'' @ [10]) [Word (of_nat mod_count), Word (mod_end m)] s;
       s \<leftarrow> say (bytes ''First few bytes of module:'' @ [10]) [] s;
       s \<leftarrow> for_each [0..<16] (\<lambda>i s. do { c \<leftarrow> rd (mod_bytes m) i; say (bytes ''0x%x '') [Word (scast c)] s }) s;
       say [10] [] s
     }"

lemma quiet_module_text:
  assumes "16 \<le> length (mod_bytes m)" shows "quiet (module_text k m)"
proof -
  have "quiet (\<lambda>s. do { c \<leftarrow> rd (mod_bytes m) i; say (bytes ''0x%x '') [Word (scast c)] s })" if "i \<in> set [0..<16]" for i
  proof -
    have "i < length (mod_bytes m)" using that assms by simp
    then obtain c where "rd (mod_bytes m) i = Some c" using rd_total by blast
    then show ?thesis using quiet_say [OF boot_formats(8)] by simp
  qed
  then have q: "quiet (for_each [0..<16] (\<lambda>i s. do { c \<leftarrow> rd (mod_bytes m) i; say (bytes ''0x%x '') [Word (scast c)] s }))"
    by (rule quiet_for_each)
  show ?thesis unfolding module_text_def [abs_def] by (intro quiet_bind quiet_say boot_formats q)
qed

definition with_image :: "u8 list \<Rightarrow> nat \<Rightarrow> machine \<Rightarrow> machine" where
  "with_image img n s = s\<lparr>fs_image := img, inode_start := 4096, datablock_start := n\<rparr>"

lemma init_filesystem_with:
  "init_filesystem img s = Some t \<Longrightarrow>
     t = with_image img (datablock_start t) s \<and>
     init_filesystem img s' = Some (with_image img (datablock_start t) s')"
proof -
  assume "init_filesystem img s = Some t"
  moreover have "numInodes (s\<lparr>fs_image := img, inode_start := 4096\<rparr>) = numInodes (s'\<lparr>fs_image := img, inode_start := 4096\<rparr>)"
    by (simp add: numInodes_def img_bytes_def img_u32_def)
  ultimately show ?thesis
    by (auto simp: init_filesystem_def with_image_def bind_eq_Some_conv)
qed

end
