(* ===== verification/BootFacts.thy ===== *)
theory BootFacts
  imports Boot
begin

text \<open>
  Booting, proved: the device set-up, the first \<open>execute\<close>, the descriptors, \<open>entry\<close> as a whole, and
  what holds in every state that can follow.
\<close>

section \<open>Devices and the first shell\<close>

definition boot_part ::
  "machine \<Rightarrow> bool \<times> u32 \<times> u32 \<times> (u32 \<Rightarrow> pcb) \<times> u8 \<times> u8 \<times> (u8 \<Rightarrow> u8) \<times> u8 list \<times> nat \<times> nat" where
  "boot_part s = (paging_on s, tableArray_addr s, vmemTableArray_addr s, pcbs s, active_terminal s,
     scheduled_terminal s, initialized_terminals s, fs_image s, inode_start s, datablock_start s)"

interpretation boot_part: text_frame boot_part
  by unfold_locales (simp_all add: boot_part_def)

lemma boot_part_irq: "boot_part (enable_irq n s) = boot_part s"
  by (simp add: enable_irq_def Let_def) (simp add: boot_part_def)

lemma boot_part_i8259: "boot_part (i8259_init s) = boot_part s"
proof -
  have "boot_part (i8259_init s) = boot_part (enable_irq SLAVE_PORT s)"
    by (simp add: i8259_init_def Let_def boot_part_irq boot_part.proj_int_flag)
  then show ?thesis by (simp add: boot_part_irq)
qed

lemma boot_part_keyboard: "boot_part (keyboard_init s) = boot_part s"
  by (simp add: keyboard_init_def Let_def boot_part_irq) (simp add: boot_part_def)

lemma boot_part_rtc: "boot_part (snd (rtc_open hw s)) = boot_part s"
  by (simp add: rtc_open_def rtc_init_def rtc_ack_def Let_def inb_def boot_part_irq boot_part.proj_fields)

lemma init_devices_frame: "boot_part (init_devices hw s) = boot_part s"
  by (simp add: init_devices_def init_pit_def Let_def boot_part_irq boot_part_i8259 boot_part_keyboard boot_part_rtc)

lemma enabled_lines_keyboard: "enabled_lines (keyboard_init s) = insert 1 (enabled_lines s)"
proof -
  have "enabled_lines (keyboard_init s) = enabled_lines (enable_irq 1 s)"
    by (simp add: enabled_lines_def irq_enabled_def keyboard_init_def enable_irq_def Let_def
        effect_defs pic_consts KEYBOARD_IRQ_def)
  then show ?thesis by (simp add: pic.lines_enable)
qed

lemma enabled_lines_rtc: "enabled_lines (snd (rtc_open hw s)) = insert 8 (enabled_lines s)"
proof -
  have "enabled_lines (snd (rtc_open hw s)) = enabled_lines (enable_irq 8 s)"
    by (simp add: enabled_lines_def irq_enabled_def rtc_open_def rtc_init_def rtc_ack_def enable_irq_def Let_def
        effect_defs pic_consts rtc_consts)
  then show ?thesis by (simp add: pic.lines_enable)
qed

lemma enabled_lines_devices: "enabled_lines (init_devices hw s) = {0, 1, 2, 8} \<union> enabled_lines s"
  unfolding init_devices_def Let_def enabled_lines_init_pit enabled_lines_rtc enabled_lines_keyboard enabled_lines_i8259_init
  by auto

lemma enabled_lines_cong:
  "master_mask s' = master_mask s \<Longrightarrow> slave_mask s' = slave_mask s \<Longrightarrow> enabled_lines s' = enabled_lines s"
  by (simp add: enabled_lines_def irq_enabled_def)

text \<open>What the first \<open>execute\<close> needs: nothing has run yet.\<close>

definition fresh :: "machine \<Rightarrow> bool" where
  "fresh s \<longleftrightarrow> tables_linked s \<and> active_terminal s = 0 \<and> scheduled_terminal s = 0 \<and>
     initialized_terminals s = (\<lambda>_. 0) \<and>
     (\<forall>a. 0 \<le> process_id (pcbs s a) \<and> process_id (pcbs s a) < 6) \<and>
     128 \<le> length (arg (pcbs s (get_pcb_ptr 0)))"

lemma fresh_cong:
  assumes "tableArray_addr s' = tableArray_addr s" "vmemTableArray_addr s' = vmemTableArray_addr s"
    "active_terminal s' = active_terminal s" "scheduled_terminal s' = scheduled_terminal s"
    "initialized_terminals s' = initialized_terminals s" "pcbs s' = pcbs s"
  shows "fresh s' = fresh s"
  using assms by (simp add: fresh_def tables_linked_def)

text \<open>The image has a program called \<open>shell\<close>.\<close>

definition has_shell :: "machine \<Rightarrow> dentry \<Rightarrow> bool" where
  "has_shell s d \<longleftrightarrow> fs_wf s \<and> find_file s (bytes ''shell'') = Some d \<and>
     (\<exists>m. numInodes s = Some m \<and> inodeNumber d < m) \<and> program_file s (inodeNumber d)"

lemma has_shell_cong:
  assumes "fs_image s' = fs_image s" "inode_start s' = inode_start s" "datablock_start s' = datablock_start s"
  shows "has_shell s' d = has_shell s d" "file_content s' n = file_content s n" "entry_point s' n = entry_point s n"
  using fs_upd [OF assms] by (simp_all add: has_shell_def find_file_def program_file_def entry_point_def)

lemma shell_command:
  "terminated (bytes ''shell'' @ [0])" "bytes ''shell'' = cstr (bytes ''shell'' @ [0])"
  "length (bytes ''shell'') \<le> 128" "cmd_name (bytes ''shell'') = bytes ''shell''" "length (bytes ''shell'') < 32"
  "cmd_args (bytes ''shell'') = []"
  by (simp_all add: cmd_name_def cmd_args_def)

lemma execute_first_shell:
  assumes "paging_wf s" "fresh s" "has_shell s d"
  shows "\<exists>s1. stored 0x48000 (file_content s (inodeNumber d)) (map_program 0 s) s1 \<and>
    (\<forall>env. execute env (bytes ''shell'' @ [0]) s = Some (ExecUser (entry_point s (inodeNumber d))
      ((installed 0 (new_args (bytes ''shell'')) s1)\<lparr>initialized_terminals := (\<lambda>_. 0)(0 := 1)\<rparr>)))"
proof -
  define sh where "sh = bytes ''shell''"
  have cmd: "terminated (sh @ [0])" "sh = cstr (sh @ [0])" "length sh \<le> 128" "cmd_name sh = sh" "length sh < 32"
    "cmd_args sh = []" "sh \<noteq> []"
    using shell_command unfolding sh_def by - (assumption | simp)+
  obtain m where m: "numInodes s = Some m" "inodeNumber d < m" using assms(3) by (auto simp: has_shell_def)
  have h: "fs_wf s" "find_file s sh = Some d" "program_file s (inodeNumber d)"
    using assms(3) by (simp_all only: has_shell_def sh_def)
  have f: "active_terminal s = 0" "scheduled_terminal s = 0" "initialized_terminals s = (\<lambda>_. 0)"
    "128 \<le> length (arg (pcbs s (get_pcb_ptr (int 0))))"
    using assms(2) by (simp_all add: fresh_def)
  have c: "chosen_pid s = of_nat 0" using f by (simp add: chosen_pid_def)
  define pa where "pa = padded 128 (cmd_args sh)"
  have a: "terminated pa" "cstr pa = []"
    unfolding pa_def cmd(6) by (simp_all add: padded_terminated padded_cstr)
  have l: "True \<longrightarrow> terminated pa \<and> length (cstr pa) < length (arg (pcbs s (get_pcb_ptr (int 0))))"
    using a f(4) by auto
  have z: "(0 :: nat) < 6" "length (file_content s (inodeNumber d)) \<le> 0x3B8000" using h(3) by (simp_all add: program_file_def)
  obtain s1 where s1: "stored 0x48000 (file_content s (inodeNumber d)) (map_program (int 0) s) s1"
    "exec_setup (of_nat 0) (inodeNumber d) pa True s = Some (installed 0 (Some pa) s1)"
    using exec_setup_eq [OF assms(1) h(1) m z l] unfolding if_True by blast
  have n: "new_args sh = Some pa"
    unfolding pa_def new_args_def cmd(4) using cmd(7) by simp
  let ?t = "installed 0 (new_args sh) s1"
  have i: "initialized_terminals ?t = (\<lambda>_. 0)" "active_terminal ?t = 0" "scheduled_terminal ?t = 0"
    using stored_fields [OF s1(1)] f by (simp_all add: installed_sel map_program_same)
  have "execute env (sh @ [0]) s =
      exec_wait env (entry_point s (inodeNumber d)) (?t\<lparr>initialized_terminals := (\<lambda>_. 0)(0 := 1)\<rparr>)"
    for env
    using execute_eq [OF h(1) cmd(1-3), unfolded cmd(4), OF cmd(5) m(1) _ refl, of env]
      h(2) m(2) s1(2) c i cmd(7)
    by (simp add: program_header(1) [OF h(3)] entry_point_header [OF h(3)] n pa_def)
  moreover have "exec_wait env e (?t\<lparr>initialized_terminals := x\<rparr>) = Some (ExecUser e (?t\<lparr>initialized_terminals := x\<rparr>))"
    for env e x
    using i by (cases env) simp_all
  ultimately show ?thesis using s1(1) unfolding sh_def by auto
qed

text \<open>The state in which user code starts, as far as the boot code decides it.\<close>

definition shell_running :: "machine \<Rightarrow> dentry \<Rightarrow> machine \<Rightarrow> bool" where
  "shell_running s d s' \<longleftrightarrow>
     confined s' \<and> int_flag s' \<and> enabled_lines s' = {0, 1, 2, 8} \<union> enabled_lines s \<and>
     current_pcb s' = get_pcb_ptr 0 \<and> program_frame s' = get_phys_addr 0 \<and> tss_esp0 s' = 0x7FFFFC \<and>
     active_terminal s' = 0 \<and> initialized_terminals s' = (\<lambda>_. 0)(0 := 1) \<and>
     parent_process_id (cur s') = -1 \<and> fd_array (cur s') = replicate 2 (stdio_fd zero_fd) @ replicate 6 zero_fd \<and>
     (\<forall>i < length (file_content s (inodeNumber d)). umem s' (0x48000 + i) = file_content s (inodeNumber d) ! i) \<and>
     (\<forall>k < 4000. frames s' 0xB8 k = (if even k then 0x20 else 0x07))"

lemma fresh_confined:
  assumes "paging_wf s" "program_frame s = 0x800" "video_frame s = 0xB8" "fresh s"
  shows "confined s"
  using assms get_phys_addr_nat [of 0] unfolding confined_def fresh_def by (intro conjI exI [of _ 0]) auto

lemma screen_not_user: "\<forall>j < 0x400000. 0xB8 \<noteq> user_frame (map_program 0 s) j"
proof (intro allI impI)
  fix j :: nat assume j: "j < 0x400000"
  have "user_frame (map_program 0 s) j = (get_phys_addr (int 0) AND 0xFFC00) OR ucast (of_nat (j div 4096) :: 10 word)"
    using j by (simp add: user_frame_def unsigned_of_nat take_bit_nat_eq_self)
  then have "0x800 \<le> unat (user_frame (map_program 0 s) j)"
    using phys_addr_or [of 0 "of_nat (j div 4096)"] by simp
  then show "0xB8 \<noteq> user_frame (map_program 0 s) j" by auto
qed

text \<open>Up to the first \<^verbatim>\<open>execute\<close>: the machine has its devices, paging, interrupts and an empty screen.\<close>

lemma screen_cleared:
  assumes "\<not> paging_on s" "fresh s"
  shows "\<exists>s4. (\<forall>env. start_shell hw env s = execute env (bytes ''shell'' @ [0]) s4) \<and>
    paging_wf s4 \<and> program_frame s4 = 0x800 \<and> video_frame s4 = 0xB8 \<and> fresh s4 \<and> int_flag s4 \<and>
    fs_image s4 = fs_image s \<and> inode_start s4 = inode_start s \<and> datablock_start s4 = datablock_start s \<and>
    enabled_lines s4 = {0, 1, 2, 8} \<union> enabled_lines s \<and>
    (\<forall>k < 4000. frames s4 0xB8 k = (if even k then 0x20 else 0x07))"
proof -
  let ?s1 = "init_devices hw s"
  note b1 = init_devices_frame [of hw s, unfolded boot_part_def prod.inject]
  have "quiet (say (bytes ''Enabling Interrupts'' @ [10]) [])" by (intro quiet_say boot_formats)
  then obtain s2 where s2: "say (bytes ''Enabling Interrupts'' @ [10]) [] ?s1 = Some s2" "rest s2 = rest ?s1"
    using quietD [of _ ?s1] b1 assms(1) by blast
  note r2 = rest_sel [OF s2(2)]
  define s3 where "s3 = sti (init_paging s2)"
  have e3: "pcbs s3 = pcbs s2" "active_terminal s3 = active_terminal s2" "scheduled_terminal s3 = scheduled_terminal s2"
    "initialized_terminals s3 = initialized_terminals s2" "fs_image s3 = fs_image s2" "inode_start s3 = inode_start s2"
    "datablock_start s3 = datablock_start s2" "tableArray_addr s3 = tableArray_addr s2"
    "vmemTableArray_addr s3 = vmemTableArray_addr s2" "master_mask s3 = master_mask s2" "slave_mask s3 = slave_mask s2" "int_flag s3"
    by (simp_all add: s3_def sti_def init_paging_def Let_def)
  have f: "fresh s2 = fresh s" using b1 r2 by (intro fresh_cong) simp_all
  then have "tables_linked s2" using assms(2) by (simp add: fresh_def)
  moreover have "paging_wf s3 = paging_wf (init_paging s2)" "program_frame s3 = program_frame (init_paging s2)"
    "video_frame s3 = video_frame (init_paging s2)"
    by (simp_all add: s3_def sti_def paging_wf_def tables_linked_def program_frame_def video_frame_def)
  ultimately have w3: "paging_wf s3" "program_frame s3 = 0x800" "video_frame s3 = 0xB8"
    using init_paging_wf [of s2] by simp_all
  define s4 where "s4 = with_page (clear_page (vpage s3)) s3"
  have c: "clear s3 = Some s4" by (simp add: s4_def clear_eq [OF w3(1)])
  have e4: "pcbs s4 = pcbs s3" "active_terminal s4 = active_terminal s3" "scheduled_terminal s4 = scheduled_terminal s3"
    "initialized_terminals s4 = initialized_terminals s3" "fs_image s4 = fs_image s3" "inode_start s4 = inode_start s3"
    "datablock_start s4 = datablock_start s3" "tableArray_addr s4 = tableArray_addr s3"
    "vmemTableArray_addr s4 = vmemTableArray_addr s3" "master_mask s4 = master_mask s3" "slave_mask s4 = slave_mask s3"
    "int_flag s4 = int_flag s3" "program_frame s4 = program_frame s3" "frames s4 0xB8 = clear_page (vpage s3)"
    using w3(3) by (simp_all add: s4_def with_page_def program_frame_def)
  have "start_shell hw env s = execute env (bytes ''shell'' @ [0]) s4" for env
    unfolding start_shell_def Let_def s2(1) s3_def [symmetric] bind.bind_lunit c ..
  moreover have "paging_wf s4" "video_frame s4 = 0xB8" using w3 by (simp_all add: s4_def)
  moreover have "program_frame s4 = 0x800" using w3(2) e4(13) by simp
  moreover have "fresh s4" using f assms(2) e3 e4 fresh_cong [of s4 s2] by simp
  moreover have "fs_image s4 = fs_image s" "inode_start s4 = inode_start s" "datablock_start s4 = datablock_start s" "int_flag s4"
    using e3 e4 r2 b1 by simp_all
  moreover have "enabled_lines s4 = enabled_lines ?s1"
    using e4(10,11) e3(10,11) r2(2,3) by (intro enabled_lines_cong) simp_all
  ultimately show ?thesis
    by (intro exI [of _ s4]) (simp add: enabled_lines_devices e4(14) clear_page_def SPACE_ASCII_def ATTRIB_def)
qed

lemma start_shell_runs:
  assumes "\<not> paging_on s" "fresh s" "has_shell s d"
  shows "\<exists>s'. start_shell hw env s = Some (ExecUser (entry_point s (inodeNumber d)) s') \<and> shell_running s d s'"
proof -
  define sh where "sh = bytes ''shell'' @ [0]"
  define a where "a = new_args (bytes ''shell'')"
  obtain s4 where s4: "\<forall>env. start_shell hw env s = execute env sh s4" "paging_wf s4" "program_frame s4 = 0x800"
    "video_frame s4 = 0xB8" "fresh s4" "int_flag s4" "enabled_lines s4 = {0, 1, 2, 8} \<union> enabled_lines s"
    "\<forall>k < 4000. frames s4 0xB8 k = (if even k then 0x20 else 0x07)"
    and i4: "fs_image s4 = fs_image s" "inode_start s4 = inode_start s" "datablock_start s4 = datablock_start s"
    using screen_cleared [OF assms(1,2), of hw] unfolding sh_def by blast
  note hs = has_shell_cong [OF i4]
  obtain s5 where s5: "stored 0x48000 (file_content s4 (inodeNumber d)) (map_program 0 s4) s5"
    "\<forall>env. execute env sh s4 = Some (ExecUser (entry_point s4 (inodeNumber d))
      ((installed 0 a s5)\<lparr>initialized_terminals := (\<lambda>_. 0)(0 := 1)\<rparr>))"
    using execute_first_shell [OF s4(2,5), of d] hs(1) assms(3) unfolding sh_def a_def by blast
  define t where "t = (installed 0 a s5)\<lparr>initialized_terminals := (\<lambda>_. 0)(0 := 1)\<rparr>"
  have s6: "execute env sh s4 = Some (ExecUser (entry_point s4 (inodeNumber d)) t)" for env
    using s5(2) by (simp add: t_def)
  note g = stored_fields [OF s5(1)]
  have "start_shell hw env s = Some (ExecUser (entry_point s (inodeNumber d)) t)" using s4(1) s6 hs(3) by simp
  moreover have "shell_running s d t"
    unfolding shell_running_def
  proof (intro conjI allI impI)
    have t: "current_pcb t = get_pcb_ptr 0" "program_frame t = program_frame s5" "frames t = frames s5" "active_terminal t = 0"
      "initialized_terminals t = (\<lambda>_. 0)(0 := 1)" "tss_esp0 t = 0x7FFFFC" "pcbs t = pcbs (installed 0 a s5)"
      "master_mask t = master_mask s5" "slave_mask t = slave_mask s5" "int_flag t = int_flag s5"
      by (simp_all add: t_def installed_sel) (simp_all add: installed_def reserve_shells_def Let_def upd_term_def program_frame_def)
    have m: "s5 = (map_program 0 s4)\<lparr>frames := frames s5\<rparr>" using s5(1) by (simp add: stored_def)
    have m5: "master_mask s5 = master_mask s4" "slave_mask s5 = slave_mask s4" "int_flag s5 = int_flag s4"
      by (subst m, simp add: map_program_def)+
    have "confined s4" using s4(2-5) by (intro fresh_confined)
    then show "confined t" using execute_confined [OF s6 [of "[]"]] by (simp add: keeps_def)
    show "int_flag t" using t(10) m5(3) s4(6) by simp
    have "enabled_lines t = enabled_lines s4" using t(8,9) m5 by (intro enabled_lines_cong) simp_all
    then show "enabled_lines t = {0, 1, 2, 8} \<union> enabled_lines s" using s4(7) by simp
    show "current_pcb t = get_pcb_ptr 0" "active_terminal t = 0" "initialized_terminals t = (\<lambda>_. 0)(0 := 1)"
      "tss_esp0 t = 0x7FFFFC" using t by blast+
    show "program_frame t = get_phys_addr 0" using t(2) g(4) by simp
    have "cur t = exec_pcb 0 (-1) a s5"
      using installed_pcb(1) [of 0 a s5] t(1,7) by (simp add: parent_of_def)
    then show "parent_process_id (cur t) = -1" "fd_array (cur t) = replicate 2 (stdio_fd zero_fd) @ replicate 6 zero_fd"
      by (simp_all add: exec_pcb_def)
    have "umem t j = umem s5 j" for j using t(2,3) by (simp add: umem_def user_frame_def)
    moreover have "length (file_content s (inodeNumber d)) \<le> 0x3B8000"
      using assms(3) by (simp add: has_shell_def program_file_def)
    ultimately show "umem t (0x48000 + i) = file_content s (inodeNumber d) ! i" if "i < length (file_content s (inodeNumber d))" for i
      using s5(1) that by (simp add: stored_def hs(2))
    have "frames s5 0xB8 = frames (map_program 0 s4) 0xB8" using s5(1) screen_not_user unfolding stored_def by blast
    then show "frames t 0xB8 k = (if even k then 0x20 else 0x07)" if "k < 4000" for k
      using t(3) s4(8) that by simp
  qed
  ultimately show ?thesis by blast
qed

section \<open>The descriptors\<close>

lemma seg_type_free:
  "cpu_seg_base (seg_val (x\<lparr>sd_type := y\<rparr>)) = cpu_seg_base (seg_val x)"
  "cpu_seg_limit (seg_val (x\<lparr>sd_type := y\<rparr>)) = cpu_seg_limit (seg_val x)"
proof -
  show "cpu_seg_base (seg_val (x\<lparr>sd_type := y\<rparr>)) = cpu_seg_base (seg_val x)"
  proof (rule bit_word_eqI)
    fix n assume n: "n < LENGTH(32)"
    then consider "n < 16" | "16 \<le> n" "n < 24" | "24 \<le> n" "n < 32" by fastforce
    then show "bit (cpu_seg_base (seg_val (x\<lparr>sd_type := y\<rparr>))) n = bit (cpu_seg_base (seg_val x)) n"
      by cases (auto simp: cpu_seg_base_def field_bits seg_bits mask_numerals)
  qed
  show "cpu_seg_limit (seg_val (x\<lparr>sd_type := y\<rparr>)) = cpu_seg_limit (seg_val x)"
  proof (rule bit_word_eqI)
    fix n assume n: "n < LENGTH(32)"
    then consider "n < 16" | "16 \<le> n" "n < 20" | "20 \<le> n" "n < 32" by fastforce
    then show "bit (cpu_seg_limit (seg_val (x\<lparr>sd_type := y\<rparr>))) n = bit (cpu_seg_limit (seg_val x)) n"
      by cases (auto simp: cpu_seg_limit_def field_bits seg_bits mask_numerals)
  qed
qed

definition tables_loaded :: "boot_context \<Rightarrow> desc_tables \<Rightarrow> bool" where
  "tables_loaded b d \<longleftrightarrow>
     cpu_seg_base (seg_val (ldt_desc_ptr d)) = ldt_addr (boot_tables b) \<and> cpu_seg_limit (seg_val (ldt_desc_ptr d)) = 31 \<and>
     cpu_seg_base (seg_val (tss_desc_ptr d)) = tss_addr (boot_tables b) \<and> cpu_seg_limit (seg_val (tss_desc_ptr d)) = 103 \<and>
     sd_type (tss_desc_ptr d) = 0xB \<and> ldt_register d = KERNEL_LDT \<and> task_register d = KERNEL_TSS \<and>
     ss0 (task_state d) = KERNEL_DS \<and>
     (\<forall>i < 256. cpu_gate_offset (idt_val (idt d i)) = gate_target (boot_linkage b) i \<and>
        (cpu_gate_present (idt_val (idt d i)) \<longleftrightarrow> gate_target (boot_linkage b) i \<noteq> 0))"

lemma tables_loaded_entry:
  assumes "linked (boot_linkage b)"
  shows "\<exists>d'. init_interrupts (boot_linkage b)
      (load_tss (tss_addr (boot_tables b)) j (load_ldt (ldt_addr (boot_tables b)) j' d)) = Some d' \<and> tables_loaded b d'"
proof -
  have m: "(31 :: u32) AND 0xFFFFF = 31" "(103 :: u32) AND 0xFFFFF = 103" by simp_all
  have t: "(9 :: 4 word) OR 2 = 0xB" by simp
  show ?thesis
    unfolding init_interrupts_eq [OF assms]
    by (simp add: tables_loaded_def load_tss_def load_ldt_def ltr_def Let_def seg_type_free SET_PARAMS_same
        SET_LDT_PARAMS_base SET_LDT_PARAMS_limit ldt_size_def tss_size_def init_gate_read m)
      (simp add: SET_LDT_PARAMS_def)
qed

section \<open>entry, put together\<close>

lemma shell_running_cong:
  "enabled_lines s1 = enabled_lines s2 \<Longrightarrow> file_content s1 (inodeNumber d) = file_content s2 (inodeNumber d) \<Longrightarrow>
     shell_running s1 d s' = shell_running s2 d s'"
  by (simp add: shell_running_def)

text \<open>What the boot loader has to hand over.\<close>

definition bootable :: "multiboot_info \<Rightarrow> module_info \<Rightarrow> bool" where
  "bootable mbi m \<longleftrightarrow>
     CHECK_FLAG (mb_flags mbi) 3 \<and> mods_count mbi = 1 \<and> (\<exists>ms. mods_addr mbi = m # ms) \<and> 16 \<le> length (mod_bytes m) \<and>
     (CHECK_FLAG (mb_flags mbi) 2 \<longrightarrow> terminated (cmdline mbi)) \<and>
     \<not> (CHECK_FLAG (mb_flags mbi) 4 \<and> CHECK_FLAG (mb_flags mbi) 5) \<and>
     (CHECK_FLAG (mb_flags mbi) 6 \<longrightarrow> (\<exists>n. map_ends mbi n (mmap_addr mbi)))"

lemma load_module_text: "load_module k m s = module_text k m s \<bind> init_filesystem (mod_bytes m)"
  by (simp add: load_module_def module_text_def)

lemma load_modules_one:
  assumes "bootable mbi m" "\<not> paging_on s" "init_filesystem (mod_bytes m) t0 = Some t"
  shows "\<exists>s'. load_modules mbi s = Some (with_image (mod_bytes m) (datablock_start t) s') \<and> rest s' = rest s \<and> \<not> paging_on s'"
proof -
  have q: "quiet (module_text 0 m)" using assms(1) by (intro quiet_module_text) (simp add: bootable_def)
  obtain s' where s': "module_text 0 m s = Some s'" "rest s' = rest s" "\<not> paging_on s'" using quietD [OF q assms(2)] by blast
  have r: "rd (mods_addr mbi) 0 = Some m" "unat (mods_count mbi) = Suc 0" using assms(1) by (auto simp: bootable_def rd_def)
  show ?thesis
    using init_filesystem_with [OF assms(3), of s'] s' r by (auto simp: load_modules_def load_module_text)
qed

lemma entry_runs:
  assumes "linked (boot_linkage b)" "bootable mbi m" "\<not> paging_on s" "fresh s"
    and "init_filesystem (mod_bytes m) s = Some t" "has_shell t f"
  shows "\<exists>d' s'. entry b MULTIBOOT_BOOTLOADER_MAGIC mbi d s =
      Some (BootRuns d' (ExecUser (entry_point t (inodeNumber f)) s')) \<and> shell_running t f s' \<and> tables_loaded b d'"
proof -
  note boot = assms(2) [unfolded bootable_def]
  obtain s1 where s1: "clear s = Some s1" "rest s1 = rest s" "\<not> paging_on s1" using quietD [OF quiet_clear assms(3)] by blast
  have "quiet (print_boot_info mbi)" using boot by (intro quiet_boot_info) blast
  then obtain s2 where s2: "print_boot_info mbi s1 = Some s2" "rest s2 = rest s1" "\<not> paging_on s2"
    using quietD s1(3) by blast
  obtain s3 where s3: "load_modules mbi s2 = Some (with_image (mod_bytes m) (datablock_start t) s3)" "rest s3 = rest s2"
    "\<not> paging_on s3"
    using load_modules_one [OF assms(2) s2(3) assms(5)] by blast
  let ?s3 = "with_image (mod_bytes m) (datablock_start t) s3"
  have "quiet (\<lambda>s. if CHECK_FLAG (mb_flags mbi) 5 then print_elf (elf_sec mbi) s else Some s)"
    by (intro quiet_if quiet_elf quiet_Some)
  moreover have p3: "\<not> paging_on ?s3" using s3(3) by (simp add: with_image_def)
  ultimately obtain s4 where s4: "(if CHECK_FLAG (mb_flags mbi) 5 then print_elf (elf_sec mbi) ?s3 else Some ?s3) = Some s4"
    "rest s4 = rest ?s3" "\<not> paging_on s4"
    using quietD by blast
  have "\<exists>s5. (if CHECK_FLAG (mb_flags mbi) 6 then print_memory_map mbi s4 else Some s4) = Some s5 \<and> rest s5 = rest s4 \<and> \<not> paging_on s5"
  proof (cases "CHECK_FLAG (mb_flags mbi) 6")
    case True
    then obtain n where "map_ends mbi n (mmap_addr mbi)" using boot by blast
    then show ?thesis using True quietD [OF quiet_memory_map s4(3)] by simp
  qed (use s4(3) in simp)
  then obtain s5 where s5: "(if CHECK_FLAG (mb_flags mbi) 6 then print_memory_map mbi s4 else Some s4) = Some s5"
    "rest s5 = rest s4" "\<not> paging_on s5" by blast
  define s6 where "s6 = s5\<lparr>tss_esp0 := 0x800000\<rparr>"
  note r1 = rest_sel [OF s1(2)] and r2 = rest_sel [OF s2(2)] and r3 = rest_sel [OF s3(2)] and r4 = rest_sel [OF s4(2)]
    and r5 = rest_sel [OF s5(2)]
  have w: "pcbs ?s3 = pcbs s3" "active_terminal ?s3 = active_terminal s3" "scheduled_terminal ?s3 = scheduled_terminal s3"
    "initialized_terminals ?s3 = initialized_terminals s3" "tableArray_addr ?s3 = tableArray_addr s3"
    "vmemTableArray_addr ?s3 = vmemTableArray_addr s3" "master_mask ?s3 = master_mask s3" "slave_mask ?s3 = slave_mask s3"
    by (simp_all add: with_image_def)
  have "fresh s6 = fresh s"
    by (rule fresh_cong) (simp_all add: s6_def w r1 r2 r3 r4 r5)
  then have f6: "fresh s6" "\<not> paging_on s6" using assms(4) s5(3) by (simp_all add: s6_def)
  have t: "t = with_image (mod_bytes m) (datablock_start t) s" using init_filesystem_with [OF assms(5)] by blast
  have i: "fs_image s6 = fs_image t" "inode_start s6 = inode_start t" "datablock_start s6 = datablock_start t"
    using r4 r5 by (simp_all add: s6_def with_image_def) (subst t, simp add: with_image_def)+
  note hs = has_shell_cong [OF i]
  have e: "enabled_lines s6 = enabled_lines t"
    using r1 r2 r3 r4 r5 w(7,8) by (intro enabled_lines_cong) (subst t, simp add: s6_def with_image_def)+
  obtain s' where s': "start_shell (boot_hw b) (boot_env b) s6 = Some (ExecUser (entry_point s6 (inodeNumber f)) s')" "shell_running s6 f s'"
    using start_shell_runs [OF f6(2,1)] hs(1) assms(6) by blast
  have run: "shell_running t f s'" using s'(2) shell_running_cong [OF e hs(2)] by blast
  obtain d' where d': "init_interrupts (boot_linkage b)
      (load_tss (tss_addr (boot_tables b)) (tss_junk b) (load_ldt (ldt_addr (boot_tables b)) (ldt_junk b) d)) = Some d'" "tables_loaded b d'"
    using tables_loaded_entry [OF assms(1)] by blast
  have c: "(CHECK_FLAG (mb_flags mbi) 3) = True" "(CHECK_FLAG (mb_flags mbi) 4 \<and> CHECK_FLAG (mb_flags mbi) 5) = False"
    using boot by blast+
  have "entry b MULTIBOOT_BOOTLOADER_MAGIC mbi d s = Some (BootRuns d' (ExecUser (entry_point t (inodeNumber f)) s'))"
    unfolding entry_def s1(1) s2(1) s3(1) s4(1) s5(1) c d'(1) s6_def [symmetric] s'(1) hs(3) Let_def bind.bind_lunit if_True if_False
    by simp
  then show ?thesis using run d'(2) by blast
qed

section \<open>A timer tick at the wrong moment\<close>

lemma find_none_initialized: "unat c < 3 \<Longrightarrow> find_initialized (\<lambda>_. 0) c = None"
  using find_initialized_sound [of "\<lambda>_. 0" c] by (cases "find_initialized (\<lambda>_. 0) c") auto

lemma scheduler_save_initialized: "scheduler_save s = Some s' \<Longrightarrow> initialized_terminals s' = initialized_terminals s"
  by (auto simp: scheduler_save_def bind_eq_Some_conv upd_pcb_def upd_term_def split: if_splits)

lemma tick_without_terminal:
  assumes "initialized_terminals s = (\<lambda>_. 0)" "current_pcb s \<noteq> 0"
  shows "pit_handler s = None"
proof -
  have "scheduler t = None" if "initialized_terminals t = (\<lambda>_. 0)" for t
    using that find_none_initialized first_candidate_bound scheduler_save_initialized
    by (auto simp: scheduler_def Let_def split: Option.bind_split)
  moreover have "initialized_terminals (send_eoi PIT_LINE s) = (\<lambda>_. 0)" "current_pcb (send_eoi PIT_LINE s) = current_pcb s"
    using assms(1) by (simp_all add: send_eoi_def Let_def outb_def)
  ultimately show ?thesis using assms(2) by (simp add: pit_handler_def Let_def)
qed

section \<open>A sample boot\<close>

definition sample_module :: module_info where
  "sample_module = \<lparr>mod_start = 0x41A000, mod_end = 0x41D000, mod_bytes = image_of (bytes ''shell'') sample_program\<rparr>"

definition sample_info :: multiboot_info where
  "sample_info = \<lparr>mb_flags = 0x4F, mem_lower = 639, mem_upper = 129920, boot_device = 0x8000FFFF,
     cmdline = bytes ''bootimg'' @ [0], mods_count = 1, mods_addr = [sample_module],
     elf_sec = \<lparr>elf_num = 0, elf_size = 0, elf_addr = 0, elf_shndx = 0\<rparr>, mmap_length = 48, mmap_addr = 0x2CE80,
     mmap_at = (\<lambda>_. \<lparr>mmap_size = 20, base_addr_low = 0, base_addr_high = 0, length_low = 0x9FC00,
       length_high = 0, mmap_type = 1\<rparr>)\<rparr>"

definition zero_seg :: seg_desc where
  "zero_seg = \<lparr>seg_lim_15_00 = 0, base_15_00 = 0, base_23_16 = 0, sd_type = 0, sd_sys = 0, sd_dpl = 0, sd_present = 0,
     seg_lim_19_16 = 0, sd_avail = 0, sd_reserved = 0, sd_opsize = 0, sd_granularity = 0, base_31_24 = 0\<rparr>"

definition sample_context :: boot_context where
  "sample_context = \<lparr>boot_hw = (\<lambda>_ _. 0), boot_env = [], boot_linkage = sample_linkage,
     boot_tables = \<lparr>ldt_addr = 0x403000, tss_addr = 0x402F80\<rparr>, ldt_junk = zero_seg, tss_junk = zero_seg\<rparr>"

definition sample_disk :: "machine \<Rightarrow> machine" where
  "sample_disk = with_image (image_of (bytes ''shell'') sample_program) 8192"

lemma sample_bootable: "bootable sample_info sample_module"
proof -
  have "map_ends sample_info 2 (mmap_addr sample_info)"
    by (simp add: sample_info_def numeral_2_eq_2)
  moreover have "16 \<le> length (mod_bytes sample_module)"
    using image_of_facts(1) [of "bytes ''shell''" sample_program]
    by (simp add: sample_module_def sample_program_def file_check_def)
  ultimately show ?thesis
    unfolding bootable_def
    by (intro conjI impI exI) (simp_all add: sample_info_def CHECK_FLAG_def)
qed

lemma sample_init: "init_filesystem (mod_bytes sample_module) s = Some (sample_disk s)"
proof -
  have "length (bytes ''shell'') \<le> 32" by simp
  from image_init [OF this, of sample_program] show ?thesis
    using init_filesystem_with [of "image_of (bytes ''shell'') sample_program" paged _ s]
    by (simp add: sample_module_def sample_disk_def)
qed

lemma sample_disk_holds: "holds_image (bytes ''shell'') sample_program (sample_disk s)"
  by (simp add: holds_image_def sample_disk_def with_image_def sample_program_def file_check_def)

lemma sample_disk_shell: "has_shell (sample_disk s) (named_entry (bytes ''shell''))"
proof -
  let ?d = "named_entry (bytes ''shell'')"
  have n: "entry_name ?d = bytes ''shell''" "inodeNumber ?d = 0"
    by (simp_all add: named_entry_def entry_name_def cstr_def)
  have "find_file (sample_disk s) (bytes ''shell'') = Some ?d"
    unfolding find_file_def image_entries [OF sample_disk_holds] by (simp only: find.simps n if_True simp_thms)
  moreover have "program_file (sample_disk s) (inodeNumber ?d)"
    using image_content [OF sample_disk_holds] unfolding n(2)
    by (simp add: program_file_def sample_program_def file_check_def)
  ultimately show ?thesis
    using image_wf [OF sample_disk_holds] image_counts(2) [OF sample_disk_holds] n(2) by (simp add: has_shell_def)
qed

lemma sample_entry_point: "entry_point (sample_disk s) (inodeNumber (named_entry (bytes ''shell''))) = 0x8048094"
proof -
  have "le32 0x94 0x80 0x04 0x08 = 0x8048094" by (simp add: le32_def)
  moreover have "inodeNumber (named_entry (bytes ''shell'')) = 0" by (simp add: named_entry_def)
  ultimately show ?thesis
    using image_content [OF sample_disk_holds] by (simp add: entry_point_def sample_program_def file_check_def nth_append)
qed

lemma loaded_fresh: "fresh loaded" "\<not> paging_on loaded"
  by (simp_all add: fresh_def loaded_def tables_linked_def page_of_def PAGING_OFFSET_def zero_pcb_def)

section \<open>Properties\<close>

text \<open>C38: booting. With the boot loader's magic number, one module holding a well-formed image with a
  program \<open>shell\<close>, and a memory map that ends, \<open>entry\<close> gets through and enters the shell's code at its
  entry point: as process 0 without a parent, its file at 0x08048000, its two terminal descriptors open,
  interrupts on, exactly the lines of the timer, the keyboard, the slave controller and the clock unmasked
  besides those the loader left on, the screen blank; the descriptor tables say where the LDT and the TSS
  are and lead each vector to its handler.\<close>

theorem boot_starts_shell:
  assumes "linked (boot_linkage b)" "bootable mbi m" "\<not> paging_on s" "fresh s"
    and "init_filesystem (mod_bytes m) s = Some t" "has_shell t f"
  shows "\<exists>d' s'. entry b MULTIBOOT_BOOTLOADER_MAGIC mbi d s =
      Some (BootRuns d' (ExecUser (entry_point t (inodeNumber f)) s')) \<and> shell_running t f s' \<and> tables_loaded b d'"
  by (rule entry_runs [OF assms])

theorem boot_starts_shell_witness:
  "\<forall>d. \<exists>d' s'. entry sample_context MULTIBOOT_BOOTLOADER_MAGIC sample_info d loaded =
      Some (BootRuns d' (ExecUser 0x8048094 s')) \<and> current_pcb s' = 0x7FE000 \<and> int_flag s'"
proof
  fix d
  have l: "linked (boot_linkage sample_context)" using sample_linked by (simp add: sample_context_def)
  show "\<exists>d' s'. entry sample_context MULTIBOOT_BOOTLOADER_MAGIC sample_info d loaded =
      Some (BootRuns d' (ExecUser 0x8048094 s')) \<and> current_pcb s' = 0x7FE000 \<and> int_flag s'"
    using boot_starts_shell [OF l sample_bootable loaded_fresh(2,1) sample_init sample_disk_shell, of d]
    unfolding sample_entry_point shell_running_def pcb_ptrs(1) by blast
qed

text \<open>C39: isolation over whole runs. In every state that a boot and then any sequence of steps of the kernel
  lead to, user code can touch the frames of one process and the one page that is mapped for the screen,
  either the screen or the backing page of a terminal, and nothing of the kernel's page. A step is an
  interrupt, a system call with the caller's own buffers, an exception or a store of user code, as a whole,
  with any steps in between where it waits; an interrupt in the middle of another step is not covered.\<close>

theorem reachable_user_memory:
  assumes "linked (boot_linkage b)" "bootable mbi m" "\<not> paging_on s" "fresh s"
    and "init_filesystem (mod_bytes m) s = Some t" "has_shell t f"
    and "entry b MULTIBOOT_BOOTLOADER_MAGIC mbi d s = Some (BootRuns d' (ExecUser e s'))"
    and "rtranclp (kernel_step hw) s' s''" "user_access s'' va = Some (fr, k)"
  shows "\<exists>p < 6. program_frame s'' = get_phys_addr (int p) \<and>
    (unat fr \<in> process_frames p \<or> fr = video_frame s'' \<and> fr \<in> {0xB8, 0xBA, 0xBB, 0xBC}) \<and> unat fr \<notin> {0x400..<0x800}"
proof -
  have "confined s'" using entry_runs [OF assms(1-6), of d] assms(7) by (auto simp: shell_running_def)
  then have c: "confined s''" by (rule steps_confined [OF assms(8)])
  then obtain p where p: "p < 6" "program_frame s'' = get_phys_addr (int p)" and w: "paging_wf s''"
    and v: "video_frame s'' \<in> {0xB8, 0xBA, 0xBB, 0xBC}"
    by (auto simp: confined_def)
  have t: "unat (tab_ix va) < 1024" using unsigned_less [of "tab_ix va", where ?'a = nat] by simp
  have "fr = video_frame s'' \<or> fr = (program_frame s'' AND 0xFFC00) OR ucast (tab_ix va)"
    using assms(9) mmu_walk_wf [OF w, of va]
    by (auto simp: user_access_def split: option.splits prod.splits bool.splits if_splits)
  then have f: "unat fr \<in> process_frames p \<or> fr = video_frame s'' \<and> fr \<in> {0xB8, 0xBA, 0xBB, 0xBC}"
    using v phys_addr_or [OF p(1), of "tab_ix va"] t unfolding p(2) process_frames_def by auto
  moreover have "unat fr \<notin> {0x400..<0x800}"
    using f
  proof
    assume "fr = video_frame s'' \<and> fr \<in> {0xB8, 0xBA, 0xBB, 0xBC}"
    then have "fr \<in> {0xB8, 0xBA, 0xBB, 0xBC}" ..
    then show ?thesis by (elim insertE emptyE) simp_all
  qed (auto simp: process_frames_def)
  ultimately show ?thesis using p by blast
qed

theorem reachable_user_memory_witness:
  "\<exists>s'. user_access s' 0x8001005 = Some (0x801, 5) \<and> program_frame s' = get_phys_addr (int 0) \<and>
     unat (0x801 :: 20 word) \<notin> {0x400..<0x800} \<and> (\<exists>p < 6. unat (0x801 :: 20 word) \<in> process_frames p)"
proof -
  have l: "linked (boot_linkage sample_context)" using sample_linked by (simp add: sample_context_def)
  note boot = l sample_bootable loaded_fresh(2,1) sample_init sample_disk_shell
  obtain d d' e s' where s': "entry sample_context MULTIBOOT_BOOTLOADER_MAGIC sample_info d loaded = Some (BootRuns d' (ExecUser e s'))"
    "confined s'" "program_frame s' = get_phys_addr 0"
    using entry_runs [OF boot] unfolding shell_running_def by blast
  have p: "program_frame s' = 0x800" using s'(3) get_phys_addr_nat [of 0] by simp
  have "paging_wf s'" using s'(2) by (simp add: confined_def)
  then have u: "user_access s' 0x8001005 = Some (0x801, 5)"
    using mmu_walk_wf [of s' "0x8001005"] p addr_parts [of "0x8001005" 32 1 5] by (simp add: user_access_def)
  have f: "(0x801 :: 20 word) \<notin> {0xB8, 0xBA, 0xBB, 0xBC}" by simp
  show ?thesis
    using reachable_user_memory [OF boot s'(1) rtranclp.rtrancl_refl u] u s'(3) f by (intro exI [of _ s']) auto
qed

text \<open>C40: there is a moment in booting when a timer tick stops the machine. \<open>execute\<close> sets the current
  process before it marks its terminal as started, with interrupts on: a tick in between finds a current
  process and no started terminal, and the scheduler's search does not end.\<close>

theorem tick_in_first_execute_hangs:
  assumes "paging_wf s" "fresh s" "has_shell s f" "int_flag s"
  shows "\<exists>s'. exec_setup 0 (inodeNumber f) (replicate EXEC_ARG_LEN 0) True s = Some s' \<and> int_flag s' \<and>
    current_pcb s' \<noteq> 0 \<and> find_initialized (initialized_terminals s') (first_candidate (scheduled_terminal s')) = None \<and>
    pit_handler s' = None"
proof -
  obtain m where m: "numInodes s = Some m" "inodeNumber f < m" using assms(3) by (auto simp: has_shell_def)
  have h: "fs_wf s" "(0 :: nat) < 6" "length (file_content s (inodeNumber f)) \<le> 0x3B8000"
    using assms(3) by (simp_all add: has_shell_def program_file_def)
  let ?a = "replicate EXEC_ARG_LEN 0 :: u8 list"
  have e: "EXEC_ARG_LEN = Suc 127" by (simp add: EXEC_ARG_LEN_def)
  have "terminated ?a" "cstr ?a = []" unfolding e replicate_Suc by simp_all
  then have a: "True \<longrightarrow> terminated ?a \<and> length (cstr ?a) < length (arg (pcbs s (get_pcb_ptr (int 0))))"
    using assms(2) by (auto simp: fresh_def)
  obtain s1 where s1: "stored 0x48000 (file_content s (inodeNumber f)) (map_program (int 0) s) s1"
    "exec_setup (of_nat 0) (inodeNumber f) ?a True s = Some (installed 0 (Some ?a) s1)"
    using exec_setup_eq [OF assms(1) h(1) m h(2,3) a] unfolding if_True by blast
  let ?t = "installed 0 (Some ?a) s1"
  note g = stored_fields [OF s1(1)]
  have i: "initialized_terminals ?t = (\<lambda>_. 0)" "scheduled_terminal ?t = 0" "current_pcb ?t \<noteq> 0"
    using g assms(2) by (simp_all add: installed_sel map_program_same fresh_def pcb_ptrs)
  have "int_flag s1 = int_flag s"
  proof -
    have e: "s1 = (map_program (int 0) s)\<lparr>frames := frames s1\<rparr>" using s1(1) by (simp add: stored_def)
    show ?thesis by (subst e) (simp add: map_program_def)
  qed
  then have "int_flag ?t" using assms(4) by (simp add: installed_def reserve_shells_def Let_def upd_term_def)
  then show ?thesis
    using s1(2) i find_none_initialized [OF first_candidate_bound] tick_without_terminal [OF i(1,3)]
    by (intro exI [of _ ?t]) simp
qed

theorem tick_in_first_execute_hangs_witness:
  "\<exists>s s'. int_flag s \<and> exec_setup 0 0 (replicate EXEC_ARG_LEN 0) True s = Some s' \<and> pit_handler s' = None"
proof -
  define s where "s = sample_disk (sti (init_paging loaded))"
  have e: "active_terminal s = 0" "scheduled_terminal s = 0" "initialized_terminals s = (\<lambda>_. 0)" "pcbs s = pcbs loaded"
    "tableArray_addr s = tableArray_addr loaded" "vmemTableArray_addr s = vmemTableArray_addr loaded" "int_flag s"
    by (simp_all add: s_def sample_disk_def with_image_def sti_def init_paging_def Let_def loaded_def)
  have "paging_wf s = paging_wf (init_paging loaded)"
    by (simp add: s_def sample_disk_def with_image_def sti_def paging_wf_def tables_linked_def program_frame_def video_frame_def)
  moreover have "fresh s" using fresh_cong [of s loaded] e loaded_fresh(1) by (simp add: fresh_def)
  ultimately have "paging_wf s" "fresh s"
    using init_paging_wf [of loaded] loaded_fresh(1) by (simp_all add: fresh_def)
  from tick_in_first_execute_hangs [OF this _ e(7), of "named_entry (bytes ''shell'')"] show ?thesis
    using sample_disk_shell e(7) unfolding s_def by (auto simp: named_entry_def)
qed
end
