(* ===== verification/UserLib.thy ===== *)
theory UserLib
  imports BootFacts
begin

text \<open>
  The library of the user programs (\<^verbatim>\<open>syscalls/ece391support.c\<close>, \<^verbatim>\<open>ece391syscall.S\<close>): the system call
  wrappers and the string routines, over a memory of bytes at addresses. A program is a function from
  the machine it runs on; \<open>None\<close> is a fault or a loop that does not end. What it runs on is the record
  \<open>os\<close>: loads, stores, the addresses of its string literals and \<^verbatim>\<open>int 0x80\<close>. The kernel's model is one.
\<close>

section \<open>The machine under a program\<close>

record 'w os =
  uload :: "u32 \<Rightarrow> 'w \<Rightarrow> u8 option"
  ustore :: "u32 \<Rightarrow> u8 \<Rightarrow> 'w \<Rightarrow> 'w option"
  rodata :: "u8 list \<Rightarrow> u32"
  int80 :: "u32 \<Rightarrow> u32 \<Rightarrow> u32 \<Rightarrow> u32 \<Rightarrow> 'w \<Rightarrow> (u32 \<times> 'w) option"

section \<open>System calls (ece391sysnum.h, ece391syscall.S)\<close>

definition SYS_HALT :: u32 where "SYS_HALT = 1"
definition SYS_EXECUTE :: u32 where "SYS_EXECUTE = 2"
definition SYS_READ :: u32 where "SYS_READ = 3"
definition SYS_WRITE :: u32 where "SYS_WRITE = 4"
definition SYS_OPEN :: u32 where "SYS_OPEN = 5"
definition SYS_CLOSE :: u32 where "SYS_CLOSE = 6"
definition SYS_GETARGS :: u32 where "SYS_GETARGS = 7"
definition SYS_VIDMAP :: u32 where "SYS_VIDMAP = 8"
definition SYS_SET_HANDLER :: u32 where "SYS_SET_HANDLER = 9"
definition SYS_SIGRETURN :: u32 where "SYS_SIGRETURN = 10"

lemmas sys_numbers = SYS_HALT_def SYS_SIGRETURN_def SYS_EXECUTE_def SYS_READ_def SYS_WRITE_def SYS_OPEN_def SYS_CLOSE_def SYS_GETARGS_def
  SYS_VIDMAP_def SYS_SET_HANDLER_def

text \<open>The wrappers load three registers; the calls ignore those they do not use.\<close>

definition ece391_halt :: "'w os \<Rightarrow> u32 \<Rightarrow> 'w \<Rightarrow> (u32 \<times> 'w) option" where
  "ece391_halt os status = int80 os SYS_HALT status 0 0"

definition ece391_sigreturn :: "'w os \<Rightarrow> 'w \<Rightarrow> (u32 \<times> 'w) option" where
  "ece391_sigreturn os = int80 os SYS_SIGRETURN 0 0 0"

definition ece391_execute :: "'w os \<Rightarrow> u32 \<Rightarrow> 'w \<Rightarrow> (u32 \<times> 'w) option" where
  "ece391_execute os command = int80 os SYS_EXECUTE command 0 0"

definition ece391_read :: "'w os \<Rightarrow> u32 \<Rightarrow> u32 \<Rightarrow> u32 \<Rightarrow> 'w \<Rightarrow> (u32 \<times> 'w) option" where
  "ece391_read os fd buf nbytes = int80 os SYS_READ fd buf nbytes"

definition ece391_write :: "'w os \<Rightarrow> u32 \<Rightarrow> u32 \<Rightarrow> u32 \<Rightarrow> 'w \<Rightarrow> (u32 \<times> 'w) option" where
  "ece391_write os fd buf nbytes = int80 os SYS_WRITE fd buf nbytes"

definition ece391_open :: "'w os \<Rightarrow> u32 \<Rightarrow> 'w \<Rightarrow> (u32 \<times> 'w) option" where
  "ece391_open os filename = int80 os SYS_OPEN filename 0 0"

definition ece391_close :: "'w os \<Rightarrow> u32 \<Rightarrow> 'w \<Rightarrow> (u32 \<times> 'w) option" where
  "ece391_close os fd = int80 os SYS_CLOSE fd 0 0"

definition ece391_getargs :: "'w os \<Rightarrow> u32 \<Rightarrow> u32 \<Rightarrow> 'w \<Rightarrow> (u32 \<times> 'w) option" where
  "ece391_getargs os buf nbytes = int80 os SYS_GETARGS buf nbytes 0"

definition ece391_vidmap :: "'w os \<Rightarrow> u32 \<Rightarrow> 'w \<Rightarrow> (u32 \<times> 'w) option" where
  "ece391_vidmap os screen_start = int80 os SYS_VIDMAP screen_start 0 0"

definition ece391_set_handler :: "'w os \<Rightarrow> u32 \<Rightarrow> u32 \<Rightarrow> 'w \<Rightarrow> (u32 \<times> 'w) option" where
  "ece391_set_handler os signum handler = int80 os SYS_SET_HANDLER signum handler 0"

lemmas wrapper_defs = ece391_execute_def ece391_read_def ece391_write_def ece391_open_def ece391_close_def
  ece391_getargs_def ece391_vidmap_def ece391_set_handler_def

text \<open>The entry point of every program: \<^verbatim>\<open>_start\<close> halts with what \<open>main\<close> returns.\<close>

definition start_program :: "'w os \<Rightarrow> ('w \<Rightarrow> (u32 \<times> 'w) option) \<Rightarrow> 'w \<Rightarrow> (u32 \<times> 'w) option" where
  "start_program os main w = do { (r, w) \<leftarrow> main w; ece391_halt os r w }"

section \<open>Strings (ece391support.c)\<close>

partial_function (option) strlen_walk :: "'w os \<Rightarrow> u32 \<Rightarrow> u32 \<Rightarrow> 'w \<Rightarrow> u32 option" where
  "strlen_walk os s len w =
     (case uload os s w of
        None \<Rightarrow> None
      | Some c \<Rightarrow> if c \<noteq> 0 then strlen_walk os (s + 1) (len + 1) w else Some len)"

definition ece391_strlen :: "'w os \<Rightarrow> u32 \<Rightarrow> 'w \<Rightarrow> u32 option" where
  "ece391_strlen os s w = strlen_walk os s 0 w"

partial_function (option) ece391_strcpy :: "'w os \<Rightarrow> u32 \<Rightarrow> u32 \<Rightarrow> 'w \<Rightarrow> 'w option" where
  "ece391_strcpy os dst src w =
     (case uload os src w of
        None \<Rightarrow> None
      | Some c \<Rightarrow>
          (case ustore os dst c w of
             None \<Rightarrow> None
           | Some w \<Rightarrow> if c \<noteq> 0 then ece391_strcpy os (dst + 1) (src + 1) w else Some w))"

definition ece391_fdputs :: "'w os \<Rightarrow> u32 \<Rightarrow> u32 \<Rightarrow> 'w \<Rightarrow> 'w option" where
  "ece391_fdputs os fd s w =
     do { len \<leftarrow> ece391_strlen os s w; (r, w) \<leftarrow> ece391_write os fd s len w; Some w }"

partial_function (option) ece391_strcmp :: "'w os \<Rightarrow> u32 \<Rightarrow> u32 \<Rightarrow> 'w \<Rightarrow> int option" where
  "ece391_strcmp os s1 s2 w =
     (case uload os s1 w of
        None \<Rightarrow> None
      | Some c1 \<Rightarrow>
          (case uload os s2 w of
             None \<Rightarrow> None
           | Some c2 \<Rightarrow>
               if c1 = c2 then if c1 = 0 then Some 0 else ece391_strcmp os (s1 + 1) (s2 + 1) w
               else Some (uint c1 - uint c2)))"

partial_function (option) strncmp_walk :: "'w os \<Rightarrow> u32 \<Rightarrow> u32 \<Rightarrow> u32 \<Rightarrow> 'w \<Rightarrow> int option" where
  "strncmp_walk os s1 s2 n w =
     (case uload os s1 w of
        None \<Rightarrow> None
      | Some c1 \<Rightarrow>
          (case uload os s2 w of
             None \<Rightarrow> None
           | Some c2 \<Rightarrow>
               if c1 = c2
               then if c1 = 0 \<or> n - 1 = 0 then Some 0 else strncmp_walk os (s1 + 1) (s2 + 1) (n - 1) w
               else Some (uint c1 - uint c2)))"

definition ece391_strncmp :: "'w os \<Rightarrow> u32 \<Rightarrow> u32 \<Rightarrow> u32 \<Rightarrow> 'w \<Rightarrow> int option" where
  "ece391_strncmp os s1 s2 n w = (if n = 0 then Some 0 else strncmp_walk os s1 s2 n w)"

section \<open>Reversal and numbers\<close>

partial_function (option) strrev_walk :: "'w os \<Rightarrow> u32 \<Rightarrow> int \<Rightarrow> int \<Rightarrow> 'w \<Rightarrow> 'w option" where
  "strrev_walk os s beg end' w =
     (if beg < end'
      then case uload os (s + of_int end') w of None \<Rightarrow> None | Some tmp \<Rightarrow>
           (case uload os (s + of_int beg) w of None \<Rightarrow> None | Some c \<Rightarrow>
           (case ustore os (s + of_int end') c w of None \<Rightarrow> None | Some w \<Rightarrow>
           (case ustore os (s + of_int beg) tmp w of None \<Rightarrow> None | Some w \<Rightarrow>
              strrev_walk os s (beg + 1) (end' - 1) w)))
      else Some w)"

definition ece391_strrev :: "'w os \<Rightarrow> u32 \<Rightarrow> 'w \<Rightarrow> 'w option" where
  "ece391_strrev os s w =
     do {
       len \<leftarrow> ece391_strlen os s w;
       let end' = sint (len - 1);
       if end' \<le> 0 then Some w else strrev_walk os s 0 end' w
     }"

text \<open>The digits, lowest first; the lookup table is a private array of the program.\<close>

partial_function (option) itoa_walk :: "'w os \<Rightarrow> u32 \<Rightarrow> u32 \<Rightarrow> u32 \<Rightarrow> 'w \<Rightarrow> (u32 \<times> 'w) option" where
  "itoa_walk os newbuf newval radix w =
     (if newval > 0
      then if radix = 0 then None
           else case rd itoa_lookup (unat (newval mod radix)) of None \<Rightarrow> None | Some d \<Rightarrow>
                (case ustore os newbuf d w of None \<Rightarrow> None | Some w \<Rightarrow>
                   itoa_walk os (newbuf + 1) (newval div radix) radix w)
      else Some (newbuf, w))"

definition ece391_itoa :: "'w os \<Rightarrow> u32 \<Rightarrow> u32 \<Rightarrow> u32 \<Rightarrow> 'w \<Rightarrow> 'w option" where
  "ece391_itoa os value' buf radix w =
     (if value' = 0 then do { w \<leftarrow> ustore os buf 48 w; ustore os (buf + 1) 0 w }
      else do {
        (newbuf, w) \<leftarrow> itoa_walk os buf value' radix w;
        w \<leftarrow> ustore os newbuf 0 w;
        ece391_strrev os buf w
      })"

text \<open>Printing a string literal.\<close>

definition puts_lit :: "'w os \<Rightarrow> u8 list \<Rightarrow> 'w \<Rightarrow> 'w option" where
  "puts_lit os t w = ece391_fdputs os 1 (rodata os t) w"

section \<open>The laws of memory\<close>

text \<open>
  \<open>window os w a bs\<close>: the bytes \<open>bs\<close> lie at \<open>a\<close>; \<open>same_outside os a n\<close>: nothing else than the \<open>n\<close> bytes
  at \<open>a\<close> differs.
\<close>

definition window :: "'w os \<Rightarrow> 'w \<Rightarrow> u32 \<Rightarrow> u8 list \<Rightarrow> bool" where
  "window os w a bs \<longleftrightarrow> length bs < 2 ^ 32 \<and> (\<forall>i < length bs. uload os (a + of_nat i) w = Some (bs ! i))"

definition same_outside :: "'w os \<Rightarrow> u32 \<Rightarrow> nat \<Rightarrow> 'w \<Rightarrow> 'w \<Rightarrow> bool" where
  "same_outside os a n w w' \<longleftrightarrow> (\<forall>b. (\<forall>i < n. b \<noteq> a + of_nat i) \<longrightarrow> uload os b w' = uload os b w)"

lemma same_outside_refl: "same_outside os a n w w"
  by (simp add: same_outside_def)

lemma same_outside_trans: "same_outside os a n w w' \<Longrightarrow> same_outside os a n w' w'' \<Longrightarrow> same_outside os a n w w''"
  by (simp add: same_outside_def)

lemma window_load: "window os w a bs \<Longrightarrow> i < length bs \<Longrightarrow> uload os (a + of_nat i) w = Some (bs ! i)"
  by (simp add: window_def)

lemma window_drop: "window os w a bs \<Longrightarrow> window os w (a + of_nat k) (drop k bs)"
proof (unfold window_def, intro conjI allI impI)
  fix i assume a: "length bs < 2 ^ 32 \<and> (\<forall>i < length bs. uload os (a + of_nat i) w = Some (bs ! i))" "i < length (drop k bs)"
  then have "k + i < length bs" by auto
  with a(1) have "uload os (a + of_nat (k + i)) w = Some (bs ! (k + i))" by (auto simp del: of_nat_add)
  then show "uload os (a + of_nat k + of_nat i) w = Some (drop k bs ! i)" using a(2) by (simp add: add.assoc)
qed auto

lemma window_tl: "window os w a (c # bs) \<Longrightarrow> uload os a w = Some c \<and> window os w (a + 1) bs"
  using window_drop [of os w a "c # bs" 1] window_load [of os w a "c # bs" 0] by simp

lemma offset_eq: "i < 2 ^ 32 \<Longrightarrow> j < 2 ^ 32 \<Longrightarrow> (a :: u32) + of_nat i = a + of_nat j \<longleftrightarrow> i = j"
  by (simp add: word_of_nat_eq_iff take_bit_nat_eq_self)

text \<open>
  \<open>ok\<close> is what the machine has to satisfy for the address space to be what it seems: an address that
  can be read can be written, and the write changes the byte at that address and at no other.
\<close>

locale user_memory =
  fixes os :: "'w os" and ok :: "'w \<Rightarrow> bool"
  assumes store_load: "ok w \<Longrightarrow> uload os a w \<noteq> None \<Longrightarrow>
      \<exists>w'. ustore os a v w = Some w' \<and> ok w' \<and> (\<forall>b. uload os b w' = (if b = a then Some v else uload os b w))"
begin

lemma window_store:
  assumes "ok w" "window os w a bs" "i < length bs"
  obtains w' where "ustore os (a + of_nat i) v w = Some w'" "ok w'" "window os w' a (bs[i := v])"
    "same_outside os a (length bs) w w'"
proof -
  obtain w' where w': "ustore os (a + of_nat i) v w = Some w'" "ok w'"
    "\<forall>b. uload os b w' = (if b = a + of_nat i then Some v else uload os b w)"
    using store_load [OF assms(1), of "a + of_nat i" v] window_load [OF assms(2,3)] by auto
  have l: "length bs < 2 ^ 32" using assms(2) by (simp add: window_def)
  have "window os w' a (bs[i := v])"
    unfolding window_def
  proof (intro conjI allI impI)
    fix j assume j: "j < length (bs[i := v])"
    then have "a + of_nat j = a + of_nat i \<longleftrightarrow> j = i" using l assms(3) by (intro offset_eq) simp_all
    then show "uload os (a + of_nat j) w' = Some (bs[i := v] ! j)"
      using w'(3) j window_load [OF assms(2)] by simp
  qed (use l in simp)
  moreover have "same_outside os a (length bs) w w'" using w'(3) assms(3) by (auto simp: same_outside_def)
  ultimately show thesis using that w'(1,2) by blast
qed

text \<open>A routine that simulates one on the list of bytes: \<open>done w a bs w' bs'\<close> is what it leaves.\<close>

definition turned :: "'w \<Rightarrow> u32 \<Rightarrow> u8 list \<Rightarrow> 'w \<Rightarrow> u8 list \<Rightarrow> bool" where
  "turned w a bs w' bs' \<longleftrightarrow> ok w' \<and> window os w' a bs' \<and> length bs' = length bs \<and> same_outside os a (length bs) w w'"

lemma turned_trans: "turned w a bs w' bs' \<Longrightarrow> turned w' a bs' w'' bs'' \<Longrightarrow> turned w a bs w'' bs''"
  using same_outside_trans unfolding turned_def by metis

lemma store_turned:
  assumes "ok w" "window os w a bs" "i < length bs"
  shows "\<exists>w'. ustore os (a + of_nat i) v w = Some w' \<and> turned w a bs w' (bs[i := v])"
  using window_store [OF assms, of v] unfolding turned_def by (metis length_list_update)

lemma strrev_walk_sim:
  assumes "ok w" "window os w a bs" "0 \<le> b" "e < int (length bs)"
  shows "\<exists>w'. strrev_walk os a b e w = Some w' \<and> turned w a bs w' (strrev_loop bs b e)"
  using assms
proof (induction bs b e arbitrary: w rule: strrev_loop.induct)
  case (1 bs b e)
  show ?case
  proof (cases "b < e")
    case False
    then show ?thesis using "1.prems" same_outside_refl
      by (subst strrev_walk.simps, subst strrev_loop.simps) (simp add: turned_def)
  next
    case True
    have ix: "nat e < length bs" "nat b < length bs" "(of_int e :: u32) = of_nat (nat e)" "(of_int b :: u32) = of_nat (nat b)"
      using True "1.prems"(3,4) by simp_all
    have l: "uload os (a + of_int e) w = Some (bs ! nat e)" "uload os (a + of_int b) w = Some (bs ! nat b)"
      using window_load [OF "1.prems"(2)] ix by simp_all
    obtain w1 where w1: "ustore os (a + of_int e) (bs ! nat b) w = Some w1" "turned w a bs w1 (bs[nat e := bs ! nat b])"
      using store_turned [OF "1.prems"(1,2) ix(1)] ix(3) by metis
    let ?b1 = "bs[nat e := bs ! nat b]"
    obtain w2 where w2: "ustore os (a + of_int b) (bs ! nat e) w1 = Some w2" "turned w1 a ?b1 w2 (?b1[nat b := bs ! nat e])"
      using store_turned [of w1 a ?b1 "nat b"] w1(2) ix unfolding turned_def by (metis length_list_update)
    let ?b2 = "?b1[nat b := bs ! nat e]"
    have "\<exists>w'. strrev_walk os a (b + 1) (e - 1) w2 = Some w' \<and> turned w2 a ?b2 w' (strrev_loop ?b2 (b + 1) (e - 1))"
      using True "1.prems"(3,4) w2(2) by (intro "1.IH" [OF True refl refl]) (simp_all add: turned_def)
    then obtain w' where w': "strrev_walk os a (b + 1) (e - 1) w2 = Some w'" "turned w2 a ?b2 w' (strrev_loop ?b2 (b + 1) (e - 1))"
      by blast
    have "strrev_walk os a b e w = Some w'"
      using True l w1(1) w2(1) w'(1) by (subst strrev_walk.simps) simp
    moreover have "strrev_loop bs b e = strrev_loop ?b2 (b + 1) (e - 1)"
      using True by (subst strrev_loop.simps) (simp add: Let_def)
    ultimately show ?thesis using turned_trans [OF w1(2) turned_trans [OF w2(2) w'(2)]] by auto
  qed
qed

end

section \<open>What the routines compute\<close>

lemma strlen_walk_window:
  "window os w s bs \<Longrightarrow> terminated bs \<Longrightarrow> strlen_walk os s len w = Some (len + of_nat (length (cstr bs)))"
proof (induction bs arbitrary: s len)
  case (Cons c bs)
  note h = window_tl [OF Cons.prems(1)]
  show ?case
  proof (cases "c = 0")
    case True
    then show ?thesis using h by (subst strlen_walk.simps) simp
  next
    case False
    then have "strlen_walk os (s + 1) (len + 1) w = Some (len + 1 + of_nat (length (cstr bs)))"
      using Cons.prems(2) h by (intro Cons.IH) simp_all
    then show ?thesis using False h by (subst strlen_walk.simps) (simp add: algebra_simps)
  qed
qed simp

lemma ece391_strlen_window:
  "window os w s bs \<Longrightarrow> terminated bs \<Longrightarrow> ece391_strlen os s w = Some (of_nat (length (cstr bs)))"
  unfolding ece391_strlen_def using strlen_walk_window [of os w s bs 0] by simp

text \<open>The first place where two strings differ, up to and including the NUL.\<close>

fun cmp_strings :: "u8 list \<Rightarrow> u8 list \<Rightarrow> int" where
  "cmp_strings (a # as) (b # bs) = (if a = b then if a = 0 then 0 else cmp_strings as bs else uint a - uint b)"
| "cmp_strings _ _ = 0"

lemma cmp_strings_0: "terminated a \<Longrightarrow> terminated b \<Longrightarrow> cmp_strings a b = 0 \<longleftrightarrow> cstr a = cstr b"
  by (induction a b rule: cmp_strings.induct) (auto simp: word_uint_eq_iff)

lemma ece391_strcmp_window:
  "window os w s1 a \<Longrightarrow> window os w s2 b \<Longrightarrow> terminated a \<Longrightarrow> terminated b \<Longrightarrow>
     ece391_strcmp os s1 s2 w = Some (cmp_strings a b)"
proof (induction a b arbitrary: s1 s2 rule: cmp_strings.induct)
  case (1 c as d bs)
  note h = window_tl [OF "1.prems"(1)] window_tl [OF "1.prems"(2)]
  show ?case
  proof (cases "c = d \<and> c \<noteq> 0")
    case True
    then have "ece391_strcmp os (s1 + 1) (s2 + 1) w = Some (cmp_strings as bs)"
      using "1.prems"(3,4) h by (intro "1.IH") auto
    then show ?thesis using True h by (subst ece391_strcmp.simps) simp
  next
    case False
    then show ?thesis using h by (subst ece391_strcmp.simps) auto
  qed
qed simp_all

lemma strncmp_walk_window:
  assumes "window os w s1 a" "window os w s2 b" "0 < n" "n < 2 ^ 32"
    "n \<le> length a \<or> terminated a" "n \<le> length b \<or> terminated b"
  shows "\<exists>r. strncmp_walk os s1 s2 (of_nat n) w = Some r \<and> (r = 0 \<longleftrightarrow> take n (cstr a) = take n (cstr b))"
  using assms
proof (induction n arbitrary: s1 s2 a b)
  case (Suc n)
  obtain c as d bs where ab: "a = c # as" "b = d # bs"
    using Suc.prems(5,6) by (cases a; cases b) auto
  note h = window_tl [OF Suc.prems(1) [unfolded ab(1)]] window_tl [OF Suc.prems(2) [unfolded ab(2)]]
  have n: "(of_nat (Suc n) :: u32) - 1 = of_nat n" by simp
  have z: "(of_nat n :: u32) = 0 \<longleftrightarrow> n = 0" using Suc.prems(4) by (auto simp: word_of_nat_eq_0_iff dest: dvd_imp_le)
  show ?case
  proof (cases "c = d \<and> c \<noteq> 0 \<and> n \<noteq> 0")
    case True
    then have "\<exists>r. strncmp_walk os (s1 + 1) (s2 + 1) (of_nat n) w = Some r \<and> (r = 0 \<longleftrightarrow> take n (cstr as) = take n (cstr bs))"
      using Suc.prems h ab by (intro Suc.IH) auto
    then show ?thesis using True h ab z by (subst strncmp_walk.simps) (simp add: n)
  next
    case False
    then show ?thesis using h ab z by (subst strncmp_walk.simps) (auto simp: n word_uint_eq_iff)
  qed
qed simp

lemma sint_of_int_id: "- (2 ^ 31) \<le> k \<Longrightarrow> k < 2 ^ 31 \<Longrightarrow> sint (of_int k :: u32) = k"
  by (simp add: sint_sbintrunc' signed_take_bit_int_eq_self)

context user_memory begin

lemma ece391_strrev_sim:
  assumes "ok w" "window os w a bs" "strrev bs = Some bs'" "length bs \<le> 2 ^ 31"
  shows "\<exists>w'. ece391_strrev os a w = Some w' \<and> turned w a bs w' bs'"
proof -
  have t: "terminated bs" using assms(3) by (auto simp: strrev_def strlen_eq split: if_splits)
  define n where "n = length (cstr bs)"
  have n: "n < length bs" using t by (simp add: n_def length_cstr_terminated)
  have r: "bs' = strrev_loop bs 0 (int n - 1)" using assms(3) t by (simp add: strrev_def strlen_eq n_def)
  have s: "sint (of_nat n - 1 :: u32) = int n - 1"
    using n assms(4) sint_of_int_id [of "int n - 1"] by simp
  have e: "ece391_strrev os a w = (if int n - 1 \<le> 0 then Some w else strrev_walk os a 0 (int n - 1) w)"
    using ece391_strlen_window [OF assms(2) t] by (simp add: ece391_strrev_def n_def [symmetric] s)
  show ?thesis
  proof (cases "int n - 1 \<le> 0")
    case True
    then have "bs' = bs" unfolding r by (subst strrev_loop.simps) simp
    then show ?thesis using True e assms(1,2) same_outside_refl by (simp add: turned_def)
  next
    case False
    then show ?thesis using e r strrev_walk_sim [OF assms(1,2), of 0 "int n - 1"] n by simp
  qed
qed

lemma itoa_walk_sim:
  assumes "ok w" "window os w a bs" "itoa_loop v r bs p = Some (bs', p')"
  shows "\<exists>w'. itoa_walk os (a + of_nat p) v r w = Some (a + of_nat p', w') \<and> turned w a bs w' bs'"
  using assms
proof (induction v r bs p arbitrary: w rule: itoa_loop.induct)
  case (1 v r bs p)
  show ?case
  proof (cases "v > 0")
    case False
    then show ?thesis using "1.prems" same_outside_refl
      by (subst itoa_walk.simps) (simp add: itoa_loop.simps [of v] turned_def)
  next
    case True
    define d where "d = itoa_lookup ! unat (v mod r)"
    have c: "r \<noteq> 0" "p < length bs" "unat (v mod r) < length itoa_lookup"
      "itoa_loop (v div r) r (bs[p := d]) (p + 1) = Some (bs', p')"
      using "1.prems"(3) True by (simp_all add: itoa_loop.simps [of v] d_def split: if_splits)
    obtain w1 where w1: "ustore os (a + of_nat p) d w = Some w1" "turned w a bs w1 (bs[p := d])"
      using store_turned [OF "1.prems"(1,2) c(2)] by blast
    have "\<exists>w'. itoa_walk os (a + of_nat (p + 1)) (v div r) r w1 = Some (a + of_nat p', w') \<and> turned w1 a (bs[p := d]) w' bs'"
      using w1(2) c unfolding d_def
      by (intro "1.IH" [OF True]) (simp_all add: turned_def del: of_nat_add)
    then obtain w' where w': "itoa_walk os (a + of_nat p + 1) (v div r) r w1 = Some (a + of_nat p', w')" "turned w1 a (bs[p := d]) w' bs'"
      by (auto simp: algebra_simps)
    have "itoa_walk os (a + of_nat p) v r w = Some (a + of_nat p', w')"
      using True c w1(1) w'(1) by (subst itoa_walk.simps) (simp add: d_def)
    then show ?thesis using turned_trans [OF w1(2) w'(2)] by blast
  qed
qed

text \<open>The user library's conversion is the kernel's.\<close>

lemma ece391_itoa_sim:
  assumes "ok w" "window os w a bs" "itoa v bs r = Some bs'" "length bs \<le> 2 ^ 31"
  shows "\<exists>w'. ece391_itoa os v a r w = Some w' \<and> turned w a bs w' bs'"
proof (cases "v = 0")
  case True
  then have l: "0 < length bs" "1 < length (bs[0 := 48])" "bs' = bs[0 := 48, 1 := 0]"
    using assms(3) by (auto simp: itoa_def bind_eq_Some_conv wr_eq_Some)
  obtain w1 where w1: "ustore os (a + of_nat 0) 48 w = Some w1" "turned w a bs w1 (bs[0 := 48])"
    using store_turned [OF assms(1,2) l(1)] by blast
  obtain w2 where w2: "ustore os (a + of_nat 1) 0 w1 = Some w2" "turned w1 a (bs[0 := 48]) w2 (bs[0 := 48, 1 := 0])"
    using store_turned [OF _ _ l(2)] w1(2) unfolding turned_def by blast
  show ?thesis using True w1(1) w2(1) turned_trans [OF w1(2) w2(2)] l(3) by (simp add: ece391_itoa_def)
next
  case False
  then obtain b1 p b2 where b: "itoa_loop v r bs 0 = Some (b1, p)" "p < length b1" "b2 = b1[p := 0]" "strrev b2 = Some bs'"
    using assms(3) by (auto simp: itoa_def bind_eq_Some_conv wr_eq_Some)
  obtain w1 where w1: "itoa_walk os (a + of_nat 0) v r w = Some (a + of_nat p, w1)" "turned w a bs w1 b1"
    using itoa_walk_sim [OF assms(1,2) b(1)] by blast
  obtain w2 where w2: "ustore os (a + of_nat p) 0 w1 = Some w2" "turned w1 a b1 w2 b2"
    using store_turned [of w1 a b1 p 0] w1(2) b(2,3) unfolding turned_def by blast
  obtain w3 where w3: "ece391_strrev os a w2 = Some w3" "turned w2 a b2 w3 bs'"
    using ece391_strrev_sim [of w2 a b2 bs'] w1(2) w2(2) b(4) assms(4) unfolding turned_def by auto
  show ?thesis
    using False w1(1) w2(1) w3(1) turned_trans [OF w1(2) turned_trans [OF w2(2) w3(2)]] by (simp add: ece391_itoa_def)
qed

text \<open>A copy to lower addresses within one buffer, where source and target may overlap.\<close>

lemma ece391_strcpy_down:
  assumes "ok w" "window os w a bs" "d \<le> s" "terminated (drop s bs)"
  shows "\<exists>w'. ece391_strcpy os (a + of_nat d) (a + of_nat s) w = Some w' \<and>
    turned w a bs w' (take d bs @ cstr (drop s bs) @ 0 # drop (d + length (cstr (drop s bs)) + 1) bs)"
  using assms
proof (induction "length (cstr (drop s bs))" arbitrary: d s bs w)
  case 0
  have s: "s < length bs" using 0(5) by (cases "s < length bs") auto
  then have c: "bs ! s = 0" using 0(1) by (auto simp flip: Cons_nth_drop_Suc split: if_splits)
  have l: "d < length bs" using 0(4) s by simp
  obtain w1 where "ustore os (a + of_nat d) 0 w = Some w1" "turned w a bs w1 (bs[d := 0])"
    using store_turned [OF 0(2,3) l] by blast
  moreover have "bs[d := 0] = take d bs @ cstr (drop s bs) @ 0 # drop (d + length (cstr (drop s bs)) + 1) bs"
    using 0(1) l by (simp add: upd_conv_take_nth_drop)
  ultimately show ?case
    using window_load [OF 0(3) s] c by (subst ece391_strcpy.simps) auto
next
  case (Suc n)
  have s: "s < length bs" using Suc(6) by (cases "s < length bs") auto
  then have dr: "drop s bs = bs ! s # drop (Suc s) bs" by (simp add: Cons_nth_drop_Suc)
  have c: "bs ! s \<noteq> 0" "n = length (cstr (drop (Suc s) bs))" "terminated (drop (Suc s) bs)"
    using Suc(2,6) by (auto simp: dr split: if_splits)
  have l: "d < length bs" using Suc(5) s by simp
  obtain w1 where w1: "ustore os (a + of_nat d) (bs ! s) w = Some w1" "turned w a bs w1 (bs[d := bs ! s])"
    using store_turned [OF Suc(3,4) l] by blast
  let ?b = "bs[d := bs ! s]"
  have db: "drop (Suc s) ?b = drop (Suc s) bs" using Suc(5) by simp
  have "\<exists>w'. ece391_strcpy os (a + of_nat (Suc d)) (a + of_nat (Suc s)) w1 = Some w' \<and>
    turned w1 a ?b w' (take (Suc d) ?b @ cstr (drop (Suc s) ?b) @ 0 # drop (Suc d + length (cstr (drop (Suc s) ?b)) + 1) ?b)"
    using Suc(5) w1(2) c db by (intro Suc.hyps(1)) (simp_all add: turned_def)
  then obtain w' where w': "ece391_strcpy os (a + of_nat d + 1) (a + of_nat s + 1) w1 = Some w'"
    "turned w1 a ?b w' (take (Suc d) ?b @ cstr (drop (Suc s) bs) @ 0 # drop (Suc d + length (cstr (drop (Suc s) bs)) + 1) ?b)"
    unfolding db by (auto simp: algebra_simps)
  have e: "take (Suc d) ?b @ cstr (drop (Suc s) bs) @ 0 # drop (Suc d + length (cstr (drop (Suc s) bs)) + 1) ?b =
      take d bs @ cstr (drop s bs) @ 0 # drop (d + length (cstr (drop s bs)) + 1) bs"
    using l c(1) by (simp add: dr take_Suc_conv_app_nth)
  show ?case
    using window_load [OF Suc(4) s] c(1) w1(1) w'(1) turned_trans [OF w1(2) w'(2)] unfolding e
    by (subst ece391_strcpy.simps) simp
qed

end

end
