(* ===== verification/UserPrograms.thy ===== *)
theory UserPrograms
  imports UserLib
begin

text \<open>
  The programs on the disk that do something for the user (\<^verbatim>\<open>syscalls/*.c\<close>), each from its \<open>main\<close> on.
  A local buffer is the address it is given; the result is what
  \<open>main\<close> returns, which the start-up code passes to \<open>halt\<close>.
\<close>

text \<open>Printing a message and returning.\<close>

definition leave_with :: "'w os \<Rightarrow> u32 \<Rightarrow> u8 list \<Rightarrow> 'w \<Rightarrow> (u32 \<times> 'w) option" where
  "leave_with os code t w = map_option (Pair code) (puts_lit os t w)"

section \<open>cat (ece391cat.c)\<close>

partial_function (option) cat_loop :: "'w os \<Rightarrow> u32 \<Rightarrow> u32 \<Rightarrow> 'w \<Rightarrow> (u32 \<times> 'w) option" where
  "cat_loop os fd buf w =
     (case ece391_read os fd buf 1024 w of
        None \<Rightarrow> None
      | Some (cnt, w) \<Rightarrow>
          if cnt = 0 then Some (0, w)
          else if cnt = -1 then leave_with os 3 (bytes ''file read failed'' @ [10]) w
          else (case ece391_write os 1 buf cnt w of
                  None \<Rightarrow> None
                | Some (r, w) \<Rightarrow> if r = -1 then Some (3, w) else cat_loop os fd buf w))"

definition cat_main :: "'w os \<Rightarrow> u32 \<Rightarrow> 'w \<Rightarrow> (u32 \<times> 'w) option" where
  "cat_main os buf w =
     do {
       (r, w) \<leftarrow> ece391_getargs os buf 1024 w;
       if r \<noteq> 0 then leave_with os 3 (bytes ''could not read arguments'' @ [10]) w
       else do {
         (fd, w) \<leftarrow> ece391_open os buf w;
         if fd = -1 then leave_with os 2 (bytes ''file not found'' @ [10]) w
         else cat_loop os fd buf w
       }
     }"

section \<open>ls (ece391ls.c)\<close>

partial_function (option) ls_loop :: "'w os \<Rightarrow> u32 \<Rightarrow> u32 \<Rightarrow> 'w \<Rightarrow> (u32 \<times> 'w) option" where
  "ls_loop os fd buf w =
     (case ece391_read os fd buf 32 w of
        None \<Rightarrow> None
      | Some (cnt, w) \<Rightarrow>
          if cnt = 0 then Some (0, w)
          else if cnt = -1 then leave_with os 3 (bytes ''directory entry read failed'' @ [10]) w
          else (case ustore os (buf + cnt) 10 w of
                  None \<Rightarrow> None
                | Some w \<Rightarrow>
                    (case ece391_write os 1 buf (cnt + 1) w of
                       None \<Rightarrow> None
                     | Some (r, w) \<Rightarrow> if r = -1 then Some (3, w) else ls_loop os fd buf w)))"

definition ls_main :: "'w os \<Rightarrow> u32 \<Rightarrow> 'w \<Rightarrow> (u32 \<times> 'w) option" where
  "ls_main os buf w =
     do {
       (fd, w) \<leftarrow> ece391_open os (rodata os (bytes ''.'')) w;
       if fd = -1 then leave_with os 2 (bytes ''directory open failed'' @ [10]) w
       else ls_loop os fd buf w
     }"

section \<open>grep (ece391grep.c)\<close>

text \<open>The end of the line that begins at \<open>line_end\<close>, at most \<open>last'\<close>.\<close>

partial_function (option) grep_line_end :: "'w os \<Rightarrow> u32 \<Rightarrow> int \<Rightarrow> int \<Rightarrow> 'w \<Rightarrow> int option" where
  "grep_line_end os data last' line_end w =
     (if line_end < last'
      then case uload os (data + of_int line_end) w of
             None \<Rightarrow> None
           | Some c \<Rightarrow> if c \<noteq> 10 then grep_line_end os data last' (line_end + 1) w else Some line_end
      else Some line_end)"

definition grep_print :: "'w os \<Rightarrow> u32 \<Rightarrow> u32 \<Rightarrow> int \<Rightarrow> 'w \<Rightarrow> 'w option" where
  "grep_print os fname data line_start w =
     do {
       w \<leftarrow> ece391_fdputs os 1 fname w;
       w \<leftarrow> puts_lit os (bytes '':'') w;
       w \<leftarrow> ece391_fdputs os 1 (data + of_int line_start) w;
       puts_lit os [10] w
     }"

text \<open>The search in one line: it is printed once, at its first match. \<open>s\<close> points to \<open>char\<close>, which is signed.\<close>

partial_function (option) grep_search ::
  "'w os \<Rightarrow> u32 \<Rightarrow> u32 \<Rightarrow> u32 \<Rightarrow> u32 \<Rightarrow> int \<Rightarrow> int \<Rightarrow> int \<Rightarrow> 'w \<Rightarrow> 'w option" where
  "grep_search os s s_len fname data line_start line_end check w =
     (if check < line_end
      then case uload os s w of None \<Rightarrow> None | Some c \<Rightarrow>
           (case uload os (data + of_int check) w of None \<Rightarrow> None | Some d \<Rightarrow>
           (case (if sint c = uint d then ece391_strncmp os (data + of_int check) s s_len w else Some 1) of
              None \<Rightarrow> None
            | Some r \<Rightarrow>
                if r = 0
                then grep_print os fname data line_start w
                else grep_search os s s_len fname data line_start line_end (check + 1) w))
      else Some w)"

text \<open>The loop over the lines in the buffer; the result is the new \<open>last'\<close>.\<close>

partial_function (option) grep_lines ::
  "'w os \<Rightarrow> u32 \<Rightarrow> u32 \<Rightarrow> u32 \<Rightarrow> u32 \<Rightarrow> u32 \<Rightarrow> int \<Rightarrow> int \<Rightarrow> 'w \<Rightarrow> (int \<times> 'w) option" where
  "grep_lines os s s_len fname data cnt last' line_start w =
     (case grep_line_end os data last' line_start w of None \<Rightarrow> None | Some line_end \<Rightarrow>
     (case uload os (data + of_int line_end) w of None \<Rightarrow> None | Some c \<Rightarrow>
        if c \<noteq> 10 \<and> cnt \<noteq> 0 \<and> line_start \<noteq> 0
        then do {
          w \<leftarrow> ustore os (data + of_int line_end) 0 w;
          w \<leftarrow> ece391_strcpy os data (data + of_int line_start) w;
          Some (last' - line_start, w)
        }
        else case ustore os (data + of_int line_end) 0 w of None \<Rightarrow> None | Some w \<Rightarrow>
            (case grep_search os s s_len fname data line_start line_end line_start w of None \<Rightarrow> None | Some w \<Rightarrow>
               if line_end + 1 \<ge> last' then Some (0, w)
               else grep_lines os s s_len fname data cnt last' (line_end + 1) w)))"

text \<open>The loop over the chunks of a file: \<open>None\<close> in the result is the failed read.\<close>

partial_function (option) grep_chunks ::
  "'w os \<Rightarrow> u32 \<Rightarrow> u32 \<Rightarrow> u32 \<Rightarrow> u32 \<Rightarrow> u32 \<Rightarrow> int \<Rightarrow> 'w \<Rightarrow> (bool \<times> 'w) option" where
  "grep_chunks os fd s s_len fname data last' w =
     (case ece391_read os fd (data + of_int last') (1024 - of_int last') w of None \<Rightarrow> None | Some (cnt, w) \<Rightarrow>
        if cnt = -1 then map_option (Pair False) (puts_lit os (bytes ''file read failed'' @ [10]) w)
        else case grep_lines os s s_len fname data cnt (last' + sint cnt) 0 w of None \<Rightarrow> None | Some (last', w) \<Rightarrow>
               if cnt = 0 then Some (True, w) else grep_chunks os fd s s_len fname data last' w)"

definition do_one_file :: "'w os \<Rightarrow> u32 \<Rightarrow> u32 \<Rightarrow> u32 \<Rightarrow> 'w \<Rightarrow> (u32 \<times> 'w) option" where
  "do_one_file os s fname data w =
     do {
       s_len \<leftarrow> ece391_strlen os s w;
       (fd, w) \<leftarrow> ece391_open os fname w;
       if fd = -1 then leave_with os (-1) (bytes ''file open failed'' @ [10]) w
       else do {
         (good, w) \<leftarrow> grep_chunks os fd s s_len fname data 0 w;
         if \<not> good then Some (-1, w)
         else do {
           (r, w) \<leftarrow> ece391_close os fd w;
           if r = -1 then leave_with os (-1) (bytes ''file close failed'' @ [10]) w else Some (0, w)
         }
       }
     }"

partial_function (option) grep_loop :: "'w os \<Rightarrow> u32 \<Rightarrow> u32 \<Rightarrow> u32 \<Rightarrow> u32 \<Rightarrow> 'w \<Rightarrow> (u32 \<times> 'w) option" where
  "grep_loop os fd buf search data w =
     (case ece391_read os fd buf 32 w of None \<Rightarrow> None | Some (cnt, w) \<Rightarrow>
        if cnt = 0 then Some (0, w)
        else if cnt = -1 then leave_with os 3 (bytes ''directory entry read failed'' @ [10]) w
        else case uload os buf w of None \<Rightarrow> None | Some c \<Rightarrow>
          if c = of_char CHR ''.'' then grep_loop os fd buf search data w
          else case ustore os (buf + cnt) 0 w of None \<Rightarrow> None | Some w \<Rightarrow>
              (case do_one_file os search buf data w of None \<Rightarrow> None | Some (r, w) \<Rightarrow>
                 if r \<noteq> 0 then Some (3, w) else grep_loop os fd buf search data w))"

definition grep_main :: "'w os \<Rightarrow> u32 \<Rightarrow> u32 \<Rightarrow> u32 \<Rightarrow> 'w \<Rightarrow> (u32 \<times> 'w) option" where
  "grep_main os buf search data w =
     do {
       (r, w) \<leftarrow> ece391_getargs os search 1024 w;
       if r \<noteq> 0 then leave_with os 3 (bytes ''could not read argument'' @ [10]) w
       else do {
         (fd, w) \<leftarrow> ece391_open os (rodata os (bytes ''.'')) w;
         if fd = -1 then leave_with os 2 (bytes ''directory open failed'' @ [10]) w
         else grep_loop os fd buf search data w
       }
     }"

section \<open>The shell (ece391shell.c)\<close>

text \<open>The message about how a program ended.\<close>

definition shell_report :: "'w os \<Rightarrow> u32 \<Rightarrow> 'w \<Rightarrow> 'w option" where
  "shell_report os rval w =
     (if rval = -1 then puts_lit os (bytes ''no such command'' @ [10]) w
      else if rval = 256 then puts_lit os (bytes ''program terminated by exception'' @ [10]) w
      else if rval \<noteq> 0 then puts_lit os (bytes ''program terminated abnormally'' @ [10]) w
      else Some w)"

text \<open>The line without its newline, as a string in the buffer.\<close>

definition shell_chop :: "'w os \<Rightarrow> u32 \<Rightarrow> u32 \<Rightarrow> 'w \<Rightarrow> 'w option" where
  "shell_chop os buf cnt w =
     do {
       nl \<leftarrow> (if sint cnt > 0 then map_option (\<lambda>c. c = 10) (uload os (buf + (cnt - 1)) w) else Some False);
       let cnt = (if nl then cnt - 1 else cnt);
       ustore os (buf + cnt) 0 w
     }"

partial_function (option) shell_loop :: "'w os \<Rightarrow> u32 \<Rightarrow> 'w \<Rightarrow> (u32 \<times> 'w) option" where
  "shell_loop os buf w =
     (case puts_lit os (bytes ''391OS> '') w of None \<Rightarrow> None | Some w \<Rightarrow>
     (case ece391_read os 0 buf 1023 w of None \<Rightarrow> None | Some (cnt, w) \<Rightarrow>
        if cnt = -1 then leave_with os 3 (bytes ''read from keyboard failed'' @ [10]) w
        else case shell_chop os buf cnt w of None \<Rightarrow> None | Some w \<Rightarrow>
            (case ece391_strcmp os buf (rodata os (bytes ''exit'')) w of None \<Rightarrow> None | Some r \<Rightarrow>
               if r = 0 then Some (0, w)
               else case uload os buf w of None \<Rightarrow> None | Some c \<Rightarrow>
                 if c = 0 then shell_loop os buf w
                 else case ece391_execute os buf w of None \<Rightarrow> None | Some (rval, w) \<Rightarrow>
                     (case shell_report os rval w of None \<Rightarrow> None | Some w \<Rightarrow> shell_loop os buf w))))"

definition shell_main :: "'w os \<Rightarrow> u32 \<Rightarrow> 'w \<Rightarrow> (u32 \<times> 'w) option" where
  "shell_main os buf w = do { w \<leftarrow> puts_lit os (bytes ''Starting 391 Shell'' @ [10]) w; shell_loop os buf w }"

section \<open>hello, testprint, counter\<close>

definition hello_main :: "'w os \<Rightarrow> u32 \<Rightarrow> 'w \<Rightarrow> (u32 \<times> 'w) option" where
  "hello_main os buf w =
     do {
       w \<leftarrow> puts_lit os (bytes ''Hi, what'' @ [39] @ bytes ''s your name? '') w;
       (cnt, w) \<leftarrow> ece391_read os 0 buf 1023 w;
       if cnt = -1 then leave_with os 3 (bytes ''Can'' @ [39] @ bytes ''t read name from keyboard.'' @ [10]) w
       else do {
         w \<leftarrow> ustore os (buf + cnt) 0 w;
         w \<leftarrow> puts_lit os (bytes ''Hello, '') w;
         w \<leftarrow> ece391_fdputs os 1 buf w;
         Some (0, w)
       }
     }"

definition testprint_main :: "'w os \<Rightarrow> 'w \<Rightarrow> (u32 \<times> 'w) option" where
  "testprint_main os w = leave_with os 0 (bytes ''Hello, if this ran, the program was correct. Yay!'' @ [10]) w"

text \<open>The choice of the upper limit; \<open>None\<close> is the wrong choice.\<close>

definition counter_limit :: "u8 \<Rightarrow> u32 \<Rightarrow> u32 option" where
  "counter_limit c len =
     (if len > 2 \<or> len = 2 \<and> (c < of_char CHR ''0'' \<or> c > of_char CHR ''2'') then None
      else if c = of_char CHR ''0'' then Some 100
      else if c = of_char CHR ''1'' then Some 10000
      else if c = of_char CHR ''2'' then Some 100000
      else Some 0)"

definition counter_print :: "'w os \<Rightarrow> u32 \<Rightarrow> nat \<Rightarrow> 'w \<Rightarrow> 'w option" where
  "counter_print os buf i w =
     do {
       w \<leftarrow> ece391_itoa os (of_nat i + 1) buf 10 w;
       w \<leftarrow> ece391_fdputs os 1 buf w;
       puts_lit os [10] w
     }"

definition counter_main :: "'w os \<Rightarrow> u32 \<Rightarrow> 'w \<Rightarrow> (u32 \<times> 'w) option" where
  "counter_main os buf w =
     do {
       w \<leftarrow> puts_lit os (bytes ''Enter the Test Number: (0): 100, (1): 10000, (2): 100000'' @ [10]) w;
       (cnt, w) \<leftarrow> ece391_read os 0 buf 1023 w;
       if cnt = -1 then leave_with os 3 (bytes ''Can'' @ [39] @ bytes ''t read the number from keyboard.'' @ [10]) w
       else do {
         w \<leftarrow> ustore os (buf + cnt) 0 w;
         len \<leftarrow> ece391_strlen os buf w;
         c \<leftarrow> uload os buf w;
         case counter_limit c len of
           None \<Rightarrow> leave_with os 0 (bytes ''Wrong Choice!'' @ [10]) w
         | Some limit \<Rightarrow> do {
             w \<leftarrow> for_each [0..<unat limit] (counter_print os buf) w;
             Some (0, w)
           }
       }
     }"

end
