(* ===== verification/UserTests.thy ===== *)
theory UserTests
  imports UserPrograms
begin

text \<open>
  The programs that exercise the system calls: \<^verbatim>\<open>ece391syserr.c\<close> (error returns), \<^verbatim>\<open>ece391sigtest.c\<close>
  (signal handlers) and \<^verbatim>\<open>ece391pingpong.c\<close>, which animates a line at the rate of the clock for ever:
  its outer loop is one round here, iterated as often as one asks.
\<close>

section \<open>syserr\<close>

definition NEG_FD :: u32 where "NEG_FD = -1073741823"
definition BIG_FD :: u32 where "BIG_FD = 1073741823"
definition BIG_NUM :: u32 where "BIG_NUM = 1073741823"
definition NEG_NUM :: u32 where "NEG_NUM = -1073741823"

lemmas syserr_numbers = NEG_FD_def BIG_FD_def BIG_NUM_def NEG_NUM_def

text \<open>\<open>call_sys\<close> sets \<open>eax\<close> only: the other registers hold what they happen to hold.\<close>

definition call_sys :: "'w os \<Rightarrow> u32 \<times> u32 \<times> u32 \<Rightarrow> u32 \<Rightarrow> 'w \<Rightarrow> (u32 \<times> 'w) option" where
  "call_sys os regs num w = (case regs of (ebx, ecx, edx) \<Rightarrow> int80 os num ebx ecx edx w)"

text \<open>One check: a call that does not return \<open>-1\<close> sets \<open>fail\<close> and prints a message.\<close>

definition expect_refused ::
  "'w os \<Rightarrow> u8 list \<Rightarrow> ('w \<Rightarrow> (u32 \<times> 'w) option) \<Rightarrow> u32 \<times> 'w \<Rightarrow> (u32 \<times> 'w) option" where
  "expect_refused os msg call fw =
     (case fw of (fail, w) \<Rightarrow>
        do { (r, w) \<leftarrow> call w; if r \<noteq> -1 then leave_with os 2 msg w else Some (fail, w) })"

definition verdict :: "'w os \<Rightarrow> u8 list \<Rightarrow> u32 \<times> 'w \<Rightarrow> (u32 \<times> 'w) option" where
  "verdict os name fw =
     (case fw of (fail, w) \<Rightarrow>
        leave_with os fail (name @ (if fail \<noteq> 0 then bytes '': FAIL'' else bytes '': PASS'') @ [10]) w)"

text \<open>The three calls with a descriptor out of range, for a negative and for a large one.\<close>

definition err_fd :: "'w os \<Rightarrow> u32 \<Rightarrow> u32 \<Rightarrow> u8 list \<Rightarrow> 'w \<Rightarrow> (u32 \<times> 'w) option" where
  "err_fd os fd buf name w =
     do {
       p \<leftarrow> expect_refused os (bytes ''read fail'' @ [10]) (ece391_read os fd buf 31) (0, w);
       p \<leftarrow> expect_refused os (bytes ''write fail'' @ [10]) (ece391_write os fd buf 31) p;
       p \<leftarrow> expect_refused os (bytes ''close fail'' @ [10]) (ece391_close os fd) p;
       verdict os name p
     }"

definition err_neg_fd :: "'w os \<Rightarrow> u32 \<Rightarrow> 'w \<Rightarrow> (u32 \<times> 'w) option" where
  "err_neg_fd os buf w = err_fd os NEG_FD buf (bytes ''err_neg_fd'') w"

definition err_big_fd :: "'w os \<Rightarrow> u32 \<Rightarrow> 'w \<Rightarrow> (u32 \<times> 'w) option" where
  "err_big_fd os buf w = err_fd os BIG_FD buf (bytes ''err_big_fd'') w"

definition open_dot :: "'w os \<Rightarrow> nat \<Rightarrow> u32 \<times> 'w \<Rightarrow> (u32 \<times> 'w) option" where
  "open_dot os i cw =
     (case cw of (cnt, w) \<Rightarrow>
        do { (r, w) \<leftarrow> ece391_open os (rodata os (bytes ''.'')) w; Some (if r = -1 then cnt + 1 else cnt, w) })"

definition err_open_lots :: "'w os \<Rightarrow> 'w \<Rightarrow> (u32 \<times> 'w) option" where
  "err_open_lots os w =
     do {
       (cnt, w) \<leftarrow> for_each [0..<7] (open_dot os) (0, w);
       w \<leftarrow> for_each [2..<8] (\<lambda>i w. do { (r, w) \<leftarrow> ece391_close os (of_nat i) w; Some w }) w;
       verdict os (bytes ''err_open_lots'') (if cnt = 1 then 0 else 2, w)
     }"

definition err_open :: "'w os \<Rightarrow> 'w \<Rightarrow> (u32 \<times> 'w) option" where
  "err_open os w =
     do {
       p \<leftarrow> expect_refused os ([39] @ bytes ''helloo'' @ [39] @ bytes '' fail'' @ [10])
              (ece391_open os (rodata os (bytes ''helloo''))) (0, w);
       p \<leftarrow> expect_refused os ([39] @ bytes ''shel'' @ [39] @ bytes '' fail'' @ [10])
              (ece391_open os (rodata os (bytes ''shel''))) p;
       p \<leftarrow> expect_refused os (bytes ''empty string fail'' @ [10]) (ece391_open os (rodata os [])) p;
       verdict os (bytes ''err_open'') p
     }"

definition err_unopened :: "'w os \<Rightarrow> u32 \<Rightarrow> 'w \<Rightarrow> (u32 \<times> 'w) option" where
  "err_unopened os buf w =
     do {
       p \<leftarrow> for_each [0..<8]
              (\<lambda>i. expect_refused os (bytes ''close unopened or invalid fd fail'' @ [10]) (ece391_close os (of_nat i)))
              (0, w);
       p \<leftarrow> for_each [2..<8]
              (\<lambda>i. expect_refused os (bytes ''read from unopened fd fail'' @ [10]) (ece391_read os (of_nat i) buf 31)) p;
       p \<leftarrow> for_each [2..<8]
              (\<lambda>i. expect_refused os (bytes ''write to unopened fd fail'' @ [10]) (ece391_write os (of_nat i) buf 31)) p;
       verdict os (bytes ''err_unopened'') p
     }"

definition err_vidmap :: "'w os \<Rightarrow> 'w \<Rightarrow> (u32 \<times> 'w) option" where
  "err_vidmap os w =
     do {
       p \<leftarrow> expect_refused os (bytes ''Null pointer fail'' @ [10]) (ece391_vidmap os 0) (0, w);
       p \<leftarrow> expect_refused os (bytes ''Kernel pointer fail fail'' @ [10]) (ece391_vidmap os 0x400000) p;
       verdict os (bytes ''err_vidmap'') p
     }"

definition err_stdin_out :: "'w os \<Rightarrow> u32 \<Rightarrow> 'w \<Rightarrow> (u32 \<times> 'w) option" where
  "err_stdin_out os buf w =
     do {
       p \<leftarrow> expect_refused os (bytes ''write to stdin fail'' @ [10]) (ece391_write os 0 buf 31) (0, w);
       p \<leftarrow> expect_refused os (bytes ''read from stdout fail'' @ [10]) (ece391_read os 1 buf 31) p;
       verdict os (bytes ''err_stdin_out'') p
     }"

definition err_syscall_num :: "'w os \<Rightarrow> u32 \<times> u32 \<times> u32 \<Rightarrow> 'w \<Rightarrow> (u32 \<times> 'w) option" where
  "err_syscall_num os regs w =
     do {
       p \<leftarrow> expect_refused os (bytes ''syscall 0 fail'' @ [10]) (call_sys os regs BIG_NUM) (0, w);
       p \<leftarrow> expect_refused os (bytes ''big num syscall fail'' @ [10]) (call_sys os regs NEG_NUM) p;
       p \<leftarrow> expect_refused os (bytes ''neg num syscall fail'' @ [10]) (call_sys os regs 0) p;
       verdict os (bytes ''err_syscall_num'') p
     }"

text \<open>Running a list of tests and adding up what they return.\<close>

fun run_tests :: "('w \<Rightarrow> (u32 \<times> 'w) option) list \<Rightarrow> u32 \<Rightarrow> 'w \<Rightarrow> (u32 \<times> 'w) option" where
  "run_tests [] fail w = Some (fail, w)"
| "run_tests (t # ts) fail w = do { (r, w) \<leftarrow> t w; run_tests ts (fail + r) w }"

definition syserr_tests :: "'w os \<Rightarrow> u32 \<Rightarrow> u32 \<times> u32 \<times> u32 \<Rightarrow> ('w \<Rightarrow> (u32 \<times> 'w) option) list" where
  "syserr_tests os buf regs =
     [err_neg_fd os buf, err_big_fd os buf, err_open_lots os, err_open os, err_unopened os buf, err_vidmap os,
      err_stdin_out os buf, err_syscall_num os regs]"

definition syserr_main :: "'w os \<Rightarrow> u32 \<Rightarrow> u32 \<Rightarrow> u32 \<times> u32 \<times> u32 \<Rightarrow> 'w \<Rightarrow> (u32 \<times> 'w) option" where
  "syserr_main os buf buf2 regs w =
     do {
       w \<leftarrow> puts_lit os (bytes ''Choose from tests 1-8. 0 to run all: '') w;
       (cnt, w) \<leftarrow> ece391_read os 0 buf 127 w;
       if cnt = -1 then leave_with os 2 (bytes ''Can'' @ [39] @ bytes ''t read test #'' @ [10]) w
       else do {
         c \<leftarrow> uload os buf w;
         let select = uint c - 48;
         if select = 0
         then do {
           (fail, w) \<leftarrow> run_tests (syserr_tests os buf2 regs) 0 w;
           leave_with os fail
             ([10] @ (if fail \<noteq> 0 then bytes ''Overall Tests: FAIL'' else bytes ''Overall Tests: PASS'') @ [10]) w
         }
         else if 1 \<le> select \<and> select \<le> 8 then (syserr_tests os buf2 regs ! nat (select - 1)) w
         else leave_with os 0 (bytes ''Invalid test number. Choose from tests 1-8 or 0'') w
       }
     }"

section \<open>sigtest\<close>

text \<open>
  \<open>charbuf\<close> and \<open>badbuf\<close> are the addresses of the two globals, \<open>badbuf\<close> a pointer that is null at first.
  The kernel has no signals, so that its store faults; a handler, if it were called, would redirect the
  pointer and the saved register that the store is repeated with.
\<close>

definition SEGFAULT :: u32 where "SEGFAULT = 1"
definition ALARM :: u32 where "ALARM = 3"

text \<open>An \<^verbatim>\<open>int\<close> or a pointer of the program, lowest byte first.\<close>

definition store_int :: "'w os \<Rightarrow> u32 \<Rightarrow> u32 \<Rightarrow> 'w \<Rightarrow> 'w option" where
  "store_int os a v w = for_each [0..<4] (\<lambda>i. ustore os (a + of_nat i) (ucast (drop_bit (8 * i) v))) w"

definition load_int :: "'w os \<Rightarrow> u32 \<Rightarrow> 'w \<Rightarrow> u32 option" where
  "load_int os a w =
     do {
       b0 \<leftarrow> uload os a w; b1 \<leftarrow> uload os (a + 1) w; b2 \<leftarrow> uload os (a + 2) w; b3 \<leftarrow> uload os (a + 3) w;
       Some (ucast b0 OR push_bit 8 (ucast b1) OR push_bit 16 (ucast b2) OR push_bit 24 (ucast b3))
     }"

definition print_signum :: "'w os \<Rightarrow> u32 \<Rightarrow> 'w \<Rightarrow> 'w option" where
  "print_signum os signum w =
     puts_lit os
       ((if signum = 0 then bytes ''0'' else if signum = 1 then bytes ''1'' else if signum = 2 then bytes ''2''
         else if signum = 3 then bytes ''3'' else bytes ''invalid'') @ [10]) w"

text \<open>\<open>frame\<close> is the address of the handler's argument, \<open>local\<close> that of its buffer.\<close>

definition segfault_sighandler :: "'w os \<Rightarrow> u32 \<Rightarrow> u32 \<Rightarrow> u32 \<Rightarrow> u32 \<Rightarrow> u32 \<Rightarrow> 'w \<Rightarrow> 'w option" where
  "segfault_sighandler os charbuf badbuf frame local signum w =
     do {
       w \<leftarrow> puts_lit os (bytes ''Segfault signal handler called, signum: '') w;
       w \<leftarrow> print_signum os signum w;
       w \<leftarrow> puts_lit os (bytes ''Press enter to continue...'' @ [10]) w;
       (r, w) \<leftarrow> ece391_read os 0 local 1 w;
       w \<leftarrow> store_int os badbuf charbuf w;
       w \<leftarrow> store_int os (frame + 28) charbuf w;
       puts_lit os (bytes ''Signal handler returning'' @ [10]) w
     }"

definition alarm_sighandler :: "'w os \<Rightarrow> u32 \<Rightarrow> 'w \<Rightarrow> 'w option" where
  "alarm_sighandler os signum w =
     do {
       w \<leftarrow> puts_lit os (bytes ''Alarm signal handler called, signum: '') w;
       print_signum os signum w
     }"

definition sigtest_handlers :: "'w os \<Rightarrow> u32 \<Rightarrow> u32 \<Rightarrow> 'w \<Rightarrow> 'w option" where
  "sigtest_handlers os segfault alarm w =
     do {
       w \<leftarrow> puts_lit os (bytes ''Installing signal handlers'' @ [10]) w;
       (r, w) \<leftarrow> ece391_set_handler os SEGFAULT segfault w;
       (r, w) \<leftarrow> ece391_set_handler os ALARM alarm w;
       Some w
     }"

definition sigtest_main :: "'w os \<Rightarrow> u32 \<Rightarrow> u32 \<Rightarrow> u32 \<Rightarrow> u32 \<Rightarrow> u32 \<Rightarrow> 'w \<Rightarrow> (u32 \<times> 'w) option" where
  "sigtest_main os buf charbuf badbuf segfault alarm w =
     do {
       (r, w) \<leftarrow> ece391_getargs os buf 1024 w;
       if r \<noteq> 0 then leave_with os 3 (bytes ''could not read argument'' @ [10]) w
       else do {
         c \<leftarrow> uload os buf w;
         w \<leftarrow> (if c = of_char CHR ''1'' then sigtest_handlers os segfault alarm w else Some w);
         w \<leftarrow> puts_lit os (bytes ''Hi, what'' @ [39] @ bytes ''s your name? '') w;
         (cnt, w) \<leftarrow> ece391_read os 0 buf 1023 w;
         if cnt = -1 then leave_with os 3 (bytes ''Can'' @ [39] @ bytes ''t read name from keyboard.'' @ [10]) w
         else do {
           p \<leftarrow> load_int os badbuf w;
           w \<leftarrow> ustore os p 1 w;
           w \<leftarrow> ustore os (buf + cnt) 0 w;
           w \<leftarrow> puts_lit os (bytes ''Hello, '') w;
           w \<leftarrow> ece391_fdputs os 1 buf w;
           b \<leftarrow> uload os charbuf w;
           leave_with os 0 (if b = 1 then bytes ''success'' @ [10] else bytes ''failure'' @ [10]) w
         }
       }
     }"

section \<open>pingpong\<close>

definition SCREENWIDTH :: nat where "SCREENWIDTH = 79"
definition ENDING :: nat where "ENDING = 2"
definition BUFMAX :: nat where "BUFMAX = SCREENWIDTH + ENDING"
definition START :: nat where "START = 1"
definition STARTLOOP :: nat where "STARTLOOP = START + 1"
definition LOOPMAX :: nat where "LOOPMAX = SCREENWIDTH + ENDING - ENDING - 1"
definition STARTCHAR :: u8 where "STARTCHAR = of_char CHR ''A''"
definition ENDCHAR :: u8 where "ENDCHAR = of_char CHR ''Z''"

lemmas pingpong_numbers = SCREENWIDTH_def ENDING_def BUFMAX_def START_def STARTLOOP_def LOOPMAX_def STARTCHAR_def ENDCHAR_def

definition spaces :: "'w os \<Rightarrow> u32 \<Rightarrow> nat list \<Rightarrow> 'w \<Rightarrow> 'w option" where
  "spaces os buf is w = for_each is (\<lambda>i. ustore os (buf + of_nat i) 32) w"

definition pingpong_init :: "'w os \<Rightarrow> u32 \<Rightarrow> 'w \<Rightarrow> 'w option" where
  "pingpong_init os buf w =
     do {
       w \<leftarrow> spaces os buf [0..<BUFMAX] w;
       w \<leftarrow> ustore os (buf + of_nat (BUFMAX - 1)) 0 w;
       w \<leftarrow> ustore os (buf + of_nat (BUFMAX - 2)) 10 w;
       w \<leftarrow> ustore os (buf + of_nat (BUFMAX - 3)) (of_char CHR ''|'') w;
       ustore os (buf + of_nat START) (of_char CHR ''|'') w
     }"

definition pingpong_draw :: "'w os \<Rightarrow> u32 \<Rightarrow> u32 \<Rightarrow> u32 \<Rightarrow> u8 \<Rightarrow> nat \<Rightarrow> 'w \<Rightarrow> 'w option" where
  "pingpong_draw os buf rtc_fd garbage curchar j w =
     do {
       w \<leftarrow> spaces os buf [STARTLOOP..<LOOPMAX] w;
       w \<leftarrow> ustore os (buf + of_nat j) curchar w;
       w \<leftarrow> ece391_fdputs os 1 buf w;
       (r, w) \<leftarrow> ece391_read os rtc_fd garbage 4 w;
       Some w
     }"

definition pingpong_round :: "'w os \<Rightarrow> u32 \<Rightarrow> u32 \<Rightarrow> u32 \<Rightarrow> u8 \<times> 'w \<Rightarrow> (u8 \<times> 'w) option" where
  "pingpong_round os buf rtc_fd garbage cw =
     (case cw of (curchar, w) \<Rightarrow>
        do {
          w \<leftarrow> for_each [STARTLOOP..<LOOPMAX] (pingpong_draw os buf rtc_fd garbage curchar) w;
          w \<leftarrow> for_each (rev [STARTLOOP..<LOOPMAX]) (pingpong_draw os buf rtc_fd garbage curchar) w;
          Some (if curchar = ENDCHAR then STARTCHAR else curchar + 1, w)
        })"

definition pingpong_main :: "'w os \<Rightarrow> u32 \<Rightarrow> u32 \<Rightarrow> u32 \<Rightarrow> nat \<Rightarrow> 'w \<Rightarrow> (u8 \<times> 'w) option" where
  "pingpong_main os buf ret_val garbage rounds w =
     do {
       w \<leftarrow> pingpong_init os buf w;
       (rtc_fd, w) \<leftarrow> ece391_open os (rodata os (bytes ''rtc'')) w;
       w \<leftarrow> store_int os ret_val 32 w;
       (r, w) \<leftarrow> ece391_write os rtc_fd ret_val 4 w;
       w \<leftarrow> store_int os ret_val r w;
       for_each [0..<rounds] (\<lambda>_. pingpong_round os buf rtc_fd garbage) (STARTCHAR, w)
     }"

end
