(* ===== verification/UserKernel.thy ===== *)
theory UserKernel
  imports UserTests
begin

text \<open>
  The kernel as the machine under the programs: loads and stores go through the page tables as user
  code, \<^verbatim>\<open>int 0x80\<close> is the dispatcher. What a started program does until it halts, or a call that does
  not return, is a parameter. The laws of memory hold in every state of the kernel's invariant.
\<close>

section \<open>The instance\<close>

definition user_load :: "u32 \<Rightarrow> machine \<Rightarrow> u8 option" where
  "user_load a s = (case user_access s a of None \<Rightarrow> None | Some (f, k) \<Rightarrow> Some (frames s f k))"

definition user_store :: "u32 \<Rightarrow> u8 \<Rightarrow> machine \<Rightarrow> machine option" where
  "user_store a v s = (case user_access s a of None \<Rightarrow> None | Some (f, k) \<Rightarrow> Some (poke f k v s))"

record kernel_context =
  ctx_hw :: device
  ctx_env :: interference
  ctx_run :: "exec_outcome \<Rightarrow> (u32 \<times> machine) option"
  ctx_literals :: "u8 list \<Rightarrow> u32"

definition kernel_os :: "kernel_context \<Rightarrow> machine os" where
  "kernel_os c =
     \<lparr>uload = user_load, ustore = user_store, rodata = ctx_literals c,
      int80 = (\<lambda>eax ebx ecx edx s.
        case sys_call (ctx_hw c) (ctx_env c) eax ebx ecx edx s of
          Some (CallReturns v s) \<Rightarrow> Some (v, s)
        | Some (CallExec r) \<Rightarrow> ctx_run c r
        | _ \<Rightarrow> None)\<rparr>"

lemma kernel_os_sel [simp]:
  "uload (kernel_os c) = user_load" "ustore (kernel_os c) = user_store" "rodata (kernel_os c) = ctx_literals c"
  by (simp_all add: kernel_os_def)

lemma kernel_calls:
  "ece391_write (kernel_os c) fd buf n s =
     map_option (\<lambda>(r, s). (of_int r, s)) (sys_write (ctx_hw c) (sint fd) buf (sint n) s)"
  "ece391_open (kernel_os c) f s =
     map_option (\<lambda>(r, s). (of_int r, s)) (sys_open (ctx_hw c) (user_string f s) s)"
  "ece391_close (kernel_os c) fd s = map_option (\<lambda>(r, s). (of_int r, s)) (sys_close (sint fd) s)"
  "ece391_getargs (kernel_os c) buf n s = map_option (\<lambda>(r, s). (of_int r, s)) (getargs buf (sint n) s)"
  "ece391_vidmap (kernel_os c) buf s = map_option (\<lambda>(r, s). (of_int r, s)) (vidmap buf s)"
  "ece391_read (kernel_os c) fd buf n s =
     (case sys_read (ctx_env c) (sint fd) buf (sint n) s of
        Some (Returned (r, s)) \<Rightarrow> Some (of_int r, s)
      | _ \<Rightarrow> None)"
  by (auto simp: wrapper_defs sys_numbers kernel_os_def sys_call_def call_value_def call_blocking_def
      split: option.split blocking.split)

section \<open>Addresses and frames\<close>

lemma addr_determined:
  assumes "dir_ix a = dir_ix b" "tab_ix a = tab_ix b" "page_off a = page_off b"
  shows "a = b"
proof (rule bit_word_eqI)
  fix n assume n: "n < LENGTH(32)"
  have d: "bit (dir_ix a) i = bit (dir_ix b) i" "bit (tab_ix a) i = bit (tab_ix b) i" for i using assms by simp_all
  have o: "(a AND 0xFFF) = (b AND 0xFFF)" using assms(3) by (simp add: page_off_def word_unat_eq_iff)
  have m: "(0xFFF :: u32) = mask 12" by (simp add: mask_eq_exp_minus_1)
  consider "n < 12" | "12 \<le> n" "n < 22" | "22 \<le> n" by linarith
  then show "bit a n = bit b n"
  proof cases
    case 1
    have "bit (a AND mask 12) n = bit (b AND mask 12) n" using o unfolding m by simp
    then show ?thesis using 1 by (simp add: bit_and_iff bit_mask_iff)
  next
    case 2
    then have "n - 12 < 10" by simp
    then show ?thesis using 2 d(2) [of "n - 12"] by (simp add: tab_ix_def bit_ucast_iff bit_drop_bit_eq)
  next
    case 3
    then have "n - 22 < 10" using n by simp
    then show ?thesis using 3 d(1) [of "n - 22"] n by (simp add: dir_ix_def bit_ucast_iff bit_drop_bit_eq)
  qed
qed

lemma user_access_cases:
  assumes "confined s" "user_access s a = Some (f, k)"
  obtains p where "p < 6" "dir_ix a = 32" "unat f = 0x800 + 0x400 * p + unat (tab_ix a)" "program_frame s = get_phys_addr (int p)" "k = page_off a"
  | "dir_ix a = 35" "tab_ix a = 10" "unat f < 0x800" "k = page_off a"
proof -
  have w: "paging_wf s" and v: "video_frame s \<in> {0xB8, 0xBA, 0xBB, 0xBC}" using assms(1) by (simp_all add: confined_def)
  obtain p where p: "p < 6" "program_frame s = get_phys_addr (int p)" using assms(1) by (auto simp: confined_def)
  have "unat (video_frame s) < 0x800" using v by (elim insertE emptyE) simp_all
  then show thesis
    using that(1) [OF p(1) _ _ p(2)] that(2) assms(2) mmu_walk_wf [OF w, of a] phys_addr_or [OF p(1), of "tab_ix a"] p(2)
    by (auto simp: user_access_def split: option.splits prod.splits bool.splits if_splits)
qed

lemma user_access_inject:
  assumes "confined s" "user_access s a = Some (f, k)" "user_access s b = Some (f, k)"
  shows "a = b"
  using user_access_cases [OF assms(1,2)]
proof cases
  case (1 p)
  from user_access_cases [OF assms(1,3)] show ?thesis
  proof cases
    case (1 q)
    have "get_phys_addr (int p) = get_phys_addr (int q)" using \<open>program_frame s = get_phys_addr (int p)\<close> 1(4) by simp
    then have "p = q" using \<open>p < 6\<close> 1(1) phys_addr_or [of p 0] phys_addr_or [of q 0] by simp
    then have "unat (tab_ix a) = unat (tab_ix b)" using 1(3) \<open>unat f = 0x800 + 0x400 * p + unat (tab_ix a)\<close> by simp
    then show ?thesis
      using 1 \<open>dir_ix a = 32\<close> \<open>k = page_off a\<close> by (intro addr_determined) (simp_all add: word_unat_eq_iff)
  next
    case 2
    then show ?thesis using \<open>unat f = 0x800 + 0x400 * p + unat (tab_ix a)\<close> by simp
  qed
next
  case 2
  from user_access_cases [OF assms(1,3)] show ?thesis
    by cases (use 2 in \<open>auto intro: addr_determined\<close>)
qed

lemma frames_poke: "frames (poke f k v s) = (frames s)(f := (frames s f)(k := v))"
  by (simp add: poke_def)

lemma user_access_poke: "user_access (poke f k v s) a = user_access s a"
proof -
  have w: "walk_table (poke f k v s) = walk_table s" "directoryArray (poke f k v s) = directoryArray s"
    "paging_on (poke f k v s) = paging_on s"
    by (simp_all add: fun_eq_iff walk_table_def poke_def)
  have "mmu_walk (poke f k v s) a = mmu_walk s a" unfolding mmu_walk_def w ..
  then show ?thesis by (simp add: user_access_def)
qed

lemma confined_poke: "confined (poke f k v s) = confined s"
  by (rule confined_cong) (simp add: poke_def core.proj_frames)

interpretation kernel: user_memory "kernel_os c" confined for c
proof
  fix s :: machine and a v
  assume s: "confined s" "uload (kernel_os c) a s \<noteq> None"
  then obtain f k where f: "user_access s a = Some (f, k)" by (auto simp: user_load_def split: option.splits)
  have "user_load b (poke f k v s) = (if b = a then Some v else user_load b s)" for b
  proof (cases "user_access s b")
    case None
    then show ?thesis using f by (auto simp: user_load_def user_access_poke)
  next
    case (Some q)
    obtain g j where q: "q = (g, j)" by (cases q)
    have "b = a \<longleftrightarrow> (g, j) = (f, k)" using user_access_inject [OF s(1) f, of b] f Some q by auto
    then show ?thesis using Some q by (auto simp: user_load_def user_access_poke frames_poke)
  qed
  then show "\<exists>s'. ustore (kernel_os c) a v s = Some s' \<and> confined s' \<and>
      (\<forall>b. uload (kernel_os c) b s' = (if b = a then Some v else uload (kernel_os c) b s))"
    using s(1) f by (auto simp: user_store_def confined_poke)
qed

section \<open>The program's page\<close>

definition useg :: "machine \<Rightarrow> nat \<Rightarrow> nat \<Rightarrow> u8 list" where
  "useg s k n = map (umem s) [k..<k + n]"

lemma length_useg [simp]: "length (useg s k n) = n"
  by (simp add: useg_def)

lemma nth_useg [simp]: "i < n \<Longrightarrow> useg s k n ! i = umem s (k + i)"
  by (simp add: useg_def)

lemma useg_Suc: "useg s k (Suc n) = umem s k # useg s (Suc k) n"
  by (simp add: useg_def upt_conv_Cons del: upt_Suc)

lemma useg_add: "useg s k (m + n) = useg s k m @ useg s (k + m) n"
  by (rule nth_equalityI) (auto simp: nth_append)

lemma user_load_page: "paging_wf s \<Longrightarrow> k < 0x400000 \<Longrightarrow> user_load (0x8000000 + of_nat k) s = Some (umem s k)"
proof -
  assume a: "paging_wf s" "k < 0x400000"
  have "ucast (of_nat (k div 4096) :: 10 word) = (of_nat (k div 4096) :: 20 word)"
    using a(2) by (simp add: unsigned_of_nat take_bit_nat_eq_self)
  then show ?thesis using a
    by (simp add: user_load_def user_access_def mmu_walk_wf user_parts umem_def user_frame_def)
qed

lemma kload_page: "paging_wf s \<Longrightarrow> k < 0x400000 \<Longrightarrow> kload s (0x8000000 + of_nat k) = Some (umem s k)"
  using load_bytes_user [of s k 1] by (simp add: load_bytes.simps split: option.splits)

lemma window_page:
  assumes "paging_wf s" "k + n \<le> 0x400000"
  shows "window (kernel_os c) s (0x8000000 + of_nat k) (useg s k n)"
  unfolding window_def
proof (intro conjI allI impI)
  fix i assume "i < length (useg s k n)"
  then show "uload (kernel_os c) (0x8000000 + of_nat k + of_nat i) s = Some (useg s k n ! i)"
    using user_load_page [OF assms(1), of "k + i"] assms(2) by (simp add: add.assoc)
qed (use assms in simp)

lemma load_string_page:
  "paging_wf s \<Longrightarrow> k + n \<le> 0x400000 \<Longrightarrow> terminated (useg s k n) \<Longrightarrow> n \<le> N \<Longrightarrow>
     load_string (0x8000000 + of_nat k) N s = cstr (useg s k n) @ [0]"
proof (induction n arbitrary: k N)
  case (Suc n)
  then have k: "k < 0x400000" "0 < N" by simp_all
  have a: "(0x8000000 :: u32) + of_nat k + 1 = 0x8000000 + of_nat (Suc k)" by simp
  show ?case
  proof (cases "umem s k = 0")
    case True
    then show ?thesis using kload_page [OF Suc.prems(1) k(1)] k(2)
      by (subst load_string.simps) (simp add: useg_Suc)
  next
    case False
    then have "load_string (0x8000000 + of_nat (Suc k)) (N - 1) s = cstr (useg s (Suc k) n) @ [0]"
      using Suc.prems by (intro Suc.IH) (simp_all add: useg_Suc)
    then show ?thesis using False kload_page [OF Suc.prems(1) k(1)] k(2)
      by (subst load_string.simps) (simp add: useg_Suc a del: of_nat_Suc)
  qed
qed (simp add: useg_def)

lemma user_string_page:
  assumes "paging_wf s" "k + n \<le> 0x400000" "terminated (useg s k n)"
  shows "user_string (0x8000000 + of_nat k) s = cstr (useg s k n) @ [0]"
  unfolding user_string_def using assms by (intro load_string_page) simp_all

lemma user_view_page:
  assumes "paging_wf s" "k + L \<le> 0x400000" "terminated (useg s k L)" "n \<le> L"
  shows "terminated (user_view (0x8000000 + of_nat k) n s)" "cstr (user_view (0x8000000 + of_nat k) n s) = cstr (useg s k L)"
    "n \<le> length (user_view (0x8000000 + of_nat k) n s)" "take n (user_view (0x8000000 + of_nat k) n s) = useg s k n"
proof -
  have kn: "k + n \<le> 0x400000" using assms(2,4) by simp
  have l: "load_bytes (0x8000000 + of_nat k) n s = useg s k n"
    using load_bytes_user [OF assms(1) kn] by (simp add: useg_def)
  let ?r = "load_string (0x8000000 + of_nat k + of_nat n) 0x100000000 s"
  have v: "user_view (0x8000000 + of_nat k) n s = useg s k n @ ?r"
    by (simp add: user_view_def l Let_def)
  have split: "useg s k L = useg s k n @ useg s (k + n) (L - n)" using useg_add [of s k n "L - n"] assms(4) by simp
  have r: "?r = cstr (useg s (k + n) (L - n)) @ [0]" if "\<not> terminated (useg s k n)"
  proof -
    have "terminated (useg s (k + n) (L - n))" using assms(3) that unfolding split by (simp add: terminated_def)
    then show ?thesis using load_string_page [OF assms(1), of "k + n" "L - n"] assms(2,4) by (simp add: add.assoc)
  qed
  show "terminated (user_view (0x8000000 + of_nat k) n s)"
    unfolding v using r by (cases "terminated (useg s k n)") (simp_all add: terminated_def)
  show "cstr (user_view (0x8000000 + of_nat k) n s) = cstr (useg s k L)"
    unfolding v split using r zero_notin_cstr by (auto simp: cstr_append_if cstr_append cstr_no_zero)
  show "n \<le> length (user_view (0x8000000 + of_nat k) n s)" "take n (user_view (0x8000000 + of_nat k) n s) = useg s k n"
    unfolding v by simp_all
qed

lemma useg_stored:
  assumes "stored k vs s s'" "k + length vs \<le> 0x400000" "length vs \<le> n" "k + n \<le> 0x400000"
  shows "useg s' k n = vs @ drop (length vs) (useg s k n)"
proof (rule nth_equalityI)
  fix i assume "i < length (useg s' k n)"
  then show "useg s' k n ! i = (vs @ drop (length vs) (useg s k n)) ! i"
    using assms by (auto simp: stored_def nth_append)
qed (use assms in simp)

end
