(* ===== verification/UserFacts.thy ===== *)
theory UserFacts
  imports UserKernel
begin

text \<open>
  Programs on the kernel: what a program run on the model of the system calls puts on the screen.
\<close>

section \<open>System calls from a program\<close>

lemma video_not_user: "confined s \<Longrightarrow> \<forall>j < 0x400000. video_frame s \<noteq> user_frame s j"
proof (intro allI impI)
  fix j :: nat assume c: "confined s" and j: "j < 0x400000"
  obtain p where p: "p < 6" "program_frame s = get_phys_addr (int p)" using c by (auto simp: confined_def)
  have v: "unat (video_frame s) < 0x800" using c by (auto simp: confined_def)
  have "user_frame s j = (get_phys_addr (int p) AND 0xFFC00) OR ucast (of_nat (j div 4096) :: 10 word)"
    using j p(2) by (simp add: user_frame_def unsigned_of_nat take_bit_nat_eq_self)
  then have "0x800 \<le> unat (user_frame s j)" using phys_addr_or [OF p(1), of "of_nat (j div 4096)"] by simp
  with v show "video_frame s \<noteq> user_frame s j" by auto
qed

lemma stored_vpage: "stored k vs s t \<Longrightarrow> confined s \<Longrightarrow> vpage t = vpage s"
  using video_not_user [of s] stored_fields(5) [of k vs s t] by (auto simp: stored_def vpage_def)

lemma stored_confined: "stored k vs s t \<Longrightarrow> confined t = confined s"
  unfolding stored_def by (metis confined_cong core.proj_frames)

lemma with_fd_confined: "confined (with_fd n e s) = confined s"
  by (rule confined_cong) (auto simp: core_def with_fd_def)

lemma not_minus_one: "n < 2 ^ 32 - 1 \<Longrightarrow> (of_nat n :: u32) \<noteq> -1"
proof
  assume n: "n < 2 ^ 32 - 1" and "(of_nat n :: u32) = -1"
  then have "unat (of_nat n :: u32) = unat (-1 :: u32)" by simp
  also have "unat (-1 :: u32) = 4294967295" by (simp add: unsigned_minus_1_eq_mask mask_eq_exp_minus_1)
  finally have "take_bit 32 n = 4294967295" by (simp add: unsigned_of_nat)
  with n show False by (simp add: take_bit_nat_eq_self)
qed

lemma useg_with_fd [simp]: "useg (with_fd n e s) k m = useg s k m"
proof -
  have "umem (with_fd n e s) j = umem s j" for j by (simp add: umem_def user_frame_def with_fd_def program_frame_def)
  then show ?thesis by (simp add: useg_def)
qed

lemma write_console_cong:
  "terminals t = terminals s \<Longrightarrow> scheduled_terminal t = scheduled_terminal s \<Longrightarrow> vpage t = vpage s \<Longrightarrow>
     write_console t n k = write_console s n k"
  by (simp add: write_console_def write_shift_def Let_def)

lemma file_read_bytes:
  assumes "proc_ok s" "fs_wf s" "paging_wf s" "file_fd s fd"
    and "numInodes s = Some m" "inode_num e < m" "e = fd_array (cur s) ! fd"
    and "n < 2 ^ 31" "unat (file_position e) + n < 2 ^ 32" "k + n \<le> 0x400000"
    and out: "out = slice (unat (file_position e)) n (file_content s (inode_num e))"
  shows "\<exists>t. stored k out s t \<and>
    ece391_read (kernel_os c) (of_nat fd) (0x8000000 + of_nat k) (of_nat n) s =
      Some (of_nat (length out), with_fd fd (e\<lparr>file_position := file_position e + of_nat (length out)\<rparr>) t)"
proof -
  have fd: "sint (of_nat fd :: u32) = int fd" "sint (of_nat n :: u32) = int n"
    using assms(4,8) sint_of_int_id [of "int fd"] sint_of_int_id [of "int n"] by (simp_all add: file_fd_def)
  have b: "inode_num (fd_array (cur s) ! fd) < m" "(0 :: int) \<le> int n" "unat (file_position e) + nat (int n) < 2 ^ 32"
    "k + nat (int n) \<le> 0x400000" "out = slice (unat (file_position e)) (nat (int n)) (file_content s (inode_num e))"
    using assms(6,7,9,10) out by simp_all
  obtain t where "stored k out s t" "sys_read (ctx_env c) (int fd) (0x8000000 + of_nat k) (int n) s =
      Some (Returned (int (length out), with_fd fd (e\<lparr>file_position := file_position e + of_nat (length out)\<rparr>) t))"
    using sys_read_file [OF assms(1-5) b(1) assms(7) b(2-4), of "ctx_env c"] unfolding b(5) [symmetric] by blast
  then show ?thesis by (intro exI [of _ t]) (simp add: kernel_calls fd)
qed

lemma file_read_call:
  assumes "proc_ok s" "fs_wf s" "paging_wf s" "file_fd s fd"
    and "numInodes s = Some m" "inode_num e < m" "e = fd_array (cur s) ! fd"
    and "unat (file_position e) + 1024 < 2 ^ 32" "k + 1024 \<le> 0x400000"
    and out: "out = slice (unat (file_position e)) 1024 (file_content s (inode_num e))"
  shows "\<exists>t. stored k out s t \<and>
    ece391_read (kernel_os c) (of_nat fd) (0x8000000 + of_nat k) 1024 s =
      Some (of_nat (length out), with_fd fd (e\<lparr>file_position := file_position e + of_nat (length out)\<rparr>) t)"
  using file_read_bytes [OF assms(1-7) _ assms(8,9) out] by simp

text \<open>Writing to the terminal prints the whole string in the buffer, whatever the number of bytes says.\<close>

lemma terminal_call:
  assumes "confined s" "proc_ok s" "flags (fd_array (cur s) ! 1) = 1" "file_op_table_ptr (fd_array (cur s) ! 1) = Some TerminalOps"
    and kb: "length (keyboard_buffer (terminals s (scheduled_terminal s))) = 129"
    and col: "unat (char_in_line (terminals s (scheduled_terminal s))) < 80"
    and k: "k + 1024 \<le> 0x400000" and seg: "terminated (useg s k 1024)" "msg = cstr (useg s k 1024)"
    and msg: "plain msg" "0 < L" "L \<le> 1024"
  shows "\<exists>s'. ece391_write (kernel_os c) 1 (0x8000000 + of_nat k) (of_nat L) s = Some (of_nat (min L (Suc (length msg))), s') \<and>
    vpage s' = fst (fold con_putc msg (write_console s (int L) 0)) \<and> rest s' = rest s \<and> confined s'"
proof -
  have wf: "paging_wf s" using assms(1) by (simp add: confined_def)
  define v where "v = user_view (0x8000000 + of_nat k) L s"
  have v: "terminated v" "cstr v = msg" "L \<le> length v"
    using user_view_page [OF wf k seg(1) msg(3)] seg(2) by (simp_all add: v_def)
  have scan: "write_scan v (nat (int L)) 0 0 = Some (int (min L (Suc (length msg))), 0)"
    using write_scan_string [OF msg(1), of _ L 0 0] cstr_decomp [OF v(1)] v(2) by (metis add_0 nat_int)
  obtain p x y where w: "write_console s (int L) 0 = (p, x, y)" by (rule prod_cases3)
  have "y \<le> 24" "x < 80" using write_console_bounds [of 0 s "int L"] w col by simp_all
  then have fits: "con_fits (cstr v) (write_console s (int L) 0)"
    unfolding w v(2) using plain_newlines [OF msg(1)] by (intro con_fits_line) simp_all
  obtain s' where s': "terminal_write 1 v (int L) s = Some (int (min L (Suc (length msg))), s')"
    "vpage s' = fst (fold con_putc msg (write_console s (int L) 0))"
    using terminal_write_shows [OF wf kb _ _ _ v(1) scan _ fits, of 1] msg(2,3) v(2,3) by auto
  have "sint (of_nat L :: u32) = int L" using sint_of_int_id [of "int L"] msg(3) by simp
  then have "ece391_write (kernel_os c) 1 (0x8000000 + of_nat k) (of_nat L) s = Some (of_nat (min L (Suc (length msg))), s')"
    using s'(1) assms(2-4) by (simp add: kernel_calls sys_write_def FD_ARRAY_LENGTH_def call_write_def v_def)
  moreover have "rest s' = rest s" by (rule rest.proj_terminal_write [OF s'(1)])
  moreover have "confined s'" using confined_cong [OF core.proj_terminal_write [OF s'(1)]] assms(1) by simp
  ultimately show ?thesis using s'(2) by blast
qed

section \<open>cat\<close>

text \<open>
  \<open>cat\<close> on a file shorter than its buffer: one read delivers the file, one write prints the buffer, and
  the next read is at the end. The buffer held the file's name, so that a file shorter than its own
  name is followed by the rest of the name; a NUL ends what is shown.
\<close>

lemma cat_loop_end:
  assumes "confined s" "proc_ok s" "fs_wf s" "file_fd s fd" "numInodes s = Some m"
    and "e = fd_array (cur s) ! fd" "inode_num e < m" "k + 1024 \<le> 0x400000"
    and "unat (file_position e) = length (file_content s (inode_num e))" "length (file_content s (inode_num e)) < 1024"
  shows "\<exists>s'. cat_loop (kernel_os c) (of_nat fd) (0x8000000 + of_nat k) s = Some (0, s') \<and> vpage s' = vpage s"
proof -
  have h: "paging_wf s" "unat (file_position e) + 1024 < 2 ^ 32" "[] = slice (unat (file_position e)) 1024 (file_content s (inode_num e))"
    "e\<lparr>file_position := file_position e + of_nat (length ([] :: u8 list))\<rparr> = e"
    using assms(1,9,10) by (simp_all add: confined_def slice_def)
  obtain t where t: "stored k [] s t"
    "ece391_read (kernel_os c) (of_nat fd) (0x8000000 + of_nat k) 1024 s = Some (0, with_fd fd e t)"
    using file_read_call [OF assms(2,3) h(1) assms(4,5,7,6) h(2) assms(8) h(3), of c] unfolding h(4) by auto
  have "cat_loop (kernel_os c) (of_nat fd) (0x8000000 + of_nat k) s = Some (0, with_fd fd e t)"
    using t(2) by (subst cat_loop.simps) simp
  moreover have "vpage (with_fd fd e t) = vpage s"
    using stored_vpage [OF t(1) assms(1)] by (simp add: with_fd_def vpage_def video_frame_def)
  ultimately show ?thesis by blast
qed

lemma cat_loop_whole:
  assumes s: "confined s" "proc_ok s" "fs_wf s" "file_fd s fd" "numInodes s = Some m"
    and e: "e = fd_array (cur s) ! fd" "inode_num e < m" "file_position e = 0"
    and out: "flags (fd_array (cur s) ! 1) = 1" "file_op_table_ptr (fd_array (cur s) ! 1) = Some TerminalOps"
    and t: "length (keyboard_buffer (terminals s (scheduled_terminal s))) = 129"
      "unat (char_in_line (terminals s (scheduled_terminal s))) < 80"
    and k: "k + 1024 \<le> 0x400000" and seg: "useg s k 1024 = name @ replicate (1024 - length name) 0"
    and cont: "content = file_content s (inode_num e)" "0 < length content" "length content < 1024"
    and msg: "length name < 1024" "shown = cstr (content @ drop (length content) name)" "plain shown"
  shows "\<exists>s'. cat_loop (kernel_os c) (of_nat fd) (0x8000000 + of_nat k) s = Some (0, s') \<and>
    vpage s' = fst (fold con_putc shown (write_console s (int (length content)) 0))"
proof -
  let ?L = "length content"
  have wf: "paging_wf s" using s(1) by (simp add: confined_def)
  have fd: "2 \<le> fd" "fd < 8" using s(4) by (simp_all add: file_fd_def)
  have l: "length (fd_array (cur s)) = 8" using s(2) by (simp add: proc_ok_def)
  have sl: "slice 0 1024 content = content" using cont(3) by (simp add: slice_def)
  obtain t1 where t1: "stored k content s t1"
    "ece391_read (kernel_os c) (of_nat fd) (0x8000000 + of_nat k) 1024 s =
       Some (of_nat ?L, with_fd fd (e\<lparr>file_position := of_nat ?L\<rparr>) t1)"
    using file_read_call [OF s(2,3) wf s(4,5) e(2,1) _ k, of content c] e(3) sl cont(1) by auto
  define s1 where "s1 = with_fd fd (e\<lparr>file_position := of_nat ?L\<rparr>) t1"
  note f1 = stored_fields [OF t1(1)]
  have fds: "fd_array (cur s1) = (fd_array (cur s))[fd := e\<lparr>file_position := of_nat ?L\<rparr>]"
    using f1 by (simp add: s1_def with_fd_def)
  have c1: "confined s1" using s(1) by (simp add: s1_def with_fd_confined stored_confined [OF t1(1)])
  have p1: "proc_ok s1" using s(2) f1 fds by (simp add: proc_ok_def) (simp add: s1_def with_fd_def)
  have fs1: "fs_wf s1 = fs_wf s" "numInodes s1 = numInodes s" "file_content s1 (inode_num e) = content"
    "entry_of_inode s1 = entry_of_inode s"
    using fs_upd [of s1 s] f1 by (simp_all add: s1_def with_fd_def cont(1))
  have e1: "fd_array (cur s1) ! fd = e\<lparr>file_position := of_nat ?L\<rparr>" using fds l fd by simp
  have same: "terminals s1 = terminals s" "scheduled_terminal s1 = scheduled_terminal s" "vpage s1 = vpage s"
    using f1 stored_vpage [OF t1(1) s(1)] by (simp_all add: s1_def with_fd_def vpage_def video_frame_def)
  have "useg s1 k 1024 = useg t1 k 1024" by (simp add: s1_def)
  then have seg1: "useg s1 k 1024 = content @ drop ?L (useg s k 1024)"
    using useg_stored [OF t1(1), of 1024] k cont(3) by simp
  define q where "q = 1024 - length name - (?L - length name)"
  have q: "q = Suc (q - 1)" using msg(1) cont(3) by (simp add: q_def)
  have d: "drop ?L (name @ replicate (1024 - length name) 0) = drop ?L name @ replicate q 0"
    by (simp add: q_def)
  have r: "useg s1 k 1024 = (content @ drop ?L name) @ 0 # replicate (q - 1) 0"
    unfolding seg1 seg d by (subst q) simp
  then have z: "terminated (useg s1 k 1024)" "shown = cstr (useg s1 k 1024)"
    unfolding r cstr_append msg(2) by (simp_all add: terminated_def)
  define n where "n = min ?L (Suc (length shown))"
  obtain s2 where s2: "ece391_write (kernel_os c) 1 (0x8000000 + of_nat k) (of_nat ?L) s1 = Some (of_nat n, s2)"
    "vpage s2 = fst (fold con_putc shown (write_console s1 (int ?L) 0))" "rest s2 = rest s1" "confined s2"
    using terminal_call [OF c1 p1 _ _ _ _ k z msg(3) cont(2)] fds l fd out t same cont(3) unfolding n_def by auto
  note g = rest_sel [OF s2(3)]
  have e2: "fd_array (cur s2) = fd_array (cur s1)" "proc_ok s2" using g p1 by (simp_all add: proc_ok_def)
  have fs2: "fs_wf s2" "numInodes s2 = Some m" "file_content s2 (inode_num e) = content" "entry_of_inode s2 = entry_of_inode s"
    using fs_upd [of s2 s1] g fs1 s by simp_all
  have fd2: "file_fd s2 fd" using s(4) fs2(4) e1 e(1) unfolding file_fd_def e2(1) by simp
  have u: "unat (of_nat ?L :: u32) = ?L" using cont(3) by (simp add: unat_of_nat)
  obtain s3 where s3: "cat_loop (kernel_os c) (of_nat fd) (0x8000000 + of_nat k) s2 = Some (0, s3)" "vpage s3 = vpage s2"
    using cat_loop_end [OF s2(4) e2(2) fs2(1) fd2 fs2(2) refl _ k, of c] e(2) e1 e2(1) fs2(3) u cont(3) by auto
  have n: "(of_nat ?L :: u32) \<noteq> 0" "(of_nat ?L :: u32) \<noteq> -1" "(of_nat n :: u32) \<noteq> -1"
    using u cont(2,3) not_minus_one [of ?L] not_minus_one [of n] by (auto simp: n_def)
  have "cat_loop (kernel_os c) (of_nat fd) (0x8000000 + of_nat k) s = Some (0, s3)"
    using t1(2) s2(1) s3(1) n by (subst cat_loop.simps) (simp add: s1_def [symmetric])
  then show ?thesis using s2(2) s3(2) write_console_cong [OF same] by simp
qed

lemma cat_opens:
  assumes "confined s" "proc_ok s" "fs_wf s"
    and "terminated (arg (cur s))" "name = cstr (arg (cur s))" "length name < 1024"
    and "lookup s (name @ [0]) = Some d" "fileType d = 2"
    and "fd = lowest_free (fd_array (cur s))" "fd < 8" "k + 1024 \<le> 0x400000"
  shows "\<exists>s2. cat_main (kernel_os c) (0x8000000 + of_nat k) s = cat_loop (kernel_os c) (of_nat fd) (0x8000000 + of_nat k) s2 \<and>
    confined s2 \<and> proc_ok s2 \<and> fs_wf s2 \<and> numInodes s2 = numInodes s \<and> file_content s2 (inodeNumber d) = file_content s (inodeNumber d) \<and>
    entry_of_inode s2 = entry_of_inode s \<and> fd_array (cur s2) = (fd_array (cur s))[fd := opened d] \<and>
    terminals s2 = terminals s \<and> scheduled_terminal s2 = scheduled_terminal s \<and> vpage s2 = vpage s \<and>
    useg s2 k 1024 = name @ replicate (1024 - length name) 0"
proof -
  have wf: "paging_wf s" using assms(1) by (simp add: confined_def)
  define args where "args = name @ replicate (1024 - length name) 0"
  obtain s1 where s1: "getargs (0x8000000 + of_nat k) (int 1024) s = Some (0, s1)" "stored k args s s1"
    using getargs_user [OF assms(2) wf assms(4,11)] assms(5,6) by (auto simp: args_def)
  note f = stored_fields [OF s1(2)]
  have p1: "proc_ok s1" "confined s1" "paging_wf s1" "cur s1 = cur s"
    using assms(1,2) wf f stored_confined [OF s1(2)] by (simp_all add: proc_ok_def)
  note fs = fs_upd [OF f(6,11,12)]
  have seg: "useg s1 k 1024 = args"
    using useg_stored [OF s1(2), of 1024] assms(6,11) by (simp add: args_def)
  have z: "1024 - length name = Suc (1023 - length name)" "0 \<notin> set name" using assms(5,6) zero_notin_cstr by simp_all
  have "terminated args" "cstr args = name"
    unfolding args_def z(1) using z(2) by (simp_all add: terminated_def cstr_append cstr_no_zero)
  then have us: "user_string (0x8000000 + of_nat k) s1 = name @ [0]"
    using user_string_page [OF p1(3) assms(11)] by (simp add: seg)
  define s2 where "s2 = with_fd fd (opened d) s1"
  have op: "sys_open (ctx_hw c) (name @ [0]) s1 = Some (int fd, s2)"
    using sys_open_eq [OF p1(1), of "name @ [0]" "ctx_hw c"] fs assms(3,7-10) p1(4)
    by (simp add: terminated_def open_effect_def s2_def)
  have "(of_int (int fd) :: u32) \<noteq> -1" using assms(10) not_minus_one [of fd] by simp
  then have "cat_main (kernel_os c) (0x8000000 + of_nat k) s = cat_loop (kernel_os c) (of_nat fd) (0x8000000 + of_nat k) s2"
    using s1(1) op by (simp add: cat_main_def kernel_calls us)
  moreover have "fs_wf s2" "numInodes s2 = numInodes s" "file_content s2 (inodeNumber d) = file_content s (inodeNumber d)"
    "entry_of_inode s2 = entry_of_inode s"
    using fs_upd [of s2 s1] fs assms(3) by (simp_all add: s2_def with_fd_def)
  moreover have "confined s2" "proc_ok s2" using p1(1,2) by (simp_all add: s2_def with_fd_confined)
  moreover have "fd_array (cur s2) = (fd_array (cur s))[fd := opened d]" using p1(4) by (simp add: s2_def with_fd_def)
  moreover have "terminals s2 = terminals s" "scheduled_terminal s2 = scheduled_terminal s" "vpage s2 = vpage s"
    using f stored_vpage [OF s1(2) assms(1)] by (simp_all add: s2_def with_fd_def vpage_def video_frame_def)
  moreover have "useg s2 k 1024 = args" using seg by (simp add: s2_def)
  ultimately show ?thesis unfolding args_def by blast
qed

text \<open>C25: the program \<^verbatim>\<open>cat\<close> on the kernel, from its arguments to the screen: with a file of less than
  1024 bytes and its name as argument it takes the lowest descriptor, prints and returns 0, as long as
  what it prints has no line end in it. What it prints is nothing for an empty file, and otherwise the file,
  followed, when the file is shorter than its own name, by the rest of the name, all this up to the first
  NUL: the buffer held the name before, and a write to the terminal ends at a NUL, not after the number
  of bytes it is given.\<close>

theorem cat_prints_file:
  assumes "confined s" "proc_ok s" "fs_wf s" "numInodes s = Some m"
    and "terminated (arg (cur s))" "name = cstr (arg (cur s))" "length name < 1024"
    and "lookup s (name @ [0]) = Some d" "fileType d = 2" "inodeNumber d < m"
    and "entry_of_inode s (inodeNumber d) = Some d'" "fileType d' = 2"
    and "fd = lowest_free (fd_array (cur s))" "2 \<le> fd" "fd < 8"
    and "file_op_table_ptr (fd_array (cur s) ! 1) = Some TerminalOps"
    and "length (keyboard_buffer (terminals s (scheduled_terminal s))) = 129"
    and "unat (char_in_line (terminals s (scheduled_terminal s))) < 80"
    and "k + 1024 \<le> 0x400000" "content = file_content s (inodeNumber d)" "length content < 1024"
    and "shown = cstr (content @ drop (length content) name)" "10 \<notin> set shown" "13 \<notin> set shown"
  shows "\<exists>s'. cat_main (kernel_os c) (0x8000000 + of_nat k) s = Some (0, s') \<and>
    vpage s' = (if content = [] then vpage s
      else fst (fold con_putc shown (write_console s (int (length content)) 0)))"
proof -
  obtain s2 where s2: "cat_main (kernel_os c) (0x8000000 + of_nat k) s = cat_loop (kernel_os c) (of_nat fd) (0x8000000 + of_nat k) s2"
    "confined s2" "proc_ok s2" "fs_wf s2" "numInodes s2 = numInodes s" "file_content s2 (inodeNumber d) = content"
    "entry_of_inode s2 = entry_of_inode s" "fd_array (cur s2) = (fd_array (cur s))[fd := opened d]"
    "terminals s2 = terminals s" "scheduled_terminal s2 = scheduled_terminal s" "vpage s2 = vpage s"
    "useg s2 k 1024 = name @ replicate (1024 - length name) 0"
    using cat_opens [OF assms(1-3,5-9,13,15,19)] unfolding assms(20) by blast
  have e: "fd_array (cur s2) ! fd = opened d" using s2(8) assms(2,15) by (simp add: proc_ok_def)
  have o: "inode_num (opened d) = inodeNumber d" "file_position (opened d) = 0" by (simp_all add: opened_def)
  have fd: "file_fd s2 fd"
    using assms(9,11,12,14,15) e s2(7)
    by (simp add: file_fd_def opened_def table_of_type_def RTC_FILE_TYPE_def DIRECTORY_FILE_TYPE_def)
  have "flags (fd_array (cur s) ! 1) = 1" using lowest_free_below [of 1 "fd_array (cur s)"] assms(13,14) by simp
  then have out: "flags (fd_array (cur s2) ! 1) = 1" "file_op_table_ptr (fd_array (cur s2) ! 1) = Some TerminalOps"
    using assms(14,16) s2(8) by simp_all
  have t: "length (keyboard_buffer (terminals s2 (scheduled_terminal s2))) = 129"
    "unat (char_in_line (terminals s2 (scheduled_terminal s2))) < 80"
    using assms(17,18) s2(9,10) by simp_all
  have m: "numInodes s2 = Some m" "content = file_content s2 (inode_num (opened d))" "inode_num (opened d) < m"
    using o s2(5,6) assms(4,10) by simp_all
  have "plain shown" using assms(22-24) zero_notin_cstr [of "content @ drop (length content) name"]
    by (auto simp: plain_def list_all_iff)
  then obtain s' where "cat_loop (kernel_os c) (of_nat fd) (0x8000000 + of_nat k) s2 = Some (0, s')"
    "vpage s' = (if content = [] then vpage s2 else fst (fold con_putc shown (write_console s2 (int (length content)) 0)))"
    using cat_loop_whole [OF s2(2-4) fd m(1) e [symmetric] m(3) o(2) out t assms(19) s2(12) m(2) _ assms(21,7,22)]
      cat_loop_end [OF s2(2-4) fd m(1) e [symmetric] m(3) assms(19), of c] o(2) m(2) by (cases "content = []") auto
  then show ?thesis using s2(1,11) write_console_cong [OF s2(9-11)] by auto
qed

text \<open>A file called \<^verbatim>\<open>readme\<close> with the text \<^verbatim>\<open>hi\<close>, and its name as the argument.\<close>

definition sample_cat :: machine where
  "sample_cat =
     (let s = shell_on (bytes ''readme'') (bytes ''hi'')
      in s\<lparr>pcbs := (pcbs s)(current_pcb s := (cur s)\<lparr>arg := bytes ''readme'' @ replicate 122 0\<rparr>)\<rparr>)"

lemma sample_cat_facts:
  "confined sample_cat" "proc_ok sample_cat" "fs_wf sample_cat" "numInodes sample_cat = Some 1"
  "dir_entries sample_cat = [named_entry (bytes ''readme'')]" "file_content sample_cat 0 = bytes ''hi''"
  "arg (cur sample_cat) = bytes ''readme'' @ replicate 122 0"
  "fd_array (cur sample_cat) = replicate 2 \<lparr>file_op_table_ptr = Some TerminalOps, inode_num = 0,
     file_position = 0, flags = 1\<rparr> @ replicate 6 zero_fd"
  "terminals sample_cat = (\<lambda>_. zero_terminal)" "scheduled_terminal sample_cat = 0"
  "write_console sample_cat n 0 = write_console paged n 0"
proof -
  define s where "s = shell_on (bytes ''readme'') (bytes ''hi'')"
  have e: "sample_cat = s\<lparr>pcbs := (pcbs s)(current_pcb s := (cur s)\<lparr>arg := bytes ''readme'' @ replicate 122 0\<rparr>)\<rparr>"
    by (simp add: sample_cat_def s_def Let_def)
  have fit: "fits (bytes ''readme'') (bytes ''hi'')" by (simp add: fits_def)
  note p = shell_proc [OF fit, folded s_def] and t = shell_terminals [OF fit, folded s_def]
  have h: "holds_image (bytes ''readme'') (bytes ''hi'') s" unfolding s_def by (rule shell_holds [OF fit])
  note f = image_counts [OF h] image_wf [OF h] image_entries [OF h] image_content [OF h]
  have u: "fs_wf sample_cat = fs_wf s" "numInodes sample_cat = numInodes s" "dir_entries sample_cat = dir_entries s"
    "file_content sample_cat 0 = file_content s 0"
    by (rule fs_upd; simp add: e)+
  show "fs_wf sample_cat" "numInodes sample_cat = Some 1" "dir_entries sample_cat = [named_entry (bytes ''readme'')]"
    "file_content sample_cat 0 = bytes ''hi''"
    unfolding u using f by simp_all
  show "proc_ok sample_cat" "arg (cur sample_cat) = bytes ''readme'' @ replicate 122 0"
    "fd_array (cur sample_cat) = replicate 2 \<lparr>file_op_table_ptr = Some TerminalOps, inode_num = 0,
     file_position = 0, flags = 1\<rparr> @ replicate 6 zero_fd"
    "terminals sample_cat = (\<lambda>_. zero_terminal)" "scheduled_terminal sample_cat = 0"
    using p t by (simp_all add: e proc_ok_def)
  have "\<forall>a. 0 \<le> process_id (pcbs s a) \<and> process_id (pcbs s a) < 6"
    by (simp add: s_def shell_on_eq as_shell_def zero_pcb_def)
  then have "confined s" using t get_phys_addr_nat [of 0] unfolding confined_def by (intro conjI exI [of _ 0]) auto
  moreover have "core sample_cat = core s" by (auto simp: core_def e)
  ultimately show "confined sample_cat" using confined_cong by blast
  have "vpage sample_cat = vpage paged"
    using t(7) by (simp add: e vpage_def video_frame_def) (simp add: s_def shell_on_eq as_shell_def)
  then show "write_console sample_cat n 0 = write_console paged n 0"
    using t by (intro write_console_cong) (simp_all add: e)
qed

theorem cat_prints_file_witness:
  "\<forall>c. \<exists>s'. cat_main (kernel_os c) 0x8000000 sample_cat = Some (0, s') \<and>
     map (\<lambda>i. vpage s' (2 * i)) [0, 1, 2, 3, 4, 5] = bytes ''hiadme''"
proof
  fix c
  note f = sample_cat_facts
  define nm where "nm = bytes ''readme''"
  define d where "d = named_entry nm"
  have z: "length nm = 6" "0 \<notin> set nm" by (simp_all add: nm_def)
  have r: "replicate 122 (0 :: u8) = 0 # replicate 121 0" by (simp add: numeral_eq_Suc)
  have n: "length nm = 6" "0 \<notin> set nm" "terminated (nm @ replicate 122 0)" "cstr (nm @ replicate 122 0) = nm" "cstr (nm @ [0]) = nm"
    unfolding r using z by (simp_all add: terminated_def cstr_append cstr_no_zero)
  have r2: "replicate 26 (0 :: u8) = 0 # replicate 25 0" by (simp add: numeral_eq_Suc)
  have d: "fileType d = 2" "inodeNumber d = 0" "entry_name d = nm"
    using n r2 by (simp_all add: d_def named_entry_def entry_name_def cstr_append cstr_no_zero)
  have l: "lookup sample_cat (nm @ [0]) = Some d" "entry_of_inode sample_cat (inodeNumber d) = Some d"
    using n d f(5) unfolding nm_def [symmetric] d_def [symmetric] by (simp_all add: lookup_def entry_of_inode_def)
  have free: "2 = lowest_free (fd_array (cur sample_cat))"
    by (simp add: f(8) lowest_free_def zero_fd_def numeral_eq_Suc)
  have a: "terminated (arg (cur sample_cat))" "nm = cstr (arg (cur sample_cat))"
    using n f(7) unfolding nm_def [symmetric] by simp_all
  have g: "length nm < 1024" "inodeNumber d < 1" "(2 :: nat) \<le> 2" "(2 :: nat) < 8"
    "file_op_table_ptr (fd_array (cur sample_cat) ! 1) = Some TerminalOps"
    "length (keyboard_buffer (terminals sample_cat (scheduled_terminal sample_cat))) = 129"
    "unat (char_in_line (terminals sample_cat (scheduled_terminal sample_cat))) < 80" "0 + 1024 \<le> (0x400000 :: nat)"
    "bytes ''hi'' = file_content sample_cat (inodeNumber d)" "length (bytes ''hi'') < 1024"
    "bytes ''hiadme'' = cstr (bytes ''hi'' @ drop (length (bytes ''hi'')) nm)" "10 \<notin> set (bytes ''hiadme'')" "13 \<notin> set (bytes ''hiadme'')"
    using n d f(6,8,9,10) by (simp_all add: zero_terminal_def nth_append) (simp_all add: nm_def cstr_def)
  obtain s' where "cat_main (kernel_os c) (0x8000000 + of_nat 0) sample_cat = Some (0, s')"
    "vpage s' = fst (fold con_putc (bytes ''hiadme'') (write_console sample_cat (int (length (bytes ''hi''))) 0))"
    using cat_prints_file [OF f(1-4) a g(1) l(1) d(1) g(2) l(2) d(1) free g(3-13), of c] by auto
  then show "\<exists>s'. cat_main (kernel_os c) 0x8000000 sample_cat = Some (0, s') \<and>
     map (\<lambda>i. vpage s' (2 * i)) [0, 1, 2, 3, 4, 5] = bytes ''hiadme''"
    by (intro exI [of _ s']) (simp add: f(11) paged_console)
qed

section \<open>Numbers\<close>

lemma window_unique: "window os w a bs \<Longrightarrow> window os w a cs \<Longrightarrow> length bs = length cs \<Longrightarrow> bs = cs"
  by (rule nth_equalityI) (auto simp: window_def)

text \<open>C30: the programs' own \<^verbatim>\<open>ece391_itoa\<close>, run on memory through the page tables, computes what the
  kernel's \<^verbatim>\<open>itoa\<close> computes on the same bytes: for a buffer in the program's page with room for the
  digits it ends without a fault and leaves the digits of the number in the radix, most significant
  first, and a NUL in the buffer, and it changes no byte the program can see outside.\<close>

theorem program_itoa_agrees:
  assumes "confined s" "k + n \<le> 0x400000" "2 \<le> unat r" "unat r \<le> 36" "length (itoa_text (unat r) (unat v)) < n"
  shows "\<exists>s'. ece391_itoa (kernel_os c) v (0x8000000 + of_nat k) r s = Some s' \<and>
    itoa v (useg s k n) r = Some (useg s' k n) \<and> cstr (useg s' k n) = itoa_text (unat r) (unat v) \<and>
    (\<forall>b. (\<forall>i < n. b \<noteq> 0x8000000 + of_nat k + of_nat i) \<longrightarrow> user_load b s' = user_load b s)"
proof -
  have wf: "paging_wf s" using assms(1) by (simp add: confined_def)
  define out where "out = itoa_text (unat r) (unat v) @ 0 # drop (Suc (length (itoa_text (unat r) (unat v)))) (useg s k n)"
  have it: "itoa v (useg s k n) r = Some out" using itoa_eq [OF assms(3,4), of v "useg s k n"] assms(5) by (simp add: out_def)
  obtain s' where s': "ece391_itoa (kernel_os c) v (0x8000000 + of_nat k) r s = Some s'"
    "kernel.turned c s (0x8000000 + of_nat k) (useg s k n) s' out"
    using kernel.ece391_itoa_sim [OF assms(1) window_page [OF wf assms(2)] it] assms(2) by auto
  have t: "confined s'" "window (kernel_os c) s' (0x8000000 + of_nat k) out" "length out = n"
    "same_outside (kernel_os c) (0x8000000 + of_nat k) n s s'"
    using s'(2) by (simp_all add: kernel.turned_def)
  have "paging_wf s'" using t(1) by (simp add: confined_def)
  then have o: "out = useg s' k n" using window_unique [OF t(2) window_page [OF _ assms(2)]] t(3) by simp
  have "cstr out = itoa_text (unat r) (unat v)"
    using itoa_text_nonzero [OF assms(3,4)] by (simp add: out_def cstr_append cstr_no_zero)
  then show ?thesis using s'(1) it t(4) by (auto simp: same_outside_def o [symmetric])
qed

theorem program_itoa_agrees_witness:
  "\<forall>c. \<exists>s'. ece391_itoa (kernel_os c) 42 0x8000000 10 sample_cat = Some s' \<and> cstr (useg s' 0 8) = bytes ''42''"
proof
  fix c
  have t: "itoa_text 10 42 = bytes ''42''" by (simp add: itoa_text_def digits_rev.simps itoa_lookup_def)
  show "\<exists>s'. ece391_itoa (kernel_os c) 42 0x8000000 10 sample_cat = Some s' \<and> cstr (useg s' 0 8) = bytes ''42''"
    using program_itoa_agrees [OF sample_cat_facts(1), of 0 8 10 42 c] t by auto
qed

section \<open>The acceptance tests\<close>

lemma kload_with_fds: "kload (with_fds fds s) a = kload s a"
proof -
  have w: "walk_table (with_fds fds s) = walk_table s" "directoryArray (with_fds fds s) = directoryArray s"
    "paging_on (with_fds fds s) = paging_on s" "frames (with_fds fds s) = frames s"
    by (simp_all add: fun_eq_iff walk_table_def with_fds_def)
  show ?thesis unfolding kload_def mmu_walk_def w ..
qed

lemma user_string_with_fds: "user_string a (with_fds fds s) = user_string a s"
proof -
  have "load_string a n (with_fds fds s) = load_string a n s" for n
  proof (induction n arbitrary: a)
    case (Suc n)
    then show ?case by (subst (1 2) load_string.simps) (simp add: kload_with_fds split: option.split)
  qed (simp add: load_string.simps)
  then show ?thesis by (simp add: user_string_def)
qed

lemma with_fds_same: "with_fds (fd_array (cur s)) s = s"
  by (simp add: with_fds_def)

lemma fs_with_fds: "fs_wf (with_fds fds s) = fs_wf s" "lookup (with_fds fds s) = lookup s"
  using fs_upd [of "with_fds fds s" s] by (simp_all add: with_fds_def)

text \<open>The descriptor table with \<open>i\<close> directories opened.\<close>

definition dirs_open :: "fd_element list \<Rightarrow> dentry \<Rightarrow> nat \<Rightarrow> fd_element list" where
  "dirs_open std d i = std @ replicate i (opened d) @ replicate (6 - i) zero_fd"

lemma open_dots:
  assumes s: "proc_ok s" "fs_wf s" "fd_array (cur s) = std @ replicate 6 zero_fd" "length std = 2" "\<forall>e \<in> set std. flags e = 1"
    and dot: "user_string (ctx_literals c (bytes ''.'')) s = bytes ''.'' @ [0]" "lookup s (bytes ''.'' @ [0]) = Some d" "fileType d \<noteq> 0"
  shows "i \<le> 6 \<Longrightarrow> for_each [0..<i] (open_dot (kernel_os c)) (0, s) = Some (0, with_fds (dirs_open std d i) s)"
    and "open_dot (kernel_os c) 6 (0, with_fds (dirs_open std d 6) s) = Some (1, with_fds (dirs_open std d 6) s)"
proof -
  have fr: "lowest_free (dirs_open std d i) = 2 + i" "length (dirs_open std d i) = 8" if "i \<le> 6" for i
  proof -
    have "takeWhile (\<lambda>e. flags e = 1) (replicate (6 - i) zero_fd) = []" by (cases "6 - i") (simp_all add: zero_fd_def)
    then show "lowest_free (dirs_open std d i) = 2 + i" using s(4,5)
      by (simp add: lowest_free_def dirs_open_def opened_def takeWhile_append2 takeWhile_append)
    show "length (dirs_open std d i) = 8" using that s(4) by (simp add: dirs_open_def)
  qed
  have step: "open_dot (kernel_os c) j (0, with_fds (dirs_open std d i) s) =
      (if i = 6 then Some (1, with_fds (dirs_open std d i) s) else Some (0, with_fds (dirs_open std d (Suc i)) s))"
    if "i \<le> 6" for i j
  proof -
    have p: "proc_ok (with_fds (dirs_open std d i) s)" using s(1) fr(2) [OF that] by simp
    have o: "sys_open (ctx_hw c) (bytes ''.'' @ [0]) (with_fds (dirs_open std d i) s) =
        Some (if i = 6 then (-1, with_fds (dirs_open std d i) s)
              else (int (2 + i), with_fds ((dirs_open std d i)[2 + i := opened d]) s))"
      using sys_open_eq [OF p, of "bytes ''.'' @ [0]" "ctx_hw c"] fr(1) [OF that] s(2) dot(2,3)
      by (simp add: fs_with_fds terminated_def open_effect_def)
    have z: "(dirs_open std d i)[2 + i := opened d] = dirs_open std d (Suc i)" if "i < 6"
    proof -
      define q where "q = 5 - i"
      have "6 - i = Suc q" "6 - Suc i = q" using that by (simp_all add: q_def)
      then show ?thesis using s(4) by (simp add: dirs_open_def list_update_append replicate_app_Cons_same)
    qed
    have "(of_int (int (2 + i)) :: u32) \<noteq> -1" using that not_minus_one [of "2 + i"] by simp
    then show ?thesis using o z that dot(1) by (auto simp: open_dot_def kernel_calls user_string_with_fds)
  qed
  show "for_each [0..<i] (open_dot (kernel_os c)) (0, s) = Some (0, with_fds (dirs_open std d i) s)" if "i \<le> 6"
    using that
  proof (induction i)
    case 0
    then show ?case using with_fds_same [of s] s(3) by (simp add: dirs_open_def)
  next
    case (Suc i)
    then show ?case using step [of i i] by (simp add: for_each_append)
  qed
  show "open_dot (kernel_os c) 6 (0, with_fds (dirs_open std d 6) s) = Some (1, with_fds (dirs_open std d 6) s)"
    using step [of 6 6] by simp
qed

lemma close_dirs:
  assumes "proc_ok s" "length std = 2" "i \<le> 6" "fd_array (cur s) = std @ replicate 6 zero_fd"
  shows "for_each [2..<2 + i] (\<lambda>i w. do { (r, w) \<leftarrow> ece391_close (kernel_os c) (of_nat i) w; Some w })
      (with_fds (std @ replicate 6 (opened d)) s) =
    Some (with_fds (std @ replicate i zero_fd @ replicate (6 - i) (opened d)) s)"
  using assms(3)
proof (induction i)
  case (Suc i)
  let ?t = "with_fds (std @ replicate i zero_fd @ replicate (6 - i) (opened d)) s"
  have p: "proc_ok ?t" using assms(1,2) Suc.prems by simp
  have n: "6 - i = Suc (6 - Suc i)" using Suc.prems by simp
  have e: "fd_array (cur ?t) ! (2 + i) = opened d" unfolding n using assms(2) by (simp add: nth_append)
  have u: "(std @ replicate i zero_fd @ replicate (6 - i) (opened d))[2 + i := zero_fd] =
      std @ replicate (Suc i) zero_fd @ replicate (6 - Suc i) (opened d)"
    unfolding n using assms(2) by (simp add: list_update_append replicate_app_Cons_same)
  have "sint (of_nat (2 + i) :: u32) = int (2 + i)" using sint_of_int_id [of "int (2 + i)"] Suc.prems by simp
  then have "ece391_close (kernel_os c) (of_nat (2 + i)) ?t =
      Some (0, with_fds (std @ replicate (Suc i) zero_fd @ replicate (6 - Suc i) (opened d)) s)"
    using close_eq [OF p, of "2 + i"] e u Suc.prems
    by (simp add: kernel_calls opened_def table_of_type_def del: of_nat_add replicate_Suc)
  then show ?case using Suc by (simp add: for_each_append)
qed simp

lemma refused [simp]: "call s = Some (-1, t) \<Longrightarrow> expect_refused os msg call (f, s) = Some (f, t)"
  by (simp add: expect_refused_def)

lemma all_refused: "(\<And>i. i \<in> set is \<Longrightarrow> call i s = Some (-1, s)) \<Longrightarrow>
    for_each is (\<lambda>i. expect_refused os msg (call i)) (f, s) = Some (f, s)"
  by (induction "is") simp_all

text \<open>A process with nothing open besides the terminal: what every call on a descriptor says.\<close>

definition only_std :: "machine \<Rightarrow> fd_element \<Rightarrow> bool" where
  "only_std s std \<longleftrightarrow> proc_ok s \<and> fd_array (cur s) = replicate 2 std @ replicate 6 zero_fd \<and> flags std = 1"

lemma only_std_refused:
  assumes "only_std s std" "sint fd < 0 \<or> 2 \<le> sint fd"
  shows "ece391_read (kernel_os c) fd b n s = Some (-1, s)" "ece391_write (kernel_os c) fd b n s = Some (-1, s)"
    "ece391_close (kernel_os c) fd s = Some (-1, s)"
proof -
  have "flags (fd_array (cur s) ! i) = (if i < 2 then 1 else 0)" if "i < 8" for i
    using assms(1) that by (auto simp: only_std_def nth_append zero_fd_def)
  then show "ece391_read (kernel_os c) fd b n s = Some (-1, s)" "ece391_write (kernel_os c) fd b n s = Some (-1, s)"
    "ece391_close (kernel_os c) fd s = Some (-1, s)"
    using assms
    by (auto simp: only_std_def kernel_calls sys_read_def sys_write_def sys_close_def FD_ARRAY_LENGTH_def STDOUT_FD_def)
qed

lemma std_refused:
  assumes "only_std s std"
  shows "ece391_write (kernel_os c) 0 b n s = Some (-1, s)" "ece391_read (kernel_os c) 1 b n s = Some (-1, s)"
    "ece391_close (kernel_os c) 0 s = Some (-1, s)" "ece391_close (kernel_os c) 1 s = Some (-1, s)"
  using assms
  by (auto simp: only_std_def kernel_calls sys_read_def sys_write_def sys_close_def FD_ARRAY_LENGTH_def STDOUT_FD_def)

lemma unopened_refused:
  assumes "only_std s std"
  shows "i < 8 \<Longrightarrow> ece391_close (kernel_os c) (of_nat i) s = Some (-1, s)"
    "2 \<le> i \<Longrightarrow> i < 8 \<Longrightarrow> ece391_read (kernel_os c) (of_nat i) b n s = Some (-1, s)"
    "2 \<le> i \<Longrightarrow> i < 8 \<Longrightarrow> ece391_write (kernel_os c) (of_nat i) b n s = Some (-1, s)"
proof -
  have u: "sint (of_nat i :: u32) = int i" if "i < 8" for i using that sint_of_int_id [of "int i"] by simp
  show "ece391_read (kernel_os c) (of_nat i) b n s = Some (-1, s)" "ece391_write (kernel_os c) (of_nat i) b n s = Some (-1, s)"
    if "2 \<le> i" "i < 8"
    using that u [of i] by (simp_all add: only_std_refused [OF assms])
  consider "2 \<le> i" | "i = 0" | "i = 1" by linarith
  then show "ece391_close (kernel_os c) (of_nat i) s = Some (-1, s)" if "i < 8"
    using std_refused(3,4) [OF assms] u [OF that] by cases (simp_all add: only_std_refused(3) [OF assms])
qed

lemma err_unopened_passes:
  "only_std s std \<Longrightarrow> err_unopened (kernel_os c) buf s = verdict (kernel_os c) (bytes ''err_unopened'') (0, s)"
  using all_refused [of "[0..<8]" "\<lambda>i. ece391_close (kernel_os c) (of_nat i)" s]
    all_refused [of "[2..<8]" "\<lambda>i. ece391_read (kernel_os c) (of_nat i) buf 31" s]
    all_refused [of "[2..<8]" "\<lambda>i. ece391_write (kernel_os c) (of_nat i) buf 31" s] unopened_refused [of s std]
  by (simp add: err_unopened_def del: upt_rec_numeral)

lemma err_open_lots_passes:
  assumes "only_std s std" "fs_wf s" "user_string (ctx_literals c (bytes ''.'')) s = bytes ''.'' @ [0]"
    and "lookup s (bytes ''.'' @ [0]) = Some d" "fileType d \<noteq> 0"
  shows "err_open_lots (kernel_os c) s = verdict (kernel_os c) (bytes ''err_open_lots'') (0, s)"
proof -
  have s: "proc_ok s" "fd_array (cur s) = replicate 2 std @ replicate 6 zero_fd" "flags std = 1"
    using assms(1) by (simp_all add: only_std_def)
  note od = open_dots [OF s(1) assms(2) s(2) _ _ assms(3-5)]
  have "[0..<7] = [0..<6] @ [6 :: nat]" by (simp add: numeral_eq_Suc)
  then have o: "for_each [0..<7] (open_dot (kernel_os c)) (0, s) = Some (1, with_fds (replicate 2 std @ replicate 6 (opened d)) s)"
    using od(1) [of 6] od(2) s(3) by (simp only: for_each_append) (simp add: dirs_open_def)
  have "for_each [2..<8] (\<lambda>i w. do { (r, w) \<leftarrow> ece391_close (kernel_os c) (of_nat i) w; Some w })
      (with_fds (replicate 2 std @ replicate 6 (opened d)) s) = Some s"
    using close_dirs [OF s(1) _ _ s(2), of 6 c d] with_fds_same [of s] s(2) by simp
  then show ?thesis using o by (simp add: err_open_lots_def del: upt_rec_numeral)
qed

lemma err_open_passes:
  assumes "only_std s std" "fs_wf s"
    and "\<forall>t \<in> {bytes ''helloo'', bytes ''shel'', []}. user_string (ctx_literals c t) s = t @ [0] \<and> lookup s (t @ [0]) = None"
  shows "err_open (kernel_os c) s = verdict (kernel_os c) (bytes ''err_open'') (0, s)"
proof -
  have none: "lowest_free (fd_array (cur s)) = 2" and p: "proc_ok s"
    using assms(1) by (simp_all add: only_std_def lowest_free_def zero_fd_def numeral_eq_Suc)
  have op: "ece391_open (kernel_os c) (ctx_literals c t) s = Some (-1, s)" if "t \<in> {bytes ''helloo'', bytes ''shel'', []}" for t
    using bspec [OF assms(3) that] sys_open_eq [OF p assms(2), of "t @ [0]" "ctx_hw c"] none
    by (simp add: kernel_calls terminated_def)
  then show ?thesis
    using op [of "bytes ''helloo''"] op [of "bytes ''shel''"] op [of "[]"] by (simp add: err_open_def)
qed

text \<open>C29: the repository's own acceptance program, \<^verbatim>\<open>syserr\<close>, passes on the model of the kernel: in a
  process with nothing open besides the terminal, on a disk that has its directory and none of the
  three wrong names, each of its eight tests comes to its verdict without a failure and with the
  machine as it was, six directories opened and closed again included.\<close>

theorem syserr_passes:
  assumes "proc_ok s" "fs_wf s"
    and "fd_array (cur s) = replicate 2 std @ replicate 6 zero_fd" "flags std = 1"
    and "\<forall>t \<in> {bytes ''.'', bytes ''helloo'', bytes ''shel'', []}. user_string (ctx_literals c t) s = t @ [0]"
    and "lookup s (bytes ''.'' @ [0]) = Some d" "fileType d \<noteq> 0"
    and "\<forall>t \<in> {bytes ''helloo'', bytes ''shel'', []}. lookup s (t @ [0]) = None"
  shows "map (\<lambda>test. test s) (syserr_tests (kernel_os c) buf regs) =
    map (\<lambda>name. verdict (kernel_os c) name (0, s))
      [bytes ''err_neg_fd'', bytes ''err_big_fd'', bytes ''err_open_lots'', bytes ''err_open'', bytes ''err_unopened'',
       bytes ''err_vidmap'', bytes ''err_stdin_out'', bytes ''err_syscall_num'']"
proof -
  let ?os = "kernel_os c"
  have o: "only_std s std" using assms(1,3,4) by (simp add: only_std_def)
  have "err_neg_fd ?os buf s = verdict ?os (bytes ''err_neg_fd'') (0, s)"
    "err_big_fd ?os buf s = verdict ?os (bytes ''err_big_fd'') (0, s)"
    by (simp_all add: err_neg_fd_def err_big_fd_def err_fd_def syserr_numbers only_std_refused [OF o])
  moreover have "err_stdin_out ?os buf s = verdict ?os (bytes ''err_stdin_out'') (0, s)"
    by (simp add: err_stdin_out_def std_refused [OF o])
  moreover have "err_vidmap ?os s = verdict ?os (bytes ''err_vidmap'') (0, s)"
    by (simp add: err_vidmap_def kernel_calls vidmap_def ADDR_128MB_def)
  moreover have "err_syscall_num ?os regs s = verdict ?os (bytes ''err_syscall_num'') (0, s)"
    by (cases regs) (simp add: err_syscall_num_def call_sys_def syserr_numbers kernel_os_def sys_call_def)
  moreover have "err_open ?os s = verdict ?os (bytes ''err_open'') (0, s)"
  proof (rule err_open_passes [OF o assms(2)], intro ballI conjI)
    fix t assume t: "t \<in> {bytes ''helloo'', bytes ''shel'', []}"
    show "user_string (ctx_literals c t) s = t @ [0]" using assms(5) t by blast
    show "lookup s (t @ [0]) = None" by (rule bspec [OF assms(8) t])
  qed
  moreover have "err_open_lots ?os s = verdict ?os (bytes ''err_open_lots'') (0, s)"
    by (rule err_open_lots_passes [OF o assms(2) _ assms(6,7)]) (use assms(5) in blast)
  ultimately show ?thesis using err_unopened_passes [OF o] by (simp add: syserr_tests_def)
qed

text \<open>A disk whose only entry is its directory's name, and the program's four literals in its page.\<close>

definition sample_literals :: "u8 list" where
  "sample_literals = bytes ''.'' @ [0] @ bytes ''helloo'' @ [0] @ bytes ''shel'' @ [0, 0]"

definition sample_syserr :: machine where
  "sample_syserr = (shell_on (bytes ''.'') [])\<lparr>frames := (\<lambda>f k. if f = 0x800 \<and> k < 15 then sample_literals ! k else 0)\<rparr>"

definition sample_context :: kernel_context where
  "sample_context = \<lparr>ctx_hw = (\<lambda>_ _. 0), ctx_env = [], ctx_run = (\<lambda>_. None),
     ctx_literals = (\<lambda>t. if length t = 1 then 0x8000000 else if length t = 6 then 0x8000002
       else if length t = 4 then 0x8000009 else 0x800000E)\<rparr>"

lemma sample_syserr_facts:
  "proc_ok sample_syserr" "fs_wf sample_syserr" "paging_wf sample_syserr" "dir_entries sample_syserr = [named_entry (bytes ''.'')]"
  "fd_array (cur sample_syserr) = replicate 2 \<lparr>file_op_table_ptr = Some TerminalOps, inode_num = 0,
     file_position = 0, flags = 1\<rparr> @ replicate 6 zero_fd"
  "k + n \<le> 15 \<Longrightarrow> useg sample_syserr k n = take n (drop k sample_literals)"
proof -
  define s where "s = shell_on (bytes ''.'') []"
  have e: "sample_syserr = s\<lparr>frames := (\<lambda>f k. if f = 0x800 \<and> k < 15 then sample_literals ! k else 0)\<rparr>"
    by (simp add: sample_syserr_def s_def)
  have fit: "fits (bytes ''.'') []" by (simp add: fits_def)
  note p = shell_proc [OF fit, folded s_def] and t = shell_terminals [OF fit, folded s_def]
  have h: "holds_image (bytes ''.'') [] s" unfolding s_def by (rule shell_holds [OF fit])
  note f = image_wf [OF h] image_entries [OF h]
  have u: "fs_wf sample_syserr = fs_wf s" "dir_entries sample_syserr = dir_entries s"
    by (rule fs_upd; simp add: e)+
  show "fs_wf sample_syserr" "dir_entries sample_syserr = [named_entry (bytes ''.'')]" unfolding u using f by simp_all
  show "proc_ok sample_syserr" "fd_array (cur sample_syserr) = replicate 2 \<lparr>file_op_table_ptr = Some TerminalOps, inode_num = 0,
     file_position = 0, flags = 1\<rparr> @ replicate 6 zero_fd"
    using p by (simp_all add: e proc_ok_def)
  show "paging_wf sample_syserr"
    using t(8) by (simp add: e paging_wf_def tables_linked_def program_frame_def video_frame_def)
  have len: "length sample_literals = 15" by (simp add: sample_literals_def)
  have "umem sample_syserr j = sample_literals ! j" if "j < 15" for j
  proof -
    have "program_frame sample_syserr = 0x800" using t(6) by (simp add: e program_frame_def)
    then have "user_frame sample_syserr j = 0x800" using that by (simp add: user_frame_def)
    then show ?thesis using that by (simp add: umem_def) (simp add: e)
  qed
  then show "useg sample_syserr k n = take n (drop k sample_literals)" if "k + n \<le> 15"
    using that len by (intro nth_equalityI) simp_all
qed

theorem syserr_passes_witness:
  "err_open (kernel_os sample_context) sample_syserr = verdict (kernel_os sample_context) (bytes ''err_open'') (0, sample_syserr)"
proof -
  note f = sample_syserr_facts
  have str: "user_string (0x8000000 + of_nat k) sample_syserr = t @ [0]"
    if "k + n \<le> 15" "take n (drop k sample_literals) = t @ [0]" "0 \<notin> set t" for k n t
    using user_string_page [OF f(3), of k n] f(6) [OF that(1)] that
    by (simp add: terminated_def cstr_append cstr_no_zero)
  have lit: "\<forall>t \<in> {bytes ''.'', bytes ''helloo'', bytes ''shel'', []}.
      user_string (ctx_literals sample_context t) sample_syserr = t @ [0]"
    using str [of 0 2 "bytes ''.''"] str [of 2 7 "bytes ''helloo''"] str [of 9 5 "bytes ''shel''"] str [of 14 1 "[]"]
    by (simp add: sample_context_def sample_literals_def)
  have r: "replicate 31 (0 :: u8) = 0 # replicate 30 0" by (simp add: numeral_eq_Suc)
  have n: "entry_name (named_entry (bytes ''.'')) = bytes ''.''"
    by (simp add: entry_name_def named_entry_def r cstr_append cstr_no_zero)
  have look: "lookup sample_syserr (bytes ''.'' @ [0]) = Some (named_entry (bytes ''.''))"
    using n by (simp add: lookup_def f(4) cstr_append cstr_no_zero)
  have none: "\<forall>t \<in> {bytes ''helloo'', bytes ''shel'', []}. lookup sample_syserr (t @ [0]) = None"
    using n by (simp add: lookup_def f(4) cstr_append cstr_no_zero)
  have ty: "fileType (named_entry (bytes ''.'')) \<noteq> 0" by (simp add: named_entry_def)
  from syserr_passes [OF f(1,2,5) _ lit look ty none, of 0 "(0, 0, 0)"]
  show ?thesis by (simp add: syserr_tests_def)
qed

section \<open>grep\<close>

lemma cstr_line: "le < length bs \<Longrightarrow> bs ! le = 0 \<Longrightarrow> \<forall>i < le. bs ! i \<noteq> 0 \<Longrightarrow> p \<le> le \<Longrightarrow> cstr (drop p bs) = drop p (take le bs)"
proof -
  assume a: "le < length bs" "bs ! le = 0" "\<forall>i < le. bs ! i \<noteq> 0" "p \<le> le"
  have "bs = take le bs @ 0 # drop (Suc le) bs" using id_take_nth_drop [OF a(1)] a(2) by simp
  then have "drop p bs = drop p (take le bs) @ 0 # drop (Suc le) bs"
    using a(1,4) by (metis append_take_drop_id drop_append length_take min.absorb4 diff_is_0_eq drop_0)
  moreover have "0 \<notin> set (drop p (take le bs))" using a(1,3) by (auto dest!: in_set_dropD simp: in_set_conv_nth)
  ultimately show ?thesis by (simp add: cstr_append cstr_no_zero)
qed

lemma signed_byte: "sint (c :: u8) = uint (d :: u8) \<longleftrightarrow> c = d \<and> c < 128"
proof
  assume e: "sint c = uint d"
  have "c = of_int (sint c)" "d = of_int (uint d)" by simp_all
  then have "c = d" using e by simp
  moreover have "sint c < 2 ^ 7" using sint_lt [of c] by simp
  ultimately show "c = d \<and> c < 128" using e by (auto simp: word_less_def)
next
  assume a: "c = d \<and> c < 128"
  have "uint c < 128" using conjunct2 [OF a] by (simp add: word_less_def)
  moreover have "c = d" using a by blast
  moreover have "- 128 \<le> uint d" using uint_ge_0 [of d] by linarith
  ultimately show "sint c = uint d" by (simp add: sint_uint signed_take_bit_int_eq_self_iff)
qed

lemma ex_from: "i < n \<Longrightarrow> (\<exists>p. i \<le> p \<and> p < n \<and> Q p) \<longleftrightarrow> Q i \<or> (\<exists>p. Suc i \<le> p \<and> p < n \<and> Q p)" for i n :: nat
proof -
  assume "i < n"
  moreover have "i \<le> p \<longleftrightarrow> p = i \<or> Suc i \<le> p" for p by auto
  ultimately show ?thesis by metis
qed

text \<open>The comparison at one position of the line.\<close>

lemma grep_compare:
  assumes "window os w data bs" "window os w s (pat @ [0])" "0 \<notin> set pat"
    and "le < length bs" "bs ! le = 0" "\<forall>i < le. bs ! i \<noteq> 0" "check < le"
  shows "\<exists>c r. uload os s w = Some c \<and> uload os (data + of_nat check) w = Some (bs ! check) \<and>
    (if sint c = uint (bs ! check) then ece391_strncmp os (data + of_nat check) s (of_nat (length pat)) w else Some 1) = Some r \<and>
    (r = 0 \<longleftrightarrow> take (length pat) (drop check (take le bs)) = pat \<and> pat \<noteq> [] \<and> hd pat < 128)"
proof -
  have d: "uload os (data + of_nat check) w = Some (bs ! check)" "bs ! check \<noteq> 0"
    using window_load [OF assms(1)] assms(4,6,7) by simp_all
  have cl: "cstr (drop check bs) = drop check (take le bs)" using cstr_line [OF assms(4-6)] assms(7) by simp
  have dr: "drop check (take le bs) = bs ! check # drop (Suc check) (take le bs)"
    using assms(4,7) by (simp add: Cons_nth_drop_Suc [symmetric])
  have c: "uload os s w = Some ((pat @ [0]) ! 0)" using window_load [OF assms(2), of 0] by simp
  show ?thesis
  proof (cases "pat \<noteq> [] \<and> sint (hd pat) = uint (bs ! check)")
    case True
    then have b: "hd pat = bs ! check" "hd pat < 128" using signed_byte by blast+
    have len: "length pat < 2 ^ 32" "0 < length pat" using assms(2) True by (simp_all add: window_def)
    have t: "terminated (drop check bs)" "terminated (pat @ [0])"
      using assms(4,5,7) by (auto simp: terminated_def in_set_conv_nth intro!: exI [of _ "le - check"])
    obtain r where r: "strncmp_walk os (data + of_nat check) s (of_nat (length pat)) w = Some r"
      "r = 0 \<longleftrightarrow> take (length pat) (cstr (drop check bs)) = take (length pat) (cstr (pat @ [0]))"
      using strncmp_walk_window [OF window_drop [OF assms(1)] assms(2) len(2,1)] t by blast
    have "cstr (pat @ [0]) = pat" using assms(3) by (simp add: cstr_append cstr_no_zero)
    moreover have "(of_nat (length pat) :: u32) \<noteq> 0" using len by (auto simp: word_of_nat_eq_0_iff dest: dvd_imp_le)
    moreover have "sint (bs ! check) = uint (bs ! check)" using True b(1) by simp
    ultimately show ?thesis using r c d(1) cl b True by (simp add: ece391_strncmp_def nth_append hd_conv_nth)
  next
    case False
    then have "sint ((pat @ [0]) ! 0) \<noteq> uint (bs ! check)"
      using d(2) signed_byte [of 0 "bs ! check"] by (cases pat) auto
    moreover have "\<not> (take (length pat) (drop check (take le bs)) = pat \<and> pat \<noteq> [] \<and> hd pat < 128)"
      using False dr signed_byte [of "hd pat" "bs ! check"] by (cases pat) auto
    ultimately show ?thesis using c d(1) by simp
  qed
qed

text \<open>C28: the search of \<^verbatim>\<open>grep\<close> in one line of the buffer never faults and decides whether to print
  the line: it does so, once, exactly when the pattern occurs at or after the position, inside the
  line, the pattern is not empty and its first byte is an ASCII character. A pattern that begins with
  a byte from 128 on is never found, since the pattern is read as signed and the text as unsigned
  characters.\<close>

theorem grep_search_finds:
  assumes "window os w data bs" "window os w s (pat @ [0])" "0 \<notin> set pat"
    and "le < length bs" "bs ! le = 0" "\<forall>i < le. bs ! i \<noteq> 0" "check \<le> le"
  shows "grep_search os s (of_nat (length pat)) fname data line_start (int le) (int check) w =
    (if \<exists>p. check \<le> p \<and> p < le \<and> take (length pat) (drop p (take le bs)) = pat \<and> pat \<noteq> [] \<and> hd pat < 128
     then grep_print os fname data line_start w else Some w)"
  using assms(7)
proof (induction "le - check" arbitrary: check)
  case 0
  then show ?case by (subst grep_search.simps) auto
next
  case (Suc n)
  then have lt: "check < le" "n = le - Suc check" by simp_all
  let ?hit = "\<lambda>p. take (length pat) (drop p (take le bs)) = pat \<and> pat \<noteq> [] \<and> hd pat < 128"
  define more where "more \<longleftrightarrow> (\<exists>p. Suc check \<le> p \<and> p < le \<and> ?hit p)"
  have IH: "grep_search os s (of_nat (length pat)) fname data line_start (int le) (int check + 1) w =
      (if more then grep_print os fname data line_start w else Some w)"
    using Suc.hyps(1) [of "Suc check"] lt by (simp add: add.commute more_def)
  note ex = ex_from [OF lt(1), of ?hit, folded more_def]
  obtain c r where "uload os s w = Some c" "uload os (data + of_nat check) w = Some (bs ! check)"
    "(if sint c = uint (bs ! check) then ece391_strncmp os (data + of_nat check) s (of_nat (length pat)) w else Some 1) = Some r"
    "r = 0 \<longleftrightarrow> ?hit check"
    using grep_compare [OF assms(1-6) lt(1)] by blast
  then have "grep_search os s (of_nat (length pat)) fname data line_start (int le) (int check) w =
      (if ?hit check then grep_print os fname data line_start w
       else grep_search os s (of_nat (length pat)) fname data line_start (int le) (int check + 1) w)"
    using lt(1) by (subst grep_search.simps) (auto split: if_splits)
  then show ?case unfolding ex IH by simp
qed

theorem grep_search_finds_witness:
  "grep_search (kernel_os sample_context) 0x8000007 1 0x8000000 0x8000002 0 6 0 sample_syserr =
     grep_print (kernel_os sample_context) 0x8000000 0x8000002 0 sample_syserr"
proof -
  note f = sample_syserr_facts
  have t: "useg sample_syserr 2 7 = bytes ''helloo'' @ [0]" "useg sample_syserr 7 2 = bytes ''o'' @ [0]"
    using f(6) [of 2 7] f(6) [of 7 2] by (simp_all add: sample_literals_def)
  have w: "window (kernel_os sample_context) sample_syserr 0x8000002 (bytes ''helloo'' @ [0])"
    "window (kernel_os sample_context) sample_syserr 0x8000007 (bytes ''o'' @ [0])"
    using window_page [OF f(3), of 2 7 sample_context] window_page [OF f(3), of 7 2 sample_context] unfolding t by simp_all
  have l: "\<forall>i < 6. (bytes ''helloo'' @ [0]) ! i \<noteq> 0"
  proof (intro allI impI)
    fix i :: nat assume "i < 6"
    then consider "i = 0" | "i = 1" | "i = 2" | "i = 3" | "i = 4" | "i = 5" by linarith
    then show "(bytes ''helloo'' @ [0]) ! i \<noteq> 0" by cases simp_all
  qed
  have "\<exists>p. 0 \<le> p \<and> p < 6 \<and> take (length (bytes ''o'')) (drop p (take 6 (bytes ''helloo'' @ [0]))) = bytes ''o'' \<and>
      bytes ''o'' \<noteq> [] \<and> hd (bytes ''o'') < 128"
    by (intro exI [of _ 4]) simp
  then show ?thesis using grep_search_finds [OF w _ _ _ l, of 0 "0x8000000" 0] by simp
qed

end
