(* ===== verification/Fish.thy ===== *)
theory Fish
  imports UserFacts
begin

text \<open>
  The animation \<^verbatim>\<open>fish\<close> (\<^verbatim>\<open>fish/fish.c\<close>) and the module of blinking characters it drives
  (\<^verbatim>\<open>fish/blink.S\<close>). The objects of the type \<^verbatim>\<open>struct mp1_blink_struct\<close> are reached through pointers of that type
  only: the array is a list of records, a pointer into it an index, \<^verbatim>\<open>NULL\<close> is \<open>None\<close>, and the copying
  and clearing of a whole structure is an assignment. The screen, \<^verbatim>\<open>vmem_base_addr\<close> and the locals whose
  address a system call is given lie in the memory of the machine under the program.
\<close>

section \<open>State (blink.h, fish.c)\<close>

record blink =
  location :: u16
  on_char :: u8
  off_char :: u8
  on_length :: u16
  off_length :: u16
  countdown :: u16
  status :: u16
  next_blink :: "nat option"

definition zero_blink :: blink where
  "zero_blink = \<lparr>location = 0, on_char = 0, off_char = 0, on_length = 0, off_length = 0, countdown = 0, status = 0,
     next_blink = None\<rparr>"

definition BLINKS :: nat where "BLINKS = 80 * 25"

record 'w fish =
  blink_array :: "blink list"
  mp1_list_head :: "nat option"
  mem :: 'w

definition set_blink :: "nat \<Rightarrow> blink \<Rightarrow> 'w fish \<Rightarrow> 'w fish" where
  "set_blink i b f = f\<lparr>blink_array := (blink_array f)[i := b]\<rparr>"

text \<open>A call that changes memory only.\<close>

definition on_mem :: "('w \<Rightarrow> ('a \<times> 'w) option) \<Rightarrow> 'w fish \<Rightarrow> ('a \<times> 'w fish) option" where
  "on_mem g f = map_option (\<lambda>(r, w). (r, f\<lparr>mem := w\<rparr>)) (g (mem f))"

section \<open>Memory (fish.c)\<close>

definition ece391_memset :: "'w os \<Rightarrow> u32 \<Rightarrow> u8 \<Rightarrow> int \<Rightarrow> 'w \<Rightarrow> 'w option" where
  "ece391_memset os memory c n w = for_each [0..<nat n] (\<lambda>i. ustore os (memory + of_nat i) c) w"

definition ece391_memcpy :: "'w os \<Rightarrow> u32 \<Rightarrow> u32 \<Rightarrow> int \<Rightarrow> 'w \<Rightarrow> (u32 \<times> 'w) option" where
  "ece391_memcpy os dest src n w =
     do {
       w \<leftarrow> for_each [0..<nat n]
              (\<lambda>i w. do { c \<leftarrow> uload os (src + of_nat i) w; ustore os (dest + of_nat i) c w }) w;
       Some (0, w)
     }"

text \<open>An element is free when its location is 0.\<close>

definition mp1_malloc :: "'w fish \<Rightarrow> nat option" where
  "mp1_malloc f = List.find (\<lambda>i. location (blink_array f ! i) = 0) [0..<BLINKS]"

definition mp1_free :: "nat \<Rightarrow> 'w fish \<Rightarrow> 'w fish" where
  "mp1_free p = set_blink p zero_blink"

text \<open>\<open>vmem\<close> is the address of \<^verbatim>\<open>vmem_base_addr\<close>; the result is what it points to.\<close>

definition mp1_set_video_mode :: "'w os \<Rightarrow> u32 \<Rightarrow> 'w \<Rightarrow> (u32 \<times> 'w) option" where
  "mp1_set_video_mode os vmem w =
     do {
       (r, w) \<leftarrow> ece391_vidmap os vmem w;
       if r = -1 then Some (0, w) else do { base \<leftarrow> load_int os vmem w; Some (base, w) }
     }"

section \<open>The blinker (blink.S)\<close>

definition mp1_poke :: "'w os \<Rightarrow> u32 \<Rightarrow> u8 \<Rightarrow> u32 \<Rightarrow> 'w fish \<Rightarrow> 'w fish option" where
  "mp1_poke os vmem c off f =
     do {
       base \<leftarrow> load_int os vmem (mem f);
       w \<leftarrow> ustore os (base + off) c (mem f);
       Some (f\<lparr>mem := w\<rparr>)
     }"

definition poke_at :: "blink \<Rightarrow> u32" where
  "poke_at b = push_bit 1 (ucast (location b))"

text \<open>
  One element at a tick: \<^verbatim>\<open>decw\<close>, and when the count is not positive, as a signed number, the other
  character is drawn and the count starts again.
\<close>

definition blink_due :: "blink \<Rightarrow> bool" where
  "blink_due b \<longleftrightarrow> \<not> 0 <s countdown b - 1"

definition blink_char :: "blink \<Rightarrow> u8" where
  "blink_char b = (if status b AND 1 \<noteq> 0 then off_char b else on_char b)"

definition blink_turn :: "blink \<Rightarrow> blink" where
  "blink_turn b =
     (if blink_due b
      then b\<lparr>countdown := (if status b AND 1 \<noteq> 0 then off_length b else on_length b), status := status b XOR 1\<rparr>
      else b\<lparr>countdown := countdown b - 1\<rparr>)"

definition tasklet_step :: "'w os \<Rightarrow> u32 \<Rightarrow> nat \<Rightarrow> blink \<Rightarrow> 'w fish \<Rightarrow> 'w fish option" where
  "tasklet_step os vmem i b f =
     map_option (set_blink i (blink_turn b))
       (if blink_due b then mp1_poke os vmem (blink_char b) (poke_at b) f else Some f)"

partial_function (option) tasklet_loop :: "'w os \<Rightarrow> u32 \<Rightarrow> nat option \<Rightarrow> 'w fish \<Rightarrow> 'w fish option" where
  "tasklet_loop os vmem p f =
     (case p of None \<Rightarrow> Some f | Some i \<Rightarrow>
       (case rd (blink_array f) i of None \<Rightarrow> None | Some b \<Rightarrow>
         (case tasklet_step os vmem i b f of None \<Rightarrow> None | Some f \<Rightarrow> tasklet_loop os vmem (next_blink b) f)))"

definition mp1_rtc_tasklet :: "'w os \<Rightarrow> u32 \<Rightarrow> 'w fish \<Rightarrow> 'w fish option" where
  "mp1_rtc_tasklet os vmem f = tasklet_loop os vmem (mp1_list_head f) f"

text \<open>The first element of the list at a location: a pointer, or null.\<close>

partial_function (option) find_from :: "u16 \<Rightarrow> nat option \<Rightarrow> blink list \<Rightarrow> nat option option" where
  "find_from loc p bs =
     (case p of None \<Rightarrow> Some None | Some i \<Rightarrow>
       (case rd bs i of None \<Rightarrow> None | Some b \<Rightarrow>
         if location b = loc then Some (Some i) else find_from loc (next_blink b) bs))"

definition mp1_find_helper :: "u32 \<Rightarrow> 'w fish \<Rightarrow> nat option option" where
  "mp1_find_helper v f = find_from (ucast v) (mp1_list_head f) (blink_array f)"

definition mp1_ioctl_add :: "'w os \<Rightarrow> u32 \<Rightarrow> blink \<Rightarrow> 'w fish \<Rightarrow> (u32 \<times> 'w fish) option" where
  "mp1_ioctl_add os vmem b f =
     (if 80 * 25 \<le> location b then Some (-1, f)
      else case mp1_malloc f of
        None \<Rightarrow> Some (-1, f)
      | Some p \<Rightarrow> do {
          let b = b\<lparr>status := 1, countdown := on_length b, next_blink := mp1_list_head f\<rparr>;
          let f = (set_blink p b f)\<lparr>mp1_list_head := Some p\<rparr>;
          f \<leftarrow> mp1_poke os vmem (on_char b) (poke_at b) f;
          Some (0, f)
        })"

text \<open>
  The search for the link that points to an element: \<open>None\<close> is \<^verbatim>\<open>mp1_list_head\<close>, \<open>Some i\<close> the \<^verbatim>\<open>next\<close> of
  an element.
\<close>

definition link_at :: "nat option \<Rightarrow> 'w fish \<Rightarrow> nat option option" where
  "link_at q f = (case q of None \<Rightarrow> Some (mp1_list_head f) | Some i \<Rightarrow> map_option next_blink (rd (blink_array f) i))"

definition set_link :: "nat option \<Rightarrow> nat option \<Rightarrow> 'w fish \<Rightarrow> 'w fish" where
  "set_link q l f =
     (case q of None \<Rightarrow> f\<lparr>mp1_list_head := l\<rparr> | Some i \<Rightarrow> set_blink i ((blink_array f ! i)\<lparr>next_blink := l\<rparr>) f)"

partial_function (option) remove_find_prev :: "nat \<Rightarrow> nat option \<Rightarrow> 'w fish \<Rightarrow> nat option option" where
  "remove_find_prev p q f =
     (case link_at q f of
        None \<Rightarrow> None
      | Some None \<Rightarrow> None
      | Some (Some i) \<Rightarrow> if i = p then Some q else remove_find_prev p (Some i) f)"

definition mp1_ioctl_remove :: "u32 \<Rightarrow> 'w fish \<Rightarrow> (u32 \<times> 'w fish) option" where
  "mp1_ioctl_remove v f =
     do {
       found \<leftarrow> mp1_find_helper v f;
       case found of
         None \<Rightarrow> Some (-1, f)
       | Some p \<Rightarrow> do {
           q \<leftarrow> remove_find_prev p None f;
           b \<leftarrow> rd (blink_array f) p;
           Some (0, mp1_free p (set_link q (next_blink b) f))
         }
     }"

text \<open>
  \<^verbatim>\<open>testb $0x1\<close> clears the sign and the overflow flag, so that \<^verbatim>\<open>cmovl\<close> never moves: the character drawn
  is the second one in any case.
\<close>

definition mp1_ioctl_sync :: "'w os \<Rightarrow> u32 \<Rightarrow> u32 \<Rightarrow> 'w fish \<Rightarrow> (u32 \<times> 'w fish) option" where
  "mp1_ioctl_sync os vmem v f =
     do {
       found \<leftarrow> mp1_find_helper (drop_bit 16 v) f;
       case found of None \<Rightarrow> Some (-1, f) | Some src \<Rightarrow> do {
         found \<leftarrow> mp1_find_helper (v AND 0xFFFF) f;
         case found of None \<Rightarrow> Some (-1, f) | Some dst \<Rightarrow> do {
           s \<leftarrow> rd (blink_array f) src;
           d \<leftarrow> rd (blink_array f) dst;
           let d = d\<lparr>on_length := on_length s, off_length := off_length s, countdown := countdown s, status := status s\<rparr>;
           f \<leftarrow> mp1_poke os vmem (off_char d) (poke_at d) (set_blink dst d f);
           Some (0, f)
         }
       }
     }"

text \<open>The structure the argument points to comes back with what the list holds.\<close>

definition mp1_ioctl_find :: "blink \<Rightarrow> 'w fish \<Rightarrow> (u32 \<times> blink) option" where
  "mp1_ioctl_find b f =
     do {
       found \<leftarrow> mp1_find_helper (ucast (location b)) f;
       case found of None \<Rightarrow> Some (-1, b) | Some p \<Rightarrow> map_option (Pair 0) (rd (blink_array f) p)
     }"

text \<open>The jump table: a command with its argument, a structure behind a pointer or a number.\<close>

datatype ioctl = RTC_ADD blink | RTC_REMOVE u32 | RTC_FIND blink | RTC_SYNC u32

definition mp1_ioctl :: "'w os \<Rightarrow> u32 \<Rightarrow> ioctl \<Rightarrow> 'w fish \<Rightarrow> (u32 \<times> ioctl \<times> 'w fish) option" where
  "mp1_ioctl os vmem c f =
     (case c of
        RTC_ADD b \<Rightarrow> map_option (\<lambda>(r, f). (r, c, f)) (mp1_ioctl_add os vmem b f)
      | RTC_REMOVE a \<Rightarrow> map_option (\<lambda>(r, f). (r, c, f)) (mp1_ioctl_remove a f)
      | RTC_FIND b \<Rightarrow> map_option (\<lambda>(r, b). (r, RTC_FIND b, f)) (mp1_ioctl_find b f)
      | RTC_SYNC a \<Rightarrow> map_option (\<lambda>(r, f). (r, c, f)) (mp1_ioctl_sync os vmem a f))"

section \<open>The animation (fish.c)\<close>

text \<open>One character of a frame into the local at \<open>a\<close>, unless the line has ended there before.\<close>

definition frame_char :: "'w os \<Rightarrow> u32 \<Rightarrow> u32 \<Rightarrow> bool \<Rightarrow> 'w \<Rightarrow> (bool \<times> 'w) option" where
  "frame_char os fd a eof w =
     do {
       c \<leftarrow> uload os a w;
       if c \<noteq> 10
       then do {
         (num_bytes, w) \<leftarrow> ece391_read os fd a 1 w;
         if num_bytes = 0 then do { w \<leftarrow> ustore os a 10 w; Some (True, w) } else Some (eof, w)
       }
       else Some (eof, w)
     }"

text \<open>What the columns of a row add; \<open>bs\<close> is the local structure.\<close>

definition frame_cell :: "'w os \<Rightarrow> u32 \<Rightarrow> int \<Rightarrow> int \<Rightarrow> u8 \<Rightarrow> u8 \<Rightarrow> blink \<times> 'w fish \<Rightarrow> (blink \<times> 'w fish) option" where
  "frame_cell os vmem row col c0 c1 bf =
     (case bf of (bs, f) \<Rightarrow>
        if (c0 \<noteq> 32 \<and> c0 \<noteq> 10) \<or> (c1 \<noteq> 32 \<and> c1 \<noteq> 10)
        then do {
          let bs = bs\<lparr>on_char := (if c0 = 10 then 32 else c0), off_char := (if c1 = 10 then 32 else c1),
                      location := of_int (row * 80 + col + 40)\<rparr>;
          (r, _, f) \<leftarrow> mp1_ioctl os vmem (RTC_ADD bs) f;
          Some (bs, f)
        }
        else Some (bs, f))"

record frame_state =
  eof0 :: bool
  eof1 :: bool
  blink_struct :: blink

partial_function (option) add_row ::
  "'w os \<Rightarrow> u32 \<Rightarrow> u32 \<times> u32 \<Rightarrow> u32 \<times> u32 \<Rightarrow> int \<Rightarrow> int \<Rightarrow> frame_state \<Rightarrow> 'w fish \<Rightarrow> (frame_state \<times> 'w fish) option" where
  "add_row os vmem file0 file1 row col t f =
     (case frame_char os (fst file0) (snd file0) (eof0 t) (mem f) of None \<Rightarrow> None | Some (e0, w) \<Rightarrow>
     (case frame_char os (fst file1) (snd file1) (eof1 t) w of None \<Rightarrow> None | Some (e1, w) \<Rightarrow>
     (case uload os (snd file0) w of None \<Rightarrow> None | Some c0 \<Rightarrow>
     (case uload os (snd file1) w of None \<Rightarrow> None | Some c1 \<Rightarrow>
        if c0 = 10 \<and> c1 = 10 then Some (t\<lparr>eof0 := e0, eof1 := e1\<rparr>, f\<lparr>mem := w\<rparr>)
        else (case frame_cell os vmem row col c0 c1 (blink_struct t, f\<lparr>mem := w\<rparr>) of None \<Rightarrow> None | Some (bs, f) \<Rightarrow>
               add_row os vmem file0 file1 row (col + 1) \<lparr>eof0 = e0, eof1 = e1, blink_struct = bs\<rparr> f)))))"

definition row_end :: "'w os \<Rightarrow> u32 \<times> u32 \<Rightarrow> bool \<Rightarrow> 'w \<Rightarrow> 'w option" where
  "row_end os file' eof w =
     (if eof then do { w \<leftarrow> ustore os (snd file') 10 w; (r, w) \<leftarrow> ece391_close os (fst file') w; Some w }
      else ustore os (snd file') 48 w)"

partial_function (option) add_rows ::
  "'w os \<Rightarrow> u32 \<Rightarrow> u32 \<times> u32 \<Rightarrow> u32 \<times> u32 \<Rightarrow> int \<Rightarrow> frame_state \<Rightarrow> 'w fish \<Rightarrow> 'w fish option" where
  "add_rows os vmem file0 file1 row t f =
     (if eof0 t \<and> eof1 t then Some f
      else (case add_row os vmem file0 file1 row 0 t f of None \<Rightarrow> None | Some (t, f) \<Rightarrow>
           (case row_end os file0 (eof0 t) (mem f) of None \<Rightarrow> None | Some w \<Rightarrow>
           (case row_end os file1 (eof1 t) w of None \<Rightarrow> None | Some w \<Rightarrow>
              add_rows os vmem file0 file1 (row + 1) t (f\<lparr>mem := w\<rparr>)))))"

text \<open>
  The addresses of the locals that system calls are given, and what \<^verbatim>\<open>blink_struct\<close> of either function
  holds at first. \<open>Inl\<close> is the program that has halted.
\<close>

record locals =
  at_vmem :: u32
  at_c0 :: u32
  at_c1 :: u32
  at_ret_val :: u32
  at_garbage :: u32
  junk_struct :: blink

definition add_frames :: "'w os \<Rightarrow> locals \<Rightarrow> u32 \<Rightarrow> u32 \<Rightarrow> 'w fish \<Rightarrow> ('w + 'w fish) option" where
  "add_frames os l f0 f1 f =
     do {
       w \<leftarrow> ustore os (at_c0 l) 48 (mem f);
       w \<leftarrow> ustore os (at_c1 l) 48 w;
       (fd0, w) \<leftarrow> ece391_open os f0 w;
       if sint fd0 < 0 then do { (r, w) \<leftarrow> ece391_halt os (-1) w; Some (Inl w) }
       else do {
         (fd1, w) \<leftarrow> ece391_open os f1 w;
         if sint fd1 < 0 then do { (r, w) \<leftarrow> ece391_halt os (-1) w; Some (Inl w) }
         else map_option Inr
           (add_rows os (at_vmem l) (fd0, at_c0 l) (fd1, at_c1 l) 0
              \<lparr>eof0 = False, eof1 = False, blink_struct = (junk_struct l)\<lparr>on_length := 15, off_length := 15\<rparr>\<rparr>
              (f\<lparr>mem := w\<rparr>))
       }
     }"

definition WAIT :: nat where "WAIT = 100"

definition fish_wait :: "'w os \<Rightarrow> locals \<Rightarrow> u32 \<Rightarrow> 'w fish \<Rightarrow> 'w fish option" where
  "fish_wait os l rtc_fd f =
     for_each [0..<WAIT]
       (\<lambda>_ f. do { (r, f) \<leftarrow> on_mem (ece391_read os rtc_fd (at_garbage l) 4) f; mp1_rtc_tasklet os (at_vmem l) f }) f"

definition fish_main :: "'w os \<Rightarrow> locals \<Rightarrow> 'w \<Rightarrow> (u32 \<times> 'w) option" where
  "fish_main os l w =
     do {
       let f = \<lparr>blink_array = replicate BLINKS zero_blink, mp1_list_head = None, mem = w\<rparr>;
       (base, f) \<leftarrow> on_mem (mp1_set_video_mode os (at_vmem l)) f;
       if base = 0 then Some (-1, mem f)
       else do {
         (rtc_fd, f) \<leftarrow> on_mem (ece391_open os (rodata os (bytes ''rtc''))) f;
         out \<leftarrow> add_frames os l (rodata os (bytes ''frame0.txt'')) (rodata os (bytes ''frame1.txt'')) f;
         case out of Inl w \<Rightarrow> Some (-1, w) | Inr f \<Rightarrow> do {
           w \<leftarrow> store_int os (at_ret_val l) 32 (mem f);
           (r, w) \<leftarrow> ece391_write os rtc_fd (at_ret_val l) 4 w;
           w \<leftarrow> store_int os (at_ret_val l) r w;
           f \<leftarrow> fish_wait os l rtc_fd (f\<lparr>mem := w\<rparr>);
           (r, _, f) \<leftarrow> mp1_ioctl os (at_vmem l)
              (RTC_ADD ((junk_struct l)\<lparr>on_char := 73, off_char := 77, on_length := 7, off_length := 6, location := 6 * 80 + 60\<rparr>)) f;
           f \<leftarrow> fish_wait os l rtc_fd f;
           (r, _, f) \<leftarrow> mp1_ioctl os (at_vmem l) (RTC_SYNC (push_bit 16 40 OR (6 * 80 + 60))) f;
           f \<leftarrow> fish_wait os l rtc_fd f;
           (r, _, f) \<leftarrow> mp1_ioctl os (at_vmem l) (RTC_REMOVE (6 * 80 + 60)) f;
           f \<leftarrow> fish_wait os l rtc_fd f;
           (r, w) \<leftarrow> ece391_close os rtc_fd (mem f);
           Some (0, w)
         }
       }
     }"

end
