(* ===== verification/FishFacts.thy ===== *)
theory FishFacts
  imports Fish
begin

text \<open>
  The blinker against what it is for: a board of blinking cells on the text screen, the newest first.
  The linked list in the array and the memory the processor walks implement it, on the kernel.
\<close>

section \<open>The board\<close>

definition draw :: "blink \<Rightarrow> u8 \<Rightarrow> u8 list \<Rightarrow> u8 list" where
  "draw b c scr = scr[2 * unat (location b) := c]"

type_synonym board = "blink list \<times> u8 list"

definition board_add :: "blink \<Rightarrow> board \<Rightarrow> u32 \<times> board" where
  "board_add b bd =
     (case bd of (bs, scr) \<Rightarrow>
        if 2000 \<le> unat (location b) \<or> length bs = 2000 then (-1, bd)
        else (0, b\<lparr>status := 1, countdown := on_length b, next_blink := None\<rparr> # bs, draw b (on_char b) scr))"

fun change_first :: "u16 \<Rightarrow> (blink \<Rightarrow> blink list) \<Rightarrow> blink list \<Rightarrow> blink list" where
  "change_first loc g [] = []"
| "change_first loc g (b # bs) = (if location b = loc then g b @ bs else b # change_first loc g bs)"

abbreviation at_location :: "u16 \<Rightarrow> blink list \<Rightarrow> blink option" where
  "at_location loc \<equiv> List.find (\<lambda>b. location b = loc)"

definition board_remove :: "u16 \<Rightarrow> board \<Rightarrow> u32 \<times> board" where
  "board_remove loc bd =
     (case bd of (bs, scr) \<Rightarrow>
        if at_location loc bs = None then (-1, bd) else (0, change_first loc (\<lambda>_. []) bs, scr))"

definition in_step :: "blink \<Rightarrow> blink \<Rightarrow> blink" where
  "in_step s d = d\<lparr>on_length := on_length s, off_length := off_length s, countdown := countdown s, status := status s\<rparr>"

definition board_sync :: "u16 \<Rightarrow> u16 \<Rightarrow> board \<Rightarrow> u32 \<times> board" where
  "board_sync sloc dloc bd =
     (case bd of (bs, scr) \<Rightarrow>
        case (at_location sloc bs, at_location dloc bs) of
          (Some s, Some d) \<Rightarrow> (0, change_first dloc (\<lambda>d. [in_step s d]) bs, draw d (off_char d) scr)
        | _ \<Rightarrow> (-1, bd))"

text \<open>
  A clock tick, for one cell. It is lit or not by the parity of its status; its time is up when no tick
  is left, the count being a signed 16-bit number from which one is taken.
\<close>

definition lit :: "blink \<Rightarrow> bool" where
  "lit b \<longleftrightarrow> odd (unat (status b))"

definition time_up :: "blink \<Rightarrow> bool" where
  "time_up b \<longleftrightarrow> unat (countdown b) \<le> 1 \<or> 0x8000 < unat (countdown b)"

definition other_char :: "blink \<Rightarrow> u8" where
  "other_char b = (if lit b then off_char b else on_char b)"

definition tick_cell :: "blink \<Rightarrow> blink" where
  "tick_cell b =
     (if \<not> time_up b then b\<lparr>countdown := countdown b - 1\<rparr>
      else if lit b then b\<lparr>status := status b - 1, countdown := off_length b\<rparr>
      else b\<lparr>status := status b + 1, countdown := on_length b\<rparr>)"

definition draw_due :: "blink \<Rightarrow> u8 list \<Rightarrow> u8 list" where
  "draw_due b scr = (if time_up b then draw b (other_char b) scr else scr)"

definition board_tick :: "board \<Rightarrow> board" where
  "board_tick bd = (case bd of (bs, scr) \<Rightarrow> (map tick_cell bs, fold draw_due bs scr))"

text \<open>A program's use of the blinker: commands and ticks of the clock.\<close>

datatype blink_event = Add blink | Remove u32 | Sync u32 | Tick

definition board_event :: "blink_event \<Rightarrow> board \<Rightarrow> u32 \<times> board" where
  "board_event e bd =
     (case e of Add b \<Rightarrow> board_add b bd | Remove v \<Rightarrow> board_remove (ucast v) bd
      | Sync v \<Rightarrow> board_sync (ucast (drop_bit 16 v)) (ucast (v AND 0xFFFF)) bd | Tick \<Rightarrow> (0, board_tick bd))"

definition blinker_event :: "'w os \<Rightarrow> u32 \<Rightarrow> blink_event \<Rightarrow> 'w fish \<Rightarrow> (u32 \<times> 'w fish) option" where
  "blinker_event os vmem e f =
     (case e of
        Add b \<Rightarrow> map_option (\<lambda>(r, _, f). (r, f)) (mp1_ioctl os vmem (RTC_ADD b) f)
      | Remove v \<Rightarrow> map_option (\<lambda>(r, _, f). (r, f)) (mp1_ioctl os vmem (RTC_REMOVE v) f)
      | Sync v \<Rightarrow> map_option (\<lambda>(r, _, f). (r, f)) (mp1_ioctl os vmem (RTC_SYNC v) f)
      | Tick \<Rightarrow> map_option (Pair 0) (mp1_rtc_tasklet os vmem f))"

fun placed :: "blink_event \<Rightarrow> bool" where
  "placed (Add b) \<longleftrightarrow> location b \<noteq> 0"
| "placed _ \<longleftrightarrow> True"

fun board_run :: "blink_event list \<Rightarrow> board \<Rightarrow> u32 list \<times> board" where
  "board_run [] bd = ([], bd)"
| "board_run (e # es) bd = (case board_event e bd of (r, bd) \<Rightarrow> case board_run es bd of (rs, bd) \<Rightarrow> (r # rs, bd))"

fun blinker_run :: "'w os \<Rightarrow> u32 \<Rightarrow> blink_event list \<Rightarrow> 'w fish \<Rightarrow> (u32 list \<times> 'w fish) option" where
  "blinker_run os vmem [] f = Some ([], f)"
| "blinker_run os vmem (e # es) f =
     do { (r, f) \<leftarrow> blinker_event os vmem e f; (rs, f) \<leftarrow> blinker_run os vmem es f; Some (r # rs, f) }"

section \<open>The list in the array\<close>

primrec chain :: "blink list \<Rightarrow> nat option \<Rightarrow> nat list \<Rightarrow> bool" where
  "chain bs p [] \<longleftrightarrow> p = None"
| "chain bs p (i # is) \<longleftrightarrow> p = Some i \<and> i < length bs \<and> chain bs (next_blink (bs ! i)) is"

lemma chain_None [simp]: "chain bs None is \<longleftrightarrow> is = []"
  by (cases "is") auto

lemma chain_unique: "chain bs p is \<Longrightarrow> chain bs p js \<Longrightarrow> is = js"
  by (induction "is" arbitrary: p js) (auto split: list.splits, case_tac js, auto)

lemma chain_suffix: "chain bs p (is @ js) \<Longrightarrow> js \<noteq> [] \<Longrightarrow> chain bs (Some (hd js)) js"
  by (induction "is" arbitrary: p) (auto, case_tac js, auto)

lemma chain_distinct: "chain bs p is \<Longrightarrow> distinct is"
proof (induction "is" arbitrary: p)
  case (Cons i "is")
  then have c: "chain bs (next_blink (bs ! i)) is" "distinct is" by auto
  have "i \<notin> set is"
  proof
    assume "i \<in> set is"
    then obtain xs ys where s: "is = xs @ i # ys" by (auto simp: in_set_conv_decomp)
    then have "chain bs (Some i) (i # ys)" using chain_suffix [of bs _ xs "i # ys"] c(1) by simp
    moreover have "chain bs (Some i) (i # is)" using Cons.prems by simp
    ultimately show False using chain_unique [of bs "Some i" "i # ys" "i # is"] s by simp
  qed
  then show ?case using c(2) by simp
qed simp

lemma chain_bound: "chain bs p is \<Longrightarrow> set is \<subseteq> {..<length bs}"
  by (induction "is" arbitrary: p) auto

text \<open>An element that keeps its link, or is not on the list, can be changed.\<close>

lemma chain_cong:
  "length cs = length bs \<Longrightarrow> (\<And>i. i \<in> set is \<Longrightarrow> next_blink (cs ! i) = next_blink (bs ! i)) \<Longrightarrow>
     chain cs p is = chain bs p is"
  by (induction "is" arbitrary: p) auto

text \<open>The cells of a list: what the structures hold but for the link.\<close>

definition erase :: "blink \<Rightarrow> blink" where
  "erase b = b\<lparr>next_blink := None\<rparr>"

definition cells :: "blink list \<Rightarrow> nat list \<Rightarrow> blink list" where
  "cells bs is = map (\<lambda>i. erase (bs ! i)) is"

lemma erase_sel [simp]: "location (erase b) = location b" "on_char (erase b) = on_char b" "off_char (erase b) = off_char b"
  "on_length (erase b) = on_length b" "off_length (erase b) = off_length b" "countdown (erase b) = countdown b"
  "status (erase b) = status b" "next_blink (erase b) = None"
  by (simp_all add: erase_def)

lemma cells_cong: "(\<And>i. i \<in> set is \<Longrightarrow> erase (cs ! i) = erase (bs ! i)) \<Longrightarrow> cells cs is = cells bs is"
  by (simp add: cells_def)

text \<open>The list, and the elements that are not on it are free.\<close>

definition listed :: "blink list \<Rightarrow> nat option \<Rightarrow> nat list \<Rightarrow> bool" where
  "listed bs p is \<longleftrightarrow> chain bs p is \<and> length bs = BLINKS \<and>
     (\<forall>i < BLINKS. location (bs ! i) \<noteq> 0 \<longleftrightarrow> i \<in> set is) \<and> (\<forall>i \<in> set is. unat (location (bs ! i)) < 2000)"


lemma listed_facts:
  assumes "listed bs p is"
  shows "chain bs p is" "length bs = BLINKS" "distinct is" "i \<in> set is \<Longrightarrow> i < BLINKS"
    "i < BLINKS \<Longrightarrow> location (bs ! i) = 0 \<longleftrightarrow> i \<notin> set is" "i \<in> set is \<Longrightarrow> unat (location (bs ! i)) < 2000"
proof -
  show c: "chain bs p is" "length bs = BLINKS" using assms by (simp_all add: listed_def)
  show "distinct is" using chain_distinct [OF c(1)] .
  show "i \<in> set is \<Longrightarrow> i < BLINKS" using chain_bound [OF c(1)] c(2) by auto
qed (use assms in \<open>auto simp: listed_def\<close>)

lemma cells_Nil [simp]: "cells bs [] = []"
  and cells_Cons [simp]: "cells bs (i # is) = erase (bs ! i) # cells bs is"
  and cells_append [simp]: "cells bs (is @ js) = cells bs is @ cells bs js"
  and length_cells [simp]: "length (cells bs is) = length is"
  by (simp_all add: cells_def)

section \<open>Searching\<close>

definition first_at :: "blink list \<Rightarrow> u16 \<Rightarrow> nat list \<Rightarrow> nat option" where
  "first_at bs loc is = List.find (\<lambda>i. location (bs ! i) = loc) is"

lemma find_from_chain: "chain bs p is \<Longrightarrow> find_from loc p bs = Some (first_at bs loc is)"
proof (induction "is" arbitrary: p)
  case Nil
  then show ?case by (simp add: first_at_def find_from.simps)
next
  case (Cons i "is")
  then have "find_from loc (next_blink (bs ! i)) bs = Some (first_at bs loc is)" "p = Some i" "i < length bs" by auto
  then show ?case by (subst find_from.simps) (simp add: first_at_def)
qed

lemma at_location_cells: "at_location loc (cells bs is) = map_option (\<lambda>i. erase (bs ! i)) (first_at bs loc is)"
  by (induction "is") (auto simp: first_at_def)

lemma first_at_Some:
  assumes "first_at bs loc is = Some i"
  obtains xs ys where "is = xs @ i # ys" "location (bs ! i) = loc" "\<forall>x \<in> set xs. location (bs ! x) \<noteq> loc"
proof -
  obtain k where k: "k < length is" "location (bs ! (is ! k)) = loc" "i = is ! k" "\<forall>j < k. location (bs ! (is ! j)) \<noteq> loc"
    using assms by (auto simp: first_at_def find_Some_iff)
  have "is = take k is @ i # drop (Suc k) is" using k(1,3) by (simp add: id_take_nth_drop)
  moreover have "\<forall>x \<in> set (take k is). location (bs ! x) \<noteq> loc" using k(1,4) by (fastforce simp: in_set_conv_nth)
  ultimately show thesis using that k(2,3) by blast
qed

lemma change_first_cells:
  assumes "location (bs ! i) = loc" "\<forall>x \<in> set xs. location (bs ! x) \<noteq> loc"
  shows "change_first loc g (cells bs (xs @ i # ys)) = cells bs xs @ g (erase (bs ! i)) @ cells bs ys"
  using assms by (induction xs) simp_all

section \<open>Changing the list\<close>

lemma listed_free:
  assumes "listed (blink_array f) p is"
  shows "mp1_malloc f = None \<longleftrightarrow> length is = BLINKS"
    and "mp1_malloc f = Some q \<Longrightarrow> q < BLINKS \<and> q \<notin> set is"
proof -
  note l = listed_facts(5) [OF assms]
  have d: "distinct is" "set is \<subseteq> {..<BLINKS}" using listed_facts(3,4) [OF assms] by auto
  have "mp1_malloc f = None \<longleftrightarrow> {..<BLINKS} \<subseteq> set is"
    using l by (auto simp: mp1_malloc_def find_None_iff)
  also have "\<dots> \<longleftrightarrow> set is = {..<BLINKS}" using d(2) by auto
  also have "\<dots> \<longleftrightarrow> card (set is) = BLINKS" 
    using card_subset_eq [OF finite_lessThan d(2)] by (metis card_lessThan)
  finally show "mp1_malloc f = None \<longleftrightarrow> length is = BLINKS" using distinct_card [OF d(1)] by simp
  show "mp1_malloc f = Some q \<Longrightarrow> q < BLINKS \<and> q \<notin> set is"
    using l by (auto simp: mp1_malloc_def find_Some_iff)
qed

lemma listed_add:
  assumes "listed bs p is" "q < BLINKS" "q \<notin> set is" "next_blink b = p" "location b \<noteq> 0" "unat (location b) < 2000"
  shows "listed (bs[q := b]) (Some q) (q # is)" "cells (bs[q := b]) (q # is) = erase b # cells bs is"
proof -
  have n: "bs[q := b] ! i = bs ! i" if "i \<in> set is" for i using assms(3) that by (metis nth_list_update_neq)
  have "chain (bs[q := b]) p is = chain bs p is" by (rule chain_cong) (simp_all add: n)
  then show "listed (bs[q := b]) (Some q) (q # is)"
    using assms n unfolding listed_def by (auto simp: nth_list_update)
  have "cells (bs[q := b]) is = cells bs is" by (rule cells_cong) (simp add: n)
  then show "cells (bs[q := b]) (q # is) = erase b # cells bs is" using assms(1,2) by (simp add: listed_def)
qed

lemma listed_update:
  assumes "listed bs p is" "q \<in> set is" "next_blink b = next_blink (bs ! q)" "location b = location (bs ! q)"
  shows "listed (bs[q := b]) p is"
proof -
  have q: "q < BLINKS" using listed_facts(4) [OF assms(1,2)] .
  then have "chain (bs[q := b]) p is = chain bs p is"
    using assms(1,3) by (intro chain_cong) (auto simp: nth_list_update listed_def)
  then show ?thesis using assms q unfolding listed_def by (auto simp: nth_list_update)
qed

lemma remove_find_prev_chain:
  "link_at q f = Some l \<Longrightarrow> chain (blink_array f) l (xs @ p # ys) \<Longrightarrow> p \<notin> set xs \<Longrightarrow>
     remove_find_prev p q f = Some (if xs = [] then q else Some (last xs))"
proof (induction xs arbitrary: q l)
  case Nil
  then show ?case by (simp add: remove_find_prev.simps)
next
  case (Cons x xs)
  then have "remove_find_prev p (Some x) f = Some (if xs = [] then Some x else Some (last xs))"
    by (intro Cons.IH) (auto simp: link_at_def)
  then show ?case using Cons.prems by (subst remove_find_prev.simps) simp
qed

lemma chain_unlink:
  "chain bs p (zs @ z # i # ys) \<Longrightarrow> distinct (zs @ z # i # ys) \<Longrightarrow>
     chain (bs[z := (bs ! z)\<lparr>next_blink := next_blink (bs ! i)\<rparr>]) p (zs @ z # ys)"
proof (induction zs arbitrary: p)
  case Nil
  then have "chain (bs[z := (bs ! z)\<lparr>next_blink := next_blink (bs ! i)\<rparr>]) (next_blink (bs ! i)) ys =
      chain bs (next_blink (bs ! i)) ys"
    by (intro chain_cong) (auto simp: nth_list_update)
  with Nil show ?case by auto
qed auto


lemma link_set [simp]: "blink_array (set_link None l f) = blink_array f" "mp1_list_head (set_link None l f) = l"
  "blink_array (set_link (Some i) l f) = (blink_array f)[i := (blink_array f ! i)\<lparr>next_blink := l\<rparr>]"
  "mp1_list_head (set_link (Some i) l f) = mp1_list_head f" "mem (set_link q l f) = mem f"
  by (simp_all add: set_link_def set_blink_def split: option.split)

lemma set_blink_sel [simp]: "blink_array (set_blink i b f) = (blink_array f)[i := b]"
  "mp1_list_head (set_blink i b f) = mp1_list_head f" "mem (set_blink i b f) = mem f"
  by (simp_all add: set_blink_def)

lemma mp1_free_sel [simp]: "blink_array (mp1_free p f) = (blink_array f)[p := zero_blink]"
  "mp1_list_head (mp1_free p f) = mp1_list_head f" "mem (mp1_free p f) = mem f"
  by (simp_all add: mp1_free_def)

text \<open>An element taken off the list: the link before it is moved past it, and it is cleared.\<close>

lemma listed_unlink:
  assumes "listed (blink_array f) (mp1_list_head f) (xs @ p # ys)"
  shows "\<exists>q. remove_find_prev p None f = Some q \<and>
    listed (blink_array (mp1_free p (set_link q (next_blink (blink_array f ! p)) f)))
      (mp1_list_head (mp1_free p (set_link q (next_blink (blink_array f ! p)) f))) (xs @ ys) \<and>
    cells (blink_array (mp1_free p (set_link q (next_blink (blink_array f ! p)) f))) (xs @ ys) = cells (blink_array f) (xs @ ys)"
proof -
  note l = listed_facts [OF assms]
  define q where "q = (if xs = [] then None else Some (last xs))"
  define g where "g = set_link q (next_blink (blink_array f ! p)) f"
  have r: "remove_find_prev p None f = Some q"
    using remove_find_prev_chain [of None f "mp1_list_head f" xs p ys] l(1,3) by (simp add: link_at_def q_def)
  have g: "chain (blink_array g) (mp1_list_head g) (xs @ ys)" "length (blink_array g) = BLINKS"
    "\<forall>i. location (blink_array g ! i) = location (blink_array f ! i) \<and> erase (blink_array g ! i) = erase (blink_array f ! i)"
  proof -
    show "chain (blink_array g) (mp1_list_head g) (xs @ ys)"
    proof (cases xs rule: rev_cases)
      case (snoc zs z)
      then show ?thesis using chain_unlink [of "blink_array f" "mp1_list_head f" zs z p ys] l(1,3)
        by (simp add: g_def q_def)
    qed (use l(1) in \<open>simp add: g_def q_def\<close>)
    show "length (blink_array g) = BLINKS" using l(2) by (simp add: g_def q_def)
    show "\<forall>i. location (blink_array g ! i) = location (blink_array f ! i) \<and> erase (blink_array g ! i) = erase (blink_array f ! i)"
    proof
      fix i
      have "last xs < length (blink_array f)" if "xs \<noteq> []" using that l(2) l(4) [of "last xs"] by simp
      then show "location (blink_array g ! i) = location (blink_array f ! i) \<and> erase (blink_array g ! i) = erase (blink_array f ! i)"
        by (cases "i = last xs") (simp_all add: g_def q_def erase_def)
    qed
  qed
  let ?bs = "blink_array (mp1_free p g)"
  have n: "?bs ! i = blink_array g ! i" if "i \<in> set (xs @ ys)" for i
    using that l(3) by (simp, subst nth_list_update_neq) auto
  have "chain ?bs (mp1_list_head g) (xs @ ys)"
    using g(1) chain_cong [of ?bs "blink_array g" "xs @ ys"] n by (simp)
  moreover have "location (?bs ! i) \<noteq> 0 \<longleftrightarrow> i \<in> set (xs @ ys)" if "i < BLINKS" for i
    using l(3) l(5) [of i] g(2,3) n that by (cases "i = p") (auto simp: zero_blink_def)
  ultimately have "listed ?bs (mp1_list_head g) (xs @ ys)"
    using g(2,3) n l(6) unfolding listed_def by auto
  moreover have "cells ?bs (xs @ ys) = cells (blink_array f) (xs @ ys)"
    using n g(3) by (intro cells_cong) simp
  ultimately show ?thesis using r by (intro exI [of _ q]) (simp add: g_def [symmetric])
qed


section \<open>The screen\<close>

text \<open>The pointer at \<open>vmem\<close> leads to the 4000 bytes of a text screen, and the screen does not cover it.\<close>

definition shows_screen :: "'w os \<Rightarrow> u32 \<Rightarrow> u32 \<Rightarrow> 'w \<Rightarrow> u8 list \<Rightarrow> bool" where
  "shows_screen os vmem base w scr \<longleftrightarrow>
     load_int os vmem w = Some base \<and> window os w base scr \<and> length scr = 4000 \<and>
     (\<forall>i < 4. \<forall>j < 4000. vmem + of_nat i \<noteq> base + of_nat j)"

lemma load_int_cong: "(\<forall>i < 4. uload os (a + of_nat i) w' = uload os (a + of_nat i) w) \<Longrightarrow> load_int os a w' = load_int os a w"
proof -
  assume a: "\<forall>i < 4. uload os (a + of_nat i) w' = uload os (a + of_nat i) w"
  show ?thesis using a [rule_format, of 0] a [rule_format, of 1] a [rule_format, of 2] a [rule_format, of 3]
    by (simp add: load_int_def)
qed

lemma poke_at_eq: "poke_at b = of_nat (2 * unat (location b))"
proof -
  have "poke_at b = 2 * ucast (location b)" by (simp add: poke_at_def push_bit_eq_mult)
  then show ?thesis by simp
qed

lemma odd_unat: "odd (unat x) \<longleftrightarrow> odd x" for x :: u16
  by (simp add: bit_unsigned_iff flip: bit_0)
lemma status_flip: "x XOR 1 = (if odd (unat x) then x - 1 else x + 1)" for x :: u16
  by (simp add: xor_one_eq odd_unat)
lemma and_one_odd: "x AND 1 \<noteq> 0 \<longleftrightarrow> odd (unat x)" for x :: u16
  by (simp add: and_one_eq mod_2_eq_odd odd_unat)
lemma positive_count: "0 <s x - 1 \<longleftrightarrow> 1 < unat x \<and> unat x \<le> 0x8000" for x :: u16
proof -
  define k where "k = int (unat x) - 1"
  have "unat x < 65536" using unsigned_less [of x, where ?'a = nat] by simp
  then have k: "- 1 \<le> k" "k < 65535" unfolding k_def by linarith+
  have "x - 1 = of_int k" by (simp add: k_def)
  then have s: "sint (x - 1) = signed_take_bit 15 k" by (simp add: sint_sbintrunc')
  have "0 < signed_take_bit 15 k \<longleftrightarrow> 0 < k \<and> k < 0x8000"
  proof (cases "k < 0x8000")
    case True
    then show ?thesis using k by (simp add: signed_take_bit_int_eq_self)
  next
    case False
    then have "signed_take_bit 15 k = k - 2 ^ 16"
      using k signed_take_bit_int_eq_self [of 15 "k - 2 ^ 16"] 
        signed_take_bit_eq_iff_take_bit_eq [of 15 k "k - 2 ^ 16"] by (simp add: take_bit_int_def)
    then show ?thesis using False k by simp
  qed
  then show ?thesis unfolding word_sless_alt s k_def by (simp del: of_nat_unat, linarith)
qed

text \<open>The turn that the code gives a cell is that of the board.\<close>

lemma turn_eq: "blink_due b = time_up b" "blink_char b = other_char b" "blink_turn b = tick_cell b"
proof -
  show due: "blink_due b = time_up b"
    using positive_count [of "countdown b"] by (auto simp: blink_due_def time_up_def)
  show "blink_char b = other_char b" by (simp only: blink_char_def other_char_def and_one_odd lit_def)
  show "blink_turn b = tick_cell b"
    by (simp add: blink_turn_def tick_cell_def due and_one_odd status_flip lit_def)
qed

lemma turn_erase: "time_up (erase b) = time_up b" "other_char (erase b) = other_char b"
  "tick_cell (erase b) = erase (tick_cell b)" "draw (erase b) c scr = draw b c scr"
  "next_blink (tick_cell b) = next_blink b" "location (tick_cell b) = location b"
  by (simp_all add: time_up_def other_char_def tick_cell_def draw_def lit_def)

definition turn_at :: "nat \<Rightarrow> blink list \<Rightarrow> blink list" where
  "turn_at i bs = bs[i := tick_cell (bs ! i)]"

lemma length_turn [simp]: "length (fold turn_at is bs) = length bs"
  by (induction "is" arbitrary: bs) (simp_all add: turn_at_def)

lemma nth_turn: "distinct is \<Longrightarrow> j < length bs \<Longrightarrow> fold turn_at is bs ! j = (if j \<in> set is then tick_cell (bs ! j) else bs ! j)"
proof (induction "is" arbitrary: bs)
  case (Cons i "is")
  have "turn_at i bs ! j = (if j = i then tick_cell (bs ! i) else bs ! j)"
    using Cons.prems(2) by (simp add: turn_at_def nth_list_update)
  moreover have "j < length (turn_at i bs)" using Cons.prems(2) by (simp add: turn_at_def)
  ultimately show ?case using Cons.IH [of "turn_at i bs"] Cons.prems(1) by auto
qed simp

lemma listed_turn:
  assumes "listed bs p is"
  shows "listed (fold turn_at is bs) p is" "cells (fold turn_at is bs) is = map tick_cell (cells bs is)"
proof -
  note l = listed_facts [OF assms]
  have n: "fold turn_at is bs ! j = (if j \<in> set is then tick_cell (bs ! j) else bs ! j)" if "j < BLINKS" for j
    using nth_turn [OF l(3)] that l(2) by simp
  have "chain (fold turn_at is bs) p is = chain bs p is"
    using n l(4) by (intro chain_cong) (simp_all add: turn_erase)
  then show "listed (fold turn_at is bs) p is"
    using l n unfolding listed_def by (simp add: turn_erase)
  show "cells (fold turn_at is bs) is = map tick_cell (cells bs is)"
    using n l(4) by (simp add: cells_def turn_erase)
qed

context user_memory
begin

text \<open>What a fish state stands for: a list in the array and a screen in memory.\<close>

definition stands_for :: "u32 \<Rightarrow> u32 \<Rightarrow> 'w fish \<Rightarrow> board \<Rightarrow> bool" where
  "stands_for vmem base f bd \<longleftrightarrow>
     ok (mem f) \<and> shows_screen os vmem base (mem f) (snd bd) \<and>
     (\<exists>is. listed (blink_array f) (mp1_list_head f) is \<and> fst bd = cells (blink_array f) is)"

lemma poke_draws:
  assumes "ok (mem f)" "shows_screen os vmem base (mem f) scr" "unat (location b) < 2000"
  shows "\<exists>w. mp1_poke os vmem c (poke_at b) f = Some (f\<lparr>mem := w\<rparr>) \<and> ok w \<and> shows_screen os vmem base w (draw b c scr)"
proof -
  have sc: "load_int os vmem (mem f) = Some base" "window os (mem f) base scr" "length scr = 4000"
    "\<And>i j. i < 4 \<Longrightarrow> j < 4000 \<Longrightarrow> vmem + of_nat i \<noteq> base + of_nat j"
    using assms(2) by (simp_all add: shows_screen_def)
  obtain w where w: "ustore os (base + of_nat (2 * unat (location b))) c (mem f) = Some w"
    "turned (mem f) base scr w (draw b c scr)"
    using store_turned [OF assms(1) sc(2), of "2 * unat (location b)" c] assms(3) sc(3) by (auto simp: draw_def)
  have t: "ok w" "window os w base (draw b c scr)" "same_outside os base (length scr) (mem f) w"
    using w(2) by (simp_all add: turned_def)
  have "load_int os vmem w = load_int os vmem (mem f)"
    using t(3) sc(3,4) by (intro load_int_cong) (simp add: same_outside_def)
  then have "shows_screen os vmem base w (draw b c scr)" using sc t(2) by (simp add: shows_screen_def draw_def)
  then show ?thesis using w(1) t(1) sc(1) by (intro exI [of _ w]) (simp add: mp1_poke_def poke_at_eq del: of_nat_mult)
qed

lemma tasklet_loop_turns:
  "ok (mem f) \<Longrightarrow> shows_screen os vmem base (mem f) scr \<Longrightarrow> chain (blink_array f) p is \<Longrightarrow>
     (\<And>i. i \<in> set is \<Longrightarrow> unat (location (blink_array f ! i)) < 2000) \<Longrightarrow>
   \<exists>w. tasklet_loop os vmem p f = Some (f\<lparr>blink_array := fold turn_at is (blink_array f), mem := w\<rparr>) \<and> ok w \<and>
     shows_screen os vmem base w (fold draw_due (cells (blink_array f) is) scr)"
proof (induction "is" arbitrary: p f scr)
  case Nil
  then show ?case by (intro exI [of _ "mem f"]) (simp add: tasklet_loop.simps)
next
  case (Cons i "is")
  define b where "b = blink_array f ! i"
  have c: "p = Some i" "i < length (blink_array f)" "chain (blink_array f) (next_blink b) is" "unat (location b) < 2000"
    using Cons.prems(3,4) by (simp_all add: b_def)
  have i: "i \<notin> set is" using chain_distinct [OF Cons.prems(3)] by simp
  obtain w where w: "tasklet_step os vmem i b f = Some (f\<lparr>blink_array := turn_at i (blink_array f), mem := w\<rparr>)"
    "ok w" "shows_screen os vmem base w (draw_due b scr)"
  proof (cases "time_up b")
    case True
    obtain w where "mp1_poke os vmem (other_char b) (poke_at b) f = Some (f\<lparr>mem := w\<rparr>)" "ok w"
      "shows_screen os vmem base w (draw b (other_char b) scr)"
      using poke_draws [OF Cons.prems(1,2) c(4)] by blast
    then show thesis using True by (intro that [of w]) (simp_all add: tasklet_step_def turn_eq set_blink_def turn_at_def b_def draw_due_def)
  next
    case False
    then show thesis using Cons.prems(1,2)
      by (intro that [of "mem f"]) (simp_all add: tasklet_step_def turn_eq set_blink_def turn_at_def b_def draw_due_def)
  qed
  define f1 where "f1 = f\<lparr>blink_array := turn_at i (blink_array f), mem := w\<rparr>"
  have n: "turn_at i (blink_array f) ! j = blink_array f ! j" if "j \<in> set is" for j
    using that i by (metis nth_list_update_neq turn_at_def)
  have "chain (blink_array f1) (next_blink b) is = chain (blink_array f) (next_blink b) is"
    using n by (intro chain_cong) (simp_all add: f1_def turn_at_def)
  moreover have "unat (location (blink_array f1 ! j)) < 2000" if "j \<in> set is" for j
    using n that Cons.prems(4) by (simp add: f1_def)
  ultimately obtain v where "tasklet_loop os vmem (next_blink b) f1 =
      Some (f1\<lparr>blink_array := fold turn_at is (blink_array f1), mem := v\<rparr>)" "ok v"
    "shows_screen os vmem base v (fold draw_due (cells (blink_array f1) is) (draw_due b scr))"
    using Cons.IH [of f1 "draw_due b scr" "next_blink b"] w(2,3) c(3) by (auto simp: f1_def)
  moreover have "cells (blink_array f1) is = cells (blink_array f) is"
    using n by (intro cells_cong) (simp add: f1_def)
  moreover have "draw_due (erase b) scr = draw_due b scr" by (simp add: draw_due_def turn_erase)
  ultimately show ?case using c(1,2) w(1)
    by (subst tasklet_loop.simps) (intro exI [of _ v], simp add: f1_def b_def)
qed

text \<open>Each command does to the board what it says.\<close>

lemma stands_forI:
  "ok (mem f) \<Longrightarrow> shows_screen os vmem base (mem f) scr \<Longrightarrow> listed (blink_array f) (mp1_list_head f) is \<Longrightarrow>
     bs = cells (blink_array f) is \<Longrightarrow> stands_for vmem base f (bs, scr)"
  unfolding stands_for_def by auto

lemma stands_forE:
  assumes "stands_for vmem base f bd"
  obtains "is" scr where "ok (mem f)" "shows_screen os vmem base (mem f) scr" "listed (blink_array f) (mp1_list_head f) is"
    "bd = (cells (blink_array f) is, scr)"
  using assms unfolding stands_for_def by (cases bd) auto

lemma tick_refines:
  assumes "stands_for vmem base f bd"
  shows "\<exists>f'. mp1_rtc_tasklet os vmem f = Some f' \<and> stands_for vmem base f' (board_tick bd)"
  using assms
proof (cases rule: stands_forE)
  case (1 "is" scr)
  note l = listed_facts [OF 1(3)]
  obtain w where "tasklet_loop os vmem (mp1_list_head f) f = Some (f\<lparr>blink_array := fold turn_at is (blink_array f), mem := w\<rparr>)"
    "ok w" "shows_screen os vmem base w (fold draw_due (cells (blink_array f) is) scr)"
    using tasklet_loop_turns [OF 1(1,2) l(1,6)] by blast
  then show ?thesis using listed_turn [OF 1(3)] 1(4)
    by (auto simp: mp1_rtc_tasklet_def board_tick_def intro!: stands_forI)
qed

lemma add_refines:
  assumes "stands_for vmem base f bd" "location b \<noteq> 0"
  shows "\<exists>f'. mp1_ioctl_add os vmem b f = Some (fst (board_add b bd), f') \<and> stands_for vmem base f' (snd (board_add b bd))"
  using assms(1)
proof (cases rule: stands_forE)
  case (1 "is" scr)
  have lim: "80 * 25 \<le> location b \<longleftrightarrow> 2000 \<le> unat (location b)" by (simp add: word_le_nat_alt)
  show ?thesis
  proof (cases "2000 \<le> unat (location b) \<or> length is = BLINKS")
    case True
    then have "mp1_ioctl_add os vmem b f = Some (-1, f)"
      using listed_free(1) [OF 1(3)] lim by (auto simp: mp1_ioctl_add_def)
    then show ?thesis using True assms(1) 1(4) by (simp add: board_add_def BLINKS_def)
  next
    case False
    then obtain q where q: "mp1_malloc f = Some q" using listed_free(1) [OF 1(3)] by auto
    define b' where "b' = b\<lparr>status := 1, countdown := on_length b, next_blink := mp1_list_head f\<rparr>"
    define g where "g = (set_blink q b' f)\<lparr>mp1_list_head := Some q\<rparr>"
    have b': "location b' = location b" "on_char b' = on_char b" "next_blink b' = mp1_list_head f"
      "erase b' = b\<lparr>status := 1, countdown := on_length b, next_blink := None\<rparr>" "\<And>c s. draw b' c s = draw b c s"
      by (simp_all add: b'_def erase_def draw_def)
    have l: "listed (blink_array g) (mp1_list_head g) (q # is)" "cells (blink_array g) (q # is) = erase b' # cells (blink_array f) is"
      using listed_add [OF 1(3), of q b'] listed_free(2) [OF 1(3) q] False b' assms(2) by (simp_all add: g_def)
    obtain w where w: "mp1_poke os vmem (on_char b') (poke_at b') g = Some (g\<lparr>mem := w\<rparr>)" "ok w"
      "shows_screen os vmem base w (draw b' (on_char b') scr)"
      using poke_draws [of g vmem base scr b' "on_char b'"] 1(1,2) False b'(1) by (auto simp: g_def)
    have "mp1_ioctl_add os vmem b f = Some (0, g\<lparr>mem := w\<rparr>)"
      using False lim q w(1) by (simp add: mp1_ioctl_add_def b'_def g_def)
    moreover have "stands_for vmem base (g\<lparr>mem := w\<rparr>) (snd (board_add b bd))"
      using False 1(4) w l b' by (auto simp: board_add_def BLINKS_def intro!: stands_forI)
    ultimately show ?thesis using False 1(4) by (simp add: board_add_def BLINKS_def)
  qed
qed

lemma remove_refines:
  assumes "stands_for vmem base f bd"
  shows "\<exists>f'. mp1_ioctl_remove v f = Some (fst (board_remove (ucast v) bd), f') \<and>
     stands_for vmem base f' (snd (board_remove (ucast v) bd))"
  using assms
proof (cases rule: stands_forE)
  case (1 "is" scr)
  have h: "mp1_find_helper v f = Some (first_at (blink_array f) (ucast v) is)"
    using find_from_chain listed_facts(1) [OF 1(3)] by (simp add: mp1_find_helper_def)
  show ?thesis
  proof (cases "first_at (blink_array f) (ucast v) is")
    case None
    then show ?thesis using h assms 1(4) by (simp add: mp1_ioctl_remove_def board_remove_def at_location_cells)
  next
    case (Some p)
    obtain xs ys where s: "is = xs @ p # ys" "location (blink_array f ! p) = ucast v"
      "\<forall>x \<in> set xs. location (blink_array f ! x) \<noteq> ucast v"
      using first_at_Some [OF Some] by blast
    have p: "p < length (blink_array f)" using listed_facts(2,4) [OF 1(3)] s(1) by simp
    obtain q where q: "remove_find_prev p None f = Some q"
      "listed (blink_array (mp1_free p (set_link q (next_blink (blink_array f ! p)) f)))
        (mp1_list_head (mp1_free p (set_link q (next_blink (blink_array f ! p)) f))) (xs @ ys)"
      "cells (blink_array (mp1_free p (set_link q (next_blink (blink_array f ! p)) f))) (xs @ ys) = cells (blink_array f) (xs @ ys)"
      using listed_unlink 1(3) unfolding s(1) by blast
    have r: "mp1_ioctl_remove v f = Some (0, mp1_free p (set_link q (next_blink (blink_array f ! p)) f))"
      using h Some q(1) p by (simp add: mp1_ioctl_remove_def)
    have "change_first (ucast v) (\<lambda>_. []) (cells (blink_array f) is) = cells (blink_array f) (xs @ ys)"
      using change_first_cells [where g = "\<lambda>_. []", OF s(2,3)] unfolding s(1) by simp
    then have "board_remove (ucast v) bd = (0, cells (blink_array f) (xs @ ys), scr)"
      using Some 1(4) by (simp add: board_remove_def at_location_cells)
    then show ?thesis using r q(2,3) 1(1,2) by (auto simp del: mp1_free_sel(1,2) intro!: stands_forI)
  qed
qed

text \<open>Looking up changes nothing; the link that comes back with the structure is left open.\<close>

lemma find_refines:
  assumes "stands_for vmem base f bd"
  shows "\<exists>r b'. mp1_ioctl_find b f = Some (r, b') \<and>
    (case at_location (location b) (fst bd) of None \<Rightarrow> r = -1 \<and> b' = b | Some x \<Rightarrow> r = 0 \<and> erase b' = x)"
  using assms
proof (cases rule: stands_forE)
  case (1 "is" scr)
  note l = listed_facts [OF 1(3)]
  have "mp1_find_helper (ucast (location b)) f = Some (first_at (blink_array f) (location b) is)"
  proof -
    have "(ucast (ucast (location b) :: u32) :: u16) = location b" by (rule bit_word_eqI) (simp add: bit_ucast_iff)
    then show ?thesis using find_from_chain [OF l(1)] by (simp add: mp1_find_helper_def)
  qed
  moreover have "p < length (blink_array f)" if "first_at (blink_array f) (location b) is = Some p" for p
    using first_at_Some [OF that] l(2) l(4) [of p] by force
  ultimately show ?thesis using 1(4)
    by (auto simp: mp1_ioctl_find_def at_location_cells split: option.split)
qed

lemma sync_refines:
  assumes "stands_for vmem base f bd"
  shows "\<exists>f'. mp1_ioctl_sync os vmem v f = Some (fst (board_sync (ucast (drop_bit 16 v)) (ucast (v AND 0xFFFF)) bd), f') \<and>
     stands_for vmem base f' (snd (board_sync (ucast (drop_bit 16 v)) (ucast (v AND 0xFFFF)) bd))"
  using assms
proof (cases rule: stands_forE)
  case (1 "is" scr)
  define sloc where "sloc = (ucast (drop_bit 16 v) :: u16)"
  define dloc where "dloc = (ucast (v AND 0xFFFF) :: u16)"
  let ?a = "blink_array f"
  note l = listed_facts [OF 1(3)]
  have h: "mp1_find_helper (drop_bit 16 v) f = Some (first_at ?a sloc is)"
    "mp1_find_helper (v AND 0xFFFF) f = Some (first_at ?a dloc is)"
    using find_from_chain l(1) by (simp_all add: mp1_find_helper_def sloc_def dloc_def)
  show ?thesis
  proof (cases "first_at ?a sloc is = None \<or> first_at ?a dloc is = None")
    case True
    then have "mp1_ioctl_sync os vmem v f = Some (-1, f)" "board_sync sloc dloc bd = (-1, bd)"
      using h 1(4) by (auto simp: mp1_ioctl_sync_def board_sync_def at_location_cells split: option.split)
    then show ?thesis using assms unfolding sloc_def [symmetric] dloc_def [symmetric] by simp
  next
    case False
    then obtain src dst where sd: "first_at ?a sloc is = Some src" "first_at ?a dloc is = Some dst" by auto
    obtain xs ys where s: "is = xs @ dst # ys" "location (?a ! dst) = dloc" "\<forall>x \<in> set xs. location (?a ! x) \<noteq> dloc"
      using first_at_Some [OF sd(2)] by blast
    obtain us vs where u: "is = us @ src # vs" using first_at_Some [OF sd(1)] by blast
    have i: "dst \<in> set is" using s(1) by simp
    have j: "src \<in> set is" using u by simp
    have p: "src < length ?a" "dst < length ?a" using l(2) l(4) [OF i] l(4) [OF j] by simp_all
    define d where "d = in_step (?a ! src) (?a ! dst)"
    have d: "location d = location (?a ! dst)" "next_blink d = next_blink (?a ! dst)" "off_char d = off_char (?a ! dst)"
      "erase d = in_step (erase (?a ! src)) (erase (?a ! dst))"
      by (simp_all add: d_def in_step_def erase_def)
    obtain w where w: "mp1_poke os vmem (off_char d) (poke_at d) (set_blink dst d f) = Some ((set_blink dst d f)\<lparr>mem := w\<rparr>)"
      "ok w" "shows_screen os vmem base w (draw d (off_char d) scr)"
      using poke_draws [of "set_blink dst d f" vmem base scr d "off_char d"] 1(1,2) l(6) [OF i] d(1) by auto
    have r: "mp1_ioctl_sync os vmem v f = Some (0, (set_blink dst d f)\<lparr>mem := w\<rparr>)"
      using h sd p w(1) by (simp add: mp1_ioctl_sync_def d_def in_step_def)
    have n: "dst \<notin> set xs" "dst \<notin> set ys" using l(3) s(1) by simp_all
    then have "cells (?a[dst := d]) xs = cells ?a xs" "cells (?a[dst := d]) ys = cells ?a ys"
      by (intro cells_cong; metis nth_list_update_neq)+
    then have c: "cells (?a[dst := d]) is = change_first dloc (\<lambda>d. [in_step (erase (?a ! src)) d]) (cells ?a is)"
      using change_first_cells [OF s(2,3)] p(2) d(4) unfolding s(1) by simp
    have b: "board_sync sloc dloc bd =
        (0, change_first dloc (\<lambda>d. [in_step (erase (?a ! src)) d]) (cells ?a is), draw d (off_char d) scr)"
      using 1(4) sd d(1,3) by (simp add: board_sync_def at_location_cells) (simp add: draw_def)
    have "listed (?a[dst := d]) (mp1_list_head f) is" using listed_update [OF 1(3) i d(2,1)] .
    then show ?thesis using r b c w(2,3) unfolding sloc_def [symmetric] dloc_def [symmetric]
      by (auto intro!: stands_forI)
  qed
qed

text \<open>Any run.\<close>

lemma event_refines:
  assumes "stands_for vmem base f bd" "placed e"
  shows "\<exists>f'. blinker_event os vmem e f = Some (fst (board_event e bd), f') \<and> stands_for vmem base f' (snd (board_event e bd))"
proof (cases e)
  case (Add b)
  then show ?thesis using add_refines [OF assms(1), of b] assms(2)
    by (auto simp: blinker_event_def board_event_def mp1_ioctl_def)
next
  case (Remove v)
  then show ?thesis using remove_refines [OF assms(1), of v]
    by (auto simp: blinker_event_def board_event_def mp1_ioctl_def)
next
  case (Sync v)
  then show ?thesis using sync_refines [OF assms(1), of v]
    by (auto simp: blinker_event_def board_event_def mp1_ioctl_def)
next
  case Tick
  then show ?thesis using tick_refines [OF assms(1)]
    by (auto simp: blinker_event_def board_event_def)
qed

lemma run_refines:
  "stands_for vmem base f bd \<Longrightarrow> \<forall>e \<in> set es. placed e \<Longrightarrow>
     \<exists>f'. blinker_run os vmem es f = Some (fst (board_run es bd), f') \<and> stands_for vmem base f' (snd (board_run es bd))"
proof (induction es arbitrary: f bd)
  case (Cons e es)
  then obtain f1 where f1: "blinker_event os vmem e f = Some (fst (board_event e bd), f1)"
    "stands_for vmem base f1 (snd (board_event e bd))"
    using event_refines [of vmem base f bd e] by auto
  obtain f2 where "blinker_run os vmem es f1 = Some (fst (board_run es (snd (board_event e bd))), f2)"
    "stands_for vmem base f2 (snd (board_run es (snd (board_event e bd))))"
    using Cons.IH [OF f1(2)] Cons.prems(2) by auto
  then show ?case using f1(1) by (simp add: split_beta)
qed simp

end


section \<open>Clearing and copying memory\<close>

lemma memset_nat: "ece391_memset os a c (int n) w = for_each [0..<n] (\<lambda>i. ustore os (a + of_nat i) c) w"
  by (simp add: ece391_memset_def)

lemma memcpy_nat: "ece391_memcpy os dst src (int n) w = map_option (Pair 0)
    (for_each [0..<n] (\<lambda>i w. do { c \<leftarrow> uload os (src + of_nat i) w; ustore os (dst + of_nat i) c w }) w)"
  by (simp add: ece391_memcpy_def map_conv_bind_option comp_def)

context user_memory
begin

lemma memset_fills:
  assumes "ok w" "window os w a bs" "n \<le> length bs"
  shows "\<exists>w'. ece391_memset os a c (int n) w = Some w' \<and> turned w a bs w' (replicate n c @ drop n bs)"
  using assms(3)
proof (induction n)
  case 0
  then show ?case using assms(1,2) by (simp add: ece391_memset_def turned_def same_outside_refl)
next
  case (Suc n)
  then obtain w1 where w1: "ece391_memset os a c (int n) w = Some w1" "turned w a bs w1 (replicate n c @ drop n bs)" by auto
  have t: "ok w1" "window os w1 a (replicate n c @ drop n bs)" using w1(2) by (simp_all add: turned_def)
  obtain w2 where w2: "ustore os (a + of_nat n) c w1 = Some w2"
    "turned w1 a (replicate n c @ drop n bs) w2 ((replicate n c @ drop n bs)[n := c])"
    using store_turned [OF t, of n c] Suc.prems by auto
  have "(replicate n c @ drop n bs)[n := c] = replicate (Suc n) c @ drop (Suc n) bs"
    using Suc.prems Cons_nth_drop_Suc [of n bs, symmetric] by (simp add: list_update_append replicate_append_same)
  moreover have "turned w a bs w2 ((replicate n c @ drop n bs)[n := c])" by (rule turned_trans [OF w1(2) w2(2)])
  ultimately show ?case using w1(1) w2(1) unfolding memset_nat
    by (intro exI [of _ w2]) (simp add: for_each_append)
qed

text \<open>Copying between regions that do not overlap.\<close>

lemma memcpy_copies:
  assumes "ok w" "window os w dst bs" "window os w src xs" "length xs = length bs" "n \<le> length bs"
    and apart: "\<And>i j. i < length bs \<Longrightarrow> j < length bs \<Longrightarrow> src + of_nat i \<noteq> dst + of_nat j"
  shows "\<exists>w'. ece391_memcpy os dst src (int n) w = Some (0, w') \<and> turned w dst bs w' (take n xs @ drop n bs)"
  using assms(5)
proof (induction n)
  case 0
  then show ?case using assms(1,2) by (simp add: ece391_memcpy_def turned_def same_outside_refl)
next
  case (Suc n)
  then obtain w1 where w1: "ece391_memcpy os dst src (int n) w = Some (0, w1)" "turned w dst bs w1 (take n xs @ drop n bs)" by auto
  have t: "ok w1" "window os w1 dst (take n xs @ drop n bs)" "same_outside os dst (length bs) w w1"
    using w1(2) by (simp_all add: turned_def)
  have "uload os (src + of_nat n) w1 = uload os (src + of_nat n) w"
    using t(3) apart [of n] Suc.prems by (simp add: same_outside_def)
  then have l: "uload os (src + of_nat n) w1 = Some (xs ! n)"
    using window_load [OF assms(3), of n] assms(4) Suc.prems by simp
  obtain w2 where w2: "ustore os (dst + of_nat n) (xs ! n) w1 = Some w2"
    "turned w1 dst (take n xs @ drop n bs) w2 ((take n xs @ drop n bs)[n := xs ! n])"
    using store_turned [OF t(1,2), of n "xs ! n"] Suc.prems assms(4) by auto
  have "(take n xs @ drop n bs)[n := xs ! n] = take (Suc n) xs @ drop (Suc n) bs"
    using Suc.prems assms(4) Cons_nth_drop_Suc [of n bs, symmetric] by (simp add: list_update_append take_Suc_conv_app_nth)
  moreover have "turned w dst bs w2 ((take n xs @ drop n bs)[n := xs ! n])" by (rule turned_trans [OF w1(2) w2(2)])
  ultimately show ?case using w1(1) w2(1) l unfolding memcpy_nat
    by (intro exI [of _ w2]) (auto simp: for_each_append)
qed

end

section \<open>On the kernel\<close>

text \<open>The bytes of the text screen.\<close>

definition text_screen :: "machine \<Rightarrow> u8 list" where
  "text_screen s = map (vpage s) [0..<4000]"

lemma vidmap_page: "paging_wf s \<Longrightarrow> j < 4096 \<Longrightarrow> user_access s (0x8C0A000 + of_nat j) = Some (video_frame s, j)"
proof -
  assume a: "paging_wf s" "j < 4096"
  have u: "unat (0x8C0A000 + of_nat j :: u32) = 35 * 4194304 + 10 * 4096 + j" using a(2) by (simp add: unat_add_nat)
  show ?thesis using addr_parts [OF u] a by (simp add: user_access_def mmu_walk_wf)
qed

lemma text_window:
  assumes "confined s" shows "window (kernel_os c) s 0x8C0A000 (text_screen s)"
proof -
  have "paging_wf s" using assms by (simp add: confined_def)
  then show ?thesis by (simp add: window_def text_screen_def user_load_def vidmap_page vpage_def)
qed

lemma video_mode_ready:
  assumes "confined s" "k + 4 \<le> 0x400000"
  shows "\<exists>s'. mp1_set_video_mode (kernel_os c) (0x8000000 + of_nat k) s = Some (0x8C0A000, s') \<and> confined s' \<and>
    shows_screen (kernel_os c) (0x8000000 + of_nat k) 0x8C0A000 s' (text_screen s) \<and> stored k (le_bytes 0x8C0A000) s s'"
proof -
  have wf: "paging_wf s" using assms(1) by (simp add: confined_def)
  obtain s' where s': "vidmap (0x8000000 + of_nat k) s = Some (0, s')" "stored k (le_bytes 0x8C0A000) s s'"
    using vidmap_stores [OF wf assms(2)] by blast
  have c: "confined s'" "paging_wf s'" using stored_confined [OF s'(2)] assms(1) by (auto simp: confined_def)
  have b: "user_load (0x8000000 + of_nat k + of_nat i) s' = Some (le_bytes 0x8C0A000 ! i)" if "i < 4" for i
    using user_load_page [OF c(2), of "k + i"] s'(2) assms(2) that by (simp add: stored_def add.assoc)
  have base: "load_int (kernel_os c) (0x8000000 + of_nat k) s' = Some 0x8C0A000"
    using b [of 0] b [of 1] b [of 2] b [of 3] le32_le_bytes [of "0x8C0A000"] by (simp add: load_int_def le32_def)
  have "(0x8000000 :: u32) + of_nat k + of_nat i \<noteq> 0x8C0A000 + of_nat j" if "i < 4" "j < 4000" for i j
  proof
    assume "(0x8000000 :: u32) + of_nat k + of_nat i = 0x8C0A000 + of_nat j"
    then have "unat (0x8000000 + of_nat (k + i) :: u32) = unat (0x8C0A000 + of_nat j :: u32)" by (simp add: add.assoc)
    then show False using assms(2) that by (simp add: unat_add_nat del: of_nat_add)
  qed
  moreover have "text_screen s' = text_screen s" using stored_vpage [OF s'(2) assms(1)] by (simp add: text_screen_def)
  ultimately have "shows_screen (kernel_os c) (0x8000000 + of_nat k) 0x8C0A000 s' (text_screen s)"
    using base text_window [OF c(1), of c] by (simp add: shows_screen_def) (simp add: text_screen_def)
  then show ?thesis using s' c(1) base by (simp add: mp1_set_video_mode_def kernel_calls)
qed

definition new_fish :: "'w \<Rightarrow> 'w fish" where
  "new_fish w = \<lparr>blink_array = replicate BLINKS zero_blink, mp1_list_head = None, mem = w\<rparr>"

lemma listed_new: "listed (replicate BLINKS zero_blink) None []"
  by (simp add: listed_def zero_blink_def)

lemma shown_text:
  assumes "confined s" "shows_screen (kernel_os c) vmem 0x8C0A000 s scr"
  shows "text_screen s = scr"
  using window_unique [OF text_window [OF assms(1), of c], of scr] assms(2) by (simp add: shows_screen_def text_screen_def)

text \<open>C27: the blinker of \<^verbatim>\<open>fish\<close> on the kernel refines a board of blinking cells. Once \<open>vidmap\<close> has stored the
  address of the screen in the program's pointer, any sequence of adding, removing and synchronising
  characters and of clock ticks, run on the linked list in the array and on memory through the page
  tables, ends, returns what the board returns and leaves the text screen as the board says, as long as
  no added character has location 0: adding fails exactly for a location off the screen or when all
  2000 structures are in use, the newest character at a location is found first, a tick counts down each
  and draws the other character of those that are due. (Synchronising always draws the second
  character, whatever is due: its conditional move tests a flag that is never set.)\<close>

theorem blinker_refines_board:
  assumes "confined s" "k + 4 \<le> 0x400000" "\<forall>e \<in> set es. placed e"
  shows "\<exists>w f. mp1_set_video_mode (kernel_os c) (0x8000000 + of_nat k) s = Some (0x8C0A000, w) \<and>
    blinker_run (kernel_os c) (0x8000000 + of_nat k) es (new_fish w) = Some (fst (board_run es ([], text_screen s)), f) \<and>
    confined (mem f) \<and> text_screen (mem f) = snd (snd (board_run es ([], text_screen s)))"
proof -
  obtain w where w: "mp1_set_video_mode (kernel_os c) (0x8000000 + of_nat k) s = Some (0x8C0A000, w)" "confined w"
    "shows_screen (kernel_os c) (0x8000000 + of_nat k) 0x8C0A000 w (text_screen s)"
    using video_mode_ready [OF assms(1,2)] by blast
  have "kernel.stands_for c (0x8000000 + of_nat k) 0x8C0A000 (new_fish w) ([], text_screen s)"
    using w(2,3) listed_new
    unfolding kernel.stands_for_def by (auto simp: new_fish_def intro!: exI [of _ "[]"])
  then obtain f where f: "blinker_run (kernel_os c) (0x8000000 + of_nat k) es (new_fish w) = Some (fst (board_run es ([], text_screen s)), f)"
    "kernel.stands_for c (0x8000000 + of_nat k) 0x8C0A000 f (snd (board_run es ([], text_screen s)))"
    using kernel.run_refines [OF _ assms(3)] by blast
  have "confined (mem f)" "text_screen (mem f) = snd (snd (board_run es ([], text_screen s)))"
    using f(2) shown_text unfolding kernel.stands_for_def by blast+
  then show ?thesis using w(1) f(1) by blast
qed

definition sample_blinks :: "blink_event list" where
  "sample_blinks =
     [Add (zero_blink\<lparr>location := 60, on_char := 73, off_char := 77, on_length := 1, off_length := 1\<rparr>),
      Add (zero_blink\<lparr>location := 61, on_char := 74, off_char := 78, on_length := 2, off_length := 6\<rparr>),
      Remove 62, Tick, Tick]"

lemma sample_blinks_run:
  assumes "length scr = 4000"
  shows "fst (board_run sample_blinks ([], scr)) = [0, 0, -1, 0, 0]"
    "snd (snd (board_run sample_blinks ([], scr))) ! 120 = 73" "snd (snd (board_run sample_blinks ([], scr))) ! 122 = 78"
  using assms
  by (simp_all add: sample_blinks_def board_event_def board_add_def board_remove_def board_tick_def zero_blink_def
      tick_cell_def draw_due_def time_up_def other_char_def lit_def draw_def)

text \<open>After two ticks the first cell shows its first character again and the second one its second.\<close>

theorem blinker_refines_board_witness:
  "\<forall>c. \<exists>w f. mp1_set_video_mode (kernel_os c) 0x8000000 sample_cat = Some (0x8C0A000, w) \<and>
     blinker_run (kernel_os c) 0x8000000 sample_blinks (new_fish w) = Some ([0, 0, -1, 0, 0], f) \<and>
     text_screen (mem f) ! 120 = 73 \<and> text_screen (mem f) ! 122 = 78"
proof
  fix c
  have "\<forall>e \<in> set sample_blinks. placed e" by (simp add: sample_blinks_def)
  then obtain w f where "mp1_set_video_mode (kernel_os c) (0x8000000 + of_nat 0) sample_cat = Some (0x8C0A000, w)"
    "blinker_run (kernel_os c) (0x8000000 + of_nat 0) sample_blinks (new_fish w) =
       Some (fst (board_run sample_blinks ([], text_screen sample_cat)), f)"
    "text_screen (mem f) = snd (snd (board_run sample_blinks ([], text_screen sample_cat)))"
    using blinker_refines_board [OF sample_cat_facts(1), of 0 sample_blinks c] by auto
  moreover have "length (text_screen sample_cat) = 4000" by (simp add: text_screen_def)
  ultimately show "\<exists>w f. mp1_set_video_mode (kernel_os c) 0x8000000 sample_cat = Some (0x8C0A000, w) \<and>
     blinker_run (kernel_os c) 0x8000000 sample_blinks (new_fish w) = Some ([0, 0, -1, 0, 0], f) \<and>
     text_screen (mem f) ! 120 = 73 \<and> text_screen (mem f) ! 122 = 78"
    using sample_blinks_run [of "text_screen sample_cat"] by auto
qed

text \<open>
  An element with location 0 stays free while it is on the list: the next one takes its place and is
  linked to itself, and the walk at the next tick does not end.
\<close>


lemma tasklet_loop_cycle:
  "tasklet_loop os vmem p f = Some r \<Longrightarrow>
     \<not> (p = Some i \<and> i < length (blink_array f) \<and> next_blink (blink_array f ! i) = Some i)"
proof (induction rule: tasklet_loop.raw_induct [rotated, consumes 1])
  case (1 loop os vmem p f r)
  show ?case
  proof
    assume a: "p = Some i \<and> i < length (blink_array f) \<and> next_blink (blink_array f ! i) = Some i"
    then obtain g where g: "tasklet_step os vmem i (blink_array f ! i) f = Some g" "loop os vmem (Some i) g = Some r"
      using "1.hyps" by (auto split: option.splits)
    then have "blink_array g = (blink_array f)[i := blink_turn (blink_array f ! i)]"
      by (auto simp: tasklet_step_def mp1_poke_def split: if_splits bind_splits)
    then show False using "1.IH" [OF g(2)] a by (simp add: turn_eq turn_erase)
  qed
qed

lemma add_takes_first:
  assumes "confined (mem f)" "shows_screen (kernel_os c) vmem base (mem f) scr" "length (blink_array f) = BLINKS"
    "location (blink_array f ! 0) = 0" "unat (location x) < 2000"
  shows "\<exists>g scr'. mp1_ioctl_add (kernel_os c) vmem x f = Some (0, g) \<and> mp1_list_head g = Some 0 \<and>
    length (blink_array g) = BLINKS \<and> location (blink_array g ! 0) = location x \<and>
    next_blink (blink_array g ! 0) = mp1_list_head f \<and> confined (mem g) \<and> shows_screen (kernel_os c) vmem base (mem g) scr'"
proof -
  have "[0..<BLINKS] = 0 # [Suc 0..<BLINKS]" by (rule upt_conv_Cons) (simp add: BLINKS_def)
  then have m: "mp1_malloc f = Some 0" using assms(4) by (simp add: mp1_malloc_def)
  define y where "y = x\<lparr>status := 1, countdown := on_length x, next_blink := mp1_list_head f\<rparr>"
  define g where "g = (set_blink 0 y f)\<lparr>mp1_list_head := Some 0\<rparr>"
  have y: "location y = location x" "next_blink y = mp1_list_head f" by (simp_all add: y_def)
  have p: "confined (mem g)" "shows_screen (kernel_os c) vmem base (mem g) scr" "unat (location y) < 2000"
    using assms by (simp_all add: g_def y)
  obtain v where v: "mp1_poke (kernel_os c) vmem (on_char y) (poke_at y) g = Some (g\<lparr>mem := v\<rparr>)" "confined v"
    "shows_screen (kernel_os c) vmem base v (draw y (on_char y) scr)"
    using kernel.poke_draws [OF p] by blast
  have "mp1_ioctl_add (kernel_os c) vmem x f = Some (0, g\<lparr>mem := v\<rparr>)"
    using m v(1) assms(5) by (simp add: mp1_ioctl_add_def word_le_nat_alt Let_def y_def [symmetric] g_def [symmetric])
  moreover have "0 < length (blink_array f)" using assms(3) by (simp add: BLINKS_def)
  ultimately show ?thesis using v(2,3) y assms(3)
    by (intro exI [of _ "g\<lparr>mem := v\<rparr>"] exI [of _ "draw y (on_char y) scr"]) (simp add: g_def)
qed

lemma blink_at_zero_hangs:
  assumes "confined s" "k + 4 \<le> 0x400000" "vmem = 0x8000000 + of_nat k"
    and "mp1_set_video_mode (kernel_os c) vmem s = Some (base, w)"
    and "location b0 = 0" "unat (location b) < 2000"
  shows "\<exists>f. blinker_run (kernel_os c) vmem [Add b0, Add b] (new_fish w) = Some ([0, 0], f) \<and>
    mp1_rtc_tasklet (kernel_os c) vmem f = None"
proof -
  have w: "confined (mem (new_fish w))" "shows_screen (kernel_os c) vmem base (mem (new_fish w)) (text_screen s)"
    using video_mode_ready [OF assms(1,2), of c] assms(3,4) by (auto simp: new_fish_def)
  have n: "length (blink_array (new_fish w)) = BLINKS" "location (blink_array (new_fish w) ! 0) = 0" "unat (location b0) < 2000"
    using assms(5) by (simp_all add: new_fish_def zero_blink_def BLINKS_def)
  obtain g scr where g: "mp1_ioctl_add (kernel_os c) vmem b0 (new_fish w) = Some (0, g)" "mp1_list_head g = Some 0"
    "length (blink_array g) = BLINKS" "location (blink_array g ! 0) = 0" "confined (mem g)"
    "shows_screen (kernel_os c) vmem base (mem g) scr"
    using add_takes_first [OF w n] assms(5) by auto
  obtain f where f: "mp1_ioctl_add (kernel_os c) vmem b g = Some (0, f)" "mp1_list_head f = Some 0"
    "length (blink_array f) = BLINKS" "next_blink (blink_array f ! 0) = Some 0"
    using add_takes_first [OF g(5,6,3,4) assms(6)] g(2) by auto
  have "mp1_rtc_tasklet (kernel_os c) vmem f = None"
    using tasklet_loop_cycle [of "kernel_os c" vmem "Some 0" f _ 0] f(2-4)
    by (cases "tasklet_loop (kernel_os c) vmem (Some 0) f") (auto simp: mp1_rtc_tasklet_def BLINKS_def)
  then show ?thesis using g(1) f(1) by (auto simp: blinker_event_def mp1_ioctl_def)
qed

end
