(* ===== verification/FishFrames.thy ===== *)
theory FishFrames
  imports FishFacts
begin

text \<open>
  The two frames of \<^verbatim>\<open>fish\<close>: reading two files side by side, character by character, puts on the board
  the cells of two texts laid over each other, line by line.
\<close>

section \<open>Two texts as cells\<close>

definition text_line :: "u8 list \<Rightarrow> u8 list" where
  "text_line t = takeWhile (\<lambda>c. c \<noteq> 10) t"

definition text_rest :: "u8 list \<Rightarrow> u8 list" where
  "text_rest t = drop (Suc (length (text_line t))) t"

text \<open>The lines of a file: after each line feed comes another line, which may be empty.\<close>

function text_lines :: "u8 list \<Rightarrow> u8 list list" where
  "text_lines t = text_line t # (if 10 \<in> set t then text_lines (text_rest t) else [])"
  by auto
termination
  by (relation "measure length") (auto simp: text_rest_def dest: length_pos_if_in_set)

declare text_lines.simps [simp del]

definition head_char :: "u8 list \<Rightarrow> u8" where
  "head_char l = (if l = [] then 10 else hd l)"

definition cell_blink :: "blink \<Rightarrow> int \<Rightarrow> int \<Rightarrow> u8 \<Rightarrow> u8 \<Rightarrow> blink" where
  "cell_blink bs row col a b =
     bs\<lparr>on_char := (if a = 10 then 32 else a), off_char := (if b = 10 then 32 else b), location := of_int (row * 80 + col + 40)\<rparr>"

definition visible :: "u8 \<Rightarrow> bool" where
  "visible c \<longleftrightarrow> c \<noteq> 32 \<and> c \<noteq> 10"

function row_cells :: "blink \<Rightarrow> int \<Rightarrow> int \<Rightarrow> u8 list \<Rightarrow> u8 list \<Rightarrow> blink_event list" where
  "row_cells bs row col l0 l1 =
     (if l0 = [] \<and> l1 = [] then []
      else (if visible (head_char l0) \<or> visible (head_char l1)
            then [Add (cell_blink bs row col (head_char l0) (head_char l1))] else []) @
           row_cells bs row (col + 1) (tl l0) (tl l1))"
  by auto
termination
  by (relation "measure (\<lambda>(_, _, _, l0, l1). length l0 + length l1)") (auto simp: neq_Nil_conv)

declare row_cells.simps [simp del]

definition first_line :: "u8 list list \<Rightarrow> u8 list" where
  "first_line ls = (if ls = [] then [] else hd ls)"

function frame_cells :: "blink \<Rightarrow> int \<Rightarrow> u8 list list \<Rightarrow> u8 list list \<Rightarrow> blink_event list" where
  "frame_cells bs row ls0 ls1 =
     (if ls0 = [] \<and> ls1 = [] then []
      else row_cells bs row 0 (first_line ls0) (first_line ls1) @ frame_cells bs (row + 1) (tl ls0) (tl ls1))"
  by auto
termination
  by (relation "measure (\<lambda>(_, _, ls0, ls1). length ls0 + length ls1)") (auto simp: neq_Nil_conv)

declare frame_cells.simps [simp del]

lemma board_run_append: "snd (board_run (es @ es') bd) = snd (board_run es' (snd (board_run es bd)))"
  by (induction es arbitrary: bd) (simp_all add: split_beta)

section \<open>Reading side by side\<close>

text \<open>
  What the animation relies on: \<open>plays t c w\<close> says that the file \<open>i\<close> (of two) has the text \<open>t i\<close> left,
  \<open>None\<close> once it is closed, and that the local for its characters holds \<open>c i\<close>. Nothing of this touches the
  screen, and drawing touches nothing of this.
\<close>

locale frame_player = user_memory os ok for os :: "'w os" and ok :: "'w \<Rightarrow> bool" +
  fixes vmem base :: u32 and file' :: "bool \<Rightarrow> u32 \<times> u32"
    and plays :: "(bool \<Rightarrow> u8 list option) \<Rightarrow> (bool \<Rightarrow> u8) \<Rightarrow> 'w \<Rightarrow> bool"
  assumes plays_ok: "plays t c w \<Longrightarrow> ok w"
    and char: "plays t c w \<Longrightarrow> uload os (snd (file' i)) w = Some (c i)"
    and read: "plays t c w \<Longrightarrow> t i = Some u \<Longrightarrow> shows_screen os vmem base w scr \<Longrightarrow>
      \<exists>w'. ece391_read os (fst (file' i)) (snd (file' i)) 1 w = Some (if u = [] then 0 else 1, w') \<and>
        plays (t(i := Some (tl u))) (if u = [] then c else c(i := hd u)) w' \<and> shows_screen os vmem base w' scr"
    and store: "plays t c w \<Longrightarrow> shows_screen os vmem base w scr \<Longrightarrow>
      \<exists>w'. ustore os (snd (file' i)) v w = Some w' \<and> plays t (c(i := v)) w' \<and> shows_screen os vmem base w' scr"
    and close: "plays t c w \<Longrightarrow> shows_screen os vmem base w scr \<Longrightarrow>
      \<exists>r w'. ece391_close os (fst (file' i)) w = Some (r, w') \<and> plays (t(i := None)) c w' \<and> shows_screen os vmem base w' scr"
    and poke: "plays t c (mem f) \<Longrightarrow> shows_screen os vmem base (mem f) scr \<Longrightarrow> unat (location b) < 2000 \<Longrightarrow>
      mp1_poke os vmem v (poke_at b) f = Some g \<Longrightarrow> plays t c (mem g)"
begin

text \<open>The state of one file within a row: the last character, the text left and the end-of-file flag.\<close>

definition cursor_ok :: "u8 \<Rightarrow> u8 list option \<Rightarrow> bool \<Rightarrow> bool" where
  "cursor_ok c t e \<longleftrightarrow> (c \<noteq> 10 \<longrightarrow> t \<noteq> None \<and> \<not> e)"

definition line_left :: "u8 \<Rightarrow> u8 list option \<Rightarrow> u8 list" where
  "line_left c t = (if c \<noteq> 10 then text_line (the t) else [])"

definition text_after :: "u8 \<Rightarrow> u8 list option \<Rightarrow> bool \<Rightarrow> u8 list option \<times> bool" where
  "text_after c t e = (if c \<noteq> 10 then (Some (text_rest (the t)), 10 \<notin> set (the t)) else (t, e))"

lemma frame_char_reads:
  assumes "plays t c w" "shows_screen os vmem base w scr" "cursor_ok (c i) (t i) e"
  shows "\<exists>w' t' c' e'. frame_char os (fst (file' i)) (snd (file' i)) e w = Some (e', w') \<and>
    plays (t(i := t')) (c(i := c')) w' \<and> shows_screen os vmem base w' scr \<and> cursor_ok c' t' e' \<and>
    c' = head_char (line_left (c i) (t i)) \<and> line_left c' t' = tl (line_left (c i) (t i)) \<and>
    text_after c' t' e' = text_after (c i) (t i) e"
proof (cases "c i = 10")
  case True
  then show ?thesis using assms char [OF assms(1), of i]
    by (intro exI [of _ w] exI [of _ "t i"] exI [of _ 10] exI [of _ e])
      (simp add: frame_char_def line_left_def head_char_def text_after_def fun_upd_idem)
next
  case False
  then obtain u where u: "t i = Some u" "\<not> e" using assms(3) by (auto simp: cursor_ok_def)
  obtain w1 where w1: "ece391_read os (fst (file' i)) (snd (file' i)) 1 w = Some (if u = [] then 0 else 1, w1)"
    "plays (t(i := Some (tl u))) (if u = [] then c else c(i := hd u)) w1" "shows_screen os vmem base w1 scr"
    using read [OF assms(1) u(1) assms(2)] by blast
  show ?thesis
  proof (cases u)
    case Nil
    obtain w2 where w2: "ustore os (snd (file' i)) 10 w1 = Some w2" "plays (t(i := Some [])) (c(i := 10)) w2"
      "shows_screen os vmem base w2 scr"
      using store [OF w1(2,3), of i 10] Nil by auto
    then show ?thesis using False u w1(1) Nil char [OF assms(1), of i]
      by (intro exI [of _ w2] exI [of _ "Some []"] exI [of _ 10] exI [of _ True])
        (simp add: frame_char_def line_left_def head_char_def text_after_def text_line_def text_rest_def cursor_ok_def)
  next
    case (Cons x xs)
    then show ?thesis using False u w1 char [OF assms(1), of i]
      by (intro exI [of _ w1] exI [of _ "Some xs"] exI [of _ x] exI [of _ False])
        (auto simp: frame_char_def line_left_def head_char_def text_after_def text_line_def text_rest_def cursor_ok_def)
  qed
qed

lemma add_plays:
  assumes "stands_for vmem base f bd" "plays t c (mem f)" "location b \<noteq> 0"
  shows "\<exists>g. mp1_ioctl_add os vmem b f = Some (fst (board_add b bd), g) \<and>
    stands_for vmem base g (snd (board_add b bd)) \<and> plays t c (mem g)"
proof -
  obtain g where g: "mp1_ioctl_add os vmem b f = Some (fst (board_add b bd), g)" "stands_for vmem base g (snd (board_add b bd))"
    using add_refines [OF assms(1,3)] by blast
  have sc: "shows_screen os vmem base (mem f) (snd bd)" using assms(1) by (simp add: stands_for_def)
  have "plays t c (mem g)"
  proof (cases "80 * 25 \<le> location b \<or> mp1_malloc f = None")
    case True
    then show ?thesis using g(1) assms(2) by (auto simp: mp1_ioctl_add_def split: if_splits)
  next
    case False
    then obtain p where p: "mp1_malloc f = Some p" by auto
    define b' where "b' = b\<lparr>status := 1, countdown := on_length b, next_blink := mp1_list_head f\<rparr>"
    define f' where "f' = (set_blink p b' f)\<lparr>mp1_list_head := Some p\<rparr>"
    have l: "unat (location b') < 2000" using False by (simp add: b'_def word_le_nat_alt)
    have "mp1_poke os vmem (on_char b') (poke_at b') f' = Some g"
      using g(1) False p by (auto simp: mp1_ioctl_add_def b'_def f'_def Let_def split: bind_splits)
    moreover have "mem f' = mem f" by (simp add: f'_def)
    ultimately show ?thesis using poke [of t c f' "snd bd" b'] assms(2) sc l by simp
  qed
  then show ?thesis using g by blast
qed

lemma frame_cell_adds:
  fixes bs a b row col
  defines "ev \<equiv> (if visible a \<or> visible b then [Add (cell_blink bs row col a b)] else [])"
  assumes "stands_for vmem base f bd" "plays t c (mem f)" "\<forall>e \<in> set ev. placed e"
  shows "\<exists>bs' g. frame_cell os vmem row col a b (bs, f) = Some (bs', g) \<and> cell_blink bs' = cell_blink bs \<and>
    stands_for vmem base g (snd (board_run ev bd)) \<and> plays t c (mem g)"
proof (cases "visible a \<or> visible b")
  case True
  then have "location (cell_blink bs row col a b) \<noteq> 0" using assms(4) by (simp add: ev_def)
  then obtain g where g: "mp1_ioctl_add os vmem (cell_blink bs row col a b) f = Some (fst (board_add (cell_blink bs row col a b) bd), g)"
    "stands_for vmem base g (snd (board_add (cell_blink bs row col a b) bd))" "plays t c (mem g)"
    using add_plays [OF assms(2,3)] by blast
  have same: "cell_blink (cell_blink bs row col a b) = cell_blink bs" by (simp add: fun_eq_iff cell_blink_def)
  have "frame_cell os vmem row col a b (bs, f) = Some (cell_blink bs row col a b, g)"
    using g(1) True by (simp add: frame_cell_def mp1_ioctl_def cell_blink_def visible_def)
  then show ?thesis using g(2,3) same True by (simp add: ev_def board_event_def split_beta)
next
  case False
  then show ?thesis using assms(2,3) by (auto simp: ev_def frame_cell_def visible_def)
qed

lemma stands_for_mem:
  "stands_for vmem base f bd \<Longrightarrow> ok w \<Longrightarrow> shows_screen os vmem base w (snd bd) \<Longrightarrow> stands_for vmem base (f\<lparr>mem := w\<rparr>) bd"
  by (simp add: stands_for_def)

lemma line_left_no_newline: "10 \<notin> set (line_left c t)"
  by (auto simp: line_left_def text_line_def dest: set_takeWhileD)

lemma head_char_10: "10 \<notin> set l \<Longrightarrow> head_char l = 10 \<longleftrightarrow> l = []"
  by (cases l) (auto simp: head_char_def)

text \<open>Both characters of a column.\<close>

lemma columns_read:
  assumes "plays t c (mem f)" "stands_for vmem base f bd"
    "cursor_ok (c False) (t False) e0" "cursor_ok (c True) (t True) e1"
  obtains w1 w2 t' c' e0' e1' where
    "frame_char os (fst (file' False)) (snd (file' False)) e0 (mem f) = Some (e0', w1)"
    "frame_char os (fst (file' True)) (snd (file' True)) e1 w1 = Some (e1', w2)"
    "uload os (snd (file' False)) w2 = Some (c' False)" "uload os (snd (file' True)) w2 = Some (c' True)"
    "plays t' c' w2" "stands_for vmem base (f\<lparr>mem := w2\<rparr>) bd"
    "cursor_ok (c' False) (t' False) e0'" "cursor_ok (c' True) (t' True) e1'"
    "\<And>i. c' i = head_char (line_left (c i) (t i))" "\<And>i. line_left (c' i) (t' i) = tl (line_left (c i) (t i))"
    "text_after (c' False) (t' False) e0' = text_after (c False) (t False) e0"
    "text_after (c' True) (t' True) e1' = text_after (c True) (t True) e1"
proof -
  have sc: "shows_screen os vmem base (mem f) (snd bd)" using assms(2) by (simp add: stands_for_def)
  obtain w1 t0 c0 e0' where 0: "frame_char os (fst (file' False)) (snd (file' False)) e0 (mem f) = Some (e0', w1)"
    "plays (t(False := t0)) (c(False := c0)) w1" "shows_screen os vmem base w1 (snd bd)" "cursor_ok c0 t0 e0'"
    "c0 = head_char (line_left (c False) (t False))" "line_left c0 t0 = tl (line_left (c False) (t False))"
    "text_after c0 t0 e0' = text_after (c False) (t False) e0"
    using frame_char_reads [OF assms(1) sc assms(3)] by blast
  have "cursor_ok ((c(False := c0)) True) ((t(False := t0)) True) e1" using assms(4) by simp
  then obtain w2 t1 c1 e1' where 1: "frame_char os (fst (file' True)) (snd (file' True)) e1 w1 = Some (e1', w2)"
    "plays (t(False := t0, True := t1)) (c(False := c0, True := c1)) w2" "shows_screen os vmem base w2 (snd bd)" "cursor_ok c1 t1 e1'"
    "c1 = head_char (line_left (c True) (t True))" "line_left c1 t1 = tl (line_left (c True) (t True))"
    "text_after c1 t1 e1' = text_after (c True) (t True) e1"
    using frame_char_reads [OF 0(2,3)] by force
  define t' where "t' = t(False := t0, True := t1)"
  define c' where "c' = c(False := c0, True := c1)"
  have v: "t' False = t0" "t' True = t1" "c' False = c0" "c' True = c1" by (simp_all add: t'_def c'_def)
  have p: "plays t' c' w2" using 1(2) by (simp add: t'_def c'_def)
  have a: "c' i = head_char (line_left (c i) (t i))" "line_left (c' i) (t' i) = tl (line_left (c i) (t i))" for i
    using 0(5,6) 1(5,6) v by (cases i; simp)+
  show thesis
    by (rule that [OF 0(1) 1(1) char [OF p] char [OF p] p stands_for_mem [OF assms(2) plays_ok [OF p] 1(3)] _ _ a])
      (use 0(4,7) 1(4,7) v in simp_all)
qed

text \<open>The end-of-file flags as a function.\<close>

definition eofs :: "frame_state \<Rightarrow> bool \<Rightarrow> bool" where
  "eofs st i = (if i then eof1 st else eof0 st)"

lemma add_row_cells:
  "plays t c (mem f) \<Longrightarrow> stands_for vmem base f bd \<Longrightarrow> (\<And>i. cursor_ok (c i) (t i) (eofs st i)) \<Longrightarrow>
     cell_blink (blink_struct st) = cell_blink bs \<Longrightarrow>
     l0 = line_left (c False) (t False) \<Longrightarrow> l1 = line_left (c True) (t True) \<Longrightarrow>
     \<forall>e \<in> set (row_cells bs row col l0 l1). placed e \<Longrightarrow>
   \<exists>st' g. add_row os vmem (file' False) (file' True) row col st f = Some (st', g) \<and>
     stands_for vmem base g (snd (board_run (row_cells bs row col l0 l1) bd)) \<and>
     plays (\<lambda>i. fst (text_after (c i) (t i) (eofs st i))) (\<lambda>_. 10) (mem g) \<and>
     (\<forall>i. eofs st' i = snd (text_after (c i) (t i) (eofs st i))) \<and> cell_blink (blink_struct st') = cell_blink bs"
proof (induction bs row col l0 l1 arbitrary: t c f bd st rule: row_cells.induct)
  case (1 bs row col l0 l1)
  have ck: "cursor_ok (c False) (t False) (eof0 st)" "cursor_ok (c True) (t True) (eof1 st)"
    using "1.prems"(3) [of False] "1.prems"(3) [of True] by (simp_all add: eofs_def)
  obtain w1 w2 t' c' e0' e1' where r:
    "frame_char os (fst (file' False)) (snd (file' False)) (eof0 st) (mem f) = Some (e0', w1)"
    "frame_char os (fst (file' True)) (snd (file' True)) (eof1 st) w1 = Some (e1', w2)"
    "uload os (snd (file' False)) w2 = Some (c' False)" "uload os (snd (file' True)) w2 = Some (c' True)"
    "plays t' c' w2" "stands_for vmem base (f\<lparr>mem := w2\<rparr>) bd"
    "cursor_ok (c' False) (t' False) e0'" "cursor_ok (c' True) (t' True) e1'"
    "\<And>i. c' i = head_char (line_left (c i) (t i))" "\<And>i. line_left (c' i) (t' i) = tl (line_left (c i) (t i))"
    "text_after (c' False) (t' False) e0' = text_after (c False) (t False) (eof0 st)"
    "text_after (c' True) (t' True) e1' = text_after (c True) (t True) (eof1 st)"
    by (rule columns_read [OF "1.prems"(1,2) ck]) (rule that)
  define st1 where "st1 = st\<lparr>eof0 := e0', eof1 := e1'\<rparr>"
  have af: "text_after (c' i) (t' i) (eofs st1 i) = text_after (c i) (t i) (eofs st i)" for i
    using r(11,12) by (cases i) (simp_all add: eofs_def st1_def)
  have h: "c' False = head_char l0" "c' True = head_char l1" using r(9) "1.prems"(5,6) by simp_all
  have nl: "10 \<notin> set l0" "10 \<notin> set l1" using line_left_no_newline "1.prems"(5,6) by simp_all
  show ?case
  proof (cases "l0 = [] \<and> l1 = []")
    case True
    then have "c' i = 10" for i using h by (cases i) (simp_all add: head_char_def)
    then have c10: "c' = (\<lambda>_. 10)" by blast
    have "add_row os vmem (file' False) (file' True) row col st f = Some (st1, f\<lparr>mem := w2\<rparr>)"
      using r(1-4) c10 by (subst add_row.simps) (simp add: st1_def)
    moreover have "text_after (c i) (t i) (eofs st i) = (t' i, eofs st1 i)" for i
      using af [of i] c10 by (simp add: text_after_def)
    ultimately show ?thesis using True r(5,6) c10 "1.prems"(4)
      by (intro exI [of _ st1] exI [of _ "f\<lparr>mem := w2\<rparr>"]) (simp add: row_cells.simps st1_def)
  next
    case False
    define ev where "ev = (if visible (head_char l0) \<or> visible (head_char l1)
      then [Add (cell_blink bs row col (head_char l0) (head_char l1))] else [])"
    have rc: "row_cells bs row col l0 l1 = ev @ row_cells bs row (col + 1) (tl l0) (tl l1)"
      using False by (subst row_cells.simps) (auto simp: ev_def)
    have p: "\<forall>e \<in> set ev. placed e" "\<forall>e \<in> set (row_cells bs row (col + 1) (tl l0) (tl l1)). placed e"
      using "1.prems"(7) unfolding rc by auto
    have ev2: "ev = (if visible (head_char l0) \<or> visible (head_char l1)
      then [Add (cell_blink (blink_struct st) row col (head_char l0) (head_char l1))] else [])"
      using "1.prems"(4) by (simp add: ev_def)
    have pl: "plays t' c' (mem (f\<lparr>mem := w2\<rparr>))" using r(5) by simp
    obtain bs' g where g: "frame_cell os vmem row col (head_char l0) (head_char l1) (blink_struct st, f\<lparr>mem := w2\<rparr>) = Some (bs', g)"
      "cell_blink bs' = cell_blink (blink_struct st)" "stands_for vmem base g (snd (board_run ev bd))" "plays t' c' (mem g)"
      using frame_cell_adds [OF r(6) pl, of "head_char l0" "head_char l1" "blink_struct st" row col] p(1) unfolding ev2 [symmetric] by blast
    define st2 where "st2 = \<lparr>eof0 = e0', eof1 = e1', blink_struct = bs'\<rparr>"
    have e2: "eofs st2 = eofs st1" by (simp add: fun_eq_iff eofs_def st1_def st2_def)
    have ck2: "cursor_ok (c' i) (t' i) (eofs st2 i)" for i
      using r(7,8) by (cases i) (simp_all add: eofs_def st2_def)
    have cb: "cell_blink (blink_struct st2) = cell_blink bs" using g(2) "1.prems"(4) by (simp add: st2_def)
    have ll: "tl l0 = line_left (c' False) (t' False)" "tl l1 = line_left (c' True) (t' True)"
      using r(10) "1.prems"(5,6) by simp_all
    obtain st' g' where i: "add_row os vmem (file' False) (file' True) row (col + 1) st2 g = Some (st', g')"
      "stands_for vmem base g' (snd (board_run (row_cells bs row (col + 1) (tl l0) (tl l1)) (snd (board_run ev bd))))"
      "plays (\<lambda>i. fst (text_after (c' i) (t' i) (eofs st2 i))) (\<lambda>_. 10) (mem g')"
      "\<forall>i. eofs st' i = snd (text_after (c' i) (t' i) (eofs st2 i))" "cell_blink (blink_struct st') = cell_blink bs"
      using "1.IH" [OF False g(4,3) ck2 cb ll p(2)] by blast
    have "add_row os vmem (file' False) (file' True) row col st f = Some (st', g')"
      using r(1-4) g(1) i(1) h head_char_10 [OF nl(1)] head_char_10 [OF nl(2)] False
      by (subst add_row.simps) (auto simp: st2_def)
    then show ?thesis using i(2-5) unfolding e2 af rc board_run_append by blast
  qed
qed

lemma row_end_resets:
  assumes "plays t c w" "shows_screen os vmem base w scr"
  shows "\<exists>w'. row_end os (file' i) e w = Some w' \<and> plays (if e then t(i := None) else t) (c(i := if e then 10 else 48)) w' \<and>
    shows_screen os vmem base w' scr"
proof -
  obtain w1 where w1: "ustore os (snd (file' i)) (if e then 10 else 48) w = Some w1"
    "plays t (c(i := if e then 10 else 48)) w1" "shows_screen os vmem base w1 scr"
    using store [OF assms] by blast
  obtain r w2 where "ece391_close os (fst (file' i)) w1 = Some (r, w2)"
    "plays (t(i := None)) (c(i := if e then 10 else 48)) w2" "shows_screen os vmem base w2 scr"
    using close [OF w1(2,3)] by blast
  then show ?thesis using w1 by (cases e) (auto simp: row_end_def)
qed

definition lines_left :: "bool \<Rightarrow> u8 list option \<Rightarrow> u8 list list" where
  "lines_left e t = (if e then [] else text_lines (the t))"

text \<open>At the start of a row a file has either ended or the digit is in its local.\<close>

definition row_start :: "bool \<Rightarrow> u8 \<Rightarrow> u8 list option \<Rightarrow> bool" where
  "row_start e c t \<longleftrightarrow> (if e then c = 10 else c = 48 \<and> t \<noteq> None)"

lemma row_start_line:
  assumes "row_start e c t"
  shows "cursor_ok c t e" "line_left c t = first_line (lines_left e t)"
    "lines_left (snd (text_after c t e)) (fst (text_after c t e)) = tl (lines_left e t)"
  using assms
  by (auto simp: row_start_def cursor_ok_def line_left_def first_line_def lines_left_def text_after_def text_lines.simps [of "the t"] split: if_splits)

lemma add_rows_cells:
  "plays t c (mem f) \<Longrightarrow> stands_for vmem base f bd \<Longrightarrow> (\<And>i. row_start (eofs st i) (c i) (t i)) \<Longrightarrow>
     cell_blink (blink_struct st) = cell_blink bs \<Longrightarrow>
     ls0 = lines_left (eofs st False) (t False) \<Longrightarrow> ls1 = lines_left (eofs st True) (t True) \<Longrightarrow>
     \<forall>e \<in> set (frame_cells bs row ls0 ls1). placed e \<Longrightarrow>
   \<exists>g. add_rows os vmem (file' False) (file' True) row st f = Some g \<and>
     stands_for vmem base g (snd (board_run (frame_cells bs row ls0 ls1) bd)) \<and> (\<exists>t c. plays t c (mem g))"
proof (induction bs row ls0 ls1 arbitrary: t c f bd st rule: frame_cells.induct)
  case (1 bs row ls0 ls1)
  have e: "eof0 st = eofs st False" "eof1 st = eofs st True" for st by (simp_all add: eofs_def)
  have nil: "ls0 = [] \<longleftrightarrow> eofs st False" "ls1 = [] \<longleftrightarrow> eofs st True"
    using "1.prems"(5,6) by (auto simp: lines_left_def text_lines.simps [of "the _"])
  show ?case
  proof (cases "ls0 = [] \<and> ls1 = []")
    case True
    then have "add_rows os vmem (file' False) (file' True) row st f = Some f"
      using nil e by (subst add_rows.simps) simp
    then show ?thesis using True "1.prems"(1,2) by (auto simp: frame_cells.simps)
  next
    case False
    note rs = row_start_line [OF "1.prems"(3)]
    let ?T = "\<lambda>i. fst (text_after (c i) (t i) (eofs st i))" and ?E = "\<lambda>i. snd (text_after (c i) (t i) (eofs st i))"
    let ?row = "row_cells bs row 0 (first_line ls0) (first_line ls1)"
    have fc: "frame_cells bs row ls0 ls1 = ?row @ frame_cells bs (row + 1) (tl ls0) (tl ls1)"
      using False by (subst frame_cells.simps) auto
    have p: "\<forall>e \<in> set ?row. placed e" "\<forall>e \<in> set (frame_cells bs (row + 1) (tl ls0) (tl ls1)). placed e"
      using "1.prems"(7) unfolding fc by auto
    have fl: "first_line ls0 = line_left (c False) (t False)" "first_line ls1 = line_left (c True) (t True)"
      using rs(2) "1.prems"(5,6) by simp_all
    obtain st1 f1 where r: "add_row os vmem (file' False) (file' True) row 0 st f = Some (st1, f1)"
      "stands_for vmem base f1 (snd (board_run ?row bd))" "plays ?T (\<lambda>_. 10) (mem f1)" "\<forall>i. eofs st1 i = ?E i"
      "cell_blink (blink_struct st1) = cell_blink bs"
      using add_row_cells [OF "1.prems"(1,2) rs(1) "1.prems"(4) fl p(1)] by blast
    have sc: "shows_screen os vmem base (mem f1) (snd (snd (board_run ?row bd)))" using r(2) by (simp add: stands_for_def)
    define T where "T e i t = (if e then t(i := None) else t)" for e and i :: bool and t :: "bool \<Rightarrow> u8 list option"
    obtain w1 where w1: "row_end os (file' False) (eofs st1 False) (mem f1) = Some w1"
      "plays (T (eofs st1 False) False ?T) ((\<lambda>_. 10)(False := if eofs st1 False then 10 else 48)) w1"
      "shows_screen os vmem base w1 (snd (snd (board_run ?row bd)))"
      using row_end_resets [OF r(3) sc] unfolding T_def by blast
    obtain w2 where w2: "row_end os (file' True) (eofs st1 True) w1 = Some w2"
      "plays (T (eofs st1 True) True (T (eofs st1 False) False ?T))
         ((\<lambda>_. 10)(False := if eofs st1 False then 10 else 48, True := if eofs st1 True then 10 else 48)) w2"
      "shows_screen os vmem base w2 (snd (snd (board_run ?row bd)))"
      using row_end_resets [OF w1(2,3)] unfolding T_def by blast
    define t2 where "t2 = T (eofs st1 True) True (T (eofs st1 False) False ?T)"
    define c2 where "c2 i = (if eofs st1 i then 10 else 48 :: u8)" for i
    have c2: "(\<lambda>_. 10)(False := if eofs st1 False then 10 else 48, True := if eofs st1 True then 10 else 48) = c2"
      by (auto simp: fun_eq_iff c2_def)
    have t2: "\<not> eofs st1 i \<Longrightarrow> t2 i = ?T i" for i by (cases i) (simp_all add: t2_def T_def)
    have st2: "row_start (eofs st1 i) (c2 i) (t2 i)" for i
      using t2 [of i] r(4) "1.prems"(3) [of i]
      by (auto simp: row_start_def c2_def text_after_def split: if_splits)
    have ll: "tl ls0 = lines_left (eofs st1 False) (t2 False)" "tl ls1 = lines_left (eofs st1 True) (t2 True)"
      using rs(3) [of False] rs(3) [of True] t2 r(4) "1.prems"(5,6) by (auto simp: lines_left_def split: if_splits)
    have pl: "plays t2 c2 (mem (f1\<lparr>mem := w2\<rparr>))" using w2(2) unfolding c2 t2_def by simp
    have sf: "stands_for vmem base (f1\<lparr>mem := w2\<rparr>) (snd (board_run ?row bd))"
      using stands_for_mem [OF r(2) plays_ok [OF w2(2)] w2(3)] .
    obtain g where g: "add_rows os vmem (file' False) (file' True) (row + 1) st1 (f1\<lparr>mem := w2\<rparr>) = Some g"
      "stands_for vmem base g (snd (board_run (frame_cells bs (row + 1) (tl ls0) (tl ls1)) (snd (board_run ?row bd))))"
      "\<exists>t c. plays t c (mem g)"
      using "1.IH" [OF False pl sf st2 r(5) ll p(2)] by blast
    have "add_rows os vmem (file' False) (file' True) row st f = Some g"
      using r(1) w1(1) w2(1) g(1) False nil by (subst add_rows.simps) (auto simp: e)
    then show ?thesis using g(2,3) unfolding fc board_run_append by blast
  qed
qed

end

section \<open>The kernel plays the files\<close>

text \<open>A descriptor with the rest of its file.\<close>

definition file_left :: "machine \<Rightarrow> nat \<Rightarrow> u8 list \<Rightarrow> bool" where
  "file_left s fd u \<longleftrightarrow> file_fd s fd \<and>
     (let e = fd_array (cur s) ! fd; content = file_content s (inode_num e)
      in (\<exists>m. numInodes s = Some m \<and> inode_num e < m) \<and> length content < 2 ^ 31 \<and>
         unat (file_position e) \<le> length content \<and> u = drop (unat (file_position e)) content)"

definition same_files :: "machine \<Rightarrow> machine \<Rightarrow> bool" where
  "same_files s s' \<longleftrightarrow> fs_image s' = fs_image s \<and> inode_start s' = inode_start s \<and> datablock_start s' = datablock_start s"

lemma file_left_cong:
  assumes "same_files s s'" "fd_array (cur s') ! fd = fd_array (cur s) ! fd"
  shows "file_left s' fd u = file_left s fd u"
proof -
  have "fs_image s' = fs_image s" "inode_start s' = inode_start s" "datablock_start s' = datablock_start s"
    using assms(1) by (simp_all add: same_files_def)
  note f = fs_upd [OF this]
  show ?thesis unfolding file_left_def file_fd_def assms(2) f(2,6,8) ..
qed

definition fish_plays :: "(bool \<Rightarrow> nat) \<Rightarrow> (bool \<Rightarrow> nat) \<Rightarrow> nat \<Rightarrow> (bool \<Rightarrow> u8 list option) \<Rightarrow> (bool \<Rightarrow> u8) \<Rightarrow> machine \<Rightarrow> bool" where
  "fish_plays fd k kv t c s \<longleftrightarrow>
     confined s \<and> proc_ok s \<and> fs_wf s \<and> fd False \<noteq> fd True \<and> k False \<noteq> k True \<and> kv + 4 \<le> 0x400000 \<and>
     (\<forall>i. 2 \<le> fd i \<and> fd i < 8 \<and> k i < 0x400000 \<and> (k i < kv \<or> kv + 4 \<le> k i) \<and> umem s (k i) = c i \<and>
        (case t i of None \<Rightarrow> flags (fd_array (cur s) ! fd i) \<noteq> 1 | Some u \<Rightarrow> file_left s (fd i) u))"

lemma fish_plays_world:
  assumes "fish_plays fd k kv t c s"
  shows "confined s" "paging_wf s" "proc_ok s" "fs_wf s"
  using assms by (simp_all add: fish_plays_def confined_def)

lemma fish_plays_at:
  assumes "fish_plays fd k kv t c s"
  shows "2 \<le> fd i" "fd i < 8" "k i < 0x400000" "umem s (k i) = c i" "fd i < length (fd_array (cur s))"
    "t i = None \<Longrightarrow> flags (fd_array (cur s) ! fd i) \<noteq> 1" "t i = Some u \<Longrightarrow> file_left s (fd i) u"
proof -
  have p: "proc_ok s" "2 \<le> fd i \<and> fd i < 8 \<and> k i < 0x400000 \<and> umem s (k i) = c i \<and>
      (case t i of None \<Rightarrow> flags (fd_array (cur s) ! fd i) \<noteq> 1 | Some u \<Rightarrow> file_left s (fd i) u)"
    using assms unfolding fish_plays_def by blast+
  then show "2 \<le> fd i" "fd i < 8" "k i < 0x400000" "umem s (k i) = c i" "fd i < length (fd_array (cur s))"
    "t i = None \<Longrightarrow> flags (fd_array (cur s) ! fd i) \<noteq> 1" "t i = Some u \<Longrightarrow> file_left s (fd i) u"
    by (simp_all add: proc_ok_def)
qed

text \<open>A change of the machine that leaves all of this.\<close>

lemma fish_plays_cong:
  assumes "fish_plays fd k kv t c s" "confined s'" "proc_ok s'" "same_files s s'" "\<And>i. umem s' (k i) = c' i"
    and "\<And>i. case t' i of None \<Rightarrow> flags (fd_array (cur s') ! fd i) \<noteq> 1 | Some u \<Rightarrow> file_left s' (fd i) u"
  shows "fish_plays fd k kv t' c' s'"
proof -
  have "fs_wf s'" using fs_upd(4) [of s' s] assms(4) fish_plays_world(4) [OF assms(1)] by (simp add: same_files_def)
  then show ?thesis using assms(1-3,5,6) unfolding fish_plays_def by blast
qed

lemma screen_kept:
  assumes "confined s" "confined s'" "kv + 4 \<le> 0x400000" "\<forall>i < 4. umem s' (kv + i) = umem s (kv + i)" "vpage s' = vpage s"
    and "shows_screen (kernel_os c) (0x8000000 + of_nat kv) 0x8C0A000 s scr"
  shows "shows_screen (kernel_os c) (0x8000000 + of_nat kv) 0x8C0A000 s' scr"
proof -
  have wf: "paging_wf s" "paging_wf s'" using assms(1,2) by (simp_all add: confined_def)
  have "user_load (0x8000000 + of_nat kv + of_nat i) s' = user_load (0x8000000 + of_nat kv + of_nat i) s" if "i < 4" for i
    using user_load_page [OF wf(1), of "kv + i"] user_load_page [OF wf(2), of "kv + i"] assms(3,4) that
    by (simp add: add.assoc)
  then have "load_int (kernel_os c) (0x8000000 + of_nat kv) s' = load_int (kernel_os c) (0x8000000 + of_nat kv) s"
    by (intro load_int_cong) simp
  moreover have "text_screen s' = scr"
    using shown_text [OF assms(1,6)] assms(5) by (simp add: text_screen_def)
  ultimately show ?thesis using assms(6) text_window [OF assms(2), of c] by (simp add: shows_screen_def)
qed

lemma stored_files: "stored k vs s s' \<Longrightarrow> same_files s s'"
  using stored_fields by (simp add: same_files_def)

text \<open>A step of the kernel that stores bytes of the page and sets a descriptor.\<close>

lemma plays_step:
  assumes "fish_plays fd k kv t c s" "stored (k i) vs s s'" "length vs \<le> 1" "s'' = s' \<or> s'' = with_fd (fd i) e s'"
    and "c' = (if vs = [] then c else c(i := hd vs))"
    and "\<forall>j. j \<noteq> i \<longrightarrow> t' j = t j"
    and "case t' i of None \<Rightarrow> flags (fd_array (cur s'') ! fd i) \<noteq> 1 | Some u \<Rightarrow> file_left s'' (fd i) u"
  shows "fish_plays fd k kv t' c' s'' \<and>
    (shows_screen (kernel_os x) (0x8000000 + of_nat kv) 0x8C0A000 s scr \<longrightarrow>
     shows_screen (kernel_os x) (0x8000000 + of_nat kv) 0x8C0A000 s'' scr)"
proof -
  note f = stored_fields [OF assms(2)]
  note p = assms(1) [unfolded fish_plays_def]
  have l: "length (fd_array (cur s)) = 8" using p by (simp add: proc_ok_def)
  have s': "confined s'" "proc_ok s'" "same_files s s'" "vpage s' = vpage s"
    using p f stored_confined [OF assms(2)] stored_vpage [OF assms(2)] stored_files [OF assms(2)] by (simp_all add: proc_ok_def)
  have "confined (with_fd (fd i) e s')" "proc_ok (with_fd (fd i) e s')" "same_files s (with_fd (fd i) e s')"
    "vpage (with_fd (fd i) e s') = vpage s"
    using s' by (simp_all add: with_fd_confined) (simp_all add: same_files_def with_fd_def vpage_def video_frame_def)
  then have s'': "confined s''" "proc_ok s''" "same_files s s''" "vpage s'' = vpage s"
    using assms(4) s' by blast+
  have "umem s'' j = umem s' j" for j
    using assms(4) by (auto simp: umem_def user_frame_def with_fd_def program_frame_def)
  then have m: "umem s'' j = (if j = k i \<and> vs \<noteq> [] then hd vs else umem s j)" if "j < 0x400000" for j
    using assms(2,3) that by (cases vs) (auto simp: stored_def)
  have d: "fd j \<noteq> fd i" if "j \<noteq> i" for j using p that by (cases i; cases j) auto
  have kd: "k j \<noteq> k i" if "j \<noteq> i" for j using p that by (cases i; cases j) auto
  have a: "fd_array (cur s'') ! fd j = fd_array (cur s) ! fd j" if "j \<noteq> i" for j
  proof -
    have "fd_array (cur s'') ! fd j = fd_array (cur s') ! fd j" using assms(4) d [OF that] by auto
    then show ?thesis using f(1,2) by simp
  qed
  have "umem s'' (k j) = c' j \<and> (case t' j of None \<Rightarrow> flags (fd_array (cur s'') ! fd j) \<noteq> 1 | Some u \<Rightarrow> file_left s'' (fd j) u)" for j
  proof (cases "j = i")
    case True
    then show ?thesis using m [of "k i"] p assms(5,7) by auto
  next
    case False
    then show ?thesis using m [of "k j"] kd [OF False] fish_plays_at [OF assms(1), of j] assms(5,6) a [OF False] file_left_cong [OF s''(3) a [OF False]]
      by (auto split: option.split)
  qed
  then have "fish_plays fd k kv t' c' s''" by (intro fish_plays_cong [OF assms(1) s''(1-3)]) blast+
  moreover have "umem s'' (kv + j) = umem s (kv + j)" if "j < 4" for j
  proof -
    have "k i < kv \<or> kv + 4 \<le> k i" "kv + 4 \<le> 0x400000" using p by blast+
    then have "kv + j \<noteq> k i" "kv + j < 0x400000" using that by linarith+
    then show ?thesis using m [of "kv + j"] by simp
  qed
  ultimately show ?thesis using screen_kept [OF _ s''(1) _ _ s''(4)] p by blast
qed

lemma stored_nothing: "stored k [] s s"
  by (auto simp: stored_def)

lemma user_store_page:
  assumes "paging_wf s" "k < 0x400000"
  shows "\<exists>s'. user_store (0x8000000 + of_nat k) v s = Some s' \<and> stored k [v] s s'"
proof -
  have "ucast (of_nat (k div 4096) :: 10 word) = (of_nat (k div 4096) :: 20 word)"
    using assms(2) by (simp add: unsigned_of_nat take_bit_nat_eq_self)
  then have "user_store (0x8000000 + of_nat k) v s = kstore (0x8000000 + of_nat k) v s"
    using assms kstore_user [OF assms, of v]
    by (simp add: user_store_def user_access_def mmu_walk_wf user_parts user_frame_def)
  then show ?thesis using store_bytes_user [OF assms(1), of k "[v]"] assms(2) by (auto split: option.splits)
qed

lemma plays_store:
  assumes "fish_plays fd k kv t c s" "shows_screen (kernel_os x) (0x8000000 + of_nat kv) 0x8C0A000 s scr"
  shows "\<exists>s'. ustore (kernel_os x) (0x8000000 + of_nat (k i)) v s = Some s' \<and> fish_plays fd k kv t (c(i := v)) s' \<and>
    shows_screen (kernel_os x) (0x8000000 + of_nat kv) 0x8C0A000 s' scr"
proof -
  note W = fish_plays_world [OF assms(1)] and p = fish_plays_at [OF assms(1), of i]
  obtain s' where s': "user_store (0x8000000 + of_nat (k i)) v s = Some s'" "stored (k i) [v] s s'"
    using user_store_page [OF W(2) p(3)] by blast
  have "case t i of None \<Rightarrow> flags (fd_array (cur s') ! fd i) \<noteq> 1 | Some u \<Rightarrow> file_left s' (fd i) u"
    using p(6,7) stored_fields(1,2) [OF s'(2)] file_left_cong [OF stored_files [OF s'(2)], of "fd i"]
    by (auto split: option.split)
  then show ?thesis
    using plays_step [where s'' = s' and c' = "c(i := v)" and t' = t and x = x and scr = scr, OF assms(1) s'(2)]
      assms(2) s'(1) by simp
qed

lemma sint_fd: "fd < 8 \<Longrightarrow> sint (of_nat fd :: u32) = int fd"
  using sint_of_int_id [of "int fd"] by simp

lemma plays_close:
  assumes "fish_plays fd k kv t c s" "shows_screen (kernel_os x) (0x8000000 + of_nat kv) 0x8C0A000 s scr"
  shows "\<exists>r s'. ece391_close (kernel_os x) (of_nat (fd i)) s = Some (r, s') \<and> fish_plays fd k kv (t(i := None)) c s' \<and>
    shows_screen (kernel_os x) (0x8000000 + of_nat kv) 0x8C0A000 s' scr"
proof -
  note W = fish_plays_world [OF assms(1)] and p = fish_plays_at [OF assms(1), of i]
  note b = p(1,2) W(3) and len = p(5)
  obtain r s' where s': "sys_close (int (fd i)) s = Some (r, s')" "s' = s \<or> s' = with_fd (fd i) zero_fd s"
    "flags (fd_array (cur s') ! fd i) \<noteq> 1"
  proof (cases "t i")
    case None
    have "sys_close (int (fd i)) s = Some (-1, s)"
      using p(6) [OF None] b by (simp add: sys_close_def FD_ARRAY_LENGTH_def STDOUT_FD_def)
    then show thesis using that p(6) [OF None] by blast
  next
    case (Some u)
    then have "file_fd s (fd i)" using p(7) unfolding file_left_def by blast
    then have "sys_close (int (fd i)) s = Some (0, with_fd (fd i) zero_fd s)"
      using b by (intro close_eq) (simp_all add: file_fd_def)
    then show thesis using that len by (simp add: zero_fd_def)
  qed
  then show ?thesis
    using plays_step [where i = i and s'' = s' and e = zero_fd and c' = c and t' = "t(i := None)" and x = x and scr = scr,
        OF assms(1) stored_nothing] assms(2) b(2)
    by (auto simp: kernel_calls sint_fd)
qed

lemma plays_read:
  assumes "fish_plays fd k kv t c s" "shows_screen (kernel_os x) (0x8000000 + of_nat kv) 0x8C0A000 s scr" "t i = Some u"
  shows "\<exists>s'. ece391_read (kernel_os x) (of_nat (fd i)) (0x8000000 + of_nat (k i)) 1 s = Some (if u = [] then 0 else 1, s') \<and>
    fish_plays fd k kv (t(i := Some (tl u))) (if u = [] then c else c(i := hd u)) s' \<and>
    shows_screen (kernel_os x) (0x8000000 + of_nat kv) 0x8C0A000 s' scr"
proof -
  note W = fish_plays_world [OF assms(1)] and p = fish_plays_at [OF assms(1), of i]
  define e where "e = fd_array (cur s) ! fd i"
  define content where "content = file_content s (inode_num e)"
  have b: "fd i < 8" "proc_ok s" "fs_wf s" "paging_wf s" "k i + 1 \<le> 0x400000" using p W by simp_all
  have "file_left s (fd i) u" using p(7) [OF assms(3)] .
  then obtain m where f: "file_fd s (fd i)" "numInodes s = Some m" "inode_num e < m" "length content < 2 ^ 31"
    "unat (file_position e) \<le> length content" "u = drop (unat (file_position e)) content"
    unfolding file_left_def Let_def e_def content_def by blast
  define out where "out = take 1 u"
  have o: "out = slice (unat (file_position e)) 1 (file_content s (inode_num e))"
    by (simp add: out_def slice_def f(6) content_def)
  have pos: "unat (file_position e) + 1 < 2 ^ 32" using f(4,5) by simp
  define e' where "e' = e\<lparr>file_position := file_position e + of_nat (length out)\<rparr>"
  obtain s' where s': "stored (k i) out s s'" "ece391_read (kernel_os x) (of_nat (fd i)) (0x8000000 + of_nat (k i)) (of_nat 1) s =
      Some (of_nat (length out), with_fd (fd i) e' s')"
    using file_read_bytes [OF b(2-4) f(1-3) e_def _ pos b(5) o] unfolding e'_def by auto
  have "unat (file_position e') = unat (file_position e) + length out"
    using pos by (simp add: e'_def out_def unat_add_nat)
  moreover have "drop (length out) u = tl u" "length out \<le> length u" by (cases u; simp add: out_def)+
  ultimately have "drop (unat (file_position e')) content = tl u" "unat (file_position e') \<le> length content"
    using f(5,6) by (simp_all add: add.commute)
  moreover have "fd_array (cur (with_fd (fd i) e' s')) ! fd i = e'" "inode_num e' = inode_num e"
    using p(5) stored_fields(1,2) [OF s'(1)] by (simp_all add: e'_def with_fd_def)
  moreover have "file_op_table_ptr e' = file_op_table_ptr e" "flags e' = flags e" by (simp_all add: e'_def)
  moreover have "fs_image (with_fd (fd i) e' s') = fs_image s" "inode_start (with_fd (fd i) e' s') = inode_start s"
    "datablock_start (with_fd (fd i) e' s') = datablock_start s"
    using stored_fields [OF s'(1)] by (simp_all add: with_fd_def)
  note fs = fs_upd [OF this]
  ultimately have "file_left (with_fd (fd i) e' s') (fd i) (tl u)"
    using f(1-5) unfolding file_left_def file_fd_def fs(2,6,8) e_def [symmetric] by (simp add: Let_def content_def)
  then show ?thesis
    using plays_step [where s'' = "with_fd (fd i) e' s'" and e = e' and c' = "if u = [] then c else c(i := hd u)"
        and t' = "t(i := Some (tl u))" and x = x and scr = scr, OF assms(1) s'(1)] assms(2) s'(2) by (cases u) (simp_all add: out_def)
qed

text \<open>Drawing.\<close>

lemma plays_poke:
  assumes "fish_plays fd k kv t c (mem f)"
    and "shows_screen (kernel_os x) (0x8000000 + of_nat kv) 0x8C0A000 (mem f) scr" "unat (location b) < 2000"
    and "mp1_poke (kernel_os x) (0x8000000 + of_nat kv) v (poke_at b) f = Some g"
  shows "fish_plays fd k kv t c (mem g)"
proof -
  note W = fish_plays_world [OF assms(1)]
  define s where "s = mem f"
  have wf: "confined s" "paging_wf s" using W by (simp_all add: s_def)
  have "user_store (0x8C0A000 + of_nat (2 * unat (location b))) v s = Some (mem g)"
    using assms(2,4) by (auto simp: mp1_poke_def shows_screen_def poke_at_eq s_def simp del: of_nat_mult split: bind_splits)
  then have g: "mem g = poke (video_frame s) (2 * unat (location b)) v s"
    using vidmap_page [OF wf(2), of "2 * unat (location b)"] assms(3) by (simp add: user_store_def del: of_nat_mult)
  have m: "umem (mem g) j = umem s j" if "j < 0x400000" for j
    using video_not_user [OF wf(1)] that
    by (auto simp: g umem_def user_frame_def poke_def program_frame_def)
  have sf: "same_files (mem f) (mem g)" and fd: "fd_array (cur (mem g)) = fd_array (cur (mem f))"
    by (simp_all add: g same_files_def poke_def s_def)
  have "confined (mem g)" "proc_ok (mem g)" using wf(1) W(3)
    by (simp add: g confined_poke, simp add: g proc_ok_def poke_def s_def)
  moreover have "umem (mem g) (k i) = c i" for i using m fish_plays_at(3,4) [OF assms(1), of i] by (simp add: s_def)
  moreover have "case t i of None \<Rightarrow> flags (fd_array (cur (mem g)) ! fd i) \<noteq> 1 | Some u \<Rightarrow> file_left (mem g) (fd i) u" for i
    using fish_plays_at(6,7) [OF assms(1), of i] file_left_cong [OF sf, of "fd i"] by (auto simp: fd split: option.split)
  ultimately show ?thesis by (intro fish_plays_cong [OF assms(1) _ _ sf]) blast+
qed

interpretation player: frame_player "kernel_os x" confined "0x8000000 + of_nat kv" "0x8C0A000"
  "\<lambda>i. (of_nat (fd i), 0x8000000 + of_nat (k i))" "fish_plays fd k kv" for x kv fd k
proof
  fix t c w i
  assume p: "fish_plays fd k kv t c w"
  show "confined w" by (rule fish_plays_world(1) [OF p])
  show "uload (kernel_os x) (snd (of_nat (fd i) :: u32, 0x8000000 + of_nat (k i))) w = Some (c i)"
    using user_load_page [OF fish_plays_world(2) [OF p] fish_plays_at(3) [OF p, of i]] fish_plays_at(4) [OF p, of i] by simp
  fix scr assume sc: "shows_screen (kernel_os x) (0x8000000 + of_nat kv) 0x8C0A000 w scr"
  show "\<exists>w'. ustore (kernel_os x) (snd (of_nat (fd i) :: u32, 0x8000000 + of_nat (k i))) v w = Some w' \<and>
      fish_plays fd k kv t (c(i := v)) w' \<and> shows_screen (kernel_os x) (0x8000000 + of_nat kv) 0x8C0A000 w' scr" for v
    using plays_store [OF p sc] by simp
  show "\<exists>r w'. ece391_close (kernel_os x) (fst (of_nat (fd i), 0x8000000 + of_nat (k i) :: u32)) w = Some (r, w') \<and>
      fish_plays fd k kv (t(i := None)) c w' \<and> shows_screen (kernel_os x) (0x8000000 + of_nat kv) 0x8C0A000 w' scr"
    using plays_close [OF p sc] by simp
  show "\<exists>w'. ece391_read (kernel_os x) (fst (of_nat (fd i), 0x8000000 + of_nat (k i) :: u32))
        (snd (of_nat (fd i) :: u32, 0x8000000 + of_nat (k i))) 1 w = Some (if u = [] then 0 else 1, w') \<and>
      fish_plays fd k kv (t(i := Some (tl u))) (if u = [] then c else c(i := hd u)) w' \<and>
      shows_screen (kernel_os x) (0x8000000 + of_nat kv) 0x8C0A000 w' scr" if "t i = Some u" for u
    using plays_read [OF p sc that] by simp
qed (rule plays_poke)

section \<open>Both frames\<close>

text \<open>The locations stay on this side of the wrap-around of 16 bits.\<close>

lemma length_text_line: "length (text_line t) \<le> length t"
  by (simp add: text_line_def length_takeWhile_le)

lemma text_lines_bounds: "length (text_lines t) \<le> Suc (length t) \<and> (\<forall>l \<in> set (text_lines t). length l \<le> length t)"
proof (induction t rule: text_lines.induct)
  case (1 t)
  show ?case
  proof (cases "10 \<in> set t")
    case True
    then have "text_line t \<noteq> t" using set_takeWhileD [of 10 "\<lambda>c. c \<noteq> 10" t] by (auto simp: text_line_def)
    then have "length (text_line t) < length t"
      using length_text_line [of t] by (metis le_neq_implies_less takeWhile_eq_take text_line_def take_all_iff)
    then have r: "Suc (length (text_rest t)) \<le> length t" by (simp add: text_rest_def)
    have "length (text_lines (text_rest t)) \<le> Suc (length (text_rest t)) \<and>
        (\<forall>l \<in> set (text_lines (text_rest t)). length l \<le> length (text_rest t))" using "1.IH" True by blast
    then show ?thesis using r True length_text_line [of t] by (subst (1 2) text_lines.simps) auto
  next
    case False
    then show ?thesis using length_text_line [of t] by (subst (1 2) text_lines.simps) simp
  qed
qed

lemma of_int_u16: "0 < x \<Longrightarrow> x < 65536 \<Longrightarrow> (of_int x :: u16) \<noteq> 0"
  using zdvd_imp_le [of 65536 x] by (auto simp: word_of_int_eq_0_iff)

lemma set_tl: "set (tl xs) \<subseteq> set xs"
  by (cases xs) auto

lemma row_cells_placed:
  "0 \<le> row \<Longrightarrow> 0 \<le> col \<Longrightarrow> row * 80 + col + int (max (length l0) (length l1)) + 40 < 65536 \<Longrightarrow>
     e \<in> set (row_cells bs row col l0 l1) \<Longrightarrow> placed e"
proof (induction bs row col l0 l1 rule: row_cells.induct)
  case (1 bs row col l0 l1)
  show ?case
  proof (cases "l0 = [] \<and> l1 = []")
    case True
    then show ?thesis using "1.prems"(4) by (simp add: row_cells.simps)
  next
    case False
    then have m: "int (max (length (tl l0)) (length (tl l1))) = int (max (length l0) (length l1)) - 1"
      by (cases l0; cases l1) auto
    have mem: "e \<in> set (row_cells bs row (col + 1) (tl l0) (tl l1)) \<or> e = Add (cell_blink bs row col (head_char l0) (head_char l1))"
      using "1.prems"(4) False by (subst (asm) row_cells.simps) (auto split: if_splits)
    have r: "row * 80 + (col + 1) + int (max (length (tl l0)) (length (tl l1))) + 40 < 65536"
      using "1.prems"(3) unfolding m by linarith
    have "(of_int (row * 80 + col + 40) :: u16) \<noteq> 0" using "1.prems"(1-3) by (intro of_int_u16) simp_all
    then show ?thesis using mem "1.IH" [OF False "1.prems"(1) _ r] "1.prems"(2) by (auto simp: cell_blink_def)
  qed
qed

lemma frame_cells_placed:
  "0 \<le> row \<Longrightarrow> \<forall>l \<in> set ls0 \<union> set ls1. length l \<le> n \<Longrightarrow>
     (row + int (max (length ls0) (length ls1))) * 80 + int n + 40 < 65536 \<Longrightarrow> e \<in> set (frame_cells bs row ls0 ls1) \<Longrightarrow> placed e"
proof (induction bs row ls0 ls1 rule: frame_cells.induct)
  case (1 bs row ls0 ls1)
  show ?case
  proof (cases "ls0 = [] \<and> ls1 = []")
    case True
    then show ?thesis using "1.prems"(4) by (simp add: frame_cells.simps)
  next
    case False
    then have m: "int (max (length (tl ls0)) (length (tl ls1))) = int (max (length ls0) (length ls1)) - 1"
      by (cases ls0; cases ls1) auto
    have p: "0 \<le> row + 1" "\<forall>l \<in> set (tl ls0) \<union> set (tl ls1). length l \<le> n"
      "(row + 1 + int (max (length (tl ls0)) (length (tl ls1)))) * 80 + int n + 40 < 65536"
      using "1.prems"(1-3) unfolding m by (auto dest: set_tl [THEN subsetD])
    have f: "length (first_line ls0) \<le> n" "length (first_line ls1) \<le> n"
      using "1.prems"(2) by (auto simp: first_line_def)
    then have "row * 80 + 0 + int (max (length (first_line ls0)) (length (first_line ls1))) + 40 < 65536"
      using "1.prems"(3) by simp
    then show ?thesis
      using "1.prems"(4) False "1.IH" [OF False p] row_cells_placed [of row 0 "first_line ls0" "first_line ls1" e bs] "1.prems"(1)
      by (subst (asm) frame_cells.simps) auto
  qed
qed

definition file_named :: "machine \<Rightarrow> u8 list \<Rightarrow> u8 list \<Rightarrow> bool" where
  "file_named s nm t \<longleftrightarrow> 0 \<notin> set nm \<and> (\<exists>m d d'. numInodes s = Some m \<and> lookup s (nm @ [0]) = Some d \<and> fileType d = 2 \<and>
     inodeNumber d < m \<and> entry_of_inode s (inodeNumber d) = Some d' \<and> fileType d' = 2 \<and> t = file_content s (inodeNumber d))"

lemma open_named:
  assumes "confined s" "proc_ok s" "fs_wf s" "file_named s nm t" "length t < 800"
    and "useg s kn (Suc (length nm)) = nm @ [0]" "kn + Suc (length nm) \<le> 0x400000"
    and "fd = lowest_free (fd_array (cur s))" "2 \<le> fd" "fd < 8"
  shows "\<exists>e. ece391_open (kernel_os c) (0x8000000 + of_nat kn) s = Some (of_nat fd, with_fd fd e s) \<and> flags e = 1 \<and>
    file_left (with_fd fd e s) fd t"
proof -
  obtain m d d' where d: "0 \<notin> set nm" "numInodes s = Some m" "lookup s (nm @ [0]) = Some d" "fileType d = 2"
    "inodeNumber d < m" "entry_of_inode s (inodeNumber d) = Some d'" "fileType d' = 2" "t = file_content s (inodeNumber d)"
    using assms(4) by (auto simp: file_named_def)
  have wf: "paging_wf s" using assms(1) by (simp add: confined_def)
  have "user_string (0x8000000 + of_nat kn) s = nm @ [0]"
    using user_string_page [OF wf assms(7)] d(1) by (simp add: assms(6) terminated_def cstr_append cstr_no_zero)
  moreover have "sys_open (ctx_hw c) (nm @ [0]) s = Some (int fd, with_fd fd (opened d) s)"
    using sys_open_eq [OF assms(2,3), of "nm @ [0]" "ctx_hw c"] d(3,4) assms(8,10) by (simp add: terminated_def open_effect_def)
  ultimately have "ece391_open (kernel_os c) (0x8000000 + of_nat kn) s = Some (of_nat fd, with_fd fd (opened d) s)"
    by (simp add: kernel_calls)
  moreover have "fd_array (cur (with_fd fd (opened d) s)) ! fd = opened d"
    using assms(2,10) by (simp add: proc_ok_def)
  note fs = fs_upd [of "with_fd fd (opened d) s" s] and a = this
  have "file_left (with_fd fd (opened d) s) fd t"
    using d assms(5,9,10) fs(2,6,8) a
    by (simp add: file_left_def file_fd_def with_fd_def opened_def table_of_type_def RTC_FILE_TYPE_def DIRECTORY_FILE_TYPE_def)
  moreover have "flags (opened d) = 1" by (simp add: opened_def)
  ultimately show ?thesis by blast
qed

text \<open>
  What the program has in memory: the names of the two files, the locals for their characters and the
  pointer to the screen lie apart, and the two lowest descriptors are free.
\<close>

definition fish_ready :: "machine \<Rightarrow> (bool \<Rightarrow> nat) \<Rightarrow> nat \<Rightarrow> (bool \<Rightarrow> nat) \<Rightarrow> (bool \<Rightarrow> u8 list) \<Rightarrow> bool" where
  "fish_ready s k kv kn nm \<longleftrightarrow>
     confined s \<and> proc_ok s \<and> fs_wf s \<and> k False \<noteq> k True \<and> kv + 4 \<le> 0x400000 \<and>
     (\<forall>i. k i < 0x400000 \<and> (k i < kv \<or> kv + 4 \<le> k i) \<and> kn i + Suc (length (nm i)) \<le> 0x400000 \<and>
        useg s (kn i) (Suc (length (nm i))) = nm i @ [0] \<and>
        (kv + 4 \<le> kn i \<or> kn i + length (nm i) < kv) \<and> (\<forall>j. k j < kn i \<or> kn i + length (nm i) < k j))"

definition fish_locals :: "(bool \<Rightarrow> nat) \<Rightarrow> nat \<Rightarrow> blink \<Rightarrow> locals \<Rightarrow> bool" where
  "fish_locals k kv js l \<longleftrightarrow>
     at_vmem l = 0x8000000 + of_nat kv \<and> at_c0 l = 0x8000000 + of_nat (k False) \<and> at_c1 l = 0x8000000 + of_nat (k True) \<and>
     js = (junk_struct l)\<lparr>on_length := 15, off_length := 15\<rparr>"

lemma useg_kept: "stored j vs s s' \<Longrightarrow> a + n \<le> 0x400000 \<Longrightarrow> j + length vs \<le> a \<or> a + n \<le> j \<Longrightarrow> useg s' a n = useg s a n"
  by (rule nth_equalityI) (auto simp: stored_def)

lemma file_named_cong: "same_files s s' \<Longrightarrow> file_named s' nm t = file_named s nm t"
  using fs_upd [of s' s] by (simp add: file_named_def same_files_def)

lemma kept_world:
  assumes "stored j vs s s'"
  shows "confined s' = confined s" "proc_ok s' = proc_ok s" "fs_wf s' = fs_wf s" "same_files s s'"
    "fd_array (cur s') = fd_array (cur s)"
  using stored_fields [OF assms] stored_confined [OF assms] stored_files [OF assms] fs_upd(4) [of s' s]
  by (simp_all add: proc_ok_def same_files_def)

lemma store_local:
  assumes "confined s" "kv + 4 \<le> 0x400000" "k < 0x400000" "k < kv \<or> kv + 4 \<le> k"
    and "shows_screen (kernel_os c) (0x8000000 + of_nat kv) 0x8C0A000 s scr"
  shows "\<exists>s'. user_store (0x8000000 + of_nat k) v s = Some s' \<and> stored k [v] s s' \<and> confined s' \<and>
    shows_screen (kernel_os c) (0x8000000 + of_nat kv) 0x8C0A000 s' scr"
proof -
  have wf: "paging_wf s" using assms(1) by (simp add: confined_def)
  obtain s' where s': "user_store (0x8000000 + of_nat k) v s = Some s'" "stored k [v] s s'"
    using user_store_page [OF wf assms(3)] by blast
  have c: "confined s'" using kept_world(1) [OF s'(2)] assms(1) by simp
  have "umem s' (kv + i) = umem s (kv + i)" if "i < 4" for i
    using s'(2) assms(2,4) that by (auto simp: stored_def)
  then have "shows_screen (kernel_os c) (0x8000000 + of_nat kv) 0x8C0A000 s' scr"
    using screen_kept [OF assms(1) c assms(2) _ stored_vpage [OF s'(2) assms(1)] assms(5)] by blast
  then show ?thesis using s' c by blast
qed

text \<open>The state after the two locals are set.\<close>

lemma fish_locals_set:
  assumes "fish_ready s k kv kn nm"
  shows "\<exists>w w1 w2. mp1_set_video_mode (kernel_os c) (0x8000000 + of_nat kv) s = Some (0x8C0A000, w) \<and>
    user_store (0x8000000 + of_nat (k False)) 48 w = Some w1 \<and> user_store (0x8000000 + of_nat (k True)) 48 w1 = Some w2 \<and>
    confined w2 \<and> proc_ok w2 \<and> fs_wf w2 \<and> same_files s w2 \<and> fd_array (cur w2) = fd_array (cur s) \<and>
    shows_screen (kernel_os c) (0x8000000 + of_nat kv) 0x8C0A000 w2 (text_screen s) \<and>
    (\<forall>i. umem w2 (k i) = 48 \<and> useg w2 (kn i) (Suc (length (nm i))) = nm i @ [0])"
proof -
  note r = assms(1) [unfolded fish_ready_def]
  obtain w where w: "mp1_set_video_mode (kernel_os c) (0x8000000 + of_nat kv) s = Some (0x8C0A000, w)" "confined w"
    "shows_screen (kernel_os c) (0x8000000 + of_nat kv) 0x8C0A000 w (text_screen s)" "stored kv (le_bytes 0x8C0A000) s w"
    using video_mode_ready [of s kv c] r by blast
  obtain w1 where w1: "user_store (0x8000000 + of_nat (k False)) 48 w = Some w1" "stored (k False) [48] w w1" "confined w1"
    "shows_screen (kernel_os c) (0x8000000 + of_nat kv) 0x8C0A000 w1 (text_screen s)"
    using store_local [OF w(2) _ _ _ w(3), of "k False" 48] r by blast
  obtain w2 where w2: "user_store (0x8000000 + of_nat (k True)) 48 w1 = Some w2" "stored (k True) [48] w1 w2" "confined w2"
    "shows_screen (kernel_os c) (0x8000000 + of_nat kv) 0x8C0A000 w2 (text_screen s)"
    using store_local [OF w1(3) _ _ _ w1(4), of "k True" 48] r by blast
  have K: "proc_ok w2" "fs_wf w2" "same_files s w2" "fd_array (cur w2) = fd_array (cur s)"
    using kept_world [OF w(4)] kept_world [OF w1(2)] kept_world [OF w2(2)] r by (simp_all add: same_files_def)
  have "umem w2 (k i) = 48" for i
    using w1(2) w2(2) r by (cases i) (auto simp: stored_def)
  moreover have "useg w2 (kn i) (Suc (length (nm i))) = nm i @ [0]" for i
  proof -
    have b: "kn i + Suc (length (nm i)) \<le> 0x400000" "useg s (kn i) (Suc (length (nm i))) = nm i @ [0]"
      "kv + 4 \<le> kn i \<or> kn i + length (nm i) < kv" "\<And>j. k j < kn i \<or> kn i + length (nm i) < k j"
      using r by blast+
    have "useg w (kn i) (Suc (length (nm i))) = useg s (kn i) (Suc (length (nm i)))"
      using b(3) by (intro useg_kept [OF w(4) b(1)]) auto
    moreover have "useg w1 (kn i) (Suc (length (nm i))) = useg w (kn i) (Suc (length (nm i)))"
      using b(4) [of False] by (intro useg_kept [OF w1(2) b(1)]) auto
    moreover have "useg w2 (kn i) (Suc (length (nm i))) = useg w1 (kn i) (Suc (length (nm i)))"
      using b(4) [of True] by (intro useg_kept [OF w2(2) b(1)]) auto
    ultimately show ?thesis using b(2) by simp
  qed
  ultimately show ?thesis using w(1) w1(1) w2(1,3,4) K by blast
qed

lemma lowest_free_next:
  assumes "length fds = 8" "2 \<le> lowest_free fds" "flags e = 1" "n = lowest_free (fds[lowest_free fds := e])" "n < 8"
  shows "n \<noteq> lowest_free fds" "2 \<le> n"
proof -
  let ?l = "fds[lowest_free fds := e]"
  have f: "flags (?l ! n) \<noteq> 1" using lowest_free_at [of ?l] assms(1,4,5) by simp
  then show d: "n \<noteq> lowest_free fds" using assms(1,3,5) by auto
  show "2 \<le> n"
  proof (rule ccontr)
    assume "\<not> 2 \<le> n"
    then have "flags (fds ! n) = 1" using assms(2) by (intro lowest_free_below) simp
    then show False using f d by simp
  qed
qed

text \<open>The state when the loop over the rows begins.\<close>

lemma fish_opened:
  assumes "fish_ready s k kv kn nm" "\<And>i. file_named s (nm i) (t i)" "\<And>i. length (t i) < 800"
    and "fd False = lowest_free (fd_array (cur s))" "2 \<le> fd False" "fd False < 8"
    and "\<And>e. flags e = 1 \<Longrightarrow> fd True = lowest_free ((fd_array (cur s))[fd False := e])" "fd True < 8"
  shows "\<exists>w w1 w2 s1 s2. mp1_set_video_mode (kernel_os c) (0x8000000 + of_nat kv) s = Some (0x8C0A000, w) \<and>
    user_store (0x8000000 + of_nat (k False)) 48 w = Some w1 \<and> user_store (0x8000000 + of_nat (k True)) 48 w1 = Some w2 \<and>
    ece391_open (kernel_os c) (0x8000000 + of_nat (kn False)) w2 = Some (of_nat (fd False), s1) \<and>
    ece391_open (kernel_os c) (0x8000000 + of_nat (kn True)) s1 = Some (of_nat (fd True), s2) \<and>
    fish_plays fd k kv (\<lambda>i. Some (t i)) (\<lambda>_. 48) s2 \<and>
    shows_screen (kernel_os c) (0x8000000 + of_nat kv) 0x8C0A000 s2 (text_screen s)"
proof -
  note r = assms(1) [unfolded fish_ready_def]
  have kn: "kn i + Suc (length (nm i)) \<le> 0x400000" for i using r by blast
  obtain w w1 w2 where w: "mp1_set_video_mode (kernel_os c) (0x8000000 + of_nat kv) s = Some (0x8C0A000, w)"
    "user_store (0x8000000 + of_nat (k False)) 48 w = Some w1" "user_store (0x8000000 + of_nat (k True)) 48 w1 = Some w2"
    "confined w2" "proc_ok w2" "fs_wf w2" "same_files s w2" "fd_array (cur w2) = fd_array (cur s)"
    "shows_screen (kernel_os c) (0x8000000 + of_nat kv) 0x8C0A000 w2 (text_screen s)"
    "\<And>i. umem w2 (k i) = 48" "\<And>i. useg w2 (kn i) (Suc (length (nm i))) = nm i @ [0]"
    using fish_locals_set [OF assms(1), of c] by (elim exE conjE) (rule that; blast)
  have n2: "file_named w2 (nm i) (t i)" for i using file_named_cong [OF w(7)] assms(2) by simp
  obtain e0 where e0: "ece391_open (kernel_os c) (0x8000000 + of_nat (kn False)) w2 = Some (of_nat (fd False), with_fd (fd False) e0 w2)"
    "flags e0 = 1" "file_left (with_fd (fd False) e0 w2) (fd False) (t False)"
    using open_named [OF w(4-6) n2 assms(3) w(11) kn _ assms(5,6)] assms(4) w(8) by metis
  define s1 where "s1 = with_fd (fd False) e0 w2"
  have len: "length (fd_array (cur w2)) = 8" using w(5) by (simp add: proc_ok_def)
  have s1: "confined s1" "proc_ok s1" "same_files w2 s1" "fd_array (cur s1) = (fd_array (cur s))[fd False := e0]" "\<And>j. umem s1 j = umem w2 j"
    using w(4,5,8) by (simp_all add: s1_def with_fd_confined) (simp_all add: same_files_def with_fd_def umem_def user_frame_def program_frame_def)
  have f1: "fs_wf s1" "\<And>i. file_named s1 (nm i) (t i)" using fs_upd(4) [of s1 w2] s1(3) w(6) file_named_cong [OF s1(3)] n2
    by (simp_all add: same_files_def)
  have u1: "useg s1 (kn i) (Suc (length (nm i))) = nm i @ [0]" for i using w(11) by (simp add: s1_def)
  have d: "fd True \<noteq> fd False" "2 \<le> fd True"
    using lowest_free_next [of "fd_array (cur s)" e0 "fd True"] len w(8) assms(4,5,8) assms(7) [OF e0(2)] e0(2) by auto
  have "fd True = lowest_free (fd_array (cur s1))" using assms(7) [OF e0(2)] s1(4) by simp
  then obtain e1 where e1: "ece391_open (kernel_os c) (0x8000000 + of_nat (kn True)) s1 = Some (of_nat (fd True), with_fd (fd True) e1 s1)"
    "file_left (with_fd (fd True) e1 s1) (fd True) (t True)"
    using open_named [OF s1(1,2) f1 assms(3) u1 kn _ d(2) assms(8)] by metis
  define s2 where "s2 = with_fd (fd True) e1 s1"
  have s2: "confined s2" "proc_ok s2" "same_files s1 s2" "\<And>j. umem s2 j = umem s1 j" "vpage s2 = vpage w2"
    using s1(1,2) by (simp_all add: s2_def with_fd_confined)
      (simp_all add: same_files_def with_fd_def umem_def user_frame_def program_frame_def s1_def vpage_def video_frame_def)
  have "fd_array (cur s2) ! fd False = fd_array (cur s1) ! fd False" using d(1) by (simp add: s2_def)
  then have "file_left s2 (fd False) (t False)"
    using file_left_cong [OF s2(3)] e0(3) by (simp add: s1_def)
  then have left: "file_left s2 (fd i) (t i)" for i using e1(2) by (cases i) (simp_all add: s2_def)
  have sf: "fs_wf s2" using fs_upd(4) [of s2 s1] s2(3) f1(1) by (simp add: same_files_def)
  have "2 \<le> fd i \<and> fd i < 8" for i using assms(5,6,8) d(2) by (cases i) simp_all
  moreover have "k i < 0x400000 \<and> (k i < kv \<or> kv + 4 \<le> k i)" for i using r by blast
  ultimately have "fish_plays fd k kv (\<lambda>i. Some (t i)) (\<lambda>_. 48) s2"
    using r d(1) s2(1,2,4) s1(5) w(10) left sf unfolding fish_plays_def by simp
  moreover have "shows_screen (kernel_os c) (0x8000000 + of_nat kv) 0x8C0A000 s2 (text_screen s)"
    using screen_kept [OF w(4) s2(1) _ _ s2(5) w(9)] r s2(4) s1(5) by simp
  ultimately show ?thesis using w(1-3) e0(1) e1(1) unfolding s1_def [symmetric] s2_def [symmetric] by blast
qed

text \<open>From a state that stands for a board, everything that comes next shows what the board shows.\<close>

lemma shown_run:
  assumes "kernel.stands_for c v 0x8C0A000 f bd" "\<forall>e \<in> set es. placed e"
  shows "\<exists>rs f'. blinker_run (kernel_os c) v es f = Some (rs, f') \<and> text_screen (mem f') = snd (snd (board_run es bd))"
proof -
  obtain f' where "blinker_run (kernel_os c) v es f = Some (fst (board_run es bd), f')"
    "kernel.stands_for c v 0x8C0A000 f' (snd (board_run es bd))"
    using kernel.run_refines [OF assms] by blast
  then show ?thesis using shown_text unfolding kernel.stands_for_def by blast
qed

text \<open>C26: the frames of \<^verbatim>\<open>fish\<close> on the kernel, from the files on the disk to the screen. With the names of two
  files, their locals and the pointer to the screen in its page and two free descriptors, for files of
  less than 800 bytes, \<^verbatim>\<open>add_frames\<close> ends: it opens both files, reads them side by side through the system
  calls, one byte at a time, and leaves on the text screen what the board shows after one blinking
  character, 40 cells on, for each column of each line in which either text has something visible, the
  first text's character shown, a missing one being a space. The second text's characters follow: whatever
  ticks and commands come next, the screen is that of the board with these cells, which hold both
  characters. Lines that end early and files of different length are covered.\<close>

theorem fish_frames_drawn:
  assumes "fish_ready s k kv kn nm" "fish_locals k kv js l" "\<And>i. file_named s (nm i) (t i)" "\<And>i. length (t i) < 800"
    and "fd False = lowest_free (fd_array (cur s))" "2 \<le> fd False" "fd False < 8"
    and "\<And>e. flags e = 1 \<Longrightarrow> fd True = lowest_free ((fd_array (cur s))[fd False := e])" "fd True < 8"
  shows "\<exists>w f. mp1_set_video_mode (kernel_os c) (at_vmem l) s = Some (0x8C0A000, w) \<and>
    add_frames (kernel_os c) l (0x8000000 + of_nat (kn False)) (0x8000000 + of_nat (kn True)) (new_fish w) = Some (Inr f) \<and>
    text_screen (mem f) = snd (snd (board_run (frame_cells js 0 (text_lines (t False)) (text_lines (t True))) ([], text_screen s))) \<and>
    (\<forall>es. (\<forall>e \<in> set es. placed e) \<longrightarrow> (\<exists>rs f'. blinker_run (kernel_os c) (at_vmem l) es f = Some (rs, f') \<and>
       text_screen (mem f') =
         snd (snd (board_run (frame_cells js 0 (text_lines (t False)) (text_lines (t True)) @ es) ([], text_screen s)))))"
proof -
  note l = assms(2) [unfolded fish_locals_def]
  let ?ev = "frame_cells js 0 (text_lines (t False)) (text_lines (t True))"
  obtain w w1 w2 s1 s2 where o: "mp1_set_video_mode (kernel_os c) (0x8000000 + of_nat kv) s = Some (0x8C0A000, w)"
    "user_store (0x8000000 + of_nat (k False)) 48 w = Some w1" "user_store (0x8000000 + of_nat (k True)) 48 w1 = Some w2"
    "ece391_open (kernel_os c) (0x8000000 + of_nat (kn False)) w2 = Some (of_nat (fd False), s1)"
    "ece391_open (kernel_os c) (0x8000000 + of_nat (kn True)) s1 = Some (of_nat (fd True), s2)"
    "fish_plays fd k kv (\<lambda>i. Some (t i)) (\<lambda>_. 48) s2"
    "shows_screen (kernel_os c) (0x8000000 + of_nat kv) 0x8C0A000 s2 (text_screen s)"
    using fish_opened [where fd = fd and c = c, OF assms(1,3-9)] by blast
  define st where "st = \<lparr>eof0 = False, eof1 = False, blink_struct = js\<rparr>"
  define f0 where "f0 = (new_fish w)\<lparr>mem := s2\<rparr>"
  have pl: "fish_plays fd k kv (\<lambda>i. Some (t i)) (\<lambda>_. 48) (mem f0)" using o(6) by (simp add: f0_def)
  have sf: "kernel.stands_for c (0x8000000 + of_nat kv) 0x8C0A000 f0 ([], text_screen s)"
    using o(7) listed_new fish_plays_world(1) [OF o(6)] unfolding kernel.stands_for_def
    by (auto simp: f0_def new_fish_def intro!: exI [of _ "[]"])
  have e: "player.eofs st i = False" for i by (simp add: player.eofs_def st_def)
  have rs: "player.row_start (player.eofs st i) 48 (Some (t i))" for i by (simp add: player.row_start_def e)
  have ll: "text_lines (t False) = player.lines_left (player.eofs st False) (Some (t False))"
    "text_lines (t True) = player.lines_left (player.eofs st True) (Some (t True))"
    by (simp_all add: player.lines_left_def e)
  have b: "length (text_lines (t i)) \<le> 800" "\<forall>l \<in> set (text_lines (t i)). length l \<le> 800" for i
    using text_lines_bounds [of "t i"] assms(4) [of i] by auto
  define rows where "rows = int (max (length (text_lines (t False))) (length (text_lines (t True))))"
  have "rows \<le> 800" using b(1) by (simp add: rows_def)
  then have "(0 + rows) * 80 + int 800 + 40 < 65536" by simp
  moreover have "\<forall>l \<in> set (text_lines (t False)) \<union> set (text_lines (t True)). length l \<le> 800" using b(2) by blast
  ultimately have pd: "\<forall>e \<in> set ?ev. placed e" using frame_cells_placed [of 0] unfolding rows_def by blast
  obtain g where g: "add_rows (kernel_os c) (0x8000000 + of_nat kv) (of_nat (fd False), 0x8000000 + of_nat (k False))
      (of_nat (fd True), 0x8000000 + of_nat (k True)) 0 st f0 = Some g"
    "kernel.stands_for c (0x8000000 + of_nat kv) 0x8C0A000 g (snd (board_run ?ev ([], text_screen s)))"
    using player.add_rows_cells [where st = st and bs = js and row = 0, OF pl sf rs _ ll pd] by (auto simp: st_def)
  have "add_frames (kernel_os c) l (0x8000000 + of_nat (kn False)) (0x8000000 + of_nat (kn True)) (new_fish w) = Some (Inr g)"
    using o(2-5) g(1) l assms(7,9) by (simp add: add_frames_def new_fish_def f0_def st_def sint_fd)
  moreover have "text_screen (mem g) = snd (snd (board_run ?ev ([], text_screen s)))"
    using g(2) shown_text unfolding kernel.stands_for_def by blast
  moreover have "\<exists>rs g'. blinker_run (kernel_os c) (at_vmem l) es g = Some (rs, g') \<and>
      text_screen (mem g') = snd (snd (board_run (?ev @ es) ([], text_screen s)))" if "\<forall>e \<in> set es. placed e" for es
    unfolding board_run_append using shown_run [OF g(2)] that l by simp
  ultimately show ?thesis using o(1) l by auto
qed

text \<open>A machine with a file \<^verbatim>\<open>readme\<close> that holds \<^verbatim>\<open>hi\<close>, which serves as both frames, and its name in memory.\<close>

definition sample_locals :: locals where
  "sample_locals = \<lparr>at_vmem = 0x80000C8, at_c0 = 0x8000064, at_c1 = 0x8000065, at_ret_val = 0, at_garbage = 0, junk_struct = zero_blink\<rparr>"

lemma sample_cat_named: "file_named sample_cat (bytes ''readme'') (bytes ''hi'')"
proof -
  note f = sample_cat_facts
  define nm where "nm = bytes ''readme''"
  define d where "d = named_entry nm"
  have z: "length nm = 6" "0 \<notin> set nm" by (simp_all add: nm_def)
  have r: "replicate 26 (0 :: u8) = 0 # replicate 25 0" by (simp add: numeral_eq_Suc)
  have n: "cstr (nm @ [0]) = nm" using z by (simp add: cstr_append cstr_no_zero)
  have d: "fileType d = 2" "inodeNumber d = 0" "entry_name d = nm"
    using z r by (simp_all add: d_def named_entry_def entry_name_def cstr_append cstr_no_zero)
  have l: "lookup sample_cat (nm @ [0]) = Some d" "entry_of_inode sample_cat (inodeNumber d) = Some d"
    using n z d f(5) unfolding nm_def [symmetric] d_def [symmetric] by (simp_all add: lookup_def entry_of_inode_def)
  have "0 \<notin> set nm \<and> numInodes sample_cat = Some 1 \<and> lookup sample_cat (nm @ [0]) = Some d \<and> fileType d = 2 \<and>
      inodeNumber d < 1 \<and> entry_of_inode sample_cat (inodeNumber d) = Some d \<and> fileType d = 2 \<and>
      bytes ''hi'' = file_content sample_cat (inodeNumber d)"
    using z l d f(4,6) by simp
  then show ?thesis unfolding file_named_def nm_def [symmetric] by blast
qed

lemma sample_fish:
  obtains s where "fish_ready s (\<lambda>i. if i then 101 else 100) 200 (\<lambda>_. 0) (\<lambda>_. bytes ''readme'')"
    "file_named s (bytes ''readme'') (bytes ''hi'')" "fd_array (cur s) = fd_array (cur sample_cat)"
proof -
  have wf: "paging_wf sample_cat" using sample_cat_facts(1) by (simp add: confined_def)
  obtain s where s: "stored 0 (bytes ''readme'' @ [0]) sample_cat s"
    using store_bytes_user [OF wf, of 0 "bytes ''readme'' @ [0]"] by auto
  note K = kept_world [OF s]
  have "useg s 0 (Suc (length (bytes ''readme''))) = bytes ''readme'' @ [0]"
    using useg_stored [OF s, of "Suc (length (bytes ''readme''))"] by simp
  then have "fish_ready s (\<lambda>i. if i then 101 else 100) 200 (\<lambda>_. 0) (\<lambda>_. bytes ''readme'')"
    using K sample_cat_facts(1-3) by (simp add: fish_ready_def)
  then show thesis using that file_named_cong [OF K(4)] sample_cat_named K(5) by blast
qed

theorem fish_frames_drawn_witness:
  "\<forall>c. \<exists>s w f. mp1_set_video_mode (kernel_os c) 0x80000C8 s = Some (0x8C0A000, w) \<and>
     add_frames (kernel_os c) sample_locals 0x8000000 0x8000000 (new_fish w) = Some (Inr f) \<and>
     text_screen (mem f) ! 80 = of_char CHR ''h'' \<and> text_screen (mem f) ! 82 = of_char CHR ''i'' \<and>
     (\<exists>rs f'. blinker_run (kernel_os c) 0x80000C8 [Remove 41, Tick] f = Some (rs, f') \<and>
        text_screen (mem f') ! 80 = of_char CHR ''h'')"
proof
  fix c
  obtain s where s: "fish_ready s (\<lambda>i. if i then 101 else 100) 200 (\<lambda>_. 0) (\<lambda>_. bytes ''readme'')"
    "file_named s (bytes ''readme'') (bytes ''hi'')" "fd_array (cur s) = fd_array (cur sample_cat)"
    using sample_fish by blast
  define js where "js = zero_blink\<lparr>on_length := 15, off_length := 15\<rparr>"
  have l: "fish_locals (\<lambda>i. if i then 101 else 100) 200 js sample_locals"
    by (simp add: fish_locals_def sample_locals_def js_def)
  have fd: "fd_array (cur s) = replicate 2 \<lparr>file_op_table_ptr = Some TerminalOps, inode_num = 0,
     file_position = 0, flags = 1\<rparr> @ replicate 6 zero_fd"
    using s(3) sample_cat_facts(8) by simp
  have two: "(if False then 3 else 2 :: nat) = lowest_free (fd_array (cur s))"
    by (simp add: fd lowest_free_def zero_fd_def numeral_eq_Suc)
  have three: "(if True then 3 else 2 :: nat) = lowest_free ((fd_array (cur s))[(if False then 3 else 2) := e])"
    if "flags e = 1" for e
    using that by (simp add: fd lowest_free_def zero_fd_def numeral_eq_Suc)
  have n: "length (bytes ''hi'') < 800" "2 \<le> (if False then 3 else 2 :: nat)" "(if False then 3 else 2 :: nat) < 8" "(if True then 3 else 2 :: nat) < 8"
    by simp_all
  let ?ev = "frame_cells js 0 (text_lines (bytes ''hi'')) (text_lines (bytes ''hi''))"
  obtain w f where f: "mp1_set_video_mode (kernel_os c) (at_vmem sample_locals) s = Some (0x8C0A000, w)"
    "add_frames (kernel_os c) sample_locals (0x8000000 + of_nat 0) (0x8000000 + of_nat 0) (new_fish w) = Some (Inr f)"
    "text_screen (mem f) = snd (snd (board_run ?ev ([], text_screen s)))"
    and after: "\<And>es. \<forall>e \<in> set es. placed e \<Longrightarrow> \<exists>rs f'. blinker_run (kernel_os c) (at_vmem sample_locals) es f = Some (rs, f') \<and>
       text_screen (mem f') = snd (snd (board_run (?ev @ es) ([], text_screen s)))"
    using fish_frames_drawn [where fd = "\<lambda>i. if i then 3 else 2" and c = c, OF s(1) l s(2) n(1) two n(2,3) three n(4)] by blast
  obtain rs f' where r: "blinker_run (kernel_os c) (at_vmem sample_locals) [Remove 41, Tick] f = Some (rs, f')"
    "text_screen (mem f') = snd (snd (board_run (?ev @ [Remove 41, Tick]) ([], text_screen s)))"
    using after [of "[Remove 41, Tick]"] by auto
  have tl: "text_lines (bytes ''hi'') = [bytes ''hi'']" by (subst text_lines.simps) (simp add: text_line_def)
  have "frame_cells js 0 [bytes ''hi''] [bytes ''hi''] =
      [Add (cell_blink js 0 0 104 104), Add (cell_blink js 0 1 105 105)]"
    by (simp add: frame_cells.simps [of js 0] frame_cells.simps [of js _ "[]"] row_cells.simps first_line_def head_char_def visible_def)
  then have ev: "?ev = [Add (cell_blink js 0 0 104 104), Add (cell_blink js 0 1 105 105)]" unfolding tl .
  have "text_screen (mem f) = (text_screen s)[80 := 104, 82 := 105]"
    unfolding f(3) ev by (simp add: board_event_def board_add_def cell_blink_def draw_def)
  moreover have "text_screen (mem f') = (text_screen s)[80 := 104, 82 := 105]"
    unfolding r(2) ev
    by (simp add: board_event_def board_add_def board_remove_def board_tick_def cell_blink_def draw_def draw_due_def time_up_def js_def)
  moreover have "length (text_screen s) = 4000" by (simp add: text_screen_def)
  ultimately show "\<exists>s w f. mp1_set_video_mode (kernel_os c) 0x80000C8 s = Some (0x8C0A000, w) \<and>
     add_frames (kernel_os c) sample_locals 0x8000000 0x8000000 (new_fish w) = Some (Inr f) \<and>
     text_screen (mem f) ! 80 = of_char CHR ''h'' \<and> text_screen (mem f) ! 82 = of_char CHR ''i'' \<and>
     (\<exists>rs f'. blinker_run (kernel_os c) 0x80000C8 [Remove 41, Tick] f = Some (rs, f') \<and>
        text_screen (mem f') ! 80 = of_char CHR ''h'')"
    using f(1,2) r(1)
    by (intro exI [of _ s] exI [of _ w] exI [of _ f] conjI exI [of _ rs] exI [of _ f']) (simp_all add: sample_locals_def)
qed

end
