(* ===== verification/Spec2Isabelle.thy ===== *)
theory Spec2Isabelle
  imports FileApi FishFrames
begin

text \<open>
  HAL-OS: a teaching kernel for 32-bit x86 with three text terminals, a read-only file system and up
  to six processes, and the programs on its disk.

  \<^bold>\<open>The program.\<close> The boot loader enters \<^verbatim>\<open>entry\<close> (\<^verbatim>\<open>kernel.c\<close>), which sets up descriptors, devices and
  paging and executes the first shell. From then on control reaches the kernel in three ways: a device
  interrupt (the timer runs the scheduler, the keyboard edits the line of the displayed terminal and
  switches terminals, the clock wakes readers), an exception (which ends the running process), and
  \<^verbatim>\<open>int 0x80\<close> (ten system calls, on files, the terminal and the clock through per-type tables of
  operations, on processes, and on memory). Everything shares the globals: the control blocks, the
  terminals, the page tables and the devices' state. They are the fields of one record, \<open>machine\<close>,
  and an operation is a function from it; \<open>None\<close> is a fault or a loop that never ends, and the C error
  returns are values.

  \<^bold>\<open>Theories\<close>, in the order of the calls (source under \<^verbatim>\<open>src/student-distrib\<close> unless it says otherwise).
  \<^item> \<open>HalPrelude\<close>: C integers, checked buffers, C strings, counting loops, arithmetic shared by all.
  \<^item> \<open>MachineState\<close>: the record and the port, flag and field primitives of \<^verbatim>\<open>lib.h\<close>.
  \<^item> \<open>Pic\<close> (\<^verbatim>\<open>i8259.c\<close>, \<^verbatim>\<open>devices/pit.c\<close>), \<open>Rtc\<close> (\<^verbatim>\<open>devices/rtc.c\<close>), \<open>Paging\<close> (\<^verbatim>\<open>paging.c\<close>, with the
    processor's walk of the tables), \<open>Descriptors\<close> (\<^verbatim>\<open>x86_desc.h\<close>).
  \<^item> \<open>LibStrings\<close>, \<open>LibMemory\<close>, \<open>Console\<close>, \<open>Printf\<close> (\<^verbatim>\<open>lib.c\<close>): strings and numbers, block copies as the inline
    assembly does them, the screen, formatted output.
  \<^item> \<open>Filesystem\<close> (\<^verbatim>\<open>devices/filesystem.c\<close>), \<open>Terminal\<close> (\<^verbatim>\<open>devices/terminal.c\<close>), \<open>Keyboard\<close>
    (\<^verbatim>\<open>devices/keyboard.c\<close>).
  \<^item> \<open>SysCalls\<close>, \<open>SysCallFacts\<close>, \<open>FileApi\<close> (the file calls against an abstract file system), \<open>Process\<close>,
    \<open>ProcessFacts\<close> (\<^verbatim>\<open>system_calls.c\<close>), \<open>Scheduler\<close>, \<open>SchedulerFacts\<close> (\<^verbatim>\<open>scheduler.c\<close>), \<open>Frames\<close> (what input and output leave alone).
  \<^item> \<open>Interrupts\<close> (\<^verbatim>\<open>interrupts.c\<close>, \<^verbatim>\<open>sys_call_asm_linkage.S\<close>), \<open>Kernel\<close> (all entries as one step relation),
    \<open>Boot\<close>, \<open>BootFacts\<close> (\<^verbatim>\<open>kernel.c\<close>, \<^verbatim>\<open>multiboot.h\<close>).
  \<^item> \<open>UserLib\<close>, \<open>UserPrograms\<close>, \<open>UserTests\<close>, \<open>UserKernel\<close>, \<open>UserFacts\<close> (\<^verbatim>\<open>src/syscalls\<close>): the support
    library and each \<^verbatim>\<open>main\<close> over an interface of loads, stores and \<^verbatim>\<open>int 0x80\<close>; the kernel as its instance.
  \<^item> \<open>Fish\<close>, \<open>FishFacts\<close>, \<open>FishFrames\<close> (\<^verbatim>\<open>src/fish\<close>): the animation \<^verbatim>\<open>fish.c\<close> and its assembly module \<^verbatim>\<open>blink.S\<close>,
    a linked list of blinking characters, on the same interface.

  \<^bold>\<open>Interfaces.\<close> Locales state what one part relies on in another, each interpreted on the code's model:
  \<open>irq_controller\<close> (the mask registers as a set of lines), \<open>byte_memory\<close> (block copies over any memory;
  the kernel's address space), \<open>byte_source\<close> (reading in chunks; a file), \<open>display\<close> (one screen shown
  out of several; \<open>terminal_switch\<close>), \<open>time_slicing\<close> (running contexts and parked ones; a timer tick),
  \<open>text_frame\<close> (parts of the state no text operation touches, four instances) \<open>user_memory\<close> (stores
  through the page tables behave as a memory; every state of the invariant \<open>confined\<close>) and
  \<open>frame_player\<close>, which extends it by two open files (the system calls).

  \<^bold>\<open>What is shown.\<close>
  \<^item> Processes: a successful \<^verbatim>\<open>execute\<close> leaves the file's bytes at its load address and a control block
    ready to run; \<^verbatim>\<open>halt\<close> gives the parent back exactly; the frames of two processes are disjoint.
  \<^item> Scheduling: a tick saves and restores contexts without loss, every started terminal gets its turn,
    the search ends when a terminal is started; switching terminals keeps every screen.
  \<^item> Files: reading delivers the slice of the file from the position, chunk by chunk the whole file;
    names resolve to the first entry; descriptors are the lowest free ones and open/close is neutral;
    any sequence of file calls gives what an abstract file system gives.
  \<^item> Terminal and keyboard: the scan code tables with the modifiers against the rows of a US keyboard, the
    line as typed is what a read returns, text appears where the write position was, and where that goes;
    the conditions under which output hangs or faults.
  \<^item> The whole: gates, exceptions, booting into the shell, and over runs of whole steps which memory
    user code can touch: its own 4 MB, and the page mapped for the screen.
  \<^item> Programs: \<^verbatim>\<open>cat\<close> from its argument to the screen, the search of \<^verbatim>\<open>grep\<close>, the acceptance tests of
    \<^verbatim>\<open>syserr\<close>, numbers printed as the kernel prints them; the blinking characters of \<^verbatim>\<open>fish\<close> against a
    board of cells, and its two frames from the files to the screen.
  The specifications are written apart from the code they are about: the keyboard's rows, the table of
  gates, the operations by type of file, the turn of a cell on the board; lemmas relate the two.
  Where the code does not do what it means to, the theorem says what it does.

  \<^bold>\<open>Bounds and loops.\<close> Loops that may not end (the scheduler's search, the scroll loops of a write,
  the loops of the programs and the walk over the loader's memory map) are \<open>partial_function\<close>s into
  \<open>option\<close>, and a theorem about them says that a result exists, or that none does. A blocking read is
  driven by a finite list of what interrupts do between its polls (\<open>interference\<close>): a result of it is
  what happened, and a list that ends first leaves the call waiting, which is a value of its own.
  Strings in user memory are read up to \<open>2 ^ 32\<close> bytes, the whole address space. \<open>pingpong\<close>, which
  never ends, runs for a number of rounds that is an argument.

  \<^bold>\<open>Parameters.\<close> The devices' answers on their ports, what interrupts do during a wait, what a started
  program does, the contents of uninitialised locals, the addresses the linker chooses, the loader's
  boot information.

  \<^bold>\<open>Not modelled.\<close> The start-up assembly and the register saves of the interrupt wrappers (\<^verbatim>\<open>boot.S\<close>,
  \<^verbatim>\<open>x86_desc.S\<close>, \<^verbatim>\<open>intr_asm_linkage.S\<close>), which have no semantics beyond the instructions; the kernel's
  own test drivers (\<^verbatim>\<open>tests.c\<close>, not run); the assertion macros; the emulation of the system calls on a Linux host (\<^verbatim>\<open>ece391emulate.c\<close>).
  Every gate leaves interrupts on, so on the machine a timer tick can fall inside a system call or another
  handler: the step relation of \<open>Kernel\<close> takes each entry into the kernel as a whole, with interrupts
  between entries and where a call waits; of ticks inside a call only the one in the first \<^verbatim>\<open>execute\<close> is treated.
\<close>

end
